(* ===== verification/Prelude.thy ===== *)
theory Prelude
  imports Complex_Main
    "HOL-Library.AList"
    "HOL-Library.Char_ord"
    "HOL-Library.List_Lexorder"
    "HOL-Library.Multiset"
    "HOL-Library.Sublist"
    "HOL-Library.Word"
begin

text \<open>
  What every component theory shares: the Go error values and result type, the string and
  slice functions of Go's standard library that the sources use, Go maps as association
  lists, the stable sort behind \<^verbatim>\<open>sort.SliceStable\<close>, clock arithmetic, and the decimal
  integer printer and parser.  The generic lemmas are declared \<open>[simp]\<close> or put in one of the
  collections below, so that the component proofs are short.

  Conventions: a Go \<^verbatim>\<open>string\<close> or \<^verbatim>\<open>[]byte\<close> is \<open>string\<close> (a list of bytes); a Go map is an
  association list (\<open>map_of\<close> reads it, \<open>AList.update\<close> and \<open>AList.delete\<close> write it), which
  also gives \<^verbatim>\<open>range\<close> an order to iterate in; \<^verbatim>\<open>float64\<close> is the exact rational it denotes
  (rounding is not modelled, and no value in the sources is NaN or infinite);
  \<^verbatim>\<open>time.Time\<close> and \<^verbatim>\<open>time.Duration\<close> are nanosecond counts.
\<close>

named_theorems go_simps \<open>equations of the modelled standard library\<close>
named_theorems inv_intros \<open>an operation keeps a component's invariant\<close>

section \<open>Errors\<close>

text \<open>
  gRPC status codes used by the sources, and Go error values.  A sentinel is a constructor of
  its own, so that \<open>=\<close> is Go's \<^verbatim>\<open>err == ErrX\<close>.  \<open>Errf f as\<close> is \<^verbatim>\<open>fmt.Errorf\<close> or
  \<^verbatim>\<open>errors.New\<close> with its format and its arguments; \<open>Wrapf f as e\<close> is \<^verbatim>\<open>fmt.Errorf\<close> with a
  \<^verbatim>\<open>%w\<close> of \<open>e\<close>; \<open>Status c f as cause\<close> is \<^verbatim>\<open>status.Error\<close> or \<^verbatim>\<open>status.Errorf\<close>, \<open>cause\<close>
  being the error whose text it quotes (a status never unwraps to it).  Error texts are kept
  in this structured form and never rendered.
\<close>

datatype code =
    InvalidArgument | NotFound | AlreadyExists | PermissionDenied | FailedPrecondition
  | Unimplemented | Internal | Unavailable | Unauthenticated | ResourceExhausted

datatype go_error =
    ErrNotFound
  | ErrNoCapacity
  | ErrUnknownKit
  | ErrNack
  | ErrCoordNoCapacity
  | ErrNoEligibleNode
  | Errf string "string list"
  | Wrapf string "string list" go_error
  | Status code string "string list" "go_error option"

type_synonym 'a res = "go_error + 'a"

text \<open>\<^verbatim>\<open>errors.Is\<close>: the error itself or something it wraps.\<close>

fun errors_is :: "go_error \<Rightarrow> go_error \<Rightarrow> bool" where
  "errors_is (Wrapf f as e) t = (Wrapf f as e = t \<or> errors_is e t)"
| "errors_is e t = (e = t)"

lemma errors_is_refl [simp]: "errors_is e e"
  by (cases e) auto

section \<open>Strings\<close>

text \<open>\<^verbatim>\<open>strings.IndexByte\<close> and \<^verbatim>\<open>strings.LastIndexByte\<close>; \<open>None\<close> is -1.\<close>

fun index_byte :: "char \<Rightarrow> string \<Rightarrow> nat option" where
  "index_byte c [] = None"
| "index_byte c (x # xs) = (if x = c then Some 0 else map_option Suc (index_byte c xs))"

definition last_index_byte :: "char \<Rightarrow> string \<Rightarrow> nat option" where
  "last_index_byte c s = map_option (\<lambda>i. length s - Suc i) (index_byte c (rev s))"

text \<open>\<^verbatim>\<open>strings.Contains\<close>, \<^verbatim>\<open>HasPrefix\<close>, \<^verbatim>\<open>HasSuffix\<close> are \<open>sublist\<close>, \<open>prefix\<close>, \<open>suffix\<close>.\<close>

definition trim_prefix :: "string \<Rightarrow> string \<Rightarrow> string" where
  "trim_prefix s p = (if prefix p s then drop (length p) s else s)"

definition trim_suffix :: "string \<Rightarrow> string \<Rightarrow> string" where
  "trim_suffix s p = (if suffix p s then take (length s - length p) s else s)"

text \<open>\<^verbatim>\<open>strings.Split\<close> with a one-byte separator: never the empty list.\<close>

fun split_on :: "char \<Rightarrow> string \<Rightarrow> string list" where
  "split_on c [] = [[]]"
| "split_on c (x # xs) =
     (if x = c then [] # split_on c xs
      else (case split_on c xs of [] \<Rightarrow> [[x]] | w # ws \<Rightarrow> (x # w) # ws))"

text \<open>\<^verbatim>\<open>strings.Join\<close>.\<close>

fun join_with :: "string \<Rightarrow> string list \<Rightarrow> string" where
  "join_with sep [] = []"
| "join_with sep [w] = w"
| "join_with sep (w # ws) = w @ sep @ join_with sep ws"

text \<open>\<^verbatim>\<open>strings.Cut\<close> at a one-byte separator.\<close>

definition cut_byte :: "char \<Rightarrow> string \<Rightarrow> (string \<times> string) option" where
  "cut_byte c s = map_option (\<lambda>i. (take i s, drop (Suc i) s)) (index_byte c s)"

text \<open>\<^verbatim>\<open>strings.ToLower\<close> on ASCII; \<^verbatim>\<open>strings.TrimSpace\<close> on ASCII white space.\<close>

definition to_lower_char :: "char \<Rightarrow> char" where
  "to_lower_char c =
     (if 65 \<le> (of_char c :: nat) \<and> (of_char c :: nat) \<le> 90
      then char_of ((of_char c :: nat) + 32) else c)"

definition to_lower :: "string \<Rightarrow> string" where
  "to_lower s = map to_lower_char s"

definition is_space :: "char \<Rightarrow> bool" where
  "is_space c \<longleftrightarrow> (of_char c :: nat) \<in> {9, 10, 11, 12, 13, 32}"

definition trim_left_by :: "(char \<Rightarrow> bool) \<Rightarrow> string \<Rightarrow> string" where
  "trim_left_by p s = dropWhile p s"

definition trim_right_by :: "(char \<Rightarrow> bool) \<Rightarrow> string \<Rightarrow> string" where
  "trim_right_by p s = rev (dropWhile p (rev s))"

definition trim_space :: "string \<Rightarrow> string" where
  "trim_space s = trim_right_by is_space (trim_left_by is_space s)"

lemma index_byte_None: "index_byte c s = None \<longleftrightarrow> c \<notin> set s"
  by (induction s) auto

lemma index_byte_notin [simp]: "c \<notin> set s \<Longrightarrow> index_byte c s = None"
  by (simp add: index_byte_None)

lemma index_byte_Some_less: "index_byte c s = Some i \<Longrightarrow> i < length s"
  by (induction s arbitrary: i) (auto split: if_splits)

lemma index_byte_append_notin:
  "c \<notin> set xs \<Longrightarrow> index_byte c (xs @ c # ys) = Some (length xs)"
  by (induction xs) auto

lemma index_byte_SomeD:
  "index_byte c s = Some i \<Longrightarrow> s = take i s @ c # drop (Suc i) s \<and> c \<notin> set (take i s)"
  by (induction s arbitrary: i) (auto split: if_splits)

lemma last_index_byte_None: "last_index_byte c s = None \<longleftrightarrow> c \<notin> set s"
  by (simp add: last_index_byte_def index_byte_None)

lemma last_index_byte_notin [simp]: "c \<notin> set s \<Longrightarrow> last_index_byte c s = None"
  by (simp add: last_index_byte_None)

lemma last_index_byte_SomeD:
  assumes "last_index_byte c s = Some i"
  shows "s = take i s @ c # drop (Suc i) s \<and> c \<notin> set (drop (Suc i) s)"
proof -
  obtain j where j: "index_byte c (rev s) = Some j" and i: "i = length s - Suc j"
    using assms by (auto simp: last_index_byte_def)
  have jl: "j < length s" using index_byte_Some_less[OF j] by simp
  have split: "rev s = take j (rev s) @ c # drop (Suc j) (rev s)" and nin: "c \<notin> set (take j (rev s))"
    using index_byte_SomeD[OF j] by auto
  have "s = rev (drop (Suc j) (rev s)) @ c # rev (take j (rev s))"
    using arg_cong[OF split, of rev] by simp
  moreover have "rev (drop (Suc j) (rev s)) = take i s"
    using i jl by (simp add: rev_drop)
  moreover have "rev (take j (rev s)) = drop (Suc i) s"
    using i jl by (simp add: rev_take Suc_diff_Suc)
  moreover have "c \<notin> set (rev (take j (rev s)))" using nin by simp
  ultimately show ?thesis by simp
qed

lemma last_index_byte_append:
  assumes "c \<notin> set ys"
  shows "last_index_byte c (xs @ c # ys) = Some (length xs)"
  using assms index_byte_append_notin[of c "rev ys" "rev xs"]
  by (simp add: last_index_byte_def)

lemma trim_prefix_append [simp]: "trim_prefix (p @ s) p = s"
  by (simp add: trim_prefix_def)

lemma trim_suffix_append [simp]: "trim_suffix (s @ p) p = s"
  by (simp add: trim_suffix_def suffix_def)

lemma split_on_not_Nil [simp]: "split_on c s \<noteq> []"
  by (induction s) (auto split: list.splits)

lemma split_on_notin [go_simps]: "c \<notin> set s \<Longrightarrow> split_on c s = [s]"
  by (induction s) auto

lemma split_on_append [go_simps]:
  "c \<notin> set xs \<Longrightarrow> split_on c (xs @ c # ys) = xs # split_on c ys"
  by (induction xs) auto

lemma join_with_Cons [go_simps]: "ws \<noteq> [] \<Longrightarrow> join_with sep (w # ws) = w @ sep @ join_with sep ws"
  by (cases ws) auto

lemma join_split_on: "join_with [c] (split_on c s) = s"
proof (induction s)
  case Nil
  then show ?case by simp
next
  case (Cons x xs)
  obtain w ws where w: "split_on c xs = w # ws"
    by (cases "split_on c xs") auto
  show ?case
  proof (cases "x = c")
    case True
    with Cons show ?thesis by (simp add: join_with_Cons)
  next
    case False
    with Cons w show ?thesis by (cases ws) auto
  qed
qed

lemma split_on_parts_notin: "w \<in> set (split_on c s) \<Longrightarrow> c \<notin> set w"
proof (induction s arbitrary: w)
  case Nil
  then show ?case by simp
next
  case (Cons x xs)
  then show ?case by (auto split: if_splits list.splits)
qed

lemma cut_byte_SomeD:
  "cut_byte c s = Some (a, b) \<Longrightarrow> s = a @ c # b \<and> c \<notin> set a"
  by (auto simp: cut_byte_def dest: index_byte_SomeD)

section \<open>Go maps as association lists\<close>

type_synonym ('k, 'v) gomap = "('k \<times> 'v) list"

text \<open>A set written as \<^verbatim>\<open>map[string]bool\<close>: an absent key reads as false.\<close>

definition in_set_map :: "('k, bool) gomap \<Rightarrow> 'k \<Rightarrow> bool" where
  "in_set_map m k \<longleftrightarrow> map_of m k = Some True"

text \<open>\<^verbatim>\<open>m[k]\<close> on a \<^verbatim>\<open>map[string]string\<close>: an absent key reads as the empty string.\<close>

definition label_of :: "('k, string) gomap \<Rightarrow> 'k \<Rightarrow> string" where
  "label_of m k = (case map_of m k of None \<Rightarrow> '''' | Some v \<Rightarrow> v)"

lemma map_of_AList_update [simp]: "map_of (AList.update k v m) k' = (if k' = k then Some v else map_of m k')"
  by (simp add: update_conv')

lemma map_of_AList_delete [simp]: "map_of (AList.delete k m) k' = (if k' = k then None else map_of m k')"
  by (simp add: delete_conv')

lemma map_fst_update_new [go_simps]:
  "k \<notin> fst ` set m \<Longrightarrow> AList.update k v m = m @ [(k, v)]"
  by (induction m) auto

lemma set_delete_conv: "set (AList.delete k m) = {p \<in> set m. fst p \<noteq> k}"
  by (auto simp: AList.delete_eq)

lemma delete_notin [go_simps]: "k \<notin> fst ` set m \<Longrightarrow> AList.delete k m = m"
  by (induction m) (auto simp: AList.delete_eq)

lemma map_of_SomeD_fst: "map_of m k = Some v \<Longrightarrow> k \<in> fst ` set m"
  by (force dest: map_of_SomeD)

section \<open>Stable sorting\<close>

text \<open>
  \<^verbatim>\<open>sort.SliceStable\<close> with a comparison function.  For a strict weak order the stable sort of
  a slice is unique (\<open>sort_by_unique\<close> below), so insertion sort computes what Go's
  block-insertion and merge implementation computes.
\<close>

fun insort_by :: "('a \<Rightarrow> 'a \<Rightarrow> bool) \<Rightarrow> 'a \<Rightarrow> 'a list \<Rightarrow> 'a list" where
  "insort_by lt x [] = [x]"
| "insort_by lt x (y # ys) = (if lt y x then y # insort_by lt x ys else x # y # ys)"

definition sort_by :: "('a \<Rightarrow> 'a \<Rightarrow> bool) \<Rightarrow> 'a list \<Rightarrow> 'a list" where
  "sort_by lt xs = foldr (insort_by lt) xs []"

lemma sort_by_Nil [simp]: "sort_by lt [] = []"
  by (simp add: sort_by_def)

lemma sort_by_Cons [simp]: "sort_by lt (x # xs) = insort_by lt x (sort_by lt xs)"
  by (simp add: sort_by_def)

lemma set_insort_by [simp]: "set (insort_by lt x xs) = insert x (set xs)"
  by (induction xs) auto

lemma set_sort_by [simp]: "set (sort_by lt xs) = set xs"
  by (induction xs) auto

lemma length_insort_by [simp]: "length (insort_by lt x xs) = Suc (length xs)"
  by (induction xs) auto

lemma length_sort_by [simp]: "length (sort_by lt xs) = length xs"
  by (induction xs) auto

lemma count_list_insort_by [simp]:
  "count_list (insort_by lt x xs) y = count_list (x # xs) y"
  by (induction xs) auto

lemma count_list_sort_by [simp]: "count_list (sort_by lt xs) y = count_list xs y"
  by (induction xs) auto

lemma mset_insort_by [simp]: "mset (insort_by lt x xs) = add_mset x (mset xs)"
  by (induction xs) auto

lemma mset_sort_by [simp]: "mset (sort_by lt xs) = mset xs"
  by (induction xs) auto

lemma sort_by_eq_Nil [simp]: "sort_by lt xs = [] \<longleftrightarrow> xs = []"
  by (metis length_0_conv length_sort_by)

lemma filter_insort_by_True: "P x \<Longrightarrow> (\<And>y. y \<in> set xs \<Longrightarrow> P y \<Longrightarrow> \<not> lt y x) \<Longrightarrow>
    filter P (insort_by lt x xs) = x # filter P xs"
  by (induction xs) auto

lemma filter_insort_by_False: "\<not> P x \<Longrightarrow> filter P (insort_by lt x xs) = filter P xs"
  by (induction xs) auto

text \<open>A strict weak order: irreflexive, transitive, and incomparability is transitive too.\<close>

locale weak_order =
  fixes lt :: "'a \<Rightarrow> 'a \<Rightarrow> bool"
  assumes less_irrefl: "\<not> lt x x"
    and less_trans: "lt x y \<Longrightarrow> lt y z \<Longrightarrow> lt x z"
    and less_neg_trans: "\<not> lt x y \<Longrightarrow> \<not> lt y z \<Longrightarrow> \<not> lt x z"
begin

lemma less_asym: "lt x y \<Longrightarrow> \<not> lt y x"
  using less_irrefl less_trans by blast

lemma sorted_insort_by:
  "sorted_wrt (\<lambda>a b. \<not> lt b a) xs \<Longrightarrow> sorted_wrt (\<lambda>a b. \<not> lt b a) (insort_by lt x xs)"
proof (induction xs)
  case Nil
  then show ?case by simp
next
  case (Cons y ys)
  show ?case
  proof (cases "lt y x")
    case True
    then have "\<not> lt x y" by (rule less_asym)
    with Cons True show ?thesis by auto
  next
    case False
    have "\<not> lt z x" if "z \<in> set ys" for z
    proof -
      from Cons.prems that have "\<not> lt z y" by auto
      with False show ?thesis using less_neg_trans by blast
    qed
    with Cons.prems False show ?thesis by auto
  qed
qed

lemma sorted_sort_by: "sorted_wrt (\<lambda>a b. \<not> lt b a) (sort_by lt xs)"
  by (induction xs) (auto intro: sorted_insort_by)

text \<open>Stability: the elements equivalent to any given one keep their order.\<close>

lemma stable_sort_by:
  "filter (\<lambda>y. \<not> lt x y \<and> \<not> lt y x) (sort_by lt xs) = filter (\<lambda>y. \<not> lt x y \<and> \<not> lt y x) xs"
proof (induction xs)
  case Nil
  then show ?case by simp
next
  case (Cons a as)
  let ?P = "\<lambda>y. \<not> lt x y \<and> \<not> lt y x"
  show ?case
  proof (cases "?P a")
    case True
    then have "\<not> lt y a" if "?P y" for y
      using that less_neg_trans by blast
    then have "filter ?P (insort_by lt a (sort_by lt as)) = a # filter ?P (sort_by lt as)"
      using True by (intro filter_insort_by_True) auto
    with Cons True show ?thesis by simp
  next
    case False
    have "filter ?P (insort_by lt a (sort_by lt as)) = filter ?P (sort_by lt as)"
      by (rule filter_insort_by_False) (use False in simp)
    with Cons False show ?thesis by simp
  qed
qed

text \<open>The sorted, stable rearrangement is unique.\<close>

lemma sort_by_unique_aux:
  assumes "sorted_wrt (\<lambda>a b. \<not> lt b a) ys" and "sorted_wrt (\<lambda>a b. \<not> lt b a) zs"
    and "\<And>x. filter (\<lambda>y. \<not> lt x y \<and> \<not> lt y x) ys = filter (\<lambda>y. \<not> lt x y \<and> \<not> lt y x) zs"
  shows "ys = zs"
  using assms
proof (induction ys arbitrary: zs)
  case Nil
  show ?case
  proof (cases zs)
    case (Cons z zs')
    with Nil.prems(3)[of z] less_irrefl show ?thesis by simp
  qed simp
next
  case (Cons y ys)
  let ?E = "\<lambda>x y. \<not> lt x y \<and> \<not> lt y x"
  have "filter (?E y) zs \<noteq> []"
  proof
    assume "filter (?E y) zs = []"
    with Cons.prems(3)[of y] less_irrefl show False by simp
  qed
  then obtain z zs' where zs: "zs = z # zs'" by (cases zs) auto
  have "z \<in> set (y # ys)"
  proof -
    have "z \<in> set (filter (?E z) (y # ys))"
      using Cons.prems(3)[of z] zs less_irrefl by simp
    then show ?thesis by (simp only: set_filter) blast
  qed
  then have zy: "\<not> lt z y" using Cons.prems(1) less_irrefl by auto
  have "y \<in> set zs"
  proof -
    have "y \<in> set (filter (?E y) zs)"
      using Cons.prems(3)[of y, symmetric] less_irrefl by simp
    then show ?thesis by simp
  qed
  then have yz: "\<not> lt y z" using Cons.prems(2) zs less_irrefl by auto
  have "z = y" using Cons.prems(3)[of y] zs zy yz less_irrefl by simp
  have "filter (?E x) ys = filter (?E x) zs'" for x
    using Cons.prems(3)[of x] zs \<open>z = y\<close> by (simp split: if_splits)
  then have "ys = zs'" using Cons.IH[of zs'] Cons.prems(1,2) zs by simp
  with zs \<open>z = y\<close> show ?case by simp
qed

lemma sort_by_unique:
  assumes "sorted_wrt (\<lambda>a b. \<not> lt b a) ys"
    and "\<And>x. filter (\<lambda>y. \<not> lt x y \<and> \<not> lt y x) ys = filter (\<lambda>y. \<not> lt x y \<and> \<not> lt y x) xs"
  shows "ys = sort_by lt xs"
  by (rule sort_by_unique_aux) (use assms sorted_sort_by stable_sort_by in auto)

text \<open>The first element of the result is a best one.\<close>

lemma hd_sort_by_least:
  assumes "x \<in> set xs"
  shows "\<not> lt x (hd (sort_by lt xs))"
proof -
  have "sort_by lt xs \<noteq> []" using assms by (metis empty_iff list.set(1) set_sort_by)
  then obtain y ys where y: "sort_by lt xs = y # ys" by (cases "sort_by lt xs") auto
  have "x \<in> set (y # ys)" using assms y by (metis set_sort_by)
  then show ?thesis using sorted_sort_by[of xs] y less_irrefl by auto
qed

end

section \<open>Clock arithmetic and decimal integers\<close>

type_synonym gotime = int

text \<open>\<^verbatim>\<open>t.Sub(u)\<close> saturates at the bounds of an \<^verbatim>\<open>int64\<close> nanosecond count.\<close>

definition max_int64 :: int where "max_int64 = 2 ^ 63 - 1"

definition min_int64 :: int where "min_int64 = - (2 ^ 63)"

definition time_sub :: "gotime \<Rightarrow> gotime \<Rightarrow> int" where
  "time_sub t u = max min_int64 (min max_int64 (t - u))"

definition second :: int where "second = 1000000000"

definition minute :: int where "minute = 60 * second"

text \<open>\<^verbatim>\<open>strconv.FormatInt(i, 10)\<close> and \<^verbatim>\<open>strconv.ParseInt(s, 10, 64)\<close>.\<close>

definition digit_char :: "nat \<Rightarrow> char" where
  "digit_char d = char_of (48 + d)"

fun dec_digits :: "nat \<Rightarrow> string" where
  "dec_digits n = (if n < 10 then [digit_char n] else dec_digits (n div 10) @ [digit_char (n mod 10)])"

declare dec_digits.simps [simp del]

definition format_int :: "int \<Rightarrow> string" where
  "format_int i = (if i < 0 then CHR ''-'' # dec_digits (nat (- i)) else dec_digits (nat i))"

definition digit_val :: "char \<Rightarrow> nat option" where
  "digit_val c =
     (let v = (of_char c :: nat) in if 48 \<le> v \<and> v \<le> 57 then Some (v - 48) else None)"

fun parse_digits :: "nat \<Rightarrow> string \<Rightarrow> nat option" where
  "parse_digits acc [] = Some acc"
| "parse_digits acc (c # cs) =
     (case digit_val c of None \<Rightarrow> None | Some d \<Rightarrow> parse_digits (10 * acc + d) cs)"

definition parse_uint :: "string \<Rightarrow> nat option" where
  "parse_uint s = (if s = [] then None else parse_digits 0 s)"

definition parse_int64 :: "string \<Rightarrow> int option" where
  "parse_int64 s =
     (let v = (case s of
                 [] \<Rightarrow> None
               | c # cs \<Rightarrow>
                   if c = CHR ''-'' then map_option (\<lambda>n. - int n) (parse_uint cs)
                   else if c = CHR ''+'' then map_option int (parse_uint cs)
                   else map_option int (parse_uint s))
      in case v of None \<Rightarrow> None
         | Some i \<Rightarrow> if min_int64 \<le> i \<and> i \<le> max_int64 then Some i else None)"

lemma of_char_digit [simp]: "d < 10 \<Longrightarrow> (of_char (digit_char d) :: nat) = 48 + d"
  by (simp add: digit_char_def)

lemma digit_val_char [simp]: "d < 10 \<Longrightarrow> digit_val (digit_char d) = Some d"
  by (simp add: digit_val_def)

lemma parse_digits_append:
  "parse_digits acc (xs @ [c]) =
     (case parse_digits acc xs of None \<Rightarrow> None | Some v \<Rightarrow> parse_digits v [c])"
  by (induction xs arbitrary: acc) (auto split: option.splits)

lemma dec_digits_not_Nil [simp]: "dec_digits n \<noteq> []"
  by (subst dec_digits.simps) simp

lemma parse_dec_digits: "parse_digits 0 (dec_digits n) = Some n"
proof (induction n rule: dec_digits.induct)
  case (1 n)
  show ?case
  proof (cases "n < 10")
    case True
    then show ?thesis by (simp add: dec_digits.simps[of n])
  next
    case False
    with 1 show ?thesis by (simp add: dec_digits.simps[of n] parse_digits_append)
  qed
qed

lemma dec_digits_chars: "c \<in> set (dec_digits n) \<Longrightarrow> \<exists>d < 10. c = digit_char d"
proof (induction n rule: dec_digits.induct)
  case (1 n)
  show ?case
  proof (cases "n < 10")
    case True
    with 1 show ?thesis by (auto simp: dec_digits.simps[of n])
  next
    case False
    have "n mod 10 < 10" by simp
    with 1 False show ?thesis by (auto simp: dec_digits.simps[of n] intro: exI[of _ "n mod 10"])
  qed
qed

lemma digit_char_plain:
  "d < 10 \<Longrightarrow> digit_char d \<notin> {CHR ''-'', CHR ''+'', CHR ''|'', CHR ''.''}"
  using of_char_digit[of d] by (auto simp del: of_char_digit)

lemma dec_digits_plain:
  "CHR ''-'' \<notin> set (dec_digits n)" "CHR ''+'' \<notin> set (dec_digits n)"
  "CHR ''|'' \<notin> set (dec_digits n)" "CHR ''.'' \<notin> set (dec_digits n)"
  using dec_digits_chars digit_char_plain by fastforce+

lemma format_int_plain [simp]:
  "CHR ''|'' \<notin> set (format_int i)" "CHR ''.'' \<notin> set (format_int i)"
  by (auto simp: format_int_def dec_digits_plain)

lemma parse_format_int [simp]:
  assumes "min_int64 \<le> i" "i \<le> max_int64"
  shows "parse_int64 (format_int i) = Some i"
proof (cases "i < 0")
  case True
  with assms show ?thesis
    by (simp add: parse_int64_def format_int_def parse_uint_def parse_dec_digits)
next
  case False
  obtain c cs where c: "dec_digits (nat i) = c # cs" by (cases "dec_digits (nat i)") auto
  with dec_digits_plain[of "nat i"] have "c \<noteq> CHR ''-''" "c \<noteq> CHR ''+''" by auto
  moreover have "parse_uint (c # cs) = Some (nat i)"
    using parse_dec_digits[of "nat i"] c by (simp add: parse_uint_def)
  ultimately show ?thesis using False assms c
    by (simp add: parse_int64_def format_int_def)
qed

lemma dec_digits_inject [simp]: "dec_digits m = dec_digits n \<longleftrightarrow> m = n"
  using parse_dec_digits by (metis option.inject)

lemma unat_Suc_less: "(v :: 64 word) < w \<Longrightarrow> unat (v + 1) = Suc (unat v)"
proof -
  assume "v < w"
  then have "v \<noteq> - 1" by (metis word_order.extremum_strict)
  then have "1 + v \<noteq> 0" by (metis add.commute add_eq_0_iff)
  then show ?thesis using unatSuc[of v] by (simp add: add.commute)
qed

end
