(* ===== verification/ImageRef.thy ===== *)
theory ImageRef
  imports Prelude
begin

text \<open>
  Image references (\<^verbatim>\<open>internal/imageref/imageref.go\<close>): which template references name a
  registry, the canonical form the daemon lists, and the repository/tag split.  The lemmas
  show that canonicalisation is idempotent, always yields a pullable and tagged reference,
  and that splitting loses nothing.
\<close>

definition Pullable :: "string \<Rightarrow> bool" where
  "Pullable ref =
     (case index_byte (CHR ''/'') ref of
        None \<Rightarrow> False
      | Some i \<Rightarrow>
          (let host = take i ref
           in host = ''localhost'' \<or> CHR ''.'' \<in> set host \<or> CHR '':'' \<in> set host))"

definition last_segment :: "string \<Rightarrow> string" where
  "last_segment ref =
     (case last_index_byte (CHR ''/'') ref of None \<Rightarrow> ref | Some i \<Rightarrow> drop (Suc i) ref)"

definition Canonical :: "string \<Rightarrow> string" where
  "Canonical ref =
     (let out = (if \<not> Pullable ref
                 then (if CHR ''/'' \<in> set ref then ''docker.io/'' @ ref
                       else ''docker.io/library/'' @ ref)
                 else ref);
          last = last_segment out
      in if CHR '':'' \<notin> set last then out @ '':latest'' else out)"

definition SplitRepoTag :: "string \<Rightarrow> string \<times> string" where
  "SplitRepoTag ref =
     (let (pre, last) = (case last_index_byte (CHR ''/'') ref of
                           None \<Rightarrow> ([], ref)
                         | Some i \<Rightarrow> (take (Suc i) ref, drop (Suc i) ref))
      in if CHR ''@'' \<in> set last then (ref, [])
         else (case last_index_byte (CHR '':'') last of
                 Some i \<Rightarrow> (pre @ take i last, drop (Suc i) last)
               | None \<Rightarrow> (ref, [])))"

section \<open>The last path segment\<close>

lemma last_segment_append: "CHR ''/'' \<notin> set ys \<Longrightarrow> last_segment (xs @ CHR ''/'' # ys) = ys"
  by (simp add: last_segment_def last_index_byte_append)

lemma last_segment_plain: "CHR ''/'' \<notin> set s \<Longrightarrow> last_segment s = s"
  by (simp add: last_segment_def)

lemma last_segment_cases:
  obtains "CHR ''/'' \<notin> set s" "last_segment s = s"
  | xs where "s = xs @ CHR ''/'' # last_segment s" "CHR ''/'' \<notin> set (last_segment s)"
proof (cases "CHR ''/'' \<in> set s")
  case True
  then obtain xs ys where "s = xs @ CHR ''/'' # ys" "CHR ''/'' \<notin> set ys"
    by (metis split_list_last)
  then show ?thesis using that(2) last_segment_append by metis
next
  case False
  then show ?thesis using that(1) last_segment_plain by blast
qed

lemma last_segment_snoc_tag:
  "CHR ''/'' \<notin> set t \<Longrightarrow> last_segment (s @ t) = last_segment s @ t"
proof (cases rule: last_segment_cases[of s])
  case 1
  assume "CHR ''/'' \<notin> set t"
  with 1 show ?thesis by (simp add: last_segment_plain)
next
  case (2 xs)
  assume "CHR ''/'' \<notin> set t"
  with 2 have "last_segment (xs @ CHR ''/'' # (last_segment s @ t)) = last_segment s @ t"
    by (intro last_segment_append) simp
  with 2(1) show ?thesis by (metis append.assoc append_Cons)
qed

section \<open>Pullable and Canonical\<close>

lemma Pullable_append: "Pullable (h @ CHR ''/'' # r) \<longleftrightarrow>
    h = ''localhost'' \<or> CHR ''.'' \<in> set h \<or> CHR '':'' \<in> set h"
  if "CHR ''/'' \<notin> set h"
  using that by (simp add: Pullable_def index_byte_append_notin)

lemma Pullable_suffix: "Pullable s \<Longrightarrow> Pullable (s @ t)"
proof -
  assume p: "Pullable s"
  then obtain i where i: "index_byte (CHR ''/'') s = Some i"
    by (auto simp: Pullable_def split: option.splits)
  let ?h = "take i s"
  have s: "s = ?h @ CHR ''/'' # drop (Suc i) s" and n: "CHR ''/'' \<notin> set ?h"
    using index_byte_SomeD[OF i] by auto
  have "Pullable (?h @ CHR ''/'' # (drop (Suc i) s @ t))"
    using p Pullable_append[OF n, of "drop (Suc i) s"] s Pullable_append[OF n] by metis
  then show ?thesis using s by (metis append.assoc append_Cons)
qed

lemma Pullable_docker: "Pullable (''docker.io/'' @ s)"
  using Pullable_append[of "''docker.io''" s] by simp

lemma Pullable_Canonical [simp]: "Pullable (Canonical ref)"
proof -
  let ?out = "if \<not> Pullable ref
                 then (if CHR ''/'' \<in> set ref then ''docker.io/'' @ ref
                       else ''docker.io/library/'' @ ref)
                 else ref"
  have "Pullable ?out"
    using Pullable_docker[of ref] Pullable_docker[of "''library/'' @ ref"] by simp
  then show ?thesis
    using Pullable_suffix by (auto simp: Canonical_def Let_def)
qed

lemma Canonical_tagged [simp]: "CHR '':'' \<in> set (last_segment (Canonical ref))"
  using last_segment_snoc_tag[of "'':latest''"] by (auto simp: Canonical_def Let_def)

lemma Canonical_fixed: "Pullable r \<Longrightarrow> CHR '':'' \<in> set (last_segment r) \<Longrightarrow> Canonical r = r"
  by (simp add: Canonical_def Let_def)

section \<open>The repository and tag split\<close>

lemma SplitRepoTag_tag:
  assumes "CHR ''@'' \<notin> set (last_segment ref)" "CHR '':'' \<in> set (last_segment ref)"
  shows "ref = fst (SplitRepoTag ref) @ CHR '':'' # snd (SplitRepoTag ref)
    \<and> CHR ''/'' \<notin> set (snd (SplitRepoTag ref)) \<and> CHR '':'' \<notin> set (snd (SplitRepoTag ref))"
proof -
  obtain i where i: "last_index_byte (CHR '':'') (last_segment ref) = Some i"
    using assms(2) by (metis last_index_byte_None not_None_eq)
  let ?l = "last_segment ref"
  have l: "?l = take i ?l @ CHR '':'' # drop (Suc i) ?l" and nc: "CHR '':'' \<notin> set (drop (Suc i) ?l)"
    using last_index_byte_SomeD[OF i] by auto
  show ?thesis
  proof (cases "last_index_byte (CHR ''/'') ref")
    case None
    then have seg: "?l = ref" by (simp add: last_segment_def)
    with None assms i have "SplitRepoTag ref = (take i ref, drop (Suc i) ref)"
      by (simp add: SplitRepoTag_def)
    moreover have "CHR ''/'' \<notin> set (drop (Suc i) ref)"
      using None by (metis in_set_dropD last_index_byte_None)
    ultimately show ?thesis using l nc seg by simp
  next
    case (Some k)
    then have seg: "?l = drop (Suc k) ref" by (simp add: last_segment_def)
    with Some assms i have eq: "SplitRepoTag ref = (take (Suc k) ref @ take i ?l, drop (Suc i) ?l)"
      by (simp add: SplitRepoTag_def)
    have "CHR ''/'' \<notin> set ?l" using last_index_byte_SomeD[OF Some] seg by simp
    then have "CHR ''/'' \<notin> set (drop (Suc i) ?l)" by (metis in_set_dropD)
    moreover have "ref = take (Suc k) ref @ ?l" using seg by simp
    ultimately show ?thesis using eq l nc by (metis append.assoc fst_conv snd_conv)
  qed
qed

lemma SplitRepoTag_untagged:
  assumes "CHR ''@'' \<in> set (last_segment ref) \<or> CHR '':'' \<notin> set (last_segment ref)"
  shows "SplitRepoTag ref = (ref, [])"
  using assms
  by (cases "last_index_byte (CHR ''/'') ref") (auto simp: SplitRepoTag_def last_segment_def)

section \<open>Properties\<close>

text \<open>
  Canonicalisation is idempotent and its result names a registry and a tag (or digest).
\<close>

theorem Canonical_normal_form:
  "Canonical (Canonical ref) = Canonical ref \<and> Pullable (Canonical ref)
    \<and> CHR '':'' \<in> set (last_segment (Canonical ref))"
  by (simp add: Canonical_fixed)

text \<open>
  Splitting a canonical reference that carries no digest loses nothing: the parts, joined
  with a colon, are the reference, and the tag holds neither a slash nor a colon.
\<close>

theorem SplitRepoTag_roundtrip:
  assumes "CHR ''@'' \<notin> set (last_segment (Canonical ref))"
  shows "fst (SplitRepoTag (Canonical ref)) @ CHR '':'' # snd (SplitRepoTag (Canonical ref)) = Canonical ref
    \<and> CHR ''/'' \<notin> set (snd (SplitRepoTag (Canonical ref)))
    \<and> CHR '':'' \<notin> set (snd (SplitRepoTag (Canonical ref)))"
  using SplitRepoTag_tag[OF assms Canonical_tagged] by simp

theorem SplitRepoTag_roundtrip_witness:
  "fst (SplitRepoTag (Canonical ''me/app'')) @ CHR '':'' # snd (SplitRepoTag (Canonical ''me/app''))
     = Canonical ''me/app''"
proof -
  have "CHR ''@'' \<notin> set (last_segment (Canonical ''me/app''))" by code_simp
  then show ?thesis using SplitRepoTag_roundtrip by blast
qed

end
