(* ===== verification/Scheduler.thy ===== *)
theory Scheduler
  imports ImageRef "HOL-Library.Product_Lexorder"
begin

text \<open>
  Constraint-based placement (\<^verbatim>\<open>internal/scheduler/scheduler.go\<close>) and the coordinator's retry
  loop (\<^verbatim>\<open>internal/coordinator/coordinator.go\<close>).  SHA-256 is the parameter \<open>h\<close>, the first
  eight bytes of the digest read as a big-endian word: every theorem holds for every hash.
  The comparison function is shown to be a strict weak order by mapping a candidate to its
  lexicographic sort key, so \<open>Schedule\<close> inherits the facts of the locale \<open>weak_order\<close>.
\<close>

record Candidate =
  NodeID :: string
  Workspaces :: "(string, bool) gomap"
  Templates :: "(string, bool) gomap"
  Kits :: "(string, bool) gomap"
  Capabilities :: "(string, bool) gomap"
  Labels :: "(string, string) gomap"
  LimitCPU :: rat
  LimitMem :: rat
  LimitDisk :: rat
  AllocCPU :: rat
  AllocMem :: rat
  AllocDisk :: rat
  Sandboxes :: int
  ActualCPU :: rat
  ActualMem :: rat
  Cordoned :: bool

record Request =
  rq_CPU :: rat
  rq_Mem :: rat
  rq_Disk :: rat
  rq_Workspaces :: "string list"
  rq_Template :: string
  rq_Kits :: "string list"
  rq_Capabilities :: "string list"
  rq_Affinity :: "(string, string) gomap"
  rq_AntiAffinity :: "(string, string) gomap"
  rq_Strategy :: string
  rq_RequestID :: string
  rq_Local :: string

definition holds :: "Candidate \<Rightarrow> string \<Rightarrow> bool" where
  "holds c ref \<longleftrightarrow> in_set_map (Templates c) ref \<or> in_set_map (Templates c) (Canonical ref)"

definition capFits :: "rat \<Rightarrow> rat \<Rightarrow> bool" where
  "capFits used limit \<longleftrightarrow> limit = 0 \<or> used \<le> limit"

definition fits :: "Request \<Rightarrow> Candidate \<Rightarrow> bool" where
  "fits req c =
     (if Cordoned c then False
      else if \<not> list_all (in_set_map (Workspaces c)) (rq_Workspaces req) then False
      else if rq_Template req \<noteq> '''' \<and> \<not> Pullable (rq_Template req) \<and> \<not> holds c (rq_Template req)
      then False
      else if \<not> list_all (in_set_map (Kits c)) (rq_Kits req) then False
      else if \<not> list_all (in_set_map (Capabilities c)) (rq_Capabilities req) then False
      else if \<not> list_all (\<lambda>(k, v). label_of (Labels c) k = v) (rq_Affinity req) then False
      else if \<not> list_all (\<lambda>(k, v). label_of (Labels c) k \<noteq> v) (rq_AntiAffinity req) then False
      else capFits (AllocCPU c + rq_CPU req) (LimitCPU c)
         \<and> capFits (AllocMem c + rq_Mem req) (LimitMem c)
         \<and> capFits (AllocDisk c + rq_Disk req) (LimitDisk c))"

definition max3 :: "rat \<Rightarrow> rat \<Rightarrow> rat \<Rightarrow> rat" where
  "max3 a b c = (let m = a; m = (if b > m then b else m); m = (if c > m then c else m) in m)"

definition ratio :: "rat \<Rightarrow> rat \<Rightarrow> rat" where
  "ratio a b = (if b = 0 then 1 else a / b)"

definition score :: "Request \<Rightarrow> Candidate \<Rightarrow> rat" where
  "score req c =
     (if rq_Strategy req = ''spread'' then of_int (Sandboxes c)
      else if rq_Strategy req = ''least-actual-load'' then max (ActualCPU c) (ActualMem c)
      else max3 (ratio (AllocCPU c + rq_CPU req) (LimitCPU c))
                (ratio (AllocMem c + rq_Mem req) (LimitMem c))
                (ratio (AllocDisk c + rq_Disk req) (LimitDisk c)))"

definition tie :: "(string \<Rightarrow> 64 word) \<Rightarrow> string \<Rightarrow> string \<Rightarrow> 64 word" where
  "tie h requestID nodeID = h (requestID @ char_of (0 :: nat) # nodeID)"

text \<open>The comparison closure \<open>Schedule\<close> passes to \<^verbatim>\<open>sort.SliceStable\<close>.\<close>

definition sched_less :: "(string \<Rightarrow> 64 word) \<Rightarrow> Request \<Rightarrow> Candidate \<Rightarrow> Candidate \<Rightarrow> bool" where
  "sched_less h req a b =
     (let sa = score req a; sb = score req b in
      if sa \<noteq> sb then (if rq_Strategy req = ''bin-pack'' then sa > sb else sa < sb)
      else if rq_Template req \<noteq> '''' \<and> holds a (rq_Template req) \<noteq> holds b (rq_Template req)
      then holds a (rq_Template req)
      else if (NodeID a = rq_Local req) \<noteq> (NodeID b = rq_Local req) then NodeID a = rq_Local req
      else tie h (rq_RequestID req) (NodeID a) < tie h (rq_RequestID req) (NodeID b))"

definition Schedule ::
  "(string \<Rightarrow> 64 word) \<Rightarrow> Request \<Rightarrow> Candidate list \<Rightarrow> string list res" where
  "Schedule h req cands =
     (let ok = filter (fits req) cands in
      if ok = [] then Inl ErrNoEligibleNode
      else Inr (map NodeID (sort_by (sched_less h req) ok)))"

section \<open>The coordinator\<close>

text \<open>
  \<^verbatim>\<open>Coordinator.Provision\<close> over the world \<open>'w\<close> that an attempt acts on: the attempt is
  supplied per request and returns the new sandbox id or an error.
\<close>

fun try_candidates ::
  "('w \<Rightarrow> string \<Rightarrow> string res \<times> 'w) \<Rightarrow> string list \<Rightarrow> 'w \<Rightarrow> string res \<times> 'w" where
  "try_candidates attempt [] w = (Inl ErrCoordNoCapacity, w)"
| "try_candidates attempt (n # ns) w =
     (case attempt w n of
        (Inr sb, w') \<Rightarrow> (Inr sb, w')
      | (Inl e, w') \<Rightarrow> if errors_is e ErrNack then try_candidates attempt ns w' else (Inl e, w'))"

definition Coordinator_Provision ::
  "(string \<Rightarrow> 64 word) \<Rightarrow> Candidate list \<Rightarrow> Request \<Rightarrow> ('w \<Rightarrow> string \<Rightarrow> string res \<times> 'w) \<Rightarrow> 'w
    \<Rightarrow> string res \<times> 'w" where
  "Coordinator_Provision h cands req attempt w =
     (case Schedule h req cands of
        Inl e \<Rightarrow> (Inl e, w)
      | Inr order \<Rightarrow> try_candidates attempt order w)"

text \<open>\<open>nack_run attempt ns w w'\<close>: every node of \<open>ns\<close>, tried in order from \<open>w\<close>, refuses.\<close>

inductive nack_run :: "('w \<Rightarrow> string \<Rightarrow> string res \<times> 'w) \<Rightarrow> string list \<Rightarrow> 'w \<Rightarrow> 'w \<Rightarrow> bool"
  for attempt where
  nack_Nil: "nack_run attempt [] w w"
| nack_Cons: "attempt w n = (Inl e, w') \<Longrightarrow> errors_is e ErrNack \<Longrightarrow> nack_run attempt ns w' w''
    \<Longrightarrow> nack_run attempt (n # ns) w w''"

inductive_cases nack_run_ConsE: "nack_run attempt (n # ns) w w'"
inductive_simps nack_run_simps [simp]: "nack_run attempt [] w w'"

section \<open>The sort key\<close>

definition sort_key ::
  "(string \<Rightarrow> 64 word) \<Rightarrow> Request \<Rightarrow> Candidate \<Rightarrow> rat \<times> bool \<times> bool \<times> 64 word" where
  "sort_key h req c =
     (if rq_Strategy req = ''bin-pack'' then - score req c else score req c,
      rq_Template req \<noteq> '''' \<and> \<not> holds c (rq_Template req),
      NodeID c \<noteq> rq_Local req,
      tie h (rq_RequestID req) (NodeID c))"

lemma sched_less_key: "sched_less h req a b \<longleftrightarrow> sort_key h req a < sort_key h req b"
  by (auto simp: sched_less_def sort_key_def Let_def less_prod_def)

interpretation sched: weak_order "sched_less h req" for h req
  by unfold_locales (auto simp: sched_less_key)

lemma Schedule_Inr_iff:
  "Schedule h req cands = Inr ns \<longleftrightarrow>
     filter (fits req) cands \<noteq> [] \<and> ns = map NodeID (sort_by (sched_less h req) (filter (fits req) cands))"
  by (auto simp: Schedule_def Let_def)

lemma set_Schedule:
  "Schedule h req cands = Inr ns \<Longrightarrow> set ns = NodeID ` {c \<in> set cands. fits req c}"
  by (auto simp: Schedule_Inr_iff)

lemma fits_iff:
  "fits req c \<longleftrightarrow>
     \<not> Cordoned c
   \<and> (\<forall>w \<in> set (rq_Workspaces req). in_set_map (Workspaces c) w)
   \<and> (rq_Template req = '''' \<or> Pullable (rq_Template req) \<or> holds c (rq_Template req))
   \<and> (\<forall>k \<in> set (rq_Kits req). in_set_map (Kits c) k)
   \<and> (\<forall>k \<in> set (rq_Capabilities req). in_set_map (Capabilities c) k)
   \<and> (\<forall>(k, v) \<in> set (rq_Affinity req). label_of (Labels c) k = v)
   \<and> (\<forall>(k, v) \<in> set (rq_AntiAffinity req). label_of (Labels c) k \<noteq> v)
   \<and> capFits (AllocCPU c + rq_CPU req) (LimitCPU c)
   \<and> capFits (AllocMem c + rq_Mem req) (LimitMem c)
   \<and> capFits (AllocDisk c + rq_Disk req) (LimitDisk c)"
  by (auto simp: fits_def list_all_iff)

lemma sorted_by_key_unique:
  assumes "sorted (map k xs)" "sorted (map k ys)" "distinct (map k xs)" "distinct (map k ys)"
    and "set xs = set ys"
  shows "xs = ys"
proof -
  have "map k xs = map k ys"
    using assms by (intro sorted_distinct_set_unique) auto
  moreover have "inj_on k (set xs)" using assms(3) by (simp add: distinct_map)
  ultimately show ?thesis using assms(5) by (metis inj_on_map_eq_map sup.idem)
qed

lemma sort_key_sorted: "sorted (map (sort_key h req) (sort_by (sched_less h req) xs))"
  using sched.sorted_sort_by[of h req xs]
  by (simp add: sorted_map sched_less_key not_less)

lemma distinct_insort_by [simp]: "distinct (map f (insort_by lt x xs)) \<longleftrightarrow> distinct (map f (x # xs))"
  by (induction xs) auto

lemma distinct_sort_by [simp]: "distinct (map f (sort_by lt xs)) \<longleftrightarrow> distinct (map f xs)"
  by (induction xs) auto

section \<open>The retry loop\<close>

lemma try_candidates_Inr:
  assumes "try_candidates attempt ns w = (Inr sb, w')"
  shows "\<exists>pre n post w1. ns = pre @ n # post \<and> nack_run attempt pre w w1 \<and> attempt w1 n = (Inr sb, w')"
  using assms
proof (induction ns arbitrary: w)
  case Nil
  then show ?case by simp
next
  case (Cons n ns)
  obtain r w1 where a: "attempt w n = (r, w1)" by (cases "attempt w n")
  show ?case
  proof (cases r)
    case (Inr x)
    with Cons.prems a show ?thesis by (intro exI[of _ "[]"] exI[of _ n] exI[of _ ns] exI[of _ w]) (auto intro: nack_Nil)
  next
    case (Inl e)
    with Cons.prems a have e: "errors_is e ErrNack" and t: "try_candidates attempt ns w1 = (Inr sb, w')"
      by (auto split: if_splits)
    from Cons.IH[OF t] obtain pre m post w2 where
      "ns = pre @ m # post" "nack_run attempt pre w1 w2" "attempt w2 m = (Inr sb, w')" by blast
    with a Inl e show ?thesis
      by (intro exI[of _ "n # pre"] exI[of _ m] exI[of _ post] exI[of _ w2]) (auto intro: nack_Cons)
  qed
qed

lemma try_candidates_Inl:
  assumes "try_candidates attempt ns w = (Inl e, w')"
  shows "(e = ErrCoordNoCapacity \<and> nack_run attempt ns w w') \<or>
    (\<not> errors_is e ErrNack \<and>
      (\<exists>pre n post w1. ns = pre @ n # post \<and> nack_run attempt pre w w1 \<and> attempt w1 n = (Inl e, w')))"
  using assms
proof (induction ns arbitrary: w)
  case Nil
  then show ?case by (auto intro: nack_Nil)
next
  case (Cons n ns)
  obtain r w1 where a: "attempt w n = (r, w1)" by (cases "attempt w n")
  with Cons.prems obtain f where f: "r = Inl f" by (cases r) auto
  show ?case
  proof (cases "errors_is f ErrNack")
    case True
    with Cons.prems a f have "try_candidates attempt ns w1 = (Inl e, w')" by simp
    from Cons.IH[OF this] show ?thesis
    proof
      assume "e = ErrCoordNoCapacity \<and> nack_run attempt ns w1 w'"
      with a f True show ?thesis by (auto intro: nack_Cons)
    next
      assume "\<not> errors_is e ErrNack \<and>
        (\<exists>pre n post w2. ns = pre @ n # post \<and> nack_run attempt pre w1 w2 \<and> attempt w2 n = (Inl e, w'))"
      then obtain pre m post w2 where "\<not> errors_is e ErrNack" "ns = pre @ m # post"
        "nack_run attempt pre w1 w2" "attempt w2 m = (Inl e, w')" by blast
      with a f True show ?thesis
        by (intro disjI2 conjI exI[of _ "n # pre"] exI[of _ m] exI[of _ post] exI[of _ w2])
           (auto intro: nack_Cons)
    qed
  next
    case False
    with Cons.prems a f show ?thesis
      by (intro disjI2 conjI exI[of _ "[]"] exI[of _ n] exI[of _ ns] exI[of _ w]) (auto intro: nack_Nil)
  qed
qed

lemma try_candidates_all_nack:
  "nack_run attempt ns w w' \<Longrightarrow> try_candidates attempt ns w = (Inl ErrCoordNoCapacity, w')"
  by (induction rule: nack_run.induct) auto

lemma try_candidates_first_accept:
  "nack_run attempt pre w w1 \<Longrightarrow> attempt w1 n = (Inr sb, w2) \<Longrightarrow>
   try_candidates attempt (pre @ n # post) w = (Inr sb, w2)"
  by (induction rule: nack_run.induct) auto

section \<open>Properties\<close>

text \<open>
  C12: the scheduler is correct.  It fails with \<open>ErrNoEligibleNode\<close> exactly when no candidate
  passes the placement constraints; otherwise it returns the node ids of all the candidates that
  pass, each as often as it occurs, ordered by the lexicographic key of score (reversed for
  bin-pack), image already held, entry node, and tie hash.
\<close>

theorem Schedule_correct:
  "case Schedule h req cands of
     Inl e \<Rightarrow> e = ErrNoEligibleNode \<and> filter (fits req) cands = []
   | Inr ns \<Rightarrow> \<exists>cs. ns = map NodeID cs \<and> cs \<noteq> [] \<and> mset cs = mset (filter (fits req) cands)
       \<and> sorted (map (sort_key h req) cs)"
proof (cases "filter (fits req) cands = []")
  case True
  then show ?thesis by (simp add: Schedule_def)
next
  case False
  let ?cs = "sort_by (sched_less h req) (filter (fits req) cands)"
  from False have "Schedule h req cands = Inr (map NodeID ?cs)" by (simp add: Schedule_def Let_def)
  moreover have "?cs \<noteq> []" "mset ?cs = mset (filter (fits req) cands)" "sorted (map (sort_key h req) ?cs)"
    using False by (simp_all add: sort_key_sorted)
  ultimately show ?thesis by auto
qed

text \<open>
  C13: every node the scheduler proposes satisfies the placement constraints: it is not cordoned,
  has every requested workspace, kit and capability, can obtain the template, carries the affinity
  labels and none of the anti-affinity ones, and after the placement none of its non-zero limits
  is exceeded.
\<close>

theorem Schedule_safe:
  assumes "Schedule h req cands = Inr ns" and "n \<in> set ns"
  shows "\<exists>c \<in> set cands. NodeID c = n \<and> \<not> Cordoned c
    \<and> list_all (in_set_map (Workspaces c)) (rq_Workspaces req)
    \<and> list_all (in_set_map (Kits c)) (rq_Kits req)
    \<and> list_all (in_set_map (Capabilities c)) (rq_Capabilities req)
    \<and> (rq_Template req = '''' \<or> Pullable (rq_Template req) \<or> holds c (rq_Template req))
    \<and> list_all (\<lambda>(k, v). label_of (Labels c) k = v) (rq_Affinity req)
    \<and> list_all (\<lambda>(k, v). label_of (Labels c) k \<noteq> v) (rq_AntiAffinity req)
    \<and> (LimitCPU c = 0 \<or> AllocCPU c + rq_CPU req \<le> LimitCPU c)
    \<and> (LimitMem c = 0 \<or> AllocMem c + rq_Mem req \<le> LimitMem c)
    \<and> (LimitDisk c = 0 \<or> AllocDisk c + rq_Disk req \<le> LimitDisk c)"
proof -
  from assms obtain c where "c \<in> set cands" "fits req c" "NodeID c = n"
    using set_Schedule by fastforce
  then show ?thesis by (intro bexI[of _ c]) (auto simp: fits_def capFits_def split: if_splits)
qed

definition example_candidate :: "string \<Rightarrow> rat \<Rightarrow> Candidate" where
  "example_candidate n used =
     \<lparr>NodeID = n, Workspaces = [(''repo'', True)], Templates = [], Kits = [], Capabilities = [],
      Labels = [(''zone'', ''a'')], LimitCPU = 8, LimitMem = 64, LimitDisk = 64, AllocCPU = used,
      AllocMem = 0, AllocDisk = 0, Sandboxes = 1, ActualCPU = 0, ActualMem = 0, Cordoned = False\<rparr>"

definition example_request :: Request where
  "example_request =
     \<lparr>rq_CPU = 2, rq_Mem = 0, rq_Disk = 0, rq_Workspaces = [''repo''], rq_Template = '''',
      rq_Kits = [], rq_Capabilities = [], rq_Affinity = [(''zone'', ''a'')], rq_AntiAffinity = [],
      rq_Strategy = ''least-loaded'', rq_RequestID = ''r1'', rq_Local = ''n1''\<rparr>"

lemmas example_defs = example_candidate_def example_request_def

lemma example_Schedule:
  "Schedule h example_request [example_candidate ''n1'' 4, example_candidate ''n2'' 1,
     example_candidate ''n3'' 7] = Inr [''n2'', ''n1'']"
  by (simp add: Schedule_def sort_by_def sched_less_def score_def max3_def ratio_def fits_def
      capFits_def holds_def in_set_map_def label_of_def example_defs Let_def)

theorem Schedule_safe_witness:
  "\<exists>c \<in> set [example_candidate ''n1'' 4, example_candidate ''n2'' 1, example_candidate ''n3'' 7].
     NodeID c = ''n2'' \<and> \<not> Cordoned c \<and> AllocCPU c + 2 \<le> LimitCPU c"
  using Schedule_safe[OF example_Schedule[of "\<lambda>_. 0"], of "''n2''"]
  by (auto simp: example_defs)

text \<open>
  The candidate view is built by iterating over Go maps, in an unspecified order.  When the
  tie hash separates the node ids of the candidates that fit, the schedule does not depend on
  that order.
\<close>

theorem Schedule_order_independent:
  assumes "mset cands = mset cands'"
    and "distinct (map (\<lambda>c. tie h (rq_RequestID req) (NodeID c)) (filter (fits req) cands))"
  shows "Schedule h req cands = Schedule h req cands'"
proof -
  let ?s = "\<lambda>cs. sort_by (sched_less h req) (filter (fits req) cs)"
  have m: "mset (filter (fits req) cands) = mset (filter (fits req) cands')"
    using assms(1) by simp
  have d: "distinct (map (sort_key h req) (filter (fits req) cands))"
    using assms(2) by (auto simp: distinct_map inj_on_def sort_key_def)
  then have d': "distinct (map (sort_key h req) (filter (fits req) cands'))"
    using m by (metis mset_map mset_eq_imp_distinct_iff)
  have "?s cands = ?s cands'"
    using d d' mset_eq_setD[OF m]
    by (intro sorted_by_key_unique[of "sort_key h req"]) (simp_all add: sort_key_sorted)
  moreover have "filter (fits req) cands = [] \<longleftrightarrow> filter (fits req) cands' = []"
    using m by (metis mset_zero_iff)
  ultimately show ?thesis by (simp add: Schedule_def Let_def)
qed

theorem Schedule_order_independent_witness:
  "Schedule (\<lambda>s. of_nat (length s)) example_request
       [example_candidate ''n1'' 4, example_candidate ''node2'' 4]
   = Schedule (\<lambda>s. of_nat (length s)) example_request
       [example_candidate ''node2'' 4, example_candidate ''n1'' 4]"
  by (rule Schedule_order_independent)
     (simp_all add: fits_def capFits_def in_set_map_def label_of_def tie_def example_defs)

text \<open>
  The coordinator's retry loop.  A success comes from the first candidate in schedule order
  that does not refuse, every earlier one having refused with a NACK; \<open>ErrNoCapacity\<close> means that
  every scheduled candidate refused; an error that is not a NACK stops the loop at the candidate
  that raised it, so that no other node is ever tried after it; and when no candidate fits nothing
  is attempted at all.
\<close>

theorem Coordinator_Provision_outcome:
  "case Coordinator_Provision h cands req attempt w of
     (Inr sb, w') \<Rightarrow>
       \<exists>pre n post w1. Schedule h req cands = Inr (pre @ n # post)
         \<and> nack_run attempt pre w w1 \<and> attempt w1 n = (Inr sb, w')
   | (Inl e, w') \<Rightarrow>
       (e = ErrNoEligibleNode \<and> w' = w \<and> filter (fits req) cands = [])
     \<or> (e = ErrCoordNoCapacity \<and> (\<exists>ns. Schedule h req cands = Inr ns \<and> nack_run attempt ns w w'))
     \<or> (errors_is e ErrNack = False \<and>
         (\<exists>pre n post w1. Schedule h req cands = Inr (pre @ n # post)
           \<and> nack_run attempt pre w w1 \<and> attempt w1 n = (Inl e, w')))"
proof (cases "Schedule h req cands")
  case (Inl e)
  then show ?thesis by (auto simp: Coordinator_Provision_def Schedule_def Let_def split: if_splits)
next
  case (Inr ns)
  obtain r w' where t: "try_candidates attempt ns w = (r, w')" by fastforce
  show ?thesis
  proof (cases r)
    case (Inl e)
    with try_candidates_Inl[of attempt ns w e w'] t Inr show ?thesis
      by (auto simp: Coordinator_Provision_def)
  next
    case (Inr sb)
    with try_candidates_Inr[of attempt ns w sb w'] t \<open>Schedule h req cands = Inr ns\<close> show ?thesis
      by (auto simp: Coordinator_Provision_def)
  qed
qed

end
