(* ===== verification/Types.thy ===== *)
theory Types
  imports Prelude
begin

text \<open>
  The data the components exchange and persist: the sandbox types of
  \<^verbatim>\<open>internal/sandbox/backend.go\<close> and \<^verbatim>\<open>record.go\<close>, the operation of \<^verbatim>\<open>internal/ops\<close>, the audit
  entry, the node flags, and the backend interface as a record of functions over the daemon's
  state \<open>'be\<close>.  The daemon behind the SDK is not part of the repository, so the backend is a
  parameter of every definition that uses it.
\<close>

section \<open>Sandbox types\<close>

record WorkspaceMount =
  wm_Name :: string
  wm_ReadOnly :: bool

record ReviewRef =
  rr_Workspace :: string
  rr_ID :: string

record CreateSpec =
  cs_Name :: string
  cs_DisplayName :: string
  cs_Agent :: string
  cs_Template :: string
  cs_CPUs :: int
  cs_MemoryBytes :: int
  cs_DiskGB :: rat
  cs_Clone :: bool
  cs_Branch :: string
  cs_ReviewRef :: "ReviewRef option"
  cs_Workspaces :: "WorkspaceMount list"
  cs_Env :: "(string, string) gomap"
  cs_Labels :: "(string, string) gomap"
  cs_Kits :: "string list"

text \<open>The zero value of the struct, which Go uses for every field left out of a literal.\<close>

definition CreateSpec_zero :: CreateSpec where
  "CreateSpec_zero =
     \<lparr>cs_Name = '''', cs_DisplayName = '''', cs_Agent = '''', cs_Template = '''', cs_CPUs = 0,
      cs_MemoryBytes = 0, cs_DiskGB = 0, cs_Clone = False, cs_Branch = '''', cs_ReviewRef = None,
      cs_Workspaces = [], cs_Env = [], cs_Labels = [], cs_Kits = []\<rparr>"

record Resources =
  rs_CPUCores :: rat
  rs_MemoryBytes :: int
  rs_DiskGB :: rat

record BackendSandbox =
  bs_Name :: string
  bs_Status :: string

record ExecOpts =
  eo_Workdir :: string
  eo_Env :: "(string, string) gomap"

record ExecResult =
  er_ExitCode :: int
  er_Stdout :: string
  er_Stderr :: string

record DetachedStatus =
  ds_Done :: bool
  ds_ExitCode :: int

record PublishedPort =
  pp_ContainerPort :: int
  pp_HostPort :: int

record Usage =
  us_Cores :: int
  us_CPUPercent :: rat
  us_MemTotalKB :: int
  us_MemUsedKB :: int
  us_DiskTotalGB :: rat
  us_DiskUsedGB :: rat
  us_UptimeSeconds :: int

record BlockedHost =
  bh_Host :: string
  bh_VMName :: string
  bh_Count :: int

record PolicyRule =
  pr_Provenance :: string
  pr_AppliesTo :: string
  pr_Rule :: string
  pr_Type :: string
  pr_Decision :: string
  pr_Resources :: string

record PolicyDecision =
  pd_Allowed :: bool
  pd_Reason :: string
  pd_Rule :: string
  pd_Origin :: string
  pd_Resource :: string
  pd_DenyKind :: string

record CustomSecret =
  sc_Host :: string
  sc_Env :: string
  sc_Placeholder :: string
  sc_Value :: string

record StoredSecret =
  ss_Name :: string
  ss_Type :: string
  ss_Scope :: string

record Secrets =
  se_Stored :: "StoredSecret list"
  se_Custom :: "CustomSecret list"

record TemplateInfo =
  ti_Repository :: string
  ti_Tag :: string
  ti_ID :: string
  ti_Agent :: string
  ti_CreatedAt :: string

text \<open>The persisted sandbox record.\<close>

record Record =
  r_ID :: string
  r_BackendName :: string
  r_OwnerNode :: string
  r_Spec :: CreateSpec
  r_Status :: string
  r_Ports :: "PublishedPort list"
  r_Labels :: "(string, string) gomap"
  r_IdempKey :: string
  r_CreatedAt :: gotime
  r_UpdatedAt :: gotime
  r_LastActivity :: gotime
  r_LastPublish :: gotime

section \<open>Operations, audit entries, node flags\<close>

text \<open>\<open>o_Error\<close> is \<open>None\<close> for the empty error text and otherwise the error whose text is kept.\<close>

record Operation =
  o_ID :: string
  o_Type :: string
  o_State :: string
  o_SandboxID :: string
  o_Error :: "go_error option"
  o_IdempKey :: string
  o_CreatedAt :: gotime
  o_UpdatedAt :: gotime

record Entry =
  e_Seq :: int
  e_Actor :: string
  e_Action :: string
  e_Target :: string
  e_Outcome :: string
  e_TSUnix :: int

record nodeFlags =
  nf_Cordoned :: bool
  nf_Draining :: bool

section \<open>Stored values\<close>

text \<open>
  A stored value: the JSON encoding of a persisted struct, kept as the struct it encodes, or
  other bytes.  \<^verbatim>\<open>json.Marshal\<close> of these structs is the constructor, and \<^verbatim>\<open>json.Unmarshal\<close> into
  a struct type succeeds on the encodings of that type; anything else is rejected.
\<close>

datatype blob =
    JRecord Record
  | JOperation Operation
  | JEntry Entry
  | JFlags nodeFlags
  | Bytes string

fun unmarshal_Record :: "blob \<Rightarrow> Record res" where
  "unmarshal_Record (JRecord r) = Inr r"
| "unmarshal_Record _ = Inl (Errf ''json: cannot unmarshal'' [])"

fun unmarshal_Operation :: "blob \<Rightarrow> Operation res" where
  "unmarshal_Operation (JOperation x) = Inr x"
| "unmarshal_Operation _ = Inl (Errf ''json: cannot unmarshal'' [])"

fun unmarshal_Entry :: "blob \<Rightarrow> Entry res" where
  "unmarshal_Entry (JEntry x) = Inr x"
| "unmarshal_Entry _ = Inl (Errf ''json: cannot unmarshal'' [])"

fun unmarshal_nodeFlags :: "blob \<Rightarrow> nodeFlags res" where
  "unmarshal_nodeFlags (JFlags x) = Inr x"
| "unmarshal_nodeFlags _ = Inl (Errf ''json: cannot unmarshal'' [])"

lemma unmarshal_Record_Inr [simp]: "unmarshal_Record v = Inr r \<longleftrightarrow> v = JRecord r"
  by (cases v) auto

lemma unmarshal_Operation_Inr [simp]: "unmarshal_Operation v = Inr x \<longleftrightarrow> v = JOperation x"
  by (cases v) auto

lemma unmarshal_Entry_Inr [simp]: "unmarshal_Entry v = Inr x \<longleftrightarrow> v = JEntry x"
  by (cases v) auto

lemma unmarshal_nodeFlags_Inr [simp]: "unmarshal_nodeFlags v = Inr x \<longleftrightarrow> v = JFlags x"
  by (cases v) auto

text \<open>
  Decoding every value of an iteration, stopping at the first one that does not decode: the
  closures passed to \<^verbatim>\<open>ForEach\<close>.
\<close>

fun decode_all :: "('a \<Rightarrow> 'b res) \<Rightarrow> 'a list \<Rightarrow> 'b list res" where
  "decode_all dec [] = Inr []"
| "decode_all dec (v # vs) =
     (case dec v of
        Inl e \<Rightarrow> Inl e
      | Inr x \<Rightarrow> (case decode_all dec vs of Inl e \<Rightarrow> Inl e | Inr xs \<Rightarrow> Inr (x # xs)))"

lemma decode_all_Inr_iff:
  "decode_all dec vs = Inr xs \<longleftrightarrow> list_all2 (\<lambda>v x. dec v = Inr x) vs xs"
proof (induction vs arbitrary: xs)
  case Nil
  then show ?case by auto
next
  case (Cons v vs)
  show ?case
  proof (cases xs)
    case Nil
    then show ?thesis by (auto split: sum.splits)
  next
    case (Cons x xs')
    then show ?thesis using Cons.IH[of xs'] by (auto split: sum.splits)
  qed
qed

lemma decode_all_inj_iff:
  assumes "\<And>v x. dec v = Inr x \<longleftrightarrow> v = enc x"
  shows "decode_all dec vs = Inr xs \<longleftrightarrow> vs = map enc xs"
  unfolding decode_all_Inr_iff assms by (induction vs arbitrary: xs) (auto simp: list_all2_Cons1)

section \<open>The backend interface\<close>

text \<open>
  One field per method of the interface that the node's own logic calls; every call may change
  the daemon's state, whether it succeeds or fails.
\<close>

record 'be Backend =
  be_Create :: "'be \<Rightarrow> CreateSpec \<Rightarrow> BackendSandbox res \<times> 'be"
  be_Get :: "'be \<Rightarrow> string \<Rightarrow> BackendSandbox res \<times> 'be"
  be_List :: "'be \<Rightarrow> BackendSandbox list res \<times> 'be"
  be_ListTemplates :: "'be \<Rightarrow> string list res \<times> 'be"
  be_ListTemplateInfo :: "'be \<Rightarrow> TemplateInfo list res \<times> 'be"
  be_SaveTemplate :: "'be \<Rightarrow> string \<Rightarrow> string \<Rightarrow> unit res \<times> 'be"
  be_RemoveTemplate :: "'be \<Rightarrow> string \<Rightarrow> unit res \<times> 'be"
  be_AdmittedKits :: "'be \<Rightarrow> string list"
  be_Start :: "'be \<Rightarrow> string \<Rightarrow> unit res \<times> 'be"
  be_Stop :: "'be \<Rightarrow> string \<Rightarrow> unit res \<times> 'be"
  be_Remove :: "'be \<Rightarrow> string \<Rightarrow> unit res \<times> 'be"
  be_Exec :: "'be \<Rightarrow> string \<Rightarrow> string list \<Rightarrow> ExecOpts \<Rightarrow> ExecResult res \<times> 'be"
  be_ExecDetached :: "'be \<Rightarrow> string \<Rightarrow> string list \<Rightarrow> ExecOpts \<Rightarrow> string res \<times> 'be"
  be_PollDetached :: "'be \<Rightarrow> string \<Rightarrow> string \<Rightarrow> DetachedStatus res \<times> 'be"
  be_PublishPort :: "'be \<Rightarrow> string \<Rightarrow> int \<Rightarrow> PublishedPort res \<times> 'be"
  be_Ports :: "'be \<Rightarrow> string \<Rightarrow> PublishedPort list res \<times> 'be"
  be_UnpublishPort :: "'be \<Rightarrow> string \<Rightarrow> int \<Rightarrow> unit res \<times> 'be"
  be_CopyTo :: "'be \<Rightarrow> string \<Rightarrow> string \<Rightarrow> string \<Rightarrow> unit res \<times> 'be"
  be_CopyFrom :: "'be \<Rightarrow> string \<Rightarrow> string \<Rightarrow> string \<Rightarrow> unit res \<times> 'be"
  be_Stats :: "'be \<Rightarrow> string \<Rightarrow> Usage res \<times> 'be"
  be_BlockedEgress :: "'be \<Rightarrow> BlockedHost list res \<times> 'be"
  be_AllowedEgress :: "'be \<Rightarrow> BlockedHost list res \<times> 'be"
  be_PolicyAllow :: "'be \<Rightarrow> string \<Rightarrow> string \<Rightarrow> unit res \<times> 'be"
  be_PolicyDeny :: "'be \<Rightarrow> string \<Rightarrow> string \<Rightarrow> unit res \<times> 'be"
  be_PolicySetDefault :: "'be \<Rightarrow> string \<Rightarrow> unit res \<times> 'be"
  be_PolicyRemoveRule :: "'be \<Rightarrow> string \<Rightarrow> string \<Rightarrow> unit res \<times> 'be"
  be_PolicyReset :: "'be \<Rightarrow> unit res \<times> 'be"
  be_PolicyList :: "'be \<Rightarrow> string \<Rightarrow> PolicyRule list res \<times> 'be"
  be_PolicyProfiles :: "'be \<Rightarrow> string list res \<times> 'be"
  be_PolicyCheck :: "'be \<Rightarrow> string \<Rightarrow> string \<Rightarrow> PolicyDecision res \<times> 'be"
  be_SecretSet :: "'be \<Rightarrow> string \<Rightarrow> CustomSecret \<Rightarrow> unit res \<times> 'be"
  be_SecretList :: "'be \<Rightarrow> string \<Rightarrow> Secrets res \<times> 'be"
  be_SecretRemove :: "'be \<Rightarrow> string \<Rightarrow> string \<Rightarrow> unit res \<times> 'be"
  be_SecretRemoveStored :: "'be \<Rightarrow> string \<Rightarrow> string \<Rightarrow> unit res \<times> 'be"

end
