(* ===== verification/Store.thy ===== *)
theory Store
  imports Types
begin

text \<open>
  The node's durable state (\<^verbatim>\<open>internal/store\<close>).  The bbolt library is not part of the repository:
  it is the parameter \<open>B\<close>, a record of the bucket functions the store calls on a database \<open>'db\<close>.
  An update transaction commits when its closure returns no error, so its model returns the new
  database or the error (the database then stays what it was).  \<open>bolt_laws\<close> states what bbolt
  documents about those functions; the locale \<open>bolt_db\<close> carries it, the locale \<open>kv\<close> is the
  contract the store promises its clients, and \<open>mem_bolt\<close> is an in-memory database that
  satisfies it.  The node's own sentinel errors are not among bbolt's errors.
\<close>

record 'db Bolt =
  b_has :: "'db \<Rightarrow> string \<Rightarrow> bool"
  b_get :: "'db \<Rightarrow> string \<Rightarrow> string \<Rightarrow> blob option"
  b_items :: "'db \<Rightarrow> string \<Rightarrow> (string \<times> blob) list"
  b_put :: "'db \<Rightarrow> string \<Rightarrow> string \<Rightarrow> blob \<Rightarrow> 'db res"
  b_delete :: "'db \<Rightarrow> string \<Rightarrow> string \<Rightarrow> 'db res"
  b_create :: "'db \<Rightarrow> string \<Rightarrow> 'db res"
  b_seq :: "'db \<Rightarrow> string \<Rightarrow> 64 word"
  b_next_seq :: "'db \<Rightarrow> string \<Rightarrow> (64 word \<times> 'db) res"

definition unknown_bucket :: "string \<Rightarrow> go_error" where
  "unknown_bucket bucket = Errf ''unknown bucket %q'' [bucket]"

definition store_Put :: "'db Bolt \<Rightarrow> 'db \<Rightarrow> string \<Rightarrow> string \<Rightarrow> blob \<Rightarrow> 'db res" where
  "store_Put B db bucket key val =
     (if \<not> b_has B db bucket then Inl (unknown_bucket bucket) else b_put B db bucket key val)"

definition store_Get :: "'db Bolt \<Rightarrow> 'db \<Rightarrow> string \<Rightarrow> string \<Rightarrow> blob option res" where
  "store_Get B db bucket key =
     (if \<not> b_has B db bucket then Inl (unknown_bucket bucket) else Inr (b_get B db bucket key))"

definition store_Delete :: "'db Bolt \<Rightarrow> 'db \<Rightarrow> string \<Rightarrow> string \<Rightarrow> 'db res" where
  "store_Delete B db bucket key =
     (if \<not> b_has B db bucket then Inl (unknown_bucket bucket) else b_delete B db bucket key)"

text \<open>\<^verbatim>\<open>ForEach\<close> with a closure that decodes each pair and appends it to a slice.\<close>

definition store_ForEach ::
  "'db Bolt \<Rightarrow> 'db \<Rightarrow> string \<Rightarrow> (string \<times> blob \<Rightarrow> 'a res) \<Rightarrow> 'a list res" where
  "store_ForEach B db bucket fn =
     (if \<not> b_has B db bucket then Inl (unknown_bucket bucket) else decode_all fn (b_items B db bucket))"

section \<open>Opening: buckets and the schema version\<close>

definition SchemaVersion :: "64 word" where "SchemaVersion = 1"

definition bucketNames :: "string list" where
  "bucketNames = [''meta'', ''sandboxes'', ''operations'', ''idempotency'', ''blocked_egress'',
     ''audit'', ''revoked'', ''node'']"

text \<open>\<^verbatim>\<open>binary.BigEndian\<close>: eight bytes, most significant first.  Reading fewer than eight panics.\<close>

definition be_bytes :: "64 word \<Rightarrow> string" where
  "be_bytes v = map (\<lambda>i. char_of (unat (drop_bit (8 * i) v))) [7, 6, 5, 4, 3, 2, 1, 0]"

definition be_uint64 :: "string \<Rightarrow> 64 word option" where
  "be_uint64 s =
     (if length s < 8 then None
      else Some (foldl (\<lambda>acc c. acc * 256 + of_nat (of_char c)) 0 (take 8 s)))"

fun create_buckets :: "'db Bolt \<Rightarrow> string list \<Rightarrow> 'db \<Rightarrow> 'db res" where
  "create_buckets B [] db = Inr db"
| "create_buckets B (n # ns) db =
     (case b_create B db n of
        Inl e \<Rightarrow> Inl (Wrapf ''create bucket %s: %w'' [n] e)
      | Inr db' \<Rightarrow> create_buckets B ns db')"

text \<open>
  The forward migration loop, over the list of migrations.  The index test
  \<^verbatim>\<open>int(v-1) >= len(migrations)\<close> is on an unsigned difference converted to a signed integer: at
  version 0 it is -1, which passes the test, and the slice index then panics (\<open>None\<close>).
\<close>

function run_migrations ::
  "('db \<Rightarrow> 'db res) list \<Rightarrow> 64 word \<Rightarrow> 'db \<Rightarrow> 'db res option" where
  "run_migrations ms v db =
     (if v < SchemaVersion then
        (if sint (v - 1) \<ge> int (length ms) then Some (Inl (Errf ''missing migration from v%d'' [format_int (uint v)]))
         else if unat (v - 1) \<ge> length ms then None
         else case (ms ! unat (v - 1)) db of
                Inl e \<Rightarrow> Some (Inl (Wrapf ''migrate v%d: %w'' [format_int (uint v)] e))
              | Inr db' \<Rightarrow> run_migrations ms (v + 1) db')
      else Some (Inr db))"
  by pat_completeness auto

termination
  by (relation "measure (\<lambda>(ms, v, db). unat SchemaVersion - unat v)")
     (auto simp: unat_Suc_less word_less_nat_alt)

declare run_migrations.simps [simp del]

definition migrations :: "('db \<Rightarrow> 'db res) list" where "migrations = []"

definition put_uint64 :: "'db Bolt \<Rightarrow> 'db \<Rightarrow> string \<Rightarrow> string \<Rightarrow> 64 word \<Rightarrow> 'db res" where
  "put_uint64 B db bucket key v = b_put B db bucket key (Bytes (be_bytes v))"

text \<open>
  The stored version.  JSON text starts with a brace, so its first eight bytes read as a number
  far above any schema version.
\<close>

fun schema_of :: "blob \<Rightarrow> 64 word option" where
  "schema_of (Bytes s) = be_uint64 s"
| "schema_of _ = Some (- 1)"

text \<open>\<open>None\<close> is a panic; the transaction is rolled back then as well.\<close>

definition store_migrate :: "'db Bolt \<Rightarrow> 'db \<Rightarrow> 'db res option" where
  "store_migrate B db =
     (case create_buckets B bucketNames db of
        Inl e \<Rightarrow> Some (Inl e)
      | Inr db1 \<Rightarrow>
          (case b_get B db1 ''meta'' ''schema_version'' of
             None \<Rightarrow> Some (put_uint64 B db1 ''meta'' ''schema_version'' SchemaVersion)
           | Some raw \<Rightarrow>
               (case schema_of raw of
                  None \<Rightarrow> None
                | Some v \<Rightarrow>
                    if v > SchemaVersion
                    then Some (Inl (Errf ''on-disk schema v%d is newer than supported v%d (downgrade guard)''
                                      [format_int (uint v), format_int (uint SchemaVersion)]))
                    else (case run_migrations migrations v db1 of
                            None \<Rightarrow> None
                          | Some (Inl e) \<Rightarrow> Some (Inl e)
                          | Some (Inr db2) \<Rightarrow>
                              Some (put_uint64 B db2 ''meta'' ''schema_version'' SchemaVersion)))))"

text \<open>\<open>opened\<close> is what \<^verbatim>\<open>bolt.Open\<close> returned.\<close>

definition store_Open :: "'db Bolt \<Rightarrow> 'db res \<Rightarrow> 'db res option" where
  "store_Open B opened =
     (case opened of
        Inl e \<Rightarrow> Some (Inl (Wrapf ''open bbolt: %w'' [] e))
      | Inr db \<Rightarrow> store_migrate B db)"

section \<open>What bbolt documents\<close>

definition bolt_laws :: "'db Bolt \<Rightarrow> bool" where
  "bolt_laws B \<longleftrightarrow>
     (\<forall>db bk. map_of (b_items B db bk) = b_get B db bk \<and> sorted_wrt (<) (map fst (b_items B db bk)))
   \<and> (\<forall>db bk k v db'. b_put B db bk k v = Inr db' \<longrightarrow>
        b_has B db' = b_has B db \<and> b_seq B db' = b_seq B db
      \<and> b_get B db' = (b_get B db)(bk := (b_get B db bk)(k \<mapsto> v)))
   \<and> (\<forall>db bk k v. b_put B db bk k v \<noteq> Inl ErrNotFound)
   \<and> (\<forall>db bk k db'. b_delete B db bk k = Inr db' \<longrightarrow>
        b_has B db' = b_has B db \<and> b_seq B db' = b_seq B db
      \<and> b_get B db' = (b_get B db)(bk := (b_get B db bk)(k := None)))
   \<and> (\<forall>db bk db'. b_create B db bk = Inr db' \<longrightarrow>
        b_has B db' = (b_has B db)(bk := True) \<and> b_seq B db' = b_seq B db \<and> b_get B db' = b_get B db)
   \<and> (\<forall>db bk n db'. b_next_seq B db bk = Inr (n, db') \<longrightarrow>
        n = b_seq B db bk + 1 \<and> b_seq B db' = (b_seq B db)(bk := n)
      \<and> b_has B db' = b_has B db \<and> b_get B db' = b_get B db)"

text \<open>An in-memory database.  An empty key is refused, as bbolt refuses it.\<close>

record mem_bucket =
  mb_seq :: "64 word"
  mb_kvs :: "(string \<times> blob) list"

type_synonym mem_db = "(string, mem_bucket) gomap"

definition mem_kvs :: "mem_db \<Rightarrow> string \<Rightarrow> (string \<times> blob) list" where
  "mem_kvs db bk = (case map_of db bk of None \<Rightarrow> [] | Some b \<Rightarrow> mb_kvs b)"

definition mem_seq :: "mem_db \<Rightarrow> string \<Rightarrow> 64 word" where
  "mem_seq db bk = (case map_of db bk of None \<Rightarrow> 0 | Some b \<Rightarrow> mb_seq b)"

definition mem_bolt :: "mem_db Bolt" where
  "mem_bolt =
     \<lparr>b_has = (\<lambda>db bk. map_of db bk \<noteq> None),
      b_get = (\<lambda>db bk k. map_of (mem_kvs db bk) k),
      b_items = (\<lambda>db bk. let kvs = mem_kvs db bk
                         in map (\<lambda>k. (k, the (map_of kvs k))) (sort (remdups (map fst kvs)))),
      b_put = (\<lambda>db bk k v. if k = [] \<or> map_of db bk = None then Inl (Errf ''key required'' [])
                else Inr (AList.update bk \<lparr>mb_seq = mem_seq db bk, mb_kvs = AList.update k v (mem_kvs db bk)\<rparr> db)),
      b_delete = (\<lambda>db bk k. Inr (if map_of db bk = None then db
                else AList.update bk \<lparr>mb_seq = mem_seq db bk, mb_kvs = AList.delete k (mem_kvs db bk)\<rparr> db)),
      b_create = (\<lambda>db bk. Inr (if map_of db bk = None then AList.update bk \<lparr>mb_seq = 0, mb_kvs = []\<rparr> db else db)),
      b_seq = mem_seq,
      b_next_seq = (\<lambda>db bk. if map_of db bk = None then Inl (Errf ''bucket not found'' [])
                else Inr (mem_seq db bk + 1,
                  AList.update bk \<lparr>mb_seq = mem_seq db bk + 1, mb_kvs = mem_kvs db bk\<rparr> db))\<rparr>"

lemma map_of_map_pair:
  "k \<in> set ks \<Longrightarrow> map_of (map (\<lambda>k. (k, f k)) ks) k = Some (f k)"
  "k \<notin> set ks \<Longrightarrow> map_of (map (\<lambda>k. (k, f k)) ks) k = None"
  by (auto simp: map_of_map_restrict restrict_map_def map_of_eq_None_iff image_iff)

lemma map_of_mem_items:
  "map_of (map (\<lambda>k. (k, the (map_of kvs k))) (sort (remdups (map fst kvs)))) = map_of kvs"
proof
  fix k
  show "map_of (map (\<lambda>k. (k, the (map_of kvs k))) (sort (remdups (map fst kvs)))) k = map_of kvs k"
  proof (cases "map_of kvs k")
    case None
    then have "k \<notin> set (sort (remdups (map fst kvs)))" by (simp add: map_of_eq_None_iff)
    then show ?thesis using None by (simp add: map_of_map_pair)
  next
    case (Some v)
    then have "k \<in> set (sort (remdups (map fst kvs)))" by (simp add: map_of_SomeD_fst)
    then show ?thesis using Some by (simp add: map_of_map_pair)
  qed
qed

lemma mem_bolt_laws: "bolt_laws mem_bolt"
proof -
  have s: "sorted_wrt (<) (sort (remdups (xs :: string list)))" for xs
    by (simp add: strict_sorted_iff)
  show ?thesis
    unfolding bolt_laws_def mem_bolt_def
    by (intro conjI allI impI)
       (auto simp: Let_def map_of_mem_items o_def s mem_kvs_def mem_seq_def fun_eq_iff
          split: if_splits option.splits)
qed

section \<open>The key-value contract\<close>

text \<open>What the store's clients rely on, in every bucket that exists.\<close>

locale kv =
  fixes put :: "'s \<Rightarrow> string \<Rightarrow> string \<Rightarrow> blob \<Rightarrow> 's res"
    and get :: "'s \<Rightarrow> string \<Rightarrow> string \<Rightarrow> blob option res"
    and del :: "'s \<Rightarrow> string \<Rightarrow> string \<Rightarrow> 's res"
    and each :: "'s \<Rightarrow> string \<Rightarrow> (string \<times> blob) list res"
  assumes get_put: "put s b k v = Inr s' \<Longrightarrow>
      get s' b' k' = (if b' = b \<and> k' = k then Inr (Some v) else get s b' k')"
    and get_del: "del s b k = Inr s' \<Longrightarrow>
      get s' b' k' = (if b' = b \<and> k' = k then Inr None else get s b' k')"
    and get_each: "each s b = Inr kvs \<Longrightarrow> get s b k = Inr (map_of kvs k)"
    and each_total: "get s b k = Inr r \<Longrightarrow> \<exists>kvs. each s b = Inr kvs"
    and each_sorted: "each s b = Inr kvs \<Longrightarrow> sorted_wrt (<) (map fst kvs)"
begin

lemma each_distinct: "each s b = Inr kvs \<Longrightarrow> distinct (map fst kvs)"
  using each_sorted by (auto simp: strict_sorted_iff)

lemma each_mem_iff: "each s b = Inr kvs \<Longrightarrow> (k, v) \<in> set kvs \<longleftrightarrow> get s b k = Inr (Some v)"
  using each_distinct[of s b kvs] get_each[of s b kvs k] by auto

lemma each_put_set:
  assumes "each s b = Inr kvs" "put s b k v = Inr s'"
  shows "\<exists>kvs'. each s' b = Inr kvs' \<and> set kvs' = insert (k, v) {p \<in> set kvs. fst p \<noteq> k}"
proof -
  have "get s' b k = Inr (Some v)" using get_put[OF assms(2)] by simp
  then obtain kvs' where e: "each s' b = Inr kvs'" using each_total by blast
  have "p \<in> set kvs' \<longleftrightarrow> p \<in> insert (k, v) {p \<in> set kvs. fst p \<noteq> k}" for p
    using each_mem_iff[OF e, of "fst p" "snd p"] each_mem_iff[OF assms(1), of "fst p" "snd p"]
      get_put[OF assms(2), of b "fst p"] by (cases p) auto
  with e show ?thesis by blast
qed

lemma each_del_set:
  assumes "each s b = Inr kvs" "del s b k = Inr s'"
  shows "\<exists>kvs'. each s' b = Inr kvs' \<and> set kvs' = {p \<in> set kvs. fst p \<noteq> k}"
proof -
  have "get s' b k = Inr None" using get_del[OF assms(2)] by simp
  then obtain kvs' where e: "each s' b = Inr kvs'" using each_total by blast
  have "p \<in> set kvs' \<longleftrightarrow> p \<in> {p \<in> set kvs. fst p \<noteq> k}" for p
    using each_mem_iff[OF e, of "fst p" "snd p"] each_mem_iff[OF assms(1), of "fst p" "snd p"]
      get_del[OF assms(2), of b "fst p"] by (cases p) auto
  with e show ?thesis by blast
qed

lemma each_other:
  assumes "put s b k v = Inr s' \<or> del s b k = Inr s'" "b' \<noteq> b" "each s b' = Inr kvs"
  shows "each s' b' = Inr kvs"
proof -
  have g: "get s' b' j = get s b' j" for j using assms get_put get_del by metis
  then obtain kvs' where e: "each s' b' = Inr kvs'" using each_total get_each[OF assms(3)] by metis
  have "set kvs' = set kvs"
    using each_mem_iff[OF e] each_mem_iff[OF assms(3)] g by auto
  moreover have "distinct (map fst kvs')" "distinct (map fst kvs)"
    using each_distinct e assms(3) by blast+
  moreover have "sorted (map fst kvs')" "sorted (map fst kvs)"
    using each_sorted[OF e] each_sorted[OF assms(3)] by (simp_all add: strict_sorted_iff)
  ultimately have "kvs' = kvs"
    by (intro map_sorted_distinct_set_unique[of fst])
       (auto simp: distinct_map intro: inj_on_subset eq_key_imp_eq_value inj_onI)
  with e show ?thesis by simp
qed

end

text \<open>A database that behaves as documented gives a store that keeps the contract.\<close>

locale bolt_db =
  fixes B :: "'db Bolt"
  assumes laws: "bolt_laws B"
begin

lemma items_map_of [simp]: "map_of (b_items B db bk) = b_get B db bk"
  using laws by (simp add: bolt_laws_def)

lemma put_D: "b_put B db bk k v = Inr db' \<Longrightarrow> b_has B db' = b_has B db \<and> b_seq B db' = b_seq B db
    \<and> b_get B db' = (b_get B db)(bk := (b_get B db bk)(k \<mapsto> v))"
  using laws unfolding bolt_laws_def by blast

lemma put_err: "b_put B db bk k v = Inl e \<Longrightarrow> e \<noteq> ErrNotFound"
  using laws unfolding bolt_laws_def by metis

lemma delete_D: "b_delete B db bk k = Inr db' \<Longrightarrow> b_has B db' = b_has B db \<and> b_seq B db' = b_seq B db
    \<and> b_get B db' = (b_get B db)(bk := (b_get B db bk)(k := None))"
  using laws unfolding bolt_laws_def by blast

lemma create_D: "b_create B db bk = Inr db' \<Longrightarrow>
    b_has B db' = (b_has B db)(bk := True) \<and> b_seq B db' = b_seq B db \<and> b_get B db' = b_get B db"
  using laws unfolding bolt_laws_def by blast

lemma next_seq_D: "b_next_seq B db bk = Inr (n, db') \<Longrightarrow>
    n = b_seq B db bk + 1 \<and> b_seq B db' = (b_seq B db)(bk := n)
      \<and> b_has B db' = b_has B db \<and> b_get B db' = b_get B db"
  using laws unfolding bolt_laws_def by blast

lemma items_sorted: "sorted_wrt (<) (map fst (b_items B db bk))"
  using laws by (simp add: bolt_laws_def)

end

text \<open>Iterating over a bucket whose values all decode, each to a value that knows its key.\<close>

context bolt_db
begin

lemma items_mem: "(k, v) \<in> set (b_items B db bk) \<longleftrightarrow> b_get B db bk k = Some v"
proof -
  have "distinct (map fst (b_items B db bk))" using items_sorted strict_sorted_iff by blast
  then show ?thesis using items_map_of[of db bk] by (metis map_of_eq_Some_iff)
qed

lemma ForEach_decode:
  assumes "b_has B db bk" "\<And>k v. b_get B db bk k = Some v \<Longrightarrow> \<exists>x. dec v = Inr x \<and> key x = k"
  shows "\<exists>xs. store_ForEach B db bk (\<lambda>(_, v). dec v) = Inr xs
    \<and> set xs = {x. \<exists>k v. b_get B db bk k = Some v \<and> dec v = Inr x} \<and> sorted_wrt (<) (map key xs)"
proof -
  let ?kvs = "b_items B db bk"
  define xs where "xs = map (\<lambda>(k, v). projr (dec v)) ?kvs"
  have item: "\<exists>x. dec (snd p) = Inr x \<and> key x = fst p" if "p \<in> set ?kvs" for p
  proof -
    have "b_get B db bk (fst p) = Some (snd p)" using that items_mem by (metis prod.collapse)
    then show ?thesis using assms(2) by blast
  qed
  have "decode_all (\<lambda>(_, v). dec v) ?kvs = Inr xs"
    unfolding decode_all_Inr_iff xs_def list_all2_map2
    by (rule list.rel_refl_strong) (use item in fastforce)
  moreover have "map key xs = map fst ?kvs" unfolding xs_def using item by (fastforce intro: map_cong)
  moreover have "set xs = {x. \<exists>k v. b_get B db bk k = Some v \<and> dec v = Inr x}"
    unfolding xs_def using assms(2) items_mem[of _ _ db bk] by (force simp: image_iff)
  ultimately show ?thesis
    using assms(1) items_sorted[of db bk] by (auto simp: store_ForEach_def)
qed

end

lemma decode_all_Inr_id [simp]: "decode_all Inr xs = Inr xs"
  by (induction xs) auto

sublocale bolt_db \<subseteq> kv "store_Put B" "store_Get B" "store_Delete B" "\<lambda>db bk. store_ForEach B db bk Inr"
  by unfold_locales
     (auto simp: store_Put_def store_Get_def store_Delete_def store_ForEach_def items_sorted
        dest!: put_D delete_D split: if_splits)

interpretation mem: bolt_db mem_bolt
  by unfold_locales (rule mem_bolt_laws)

section \<open>Big-endian integers\<close>

lemma unat_drop_bit: "unat (drop_bit n (v :: 64 word)) = unat v div 2 ^ n"
  by (metis unat_drop_bit_eq drop_bit_eq_div)

definition bval :: "string \<Rightarrow> nat" where
  "bval s = foldl (\<lambda>acc c. acc * 256 + of_char c) 0 s"

lemma length_be_bytes [simp]: "length (be_bytes v) = 8"
  by (simp add: be_bytes_def)

lemma bval_be_bytes: "bval (be_bytes v) = unat v"
proof -
  define n where "n = unat v"
  define q where "q i = n div 2 ^ (8 * i)" for i :: nat
  have step: "q i = 256 * q (Suc i) + q i mod 256" for i
  proof -
    have "q (Suc i) = q i div 256" by (simp add: q_def div_mult2_eq [symmetric] power_add mult.commute)
    then show ?thesis by simp
  qed
  have "n < 2 ^ 64" unfolding n_def using unsigned_less[of v] by simp
  then have q8: "q 8 = 0" by (simp add: q_def)
  have q0: "q 0 = n" by (simp add: q_def)
  have horner: "foldl (\<lambda>acc b. acc * 256 + b) (q k) (map (\<lambda>i. q i mod 256) (rev [0..<k])) = q 0" for k
  proof (induction k)
    case (Suc k)
    then show ?case using step[of k] by (simp add: mult.commute)
  qed simp
  have r: "rev [0..<8] = [7, 6, 5, 4, 3, 2, 1, 0 :: nat]" by code_simp
  have "map of_char (be_bytes v) = map (\<lambda>i. q i mod 256) (rev [0..<8])"
    unfolding r by (simp add: be_bytes_def unat_drop_bit q_def n_def)
  then have "foldl (\<lambda>acc b. acc * 256 + b) 0 (map of_char (be_bytes v)) = n"
    using horner[of 8] by (simp only: q8 q0)
  then show ?thesis by (simp add: bval_def n_def foldl_map)
qed

lemma of_nat_bval:
  "foldl (\<lambda>acc c. acc * 256 + of_nat (of_char c)) (of_nat a) s =
     (of_nat (foldl (\<lambda>acc c. acc * 256 + of_char c) a s) :: 64 word)"
proof (induction s arbitrary: a)
  case (Cons c s)
  then show ?case using Cons[of "a * 256 + of_char c"] by simp
qed simp

lemma be_uint64_bytes [simp]: "be_uint64 (be_bytes v) = Some v"
proof -
  have "foldl (\<lambda>acc c. acc * 256 + of_nat (of_char c)) 0 (be_bytes v) = (of_nat (bval (be_bytes v)) :: 64 word)"
    using of_nat_bval[of 0 "be_bytes v"] by (simp add: bval_def)
  then show ?thesis by (simp add: be_uint64_def bval_be_bytes)
qed

section \<open>Opening a database\<close>

lemma run_migrations_current [simp]: "run_migrations ms SchemaVersion db = Some (Inr db)"
  by (subst run_migrations.simps) simp

lemma run_migrations_zero: "run_migrations [] 0 db = None"
  by (subst run_migrations.simps) (simp add: SchemaVersion_def)

context bolt_db
begin

lemma create_buckets_D:
  "create_buckets B ns db = Inr db' \<Longrightarrow>
     b_get B db' = b_get B db \<and> (\<forall>b. b_has B db' b \<longleftrightarrow> b \<in> set ns \<or> b_has B db b)"
proof (induction ns arbitrary: db)
  case (Cons n ns)
  then obtain db1 where c: "b_create B db n = Inr db1" and r: "create_buckets B ns db1 = Inr db'"
    by (auto split: sum.splits)
  from Cons.IH[OF r] create_D[OF c] show ?case by auto
qed simp

lemma migrate_versions:
  assumes "v \<le> SchemaVersion" "run_migrations migrations v db = Some (Inr db')"
  shows "db' = db \<and> v = SchemaVersion"
proof (cases "v = 0")
  case True
  with assms show ?thesis by (simp add: migrations_def run_migrations_zero)
next
  case False
  then have "v = SchemaVersion"
    using assms(1) by (simp add: SchemaVersion_def word_le_nat_alt unat_eq_zero [symmetric] word_unat_eq_iff)
  with assms show ?thesis by simp
qed

lemma store_migrate_ok:
  assumes "store_migrate B db = Some (Inr db')"
  shows "set bucketNames \<subseteq> {b. b_has B db' b}
    \<and> b_get B db' = (b_get B db)(''meta'' := (b_get B db ''meta'')(''schema_version'' \<mapsto> Bytes (be_bytes SchemaVersion)))"
proof -
  from assms obtain db1 where c: "create_buckets B bucketNames db = Inr db1"
    by (auto simp: store_migrate_def split: sum.splits)
  have "b_put B db1 ''meta'' ''schema_version'' (Bytes (be_bytes SchemaVersion)) = Inr db'"
    using assms c
    by (auto simp: store_migrate_def put_uint64_def split: option.splits if_splits sum.splits
        dest!: migrate_versions[rotated])
  from put_D[OF this] create_buckets_D[OF c] show ?thesis by auto
qed

end

section \<open>Properties\<close>

text \<open>
  Opening a database.  When it succeeds every bucket of the schema exists, the version on
  disk is the one this binary understands, and no other stored value has changed; a database whose
  version is newer is refused.
\<close>

theorem store_Open_correct:
  assumes "bolt_laws B"
  shows "(store_Open B (Inr db) = Some (Inr db') \<longrightarrow>
      set bucketNames \<subseteq> {b. b_has B db' b}
    \<and> store_Get B db' ''meta'' ''schema_version'' = Inr (Some (Bytes (be_bytes SchemaVersion)))
    \<and> (\<forall>b k. (b, k) \<noteq> (''meta'', ''schema_version'') \<longrightarrow> b_get B db' b k = b_get B db b k))
   \<and> (b_get B db ''meta'' ''schema_version'' = Some (Bytes (be_bytes v)) \<and> SchemaVersion < v \<longrightarrow>
      (\<exists>e. store_Open B (Inr db) = Some (Inl e)))"
proof -
  have laws: "bolt_db B" by (rule bolt_db.intro[OF assms])
  have "\<exists>e. store_migrate B db = Some (Inl e)"
    if "b_get B db ''meta'' ''schema_version'' = Some (Bytes (be_bytes v))" "SchemaVersion < v"
  proof (cases "create_buckets B bucketNames db")
    case (Inr db1)
    then have "b_get B db1 = b_get B db" using bolt_db.create_buckets_D[OF laws] by blast
    with Inr that show ?thesis by (simp add: store_migrate_def)
  qed (simp add: store_migrate_def)
  moreover have "set bucketNames \<subseteq> {b. b_has B db' b}
      \<and> b_get B db' = (b_get B db)(''meta'' := (b_get B db ''meta'')(''schema_version'' \<mapsto> Bytes (be_bytes SchemaVersion)))"
    if "store_migrate B db = Some (Inr db')"
    using bolt_db.store_migrate_ok[OF laws that] .
  ultimately show ?thesis
    by (auto simp: store_Open_def store_Get_def bucketNames_def)
qed

definition mem_open :: mem_db where
  "mem_open = (case store_Open mem_bolt (Inr []) of Some (Inr db) \<Rightarrow> db | _ \<Rightarrow> [])"

lemma mem_open: "store_Open mem_bolt (Inr []) = Some (Inr mem_open)"
  by code_simp

theorem store_Open_correct_witness:
  "set bucketNames \<subseteq> {b. b_has mem_bolt mem_open b} \<and>
   store_Get mem_bolt mem_open ''meta'' ''schema_version'' = Inr (Some (Bytes (be_bytes SchemaVersion)))"
  using store_Open_correct[OF mem_bolt_laws, of "[]" mem_open] mem_open by blast

text \<open>
  A database whose stored schema version is zero makes \<open>Open\<close> panic: the guard against a
  missing migration converts the unsigned \<open>v - 1\<close> to a signed integer, so -1 passes it and
  indexes the (empty) list of migrations.
\<close>

theorem store_Open_version_zero_panics:
  assumes "bolt_laws B" and "create_buckets B bucketNames db = Inr db1"
    and "b_get B db ''meta'' ''schema_version'' = Some (Bytes (be_bytes 0))"
  shows "store_Open B (Inr db) = None"
proof -
  have "b_get B db1 = b_get B db"
    using bolt_db.create_buckets_D[OF bolt_db.intro[OF assms(1)] assms(2)] by blast
  with assms show ?thesis
    by (simp add: store_Open_def store_migrate_def migrations_def run_migrations_zero SchemaVersion_def)
qed

definition mem_version_zero :: mem_db where
  "mem_version_zero =
     AList.update ''meta'' \<lparr>mb_seq = 0, mb_kvs = [(''schema_version'', Bytes (be_bytes 0))]\<rparr> mem_open"

theorem store_Open_version_zero_panics_witness:
  "store_Open mem_bolt (Inr mem_version_zero) = None"
proof -
  have "create_buckets mem_bolt bucketNames mem_version_zero = Inr mem_version_zero" by code_simp
  moreover have "b_get mem_bolt mem_version_zero ''meta'' ''schema_version'' = Some (Bytes (be_bytes 0))"
    by code_simp
  ultimately show ?thesis using store_Open_version_zero_panics[OF mem_bolt_laws] by blast
qed

end
