(* ===== verification/Routing.thy ===== *)
theory Routing
  imports Prelude
begin

text \<open>
  Self-routing identifiers (\<^verbatim>\<open>internal/ids/ids.go\<close>) and the node directory
  (\<^verbatim>\<open>internal/routing/table.go\<close>).  The ULID library is the parameter \<open>u\<close>: \<open>u i\<close> is the i-th
  identifier drawn from the generator.  \<open>ulid_laws\<close> says what the library documents: distinct
  draws, non-empty, in Crockford's base 32 (so without a dot).
\<close>

record Gen =
  g_node :: string
  g_next :: nat

definition NewGen :: "string \<Rightarrow> Gen" where
  "NewGen nodeID = \<lparr>g_node = nodeID, g_next = 0\<rparr>"

definition newULID :: "(nat \<Rightarrow> string) \<Rightarrow> Gen \<Rightarrow> string \<times> Gen" where
  "newULID u g = (u (g_next g), g\<lparr>g_next := Suc (g_next g)\<rparr>)"

definition Gen_Sandbox :: "(nat \<Rightarrow> string) \<Rightarrow> Gen \<Rightarrow> string \<times> Gen" where
  "Gen_Sandbox u g = (let (x, g') = newULID u g in (g_node g @ ''.'' @ x, g'))"

definition Gen_Op :: "(nat \<Rightarrow> string) \<Rightarrow> Gen \<Rightarrow> string \<times> Gen" where
  "Gen_Op u g = (let (x, g') = newULID u g in (g_node g @ ''.'' @ x, g'))"

definition ids_Owner :: "string \<Rightarrow> string option" where
  "ids_Owner sid =
     (case index_byte (CHR ''.'') sid of
        None \<Rightarrow> None
      | Some i \<Rightarrow> if i = 0 \<or> i = length sid - 1 then None else Some (take i sid))"

definition ulid_laws :: "(nat \<Rightarrow> string) \<Rightarrow> bool" where
  "ulid_laws u \<longleftrightarrow> inj u \<and> (\<forall>i. u i \<noteq> [] \<and> CHR ''.'' \<notin> set (u i))"

section \<open>The table\<close>

record rt_entry =
  en_addr :: string
  en_pubkey :: string

record Table =
  t_self :: string
  t_m :: "(string, rt_entry) gomap"

definition NewTable :: "string \<Rightarrow> Table" where
  "NewTable self = \<lparr>t_self = self, t_m = []\<rparr>"

definition Table_Upsert :: "string \<Rightarrow> string \<Rightarrow> string \<Rightarrow> Table \<Rightarrow> Table" where
  "Table_Upsert nodeID addr pubkey t =
     (let e = (case map_of (t_m t) nodeID of None \<Rightarrow> \<lparr>en_addr = '''', en_pubkey = ''''\<rparr> | Some e \<Rightarrow> e);
          e = e\<lparr>en_addr := addr\<rparr>;
          e = (if pubkey \<noteq> [] then e\<lparr>en_pubkey := pubkey\<rparr> else e)
      in t\<lparr>t_m := AList.update nodeID e (t_m t)\<rparr>)"

definition Table_PubKey :: "Table \<Rightarrow> string \<Rightarrow> string option" where
  "Table_PubKey t nodeID =
     (case map_of (t_m t) nodeID of
        None \<Rightarrow> None
      | Some e \<Rightarrow> if en_pubkey e = [] then None else Some (en_pubkey e))"

definition Table_Remove :: "string \<Rightarrow> Table \<Rightarrow> Table" where
  "Table_Remove nodeID t = t\<lparr>t_m := AList.delete nodeID (t_m t)\<rparr>"

definition Table_Owner :: "string \<Rightarrow> string option" where
  "Table_Owner sid =
     (case index_byte (CHR ''.'') sid of
        None \<Rightarrow> None
      | Some i \<Rightarrow> if i = 0 then None else Some (take i sid))"

definition Table_IsLocal :: "Table \<Rightarrow> string \<Rightarrow> bool" where
  "Table_IsLocal t sid = (case Table_Owner sid of None \<Rightarrow> False | Some owner \<Rightarrow> owner = t_self t)"

definition Table_Addr :: "Table \<Rightarrow> string \<Rightarrow> string option" where
  "Table_Addr t nodeID = map_option en_addr (map_of (t_m t) nodeID)"

definition Table_Peers :: "Table \<Rightarrow> string list" where
  "Table_Peers t = filter (\<lambda>n. n \<noteq> t_self t) (map fst (t_m t))"

section \<open>Lemmas\<close>

lemma Gen_Op_Sandbox: "Gen_Op = Gen_Sandbox"
  by (simp add: fun_eq_iff Gen_Op_def Gen_Sandbox_def)

lemma g_node_Sandbox [simp]: "g_node (snd (Gen_Sandbox u g)) = g_node g"
  by (simp add: Gen_Sandbox_def newULID_def)

lemma fst_Gen_Sandbox: "fst (Gen_Sandbox u g) = g_node g @ CHR ''.'' # u (g_next g)"
  by (simp add: Gen_Sandbox_def newULID_def)

lemma snd_Gen_Sandbox: "snd (Gen_Sandbox u g) = g\<lparr>g_next := Suc (g_next g)\<rparr>"
  by (simp add: Gen_Sandbox_def newULID_def)

lemma ids_Owner_append:
  "n \<noteq> [] \<Longrightarrow> CHR ''.'' \<notin> set n \<Longrightarrow> x \<noteq> [] \<Longrightarrow> ids_Owner (n @ CHR ''.'' # x) = Some n"
  by (simp add: ids_Owner_def index_byte_append_notin)

lemma Table_Owner_append:
  "n \<noteq> [] \<Longrightarrow> CHR ''.'' \<notin> set n \<Longrightarrow> Table_Owner (n @ CHR ''.'' # x) = Some n"
  by (simp add: Table_Owner_def index_byte_append_notin)

lemma ids_Owner_Table: "ids_Owner sid = Some n \<Longrightarrow> Table_Owner sid = Some n"
  by (auto simp: ids_Owner_def Table_Owner_def split: option.splits if_splits)

lemma Table_PubKey_Upsert:
  "Table_PubKey (Table_Upsert n a p t) m =
     (if m = n \<and> p \<noteq> [] then Some p else Table_PubKey t m)"
  by (auto simp: Table_PubKey_def Table_Upsert_def Let_def split: option.splits)

lemma Table_Addr_Upsert:
  "Table_Addr (Table_Upsert n a p t) m = (if m = n then Some a else Table_Addr t m)"
  by (auto simp: Table_Addr_def Table_Upsert_def Let_def)

lemma Table_PubKey_Remove:
  "Table_PubKey (Table_Remove n t) m = (if m = n then None else Table_PubKey t m)"
  by (simp add: Table_PubKey_def Table_Remove_def)

lemma Table_Addr_Remove: "Table_Addr (Table_Remove n t) m = (if m = n then None else Table_Addr t m)"
  by (simp add: Table_Addr_def Table_Remove_def)

text \<open>A run of meta-tier updates: addresses only, no key.\<close>

lemma Table_PubKey_meta_updates:
  "Table_PubKey (fold (\<lambda>(n, a). Table_Upsert n a []) ups t) m = Table_PubKey t m"
  by (induction ups arbitrary: t) (auto simp: Table_PubKey_Upsert)

section \<open>Properties\<close>

text \<open>
  Identifiers route themselves.  An identifier minted by a node whose id is non-empty and has
  no dot is owned by that node for the id package and for the routing table of every node, it is
  local exactly at that node, and the next one minted differs from it.
\<close>

theorem minted_id_routes_to_minter:
  assumes "ulid_laws u" and "g_node g \<noteq> []" and "CHR ''.'' \<notin> set (g_node g)"
    and "Gen_Sandbox u g = (sid, g')" and "Gen_Op u g' = (sid', g'')"
  shows "ids_Owner sid = Some (g_node g) \<and> Table_Owner sid = Some (g_node g)
    \<and> (Table_IsLocal t sid \<longleftrightarrow> t_self t = g_node g) \<and> sid' \<noteq> sid \<and> ids_Owner sid' = Some (g_node g)"
proof -
  have sid: "sid = g_node g @ CHR ''.'' # u (g_next g)" and g': "g' = g\<lparr>g_next := Suc (g_next g)\<rparr>"
    using assms(4) fst_Gen_Sandbox[of u g] snd_Gen_Sandbox[of u g] by simp_all
  have sid': "sid' = g_node g @ CHR ''.'' # u (Suc (g_next g))"
    using assms(5) fst_Gen_Sandbox[of u g'] g' by (simp add: Gen_Op_Sandbox)
  have u: "u i \<noteq> []" "u i = u j \<longleftrightarrow> i = j" for i j
    using assms(1) by (auto simp: ulid_laws_def inj_eq)
  show ?thesis
    using assms(2,3) u
    by (auto simp: sid sid' ids_Owner_append Table_Owner_append Table_IsLocal_def)
qed

definition example_ulid :: "nat \<Rightarrow> string" where "example_ulid i = CHR ''0'' # dec_digits i"

lemma example_ulid_laws: "ulid_laws example_ulid"
  by (auto simp: ulid_laws_def example_ulid_def inj_def dec_digits_plain)

theorem minted_id_routes_to_minter_witness:
  "ids_Owner ''node1.00'' = Some ''node1''"
proof -
  have "Gen_Sandbox example_ulid (NewGen ''node1'') = (''node1.00'', \<lparr>g_node = ''node1'', g_next = 1\<rparr>)"
    "Gen_Op example_ulid \<lparr>g_node = ''node1'', g_next = 1\<rparr> = (''node1.01'', \<lparr>g_node = ''node1'', g_next = 2\<rparr>)"
    by code_simp+
  then show ?thesis
    using minted_id_routes_to_minter[OF example_ulid_laws, of "NewGen ''node1''"]
    by (simp add: NewGen_def)
qed

text \<open>
  The routing table keeps the last pinned key of every node through any run of address-only
  updates, reports the address last recorded, and forgets both when the node is removed.
\<close>

theorem Table_updates:
  "Table_PubKey (fold (\<lambda>(n, a). Table_Upsert n a []) ups (Table_Upsert n a (c # key) t)) m
     = (if m = n then Some (c # key) else Table_PubKey t m)
   \<and> Table_Addr (Table_Upsert n a key' t) m = (if m = n then Some a else Table_Addr t m)
   \<and> Table_PubKey (Table_Remove n t) m = (if m = n then None else Table_PubKey t m)
   \<and> Table_Addr (Table_Remove n t) m = (if m = n then None else Table_Addr t m)"
  by (simp add: Table_PubKey_meta_updates Table_PubKey_Upsert Table_Addr_Upsert
      Table_PubKey_Remove Table_Addr_Remove)

end
