(* ===== verification/Events.thy ===== *)
theory Events
  imports Prelude
begin

text \<open>
  The best-effort event bus (\<^verbatim>\<open>internal/events\<close>) and its consumers in
  \<^verbatim>\<open>internal/apiserver/watchevents.go\<close> and \<^verbatim>\<open>sse.go\<close>: the deduplicating merger and the
  replay cursor.  A subscriber's channel is the list of events waiting in its buffer of 64.  The
  step relation \<open>bus_run\<close> records the history of everything published, and the lemmas relate the
  ring buffer and the subscribers' channels to that history.

  A payload is the string map it encodes (\<open>None\<close> for \<^verbatim>\<open>nil\<close>); the clock value is an argument of
  \<open>Bus_Publish\<close>.
\<close>

type_synonym payload = "(string, string) gomap option"

record Event =
  ev_ID :: string
  ev_Seq :: "64 word"
  ev_TS :: gotime
  ev_Type :: string
  ev_NodeID :: string
  ev_SandboxID :: string
  ev_Payload :: payload

record Filter =
  fl_Types :: "string list"
  fl_SandboxID :: string

definition Filter_matches :: "Filter \<Rightarrow> Event \<Rightarrow> bool" where
  "Filter_matches f e =
     (if fl_SandboxID f \<noteq> '''' \<and> ev_SandboxID e \<noteq> fl_SandboxID f then False
      else if fl_Types f = [] then True
      else list_ex (\<lambda>t. t = ev_Type e) (fl_Types f))"

record subscription =
  su_filter :: Filter
  su_ch :: "Event list"

record Bus =
  bu_nodeID :: string
  bu_seq :: "64 word"
  bu_ring :: "Event list"
  bu_size :: nat
  bu_subs :: "(int, subscription) gomap"
  bu_nextID :: int

definition NewBus :: "string \<Rightarrow> int \<Rightarrow> Bus" where
  "NewBus nodeID bufSize =
     (let bufSize = (if bufSize \<le> 0 then 256 else bufSize) in
      \<lparr>bu_nodeID = nodeID, bu_seq = 0, bu_ring = [], bu_size = nat bufSize, bu_subs = [], bu_nextID = 0\<rparr>)"

definition chan_cap :: nat where "chan_cap = 64"

text \<open>The select with a default: the event is appended unless the buffer is full.\<close>

definition offer :: "Event \<Rightarrow> subscription \<Rightarrow> subscription" where
  "offer e s =
     (if \<not> Filter_matches (su_filter s) e then s
      else if length (su_ch s) < chan_cap then s\<lparr>su_ch := su_ch s @ [e]\<rparr> else s)"

definition event_id :: "string \<Rightarrow> 64 word \<Rightarrow> string" where
  "event_id nodeID seq = nodeID @ CHR ''-'' # format_int (uint seq)"

definition Bus_Publish :: "gotime \<Rightarrow> string \<Rightarrow> string \<Rightarrow> payload \<Rightarrow> Bus \<Rightarrow> Event \<times> Bus" where
  "Bus_Publish now eventType sandboxID pl b =
     (let seq = bu_seq b + 1;
          e = \<lparr>ev_ID = event_id (bu_nodeID b) seq, ev_Seq = seq, ev_TS = now, ev_Type = eventType,
               ev_NodeID = bu_nodeID b, ev_SandboxID = sandboxID, ev_Payload = pl\<rparr>;
          ring = bu_ring b @ [e];
          ring = (if length ring > bu_size b then drop (length ring - bu_size b) ring else ring)
      in (e, b\<lparr>bu_seq := seq, bu_ring := ring,
               bu_subs := map (\<lambda>(k, s). (k, offer e s)) (bu_subs b)\<rparr>))"

definition Bus_Replay :: "Filter \<Rightarrow> 64 word \<Rightarrow> Bus \<Rightarrow> Event list" where
  "Bus_Replay f sinceSeq b = filter (\<lambda>e. ev_Seq e > sinceSeq \<and> Filter_matches f e) (bu_ring b)"

definition Bus_Subscribe :: "Filter \<Rightarrow> Bus \<Rightarrow> int \<times> Bus" where
  "Bus_Subscribe f b =
     (bu_nextID b,
      b\<lparr>bu_nextID := bu_nextID b + 1,
        bu_subs := AList.update (bu_nextID b) \<lparr>su_filter = f, su_ch = []\<rparr> (bu_subs b)\<rparr>)"

text \<open>The cancel function: deleting twice is harmless.\<close>

definition Bus_cancel :: "int \<Rightarrow> Bus \<Rightarrow> Bus" where
  "Bus_cancel i b = b\<lparr>bu_subs := AList.delete i (bu_subs b)\<rparr>"

text \<open>A receive on a subscriber's channel; \<open>None\<close> when nothing waits there.\<close>

definition Bus_recv :: "int \<Rightarrow> Bus \<Rightarrow> Event option \<times> Bus" where
  "Bus_recv i b =
     (case map_of (bu_subs b) i of
        None \<Rightarrow> (None, b)
      | Some s \<Rightarrow>
          (case su_ch s of
             [] \<Rightarrow> (None, b)
           | e # es \<Rightarrow> (Some e, b\<lparr>bu_subs := AList.update i (s\<lparr>su_ch := es\<rparr>) (bu_subs b)\<rparr>)))"

section \<open>The merger and the replay cursor\<close>

definition mergerSeenCap :: nat where "mergerSeenCap = 512"

definition markSeen :: "string \<Rightarrow> string list \<Rightarrow> bool \<times> string list" where
  "markSeen i seen =
     (if i \<in> set seen then (False, seen)
      else let seen = seen @ [i] in
        (True, if length seen > mergerSeenCap then drop (length seen - mergerSeenCap) seen else seen))"

text \<open>
  \<^verbatim>\<open>Consume\<close> over the events as they arrive at \<^verbatim>\<open>markSeen\<close> (the mutex orders the channels), with
  the events it forwards.
\<close>

fun Merger_Consume :: "string list \<Rightarrow> Event list \<Rightarrow> Event list \<times> string list" where
  "Merger_Consume seen [] = ([], seen)"
| "Merger_Consume seen (e # es) =
     (let (fresh, seen') = markSeen (ev_ID e) seen; (out, seen'') = Merger_Consume seen' es
      in (if fresh then e # out else out, seen''))"

text \<open>\<^verbatim>\<open>strconv.ParseUint(s, 10, 64)\<close>.\<close>

definition parse_uint64 :: "string \<Rightarrow> 64 word option" where
  "parse_uint64 s = (case parse_uint s of None \<Rightarrow> None | Some n \<Rightarrow> if n < 2 ^ 64 then Some (of_nat n) else None)"

definition parseSinceSeq :: "string \<Rightarrow> 64 word" where
  "parseSinceSeq lastID =
     (if lastID = '''' then 0
      else case last_index_byte (CHR ''-'') lastID of
             None \<Rightarrow> 0
           | Some i \<Rightarrow>
               if i = length lastID - 1 then 0
               else (case parse_uint64 (drop (Suc i) lastID) of None \<Rightarrow> 0 | Some n \<Rightarrow> n))"

text \<open>
  \<^verbatim>\<open>WatchEvents\<close> and the local part of the SSE handlers: what the client is sent before the
  live phase, and the subscription that feeds it.
\<close>

definition WatchEvents_open :: "Filter \<Rightarrow> 64 word \<Rightarrow> Bus \<Rightarrow> Event list \<times> int \<times> Bus" where
  "WatchEvents_open f since b =
     (let backfill = Bus_Replay f since b; (i, b') = Bus_Subscribe f b in (backfill, i, b'))"

definition sse_filter :: "string \<Rightarrow> string \<Rightarrow> Filter" where
  "sse_filter sandbox types =
     \<lparr>fl_Types = (if types = '''' then [] else split_on (CHR '','') types), fl_SandboxID = sandbox\<rparr>"

definition SSEHandler_open :: "string \<Rightarrow> string \<Rightarrow> string \<Rightarrow> Bus \<Rightarrow> Event list \<times> int \<times> Bus" where
  "SSEHandler_open sandbox types lastEventID b =
     WatchEvents_open (sse_filter sandbox types) (parseSinceSeq lastEventID) b"

section \<open>The history of a bus\<close>

inductive bus_run :: "Bus \<Rightarrow> Event list \<Rightarrow> bool" where
  bus_new: "bus_run (NewBus n s) []"
| bus_publish: "bus_run b hs \<Longrightarrow> Bus_Publish now t sb pl b = (e, b') \<Longrightarrow> bus_run b' (hs @ [e])"
| bus_subscribe: "bus_run b hs \<Longrightarrow> Bus_Subscribe f b = (i, b') \<Longrightarrow> bus_run b' hs"
| bus_cancelled: "bus_run b hs \<Longrightarrow> bus_run (Bus_cancel i b) hs"
| bus_received: "bus_run b hs \<Longrightarrow> Bus_recv i b = (r, b') \<Longrightarrow> bus_run b' hs"

definition sub_ok :: "Event list \<Rightarrow> subscription \<Rightarrow> bool" where
  "sub_ok hs s \<longleftrightarrow> length (su_ch s) \<le> chan_cap \<and> subseq (su_ch s) (filter (Filter_matches (su_filter s)) hs)"

definition hist_ok :: "string \<Rightarrow> Event list \<Rightarrow> bool" where
  "hist_ok n hs \<longleftrightarrow> map ev_Seq hs = map of_nat [1..<Suc (length hs)]
     \<and> list_all (\<lambda>e. ev_ID e = event_id n (ev_Seq e) \<and> ev_NodeID e = n) hs"

definition bus_inv :: "Bus \<Rightarrow> Event list \<Rightarrow> bool" where
  "bus_inv b hs \<longleftrightarrow>
     0 < bu_size b \<and> bu_ring b = drop (length hs - bu_size b) hs \<and> bu_seq b = of_nat (length hs)
   \<and> hist_ok (bu_nodeID b) hs \<and> list_all (\<lambda>(k, s). sub_ok hs s) (bu_subs b)"

lemma sub_ok_offer: "sub_ok hs s \<Longrightarrow> sub_ok (hs @ [e]) (offer e s)"
proof -
  assume ok: "sub_ok hs s"
  let ?f = "Filter_matches (su_filter s)"
  have "subseq (su_ch s) (filter ?f (hs @ [e]))"
    using ok by (auto simp: sub_ok_def intro: subseq_order.trans)
  moreover have "subseq (su_ch s @ [e]) (filter ?f (hs @ [e]))" if "?f e"
    using ok that by (auto simp: sub_ok_def intro: list_emb_append_mono)
  ultimately show ?thesis using ok by (auto simp: offer_def sub_ok_def)
qed

lemma hist_ok_snoc:
  assumes "hist_ok n hs" "ev_Seq e = of_nat (Suc (length hs))" "ev_ID e = event_id n (ev_Seq e)" "ev_NodeID e = n"
  shows "hist_ok n (hs @ [e])"
  using assms by (auto simp: hist_ok_def)

lemma ring_step:
  assumes "0 < sz"
  shows "(let ring = drop (length hs - sz) hs @ [e]
          in if length ring > sz then drop (length ring - sz) ring else ring)
    = drop (length (hs @ [e]) - sz) (hs @ [e])"
  using assms by (cases "sz \<le> length hs") (auto simp: Let_def Suc_diff_le)

lemma bus_inv_publish:
  assumes "bus_inv b hs" "Bus_Publish now t sb pl b = (e, b')"
  shows "bus_inv b' (hs @ [e])"
proof -
  have b': "bu_size b' = bu_size b" "bu_nodeID b' = bu_nodeID b" "bu_seq b' = bu_seq b + 1"
    "bu_subs b' = map (\<lambda>(k, s). (k, offer e s)) (bu_subs b)" "ev_Seq e = bu_seq b + 1"
    "ev_ID e = event_id (bu_nodeID b) (ev_Seq e)" "ev_NodeID e = bu_nodeID b"
    using assms(2) by (auto simp: Bus_Publish_def Let_def)
  have "bu_ring b' = drop (length (hs @ [e]) - bu_size b) (hs @ [e])"
    using assms ring_step[of "bu_size b" hs e] by (auto simp: Bus_Publish_def bus_inv_def Let_def)
  moreover have "hist_ok (bu_nodeID b) (hs @ [e])"
    using assms(1) b' by (intro hist_ok_snoc) (auto simp: bus_inv_def)
  moreover have "list_all (\<lambda>(k, s). sub_ok (hs @ [e]) s) (bu_subs b')"
    using assms(1) b' sub_ok_offer by (fastforce simp: bus_inv_def list_all_iff)
  ultimately show ?thesis using assms(1) b' by (simp add: bus_inv_def)
qed

lemma sub_ok_tl: "sub_ok hs s \<Longrightarrow> su_ch s = e # es \<Longrightarrow> sub_ok hs (s\<lparr>su_ch := es\<rparr>)"
  by (auto simp: sub_ok_def dest: subseq_Cons')

lemma set_update_subset: "set (AList.update k v m) \<subseteq> insert (k, v) (set m)"
  by (induction m) auto

lemma bus_run_inv: "bus_run b hs \<Longrightarrow> bus_inv b hs"
proof (induction rule: bus_run.induct)
  case (bus_new n s)
  then show ?case by (simp add: NewBus_def bus_inv_def hist_ok_def Let_def)
next
  case (bus_publish b hs now t sb pl e b')
  then show ?case using bus_inv_publish by blast
next
  case (bus_subscribe b hs f i b')
  then show ?case
    using set_update_subset[of i "\<lparr>su_filter = f, su_ch = []\<rparr>" "bu_subs b"]
    by (fastforce simp: Bus_Subscribe_def bus_inv_def list_all_iff sub_ok_def)
next
  case (bus_cancelled b hs i)
  then show ?case by (auto simp: Bus_cancel_def bus_inv_def list_all_iff set_delete_conv)
next
  case (bus_received b hs i r b')
  show ?case
  proof (cases "map_of (bu_subs b) i")
    case None
    with bus_received show ?thesis by (simp add: Bus_recv_def)
  next
    case (Some s)
    then have s: "sub_ok hs s" using bus_received.IH map_of_SomeD[OF Some]
      by (auto simp: bus_inv_def list_all_iff)
    show ?thesis
    proof (cases "su_ch s")
      case Nil
      with Some bus_received show ?thesis by (simp add: Bus_recv_def)
    next
      case (Cons e es)
      with Some bus_received.hyps have "b' = b\<lparr>bu_subs := AList.update i (s\<lparr>su_ch := es\<rparr>) (bu_subs b)\<rparr>"
        by (simp add: Bus_recv_def)
      with bus_received.IH sub_ok_tl[OF s Cons] show ?thesis
        using set_update_subset[of i "s\<lparr>su_ch := es\<rparr>" "bu_subs b"]
        by (fastforce simp: bus_inv_def list_all_iff)
    qed
  qed
qed

section \<open>Cursors\<close>

lemma parseSinceSeq_event_id [simp]: "parseSinceSeq (event_id n s) = s"
proof -
  have d: "CHR ''-'' \<notin> set (format_int (uint s))"
    using dec_digits_plain by (simp add: format_int_def)
  have "format_int (uint s) = dec_digits (unat s)" by (simp add: format_int_def)
  then have "parse_uint64 (format_int (uint s)) = Some s"
    using unsigned_less[of s] by (simp add: parse_uint64_def parse_uint_def parse_dec_digits)
  moreover have "format_int (uint s) \<noteq> []" by (simp add: format_int_def)
  ultimately show ?thesis
    by (simp add: parseSinceSeq_def event_id_def last_index_byte_append[OF d])
qed

lemma hist_ok_nth:
  "hist_ok n hs \<Longrightarrow> i < length hs \<Longrightarrow> ev_Seq (hs ! i) = of_nat (Suc i) \<and> ev_ID (hs ! i) = event_id n (of_nat (Suc i))"
proof -
  assume h: "hist_ok n hs" and i: "i < length hs"
  have "map ev_Seq hs ! i = map of_nat [1..<Suc (length hs)] ! i" using h by (simp only: hist_ok_def)
  then have "ev_Seq (hs ! i) = of_nat (Suc i)" using i by (simp del: upt_Suc)
  with h i show ?thesis by (auto simp: hist_ok_def list_all_length)
qed

lemma filter_after:
  assumes "hist_ok n hs" "length hs < 2 ^ 64" "k \<le> m" "m \<le> length hs"
  shows "filter (\<lambda>e. of_nat m < ev_Seq e) (drop k hs) = drop m hs"
proof -
  have cmp: "(of_nat m < (of_nat (Suc i) :: 64 word)) \<longleftrightarrow> m < Suc i" if "i < length hs" for i
    using that assms(2,4) by (simp add: word_less_nat_alt unat_of_nat del: of_nat_Suc)
  have lt: "(of_nat m < ev_Seq (hs ! i)) \<longleftrightarrow> m < Suc i" if "i < length hs" for i
    using cmp[OF that] hist_ok_nth[OF assms(1) that] by simp
  have "drop k hs = drop k (take m hs) @ drop m hs"
    using assms(3,4) by (metis append_take_drop_id drop_append diff_is_0_eq drop_0 length_take min.absorb2)
  moreover have "filter (\<lambda>e. of_nat m < ev_Seq e) (drop k (take m hs)) = []"
    using lt assms(4) by (fastforce simp: filter_empty_conv in_set_conv_nth)
  moreover have "filter (\<lambda>e. of_nat m < ev_Seq e) (drop m hs) = drop m hs"
    using lt by (fastforce simp: filter_id_conv in_set_conv_nth)
  ultimately show ?thesis by simp
qed

section \<open>The merger's window\<close>

definition lastn :: "nat \<Rightarrow> 'a list \<Rightarrow> 'a list" where
  "lastn n xs = drop (length xs - n) xs"

definition windowed :: "nat \<Rightarrow> 'a list \<Rightarrow> bool" where
  "windowed n xs \<longleftrightarrow> (\<forall>i j. i < j \<and> j < length xs \<and> j - i \<le> n \<longrightarrow> xs ! i \<noteq> xs ! j)"

lemma windowed_snoc:
  assumes "windowed n xs" "x \<notin> set (lastn n xs)"
  shows "windowed n (xs @ [x])"
proof -
  have "xs ! i \<noteq> x" if "i < length xs" "length xs - i \<le> n" for i
  proof -
    have "lastn n xs ! (i - (length xs - n)) = xs ! i" "i - (length xs - n) < length (lastn n xs)"
      using that by (auto simp: lastn_def)
    then show ?thesis using assms(2) nth_mem by metis
  qed
  with assms(1) show ?thesis
    by (auto simp: windowed_def nth_append less_Suc_eq)
qed

lemma lastn_snoc: "lastn n xs @ [x] = lastn n (xs @ [x]) \<or> length xs \<ge> n"
  by (auto simp: lastn_def)

lemma markSeen_lastn:
  assumes "seen = lastn mergerSeenCap pre" "i \<notin> set seen"
  shows "markSeen i seen = (True, lastn mergerSeenCap (pre @ [i]))"
  using assms ring_step[of mergerSeenCap pre i]
  by (simp add: markSeen_def lastn_def mergerSeenCap_def Let_def)

lemma Merger_Consume_inv:
  assumes "Merger_Consume seen es = (out, seen')" "seen = lastn mergerSeenCap pre" "windowed mergerSeenCap pre"
  shows "seen' = lastn mergerSeenCap (pre @ map ev_ID out) \<and> windowed mergerSeenCap (pre @ map ev_ID out)
    \<and> subseq out es \<and> ev_ID ` set es \<subseteq> set pre \<union> ev_ID ` set out"
  using assms
proof (induction es arbitrary: seen pre out)
  case Nil
  then show ?case by simp
next
  case (Cons e es)
  have sub: "set seen \<subseteq> set pre" using Cons.prems(2) by (auto simp: lastn_def dest: in_set_dropD)
  show ?case
  proof (cases "ev_ID e \<in> set seen")
    case True
    with Cons.prems(1) have "Merger_Consume seen es = (out, seen')"
      by (auto simp: markSeen_def split: prod.splits)
    from Cons.IH[OF this Cons.prems(2,3)] sub True show ?thesis by auto
  next
    case False
    let ?pre = "pre @ [ev_ID e]"
    from Cons.prems(1) obtain out' where
      o: "Merger_Consume (lastn mergerSeenCap ?pre) es = (out', seen')" "out = e # out'"
      using markSeen_lastn[OF Cons.prems(2) False] by (auto split: prod.splits)
    have "windowed mergerSeenCap ?pre" using windowed_snoc Cons.prems(2,3) False by metis
    from Cons.IH[OF o(1) refl this] o(2) show ?thesis by auto
  qed
qed

section \<open>Properties\<close>

text \<open>
  A reconnecting client misses nothing that is still buffered.  After any run of publishes,
  subscriptions, cancellations and receives, replaying from the id of the i-th event published
  gives exactly the later events that match the filter, in order, as long as the bus has not yet
  dropped any of them.
\<close>

theorem bus_resume_complete:
  assumes "bus_run b hs" and "length hs < 2 ^ 64" and "i < length hs"
    and "length hs - bu_size b \<le> Suc i"
  shows "Bus_Replay f (parseSinceSeq (ev_ID (hs ! i))) b = filter (Filter_matches f) (drop (Suc i) hs)"
proof -
  have inv: "bus_inv b hs" using bus_run_inv assms(1) .
  then have h: "hist_ok (bu_nodeID b) hs" and r: "bu_ring b = drop (length hs - bu_size b) hs"
    by (simp_all add: bus_inv_def)
  have "ev_ID (hs ! i) = event_id (bu_nodeID b) (of_nat (Suc i))" using hist_ok_nth[OF h assms(3)] by simp
  then have "Bus_Replay f (parseSinceSeq (ev_ID (hs ! i))) b =
      filter (Filter_matches f) (filter (\<lambda>e. of_nat (Suc i) < ev_Seq e) (drop (length hs - bu_size b) hs))"
    by (simp add: Bus_Replay_def r conj_commute del: of_nat_Suc)
  also have "\<dots> = filter (Filter_matches f) (drop (Suc i) hs)"
    using filter_after[OF h assms(2,4)] assms(3) by (simp only: Suc_leI)
  finally show ?thesis .
qed

definition example_bus :: Bus where
  "example_bus = snd (Bus_Publish 2 ''b'' '''' None (snd (Bus_Publish 1 ''a'' '''' None (NewBus ''n'' 8))))"

theorem bus_resume_complete_witness:
  "map ev_ID (Bus_Replay \<lparr>fl_Types = [], fl_SandboxID = ''''\<rparr> (parseSinceSeq ''n-1'') example_bus) = [''n-2'']"
proof -
  let ?b1 = "snd (Bus_Publish 1 ''a'' '''' None (NewBus ''n'' 8))"
  let ?e1 = "fst (Bus_Publish 1 ''a'' '''' None (NewBus ''n'' 8))"
  let ?e2 = "fst (Bus_Publish 2 ''b'' '''' None ?b1)"
  have "bus_run ?b1 ([] @ [?e1])" by (rule bus_publish[OF bus_new]) simp
  then have r: "bus_run example_bus (([] @ [?e1]) @ [?e2])"
    unfolding example_bus_def by (rule bus_publish) simp
  have "ev_ID ?e1 = ''n-1''" "ev_ID ?e2 = ''n-2''" "bu_size example_bus = 8" by code_simp+
  then show ?thesis
    using bus_resume_complete[OF r, of 0 "\<lparr>fl_Types = [], fl_SandboxID = ''''\<rparr>"]
    by (simp add: Filter_matches_def)
qed

text \<open>
  The bus is bounded and orders its events.  In every reachable state the ring holds at most
  its size, the published sequence numbers are consecutive, and every subscriber's channel holds
  at most 64 events, which are a subsequence of the published events its filter matches.
\<close>

theorem bus_bounded:
  assumes "bus_run b hs"
  shows "length (bu_ring b) \<le> bu_size b \<and> map ev_Seq hs = map of_nat [1..<Suc (length hs)]
    \<and> (map_of (bu_subs b) i = Some s \<longrightarrow>
         length (su_ch s) \<le> 64 \<and> subseq (su_ch s) (filter (Filter_matches (su_filter s)) hs))"
  using bus_run_inv[OF assms]
  by (auto simp: bus_inv_def hist_ok_def list_all_iff sub_ok_def chan_cap_def dest: map_of_SomeD)

theorem bus_bounded_witness: "length (bu_ring (NewBus ''n'' 0)) \<le> bu_size (NewBus ''n'' 0)"
  using bus_bounded[OF bus_new[of "''n''" 0]] by blast

text \<open>
  Merging deduplicates.  From an empty window, the events forwarded are a subsequence of those
  consumed, every id consumed is forwarded, two forwarded events at most 512 apart never have the
  same id, and the window stays within its bound.
\<close>

theorem Merger_dedup:
  assumes "Merger_Consume [] es = (out, seen)"
  shows "subseq out es \<and> ev_ID ` set es = ev_ID ` set out \<and> length seen \<le> 512
    \<and> (\<forall>i j. i < j \<and> j < length out \<and> j - i \<le> 512 \<longrightarrow> ev_ID (out ! i) \<noteq> ev_ID (out ! j))"
proof -
  have i: "seen = lastn mergerSeenCap (map ev_ID out)" "windowed mergerSeenCap (map ev_ID out)"
    "subseq out es" "ev_ID ` set es \<subseteq> ev_ID ` set out"
    using Merger_Consume_inv[OF assms, of "[]"] by (simp_all add: lastn_def windowed_def)
  have "set out \<subseteq> set es" using i(3) by (blast elim: list_emb_set)
  with i show ?thesis by (auto simp: lastn_def windowed_def mergerSeenCap_def)
qed

theorem Merger_dedup_witness:
  "let e = fst (Bus_Publish 1 ''a'' '''' None (NewBus ''n'' 8)) in
   ev_ID ` set [e, e] = ev_ID ` set (fst (Merger_Consume [] [e, e]))"
  using Merger_dedup[of "[e, e]" "fst (Merger_Consume [] [e, e])" "snd (Merger_Consume [] [e, e])"
      for e :: Event]
  by (simp only: Let_def prod.collapse)

end
