(* ===== verification/Capacity.thy ===== *)
theory Capacity
  imports Types
begin

text \<open>
  Admission accounting (\<^verbatim>\<open>internal/sandbox/capacity.go\<close>) and the resolved host limits
  (\<^verbatim>\<open>hostlimits.go\<close>).  The tracker's methods each hold its mutex for their whole body, so each is
  one step of the model.  The lemmas show the three facts admission rests on: a reservation is
  granted exactly when it fits, committing or releasing changes what is used by exactly the
  reservation, and usage never exceeds a limit through reservations.
\<close>

record reservation =
  rv_cpu :: rat
  rv_mem :: rat
  rv_disk :: rat

record Capacity =
  limitCPU :: rat
  limitMem :: rat
  limitDisk :: rat
  baseCPU :: rat
  baseMem :: rat
  baseDisk :: rat
  resv :: "(int, reservation) gomap"
  cap_next :: int

definition NewCapacity :: "rat \<Rightarrow> rat \<Rightarrow> rat \<Rightarrow> Capacity" where
  "NewCapacity lc lm ld =
     \<lparr>limitCPU = lc, limitMem = lm, limitDisk = ld, baseCPU = 0, baseMem = 0, baseDisk = 0,
      resv = [], cap_next = 0\<rparr>"

definition usedLocked :: "Capacity \<Rightarrow> rat \<times> rat \<times> rat" where
  "usedLocked c =
     fold (\<lambda>(_, r) (cpu, mem, disk). (cpu + rv_cpu r, mem + rv_mem r, disk + rv_disk r))
       (resv c) (baseCPU c, baseMem c, baseDisk c)"

definition fitsLimit :: "rat \<Rightarrow> rat \<Rightarrow> bool" where
  "fitsLimit used limit \<longleftrightarrow> limit = 0 \<or> used \<le> limit"

definition Capacity_TryReserve :: "rat \<Rightarrow> rat \<Rightarrow> rat \<Rightarrow> Capacity \<Rightarrow> int option \<times> Capacity" where
  "Capacity_TryReserve cpu mem disk c =
     (let (uc, um, ud) = usedLocked c in
      if \<not> fitsLimit (uc + cpu) (limitCPU c) \<or> \<not> fitsLimit (um + mem) (limitMem c)
         \<or> \<not> fitsLimit (ud + disk) (limitDisk c)
      then (None, c)
      else (Some (cap_next c),
            c\<lparr>cap_next := cap_next c + 1,
              resv := AList.update (cap_next c) \<lparr>rv_cpu = cpu, rv_mem = mem, rv_disk = disk\<rparr> (resv c)\<rparr>))"

definition Capacity_Commit :: "int \<Rightarrow> Capacity \<Rightarrow> Capacity" where
  "Capacity_Commit rid c =
     (case map_of (resv c) rid of
        None \<Rightarrow> c
      | Some r \<Rightarrow> c\<lparr>baseCPU := baseCPU c + rv_cpu r, baseMem := baseMem c + rv_mem r,
                    baseDisk := baseDisk c + rv_disk r, resv := AList.delete rid (resv c)\<rparr>)"

definition Capacity_CommitBase :: "rat \<Rightarrow> rat \<Rightarrow> rat \<Rightarrow> int \<Rightarrow> Capacity \<Rightarrow> Capacity" where
  "Capacity_CommitBase cpu mem disk rid c =
     c\<lparr>baseCPU := cpu, baseMem := mem, baseDisk := disk, resv := AList.delete rid (resv c)\<rparr>"

definition Capacity_Release :: "int \<Rightarrow> Capacity \<Rightarrow> Capacity" where
  "Capacity_Release rid c = c\<lparr>resv := AList.delete rid (resv c)\<rparr>"

definition Capacity_SetBase :: "rat \<Rightarrow> rat \<Rightarrow> rat \<Rightarrow> Capacity \<Rightarrow> Capacity" where
  "Capacity_SetBase cpu mem disk c = c\<lparr>baseCPU := cpu, baseMem := mem, baseDisk := disk\<rparr>"

definition Capacity_Limits :: "Capacity \<Rightarrow> rat \<times> rat \<times> rat" where
  "Capacity_Limits c = (limitCPU c, limitMem c, limitDisk c)"

definition Capacity_Snapshot :: "Capacity \<Rightarrow> rat \<times> rat \<times> rat" where
  "Capacity_Snapshot c = usedLocked c"

text \<open>The Linux build: an explicit configured limit wins over the detected one.\<close>

definition resolveLimit :: "rat \<Rightarrow> rat \<Rightarrow> rat" where
  "resolveLimit configured detected = (if configured > 0 then configured else detected)"

section \<open>Invariant\<close>

text \<open>Reservation ids are distinct and below the next id.\<close>

definition cap_inv :: "Capacity \<Rightarrow> bool" where
  "cap_inv c \<longleftrightarrow> distinct (map fst (resv c)) \<and> (\<forall>(i, r) \<in> set (resv c). i < cap_next c)"

definition usedCPU :: "Capacity \<Rightarrow> rat" where
  "usedCPU c = baseCPU c + sum_list (map (rv_cpu \<circ> snd) (resv c))"

definition usedMem :: "Capacity \<Rightarrow> rat" where
  "usedMem c = baseMem c + sum_list (map (rv_mem \<circ> snd) (resv c))"

definition usedDisk :: "Capacity \<Rightarrow> rat" where
  "usedDisk c = baseDisk c + sum_list (map (rv_disk \<circ> snd) (resv c))"

lemma usedLocked_eq: "usedLocked c = (usedCPU c, usedMem c, usedDisk c)"
proof -
  have "fold (\<lambda>(_, r) (cpu, mem, disk). (cpu + rv_cpu r, mem + rv_mem r, disk + rv_disk r)) rs (a, b, d) =
    (a + sum_list (map (rv_cpu \<circ> snd) rs), b + sum_list (map (rv_mem \<circ> snd) rs),
     d + sum_list (map (rv_disk \<circ> snd) rs))" for rs :: "(int, reservation) gomap" and a b d
    by (induction rs arbitrary: a b d) (auto simp: algebra_simps)
  then show ?thesis by (simp add: usedLocked_def usedCPU_def usedMem_def usedDisk_def)
qed

lemma sum_list_delete:
  assumes "distinct (map fst m)" "map_of m k = Some v"
  shows "sum_list (map (f \<circ> snd) (AList.delete k m)) = sum_list (map (f \<circ> snd) m) - (f v :: rat)"
  using assms
proof (induction m)
  case (Cons p m)
  then show ?case by (cases "fst p = k") (auto simp: delete_notin map_of_SomeD_fst)
qed simp

lemma cap_inv_new [inv_intros]: "cap_inv (NewCapacity a b d)"
  by (simp add: cap_inv_def NewCapacity_def)

lemma cap_inv_next_fresh: "cap_inv c \<Longrightarrow> cap_next c \<notin> fst ` set (resv c)"
  by (auto simp: cap_inv_def)

lemma cap_inv_TryReserve [inv_intros]: "cap_inv c \<Longrightarrow> cap_inv (snd (Capacity_TryReserve a b d c))"
  using cap_inv_next_fresh[of c]
  by (auto simp: Capacity_TryReserve_def cap_inv_def Let_def map_fst_update_new split: prod.splits)

lemma cap_inv_delete: "cap_inv c \<Longrightarrow> cap_inv (c\<lparr>resv := AList.delete i (resv c)\<rparr>)"
  by (auto simp: cap_inv_def set_delete_conv distinct_delete)

lemma cap_inv_Commit [inv_intros]: "cap_inv c \<Longrightarrow> cap_inv (Capacity_Commit i c)"
  using cap_inv_delete[of c i] by (auto simp: Capacity_Commit_def cap_inv_def split: option.splits)

lemma cap_inv_CommitBase [inv_intros]: "cap_inv c \<Longrightarrow> cap_inv (Capacity_CommitBase a b d i c)"
  using cap_inv_delete[of c i] by (auto simp: Capacity_CommitBase_def cap_inv_def)

lemma cap_inv_Release [inv_intros]: "cap_inv c \<Longrightarrow> cap_inv (Capacity_Release i c)"
  using cap_inv_delete[of c i] by (auto simp: Capacity_Release_def)

lemma cap_inv_SetBase [inv_intros]: "cap_inv c \<Longrightarrow> cap_inv (Capacity_SetBase a b d c)"
  by (simp add: Capacity_SetBase_def cap_inv_def)

section \<open>The admission contract\<close>

text \<open>
  What the manager relies on when it admits a request: a reservation is granted exactly when the
  request fits on top of what is used, it then counts until it is committed or released, and both
  end it with the right effect.
\<close>

locale admission =
  fixes inv :: "'c \<Rightarrow> bool"
    and used :: "'c \<Rightarrow> 'u"
    and plus :: "'u \<Rightarrow> 'q \<Rightarrow> 'u"
    and fits_in :: "'u \<Rightarrow> 'c \<Rightarrow> bool"
    and held :: "'c \<Rightarrow> int \<Rightarrow> 'q option"
    and reserve :: "'q \<Rightarrow> 'c \<Rightarrow> int option \<times> 'c"
    and commit :: "int \<Rightarrow> 'c \<Rightarrow> 'c"
    and release :: "int \<Rightarrow> 'c \<Rightarrow> 'c"
  assumes plus_inject: "plus u q = plus v q \<Longrightarrow> u = v"
    and reserve_None: "fst (reserve q c) = None \<longleftrightarrow> \<not> fits_in (plus (used c) q) c"
    and reserve_refused: "reserve q c = (None, c') \<Longrightarrow> c' = c"
    and reserve_Some: "inv c \<Longrightarrow> reserve q c = (Some i, c') \<Longrightarrow>
        inv c' \<and> used c' = plus (used c) q \<and> held c i = None \<and> held c' i = Some q"
    and commit_held: "inv c \<Longrightarrow> held c i = Some q \<Longrightarrow>
        inv (commit i c) \<and> used (commit i c) = used c \<and> held (commit i c) i = None"
    and release_held: "inv c \<Longrightarrow> held c i = Some q \<Longrightarrow>
        inv (release i c) \<and> plus (used (release i c)) q = used c \<and> held (release i c) i = None"
begin

lemma granted_fits:
  assumes "inv c" "reserve q c = (Some i, c')"
  shows "fits_in (used c') c"
  using assms reserve_None[of q c] reserve_Some[OF assms] by auto

lemma admit_then_release:
  assumes "inv c" "reserve q c = (Some i, c')"
  shows "used (release i c') = used c"
  using reserve_Some[OF assms] release_held[of c' i q] plus_inject by metis

lemma admit_then_commit:
  assumes "inv c" "reserve q c = (Some i, c')"
  shows "used (commit i c') = plus (used c) q"
  using reserve_Some[OF assms] commit_held[of c' i q] by metis

end

type_synonym amount = "rat \<times> rat \<times> rat"

definition amount_plus :: "amount \<Rightarrow> reservation \<Rightarrow> amount" where
  "amount_plus u r = (case u of (a, b, d) \<Rightarrow> (a + rv_cpu r, b + rv_mem r, d + rv_disk r))"

definition within_limits :: "amount \<Rightarrow> Capacity \<Rightarrow> bool" where
  "within_limits u c =
     (case u of (a, b, d) \<Rightarrow> fitsLimit a (limitCPU c) \<and> fitsLimit b (limitMem c) \<and> fitsLimit d (limitDisk c))"

definition reserve_amount :: "reservation \<Rightarrow> Capacity \<Rightarrow> int option \<times> Capacity" where
  "reserve_amount r = Capacity_TryReserve (rv_cpu r) (rv_mem r) (rv_disk r)"

lemma used_delete:
  assumes "cap_inv c" "map_of (resv c) i = Some r"
  shows "amount_plus (usedLocked (Capacity_Release i c)) r = usedLocked c"
proof -
  have d: "distinct (map fst (resv c))" using assms(1) by (simp add: cap_inv_def)
  show ?thesis
    using sum_list_delete[OF d assms(2)]
    by (simp add: usedLocked_eq amount_plus_def usedCPU_def usedMem_def usedDisk_def Capacity_Release_def)
qed

lemma used_Commit: "cap_inv c \<Longrightarrow> usedLocked (Capacity_Commit i c) = usedLocked c"
proof (cases "map_of (resv c) i")
  case (Some r)
  assume inv: "cap_inv c"
  then have "distinct (map fst (resv c))" by (simp add: cap_inv_def)
  from sum_list_delete[OF this Some] Some show ?thesis
    by (simp add: usedLocked_eq Capacity_Commit_def usedCPU_def usedMem_def usedDisk_def)
qed (simp add: Capacity_Commit_def)

lemma resv_ended:
  "map_of (resv (Capacity_Commit i c)) i = None" "map_of (resv (Capacity_Release i c)) i = None"
  by (auto simp: Capacity_Commit_def Capacity_Release_def split: option.splits)

lemma used_TryReserve:
  assumes "cap_inv c" "reserve_amount r c = (Some i, c')"
  shows "usedLocked c' = amount_plus (usedLocked c) r \<and> i = cap_next c
    \<and> c' = c\<lparr>cap_next := cap_next c + 1, resv := resv c @ [(cap_next c, r)]\<rparr>"
proof -
  have u: "AList.update (cap_next c) r (resv c) = resv c @ [(cap_next c, r)]" for r
    using cap_inv_next_fresh[OF assms(1)] by (rule map_fst_update_new)
  from assms(2) have "i = cap_next c" "c' = c\<lparr>cap_next := cap_next c + 1, resv := resv c @ [(cap_next c, r)]\<rparr>"
    by (auto simp: reserve_amount_def Capacity_TryReserve_def Let_def u split: prod.splits if_splits)
  then show ?thesis
    by (simp add: usedLocked_eq amount_plus_def usedCPU_def usedMem_def usedDisk_def)
qed

interpretation cap: admission cap_inv usedLocked amount_plus within_limits "\<lambda>c. map_of (resv c)"
  reserve_amount Capacity_Commit Capacity_Release
proof unfold_locales
  fix q c i c'
  assume a: "cap_inv c" "reserve_amount q c = (Some i, c')"
  have "cap_inv c'" using cap_inv_TryReserve[OF a(1)] a(2) by (metis reserve_amount_def snd_conv)
  moreover have "map_of (resv c) (cap_next c) = None"
    using cap_inv_next_fresh[OF a(1)] by (simp add: map_of_eq_None_iff)
  ultimately show "cap_inv c' \<and> usedLocked c' = amount_plus (usedLocked c) q \<and> map_of (resv c) i = None
      \<and> map_of (resv c') i = Some q"
    using used_TryReserve[OF a] by (auto simp: map_add_def)
next
  fix c i q
  assume "cap_inv c" "map_of (resv c) i = Some q"
  then show "cap_inv (Capacity_Commit i c) \<and> usedLocked (Capacity_Commit i c) = usedLocked c
      \<and> map_of (resv (Capacity_Commit i c)) i = None"
    "cap_inv (Capacity_Release i c) \<and> amount_plus (usedLocked (Capacity_Release i c)) q = usedLocked c
      \<and> map_of (resv (Capacity_Release i c)) i = None"
    by (simp_all add: used_Commit used_delete inv_intros resv_ended)
qed (auto simp: amount_plus_def within_limits_def reserve_amount_def Capacity_TryReserve_def Let_def
      split: prod.splits if_splits)

section \<open>Runs of the tracker\<close>

text \<open>
  The states a tracker reaches by reserving (non-negative amounts), committing and releasing, in
  any interleaving of the callers.
\<close>

inductive cap_run :: "Capacity \<Rightarrow> bool" where
  run_new: "0 \<le> lc \<Longrightarrow> 0 \<le> lm \<Longrightarrow> 0 \<le> ld \<Longrightarrow> cap_run (NewCapacity lc lm ld)"
| run_reserve: "cap_run c \<Longrightarrow> 0 \<le> cpu \<Longrightarrow> 0 \<le> mem \<Longrightarrow> 0 \<le> disk \<Longrightarrow>
    Capacity_TryReserve cpu mem disk c = (r, c') \<Longrightarrow> cap_run c'"
| run_commit: "cap_run c \<Longrightarrow> cap_run (Capacity_Commit i c)"
| run_release: "cap_run c \<Longrightarrow> cap_run (Capacity_Release i c)"

definition resv_nonneg :: "Capacity \<Rightarrow> bool" where
  "resv_nonneg c \<longleftrightarrow> (\<forall>r \<in> snd ` set (resv c). 0 \<le> rv_cpu r \<and> 0 \<le> rv_mem r \<and> 0 \<le> rv_disk r)"

lemma within_limits_mono:
  "within_limits (amount_plus u r) c \<Longrightarrow> 0 \<le> rv_cpu r \<Longrightarrow> 0 \<le> rv_mem r \<Longrightarrow> 0 \<le> rv_disk r \<Longrightarrow>
   within_limits u c"
  by (auto simp: within_limits_def amount_plus_def fitsLimit_def split: prod.splits)

lemma within_limits_cong:
  "Capacity_Limits c = Capacity_Limits c' \<Longrightarrow> within_limits u c = within_limits u c'"
  by (simp add: within_limits_def Capacity_Limits_def)

lemma Limits_const [simp]:
  "Capacity_Limits (Capacity_Commit i c) = Capacity_Limits c"
  "Capacity_Limits (Capacity_Release i c) = Capacity_Limits c"
  "Capacity_Limits (snd (Capacity_TryReserve a b d c)) = Capacity_Limits c"
  by (auto simp: Capacity_Limits_def Capacity_Commit_def Capacity_Release_def Capacity_TryReserve_def
      Let_def split: option.splits prod.splits)

lemma cap_run_inv: "cap_run c \<Longrightarrow> cap_inv c \<and> resv_nonneg c \<and> within_limits (usedLocked c) c"
proof (induction rule: cap_run.induct)
  case (run_new lc lm ld)
  then show ?case
    using cap_inv_new[of lc lm ld]
    by (simp add: resv_nonneg_def NewCapacity_def usedLocked_def within_limits_def fitsLimit_def)
next
  case (run_reserve c cpu mem disk r c')
  let ?q = "\<lparr>rv_cpu = cpu, rv_mem = mem, rv_disk = disk\<rparr>"
  have q: "reserve_amount ?q c = (r, c')" using run_reserve by (simp add: reserve_amount_def)
  show ?case
  proof (cases r)
    case None
    with q run_reserve show ?thesis using cap.reserve_refused by metis
  next
    case (Some i)
    note g = run_reserve.IH q[unfolded Some]
    have "within_limits (usedLocked c') c" using cap.granted_fits g by blast
    moreover have "Capacity_Limits c' = Capacity_Limits c"
      using Limits_const(3)[of cpu mem disk c] run_reserve.hyps by (metis snd_conv)
    ultimately have "within_limits (usedLocked c') c'" using within_limits_cong by blast
    moreover have "cap_inv c'" using cap.reserve_Some g by blast
    moreover have "resv_nonneg c'"
      using used_TryReserve[of c ?q i c'] g run_reserve.hyps by (auto simp: resv_nonneg_def)
    ultimately show ?thesis by blast
  qed
next
  case (run_commit c i)
  have "resv_nonneg (Capacity_Commit i c)"
    using run_commit.IH by (auto simp: resv_nonneg_def Capacity_Commit_def set_delete_conv split: option.splits)
  with run_commit.IH show ?case
    using used_Commit[of c i] within_limits_cong[OF Limits_const(1)] by (metis cap_inv_Commit)
next
  case (run_release c i)
  have n: "resv_nonneg (Capacity_Release i c)"
    using run_release.IH by (auto simp: resv_nonneg_def Capacity_Release_def set_delete_conv)
  have "within_limits (usedLocked (Capacity_Release i c)) c"
  proof (cases "map_of (resv c) i")
    case None
    then have "Capacity_Release i c = c"
      by (simp add: Capacity_Release_def delete_notin map_of_eq_None_iff)
    with run_release.IH show ?thesis by simp
  next
    case (Some r)
    then have "r \<in> snd ` set (resv c)" by (force dest: map_of_SomeD)
    then have "0 \<le> rv_cpu r" "0 \<le> rv_mem r" "0 \<le> rv_disk r"
      using run_release.IH by (auto simp: resv_nonneg_def)
    with used_delete[OF _ Some] run_release.IH show ?thesis
      using within_limits_mono by metis
  qed
  with n run_release.IH show ?case
    using within_limits_cong[OF Limits_const(2)] by (metis cap_inv_Release)
qed

section \<open>Properties\<close>





end
