(* ===== verification/Fake.thy ===== *)
theory Fake
  imports Types ImageRef
begin

text \<open>
  The in-memory backend (\<^verbatim>\<open>internal/sandbox/fake.go\<close>), which daemonless nodes and the tests run
  on, and the contract a backend keeps with the manager: the locale \<open>backend_contract\<close>, stated
  over the view \<open>status\<close> from sandbox names to their status, with its interpretation on the fake.
  The optional test hooks are optional functions of the state, the injected errors optional errors.
\<close>

record Fake =
  fk_sandboxes :: "(string, BackendSandbox) gomap"
  fk_ports :: "(string, PublishedPort list) gomap"
  fk_detached :: "(string, bool) gomap"
  fk_seq :: int
  fk_blocked :: "BlockedHost list"
  fk_allowed :: "BlockedHost list"
  fk_rules :: "PolicyRule list"
  fk_secrets :: "(string, CustomSecret list) gomap"
  fk_templates :: "string list"
  fk_savedTemplates :: "string list"
  fk_kits :: "(string, bool) gomap"
  fk_ExecFunc :: "(string \<Rightarrow> string list \<Rightarrow> ExecResult res) option"
  fk_PublishPortFunc :: "(string \<Rightarrow> int \<Rightarrow> PublishedPort res) option"
  fk_CopyFromFunc :: "(string \<Rightarrow> string \<Rightarrow> string \<Rightarrow> unit res) option"
  fk_CopyToFunc :: "(string \<Rightarrow> string \<Rightarrow> string \<Rightarrow> unit res) option"
  fk_KitPorts :: "PublishedPort list"
  fk_PortsErr :: "go_error option"
  fk_ListTemplatesErr :: "go_error option"
  fk_SaveTemplateErr :: "go_error option"
  fk_ListErr :: "go_error option"

definition NewFake :: "string list \<Rightarrow> Fake" where
  "NewFake kits =
     \<lparr>fk_sandboxes = [], fk_ports = [], fk_detached = [], fk_seq = 0, fk_blocked = [], fk_allowed = [],
      fk_rules = [], fk_secrets = [], fk_templates = [], fk_savedTemplates = [],
      fk_kits = fold (\<lambda>k. AList.update k True) kits [], fk_ExecFunc = None, fk_PublishPortFunc = None,
      fk_CopyFromFunc = None, fk_CopyToFunc = None, fk_KitPorts = [], fk_PortsErr = None,
      fk_ListTemplatesErr = None, fk_SaveTemplateErr = None, fk_ListErr = None\<rparr>"

text \<open>Reading a slice out of a map: absent is the nil slice.\<close>

definition slice_of :: "('k, 'v list) gomap \<Rightarrow> 'k \<Rightarrow> 'v list" where
  "slice_of m k = (case map_of m k of None \<Rightarrow> [] | Some xs \<Rightarrow> xs)"

definition Fake_AdmittedKits :: "Fake \<Rightarrow> string list" where
  "Fake_AdmittedKits f = sort (map fst (fk_kits f))"

definition Fake_Create :: "Fake \<Rightarrow> CreateSpec \<Rightarrow> BackendSandbox res \<times> Fake" where
  "Fake_Create f spec =
     (if map_of (fk_sandboxes f) (cs_Name spec) \<noteq> None then (Inl (Errf ''exists: %s'' [cs_Name spec]), f)
      else case find (\<lambda>k. \<not> in_set_map (fk_kits f) k) (cs_Kits spec) of
        Some k \<Rightarrow> (Inl (Wrapf ''unknown kit %q: %w'' [k] ErrUnknownKit), f)
      | None \<Rightarrow>
          (let sb = \<lparr>bs_Name = cs_Name spec, bs_Status = ''running''\<rparr>;
               f' = f\<lparr>fk_sandboxes := AList.update (cs_Name spec) sb (fk_sandboxes f)\<rparr>
           in (Inr sb,
               if cs_Kits spec \<noteq> [] \<and> fk_KitPorts f' \<noteq> []
               then f'\<lparr>fk_ports := AList.update (cs_Name spec)
                       (slice_of (fk_ports f') (cs_Name spec) @ fk_KitPorts f') (fk_ports f')\<rparr>
               else f')))"

definition Fake_Get :: "Fake \<Rightarrow> string \<Rightarrow> BackendSandbox res \<times> Fake" where
  "Fake_Get f name = (case map_of (fk_sandboxes f) name of None \<Rightarrow> (Inl ErrNotFound, f) | Some sb \<Rightarrow> (Inr sb, f))"

definition Fake_List :: "Fake \<Rightarrow> BackendSandbox list res \<times> Fake" where
  "Fake_List f = (case fk_ListErr f of Some e \<Rightarrow> (Inl e, f) | None \<Rightarrow> (Inr (map snd (fk_sandboxes f)), f))"

definition Fake_setStatus :: "string \<Rightarrow> Fake \<Rightarrow> string \<Rightarrow> unit res \<times> Fake" where
  "Fake_setStatus status f name =
     (case map_of (fk_sandboxes f) name of
        None \<Rightarrow> (Inl ErrNotFound, f)
      | Some sb \<Rightarrow> (Inr (), f\<lparr>fk_sandboxes := AList.update name (sb\<lparr>bs_Status := status\<rparr>) (fk_sandboxes f)\<rparr>))"

definition Fake_Start :: "Fake \<Rightarrow> string \<Rightarrow> unit res \<times> Fake" where
  "Fake_Start = Fake_setStatus ''running''"

definition Fake_Stop :: "Fake \<Rightarrow> string \<Rightarrow> unit res \<times> Fake" where
  "Fake_Stop = Fake_setStatus ''stopped''"

definition Fake_Remove :: "Fake \<Rightarrow> string \<Rightarrow> unit res \<times> Fake" where
  "Fake_Remove f name =
     (if map_of (fk_sandboxes f) name = None then (Inl ErrNotFound, f)
      else (Inr (), f\<lparr>fk_sandboxes := AList.delete name (fk_sandboxes f),
                      fk_ports := AList.delete name (fk_ports f)\<rparr>))"

definition Fake_Exec :: "Fake \<Rightarrow> string \<Rightarrow> string list \<Rightarrow> ExecOpts \<Rightarrow> ExecResult res \<times> Fake" where
  "Fake_Exec f name cmd opts =
     (case Fake_Get f name of
        (Inl e, f') \<Rightarrow> (Inl e, f')
      | (Inr _, f') \<Rightarrow>
          (let f'' = snd (Fake_setStatus ''running'' f' name) in
           case fk_ExecFunc f'' of
             Some h \<Rightarrow> (h name cmd, f'')
           | None \<Rightarrow> (Inr \<lparr>er_ExitCode = 0, er_Stdout = ''ok'', er_Stderr = ''''\<rparr>, f'')))"

definition Fake_ExecDetached :: "Fake \<Rightarrow> string \<Rightarrow> string list \<Rightarrow> ExecOpts \<Rightarrow> string res \<times> Fake" where
  "Fake_ExecDetached f name cmd opts =
     (case Fake_Get f name of
        (Inl e, f') \<Rightarrow> (Inl e, f')
      | (Inr _, f') \<Rightarrow>
          (let n = fk_seq f' + 1; i = CHR ''d'' # format_int n in
           (Inr i, f'\<lparr>fk_seq := n, fk_detached := AList.update i True (fk_detached f')\<rparr>)))"

definition Fake_PollDetached :: "Fake \<Rightarrow> string \<Rightarrow> string \<Rightarrow> DetachedStatus res \<times> Fake" where
  "Fake_PollDetached f name detachedID =
     (case map_of (fk_detached f) detachedID of
        None \<Rightarrow> (Inl (Errf ''no such detached exec %s'' [detachedID]), f)
      | Some fin \<Rightarrow> (Inr \<lparr>ds_Done = fin, ds_ExitCode = 0\<rparr>, f))"

definition Fake_PublishPort :: "Fake \<Rightarrow> string \<Rightarrow> int \<Rightarrow> PublishedPort res \<times> Fake" where
  "Fake_PublishPort f name cp =
     (if map_of (fk_sandboxes f) name = None then (Inl ErrNotFound, f)
      else case (case fk_PublishPortFunc f of
                   None \<Rightarrow> Inr \<lparr>pp_ContainerPort = cp, pp_HostPort = 30000 + cp\<rparr>
                 | Some h \<Rightarrow> h name cp) of
             Inl e \<Rightarrow> (Inl e, f)
           | Inr p \<Rightarrow> (Inr p, f\<lparr>fk_ports := AList.update name (slice_of (fk_ports f) name @ [p]) (fk_ports f)\<rparr>))"

definition Fake_Ports :: "Fake \<Rightarrow> string \<Rightarrow> PublishedPort list res \<times> Fake" where
  "Fake_Ports f name = (case fk_PortsErr f of Some e \<Rightarrow> (Inl e, f) | None \<Rightarrow> (Inr (slice_of (fk_ports f) name), f))"

definition Fake_UnpublishPort :: "Fake \<Rightarrow> string \<Rightarrow> int \<Rightarrow> unit res \<times> Fake" where
  "Fake_UnpublishPort f name cp =
     (Inr (), f\<lparr>fk_ports := AList.update name
        (filter (\<lambda>p. pp_ContainerPort p \<noteq> cp) (slice_of (fk_ports f) name)) (fk_ports f)\<rparr>)"

definition Fake_CopyTo :: "Fake \<Rightarrow> string \<Rightarrow> string \<Rightarrow> string \<Rightarrow> unit res \<times> Fake" where
  "Fake_CopyTo f name localPath remotePath =
     (case Fake_Get f name of
        (Inl e, f') \<Rightarrow> (Inl e, f')
      | (Inr _, f') \<Rightarrow> (case fk_CopyToFunc f' of None \<Rightarrow> Inr () | Some h \<Rightarrow> h name localPath remotePath, f'))"

definition Fake_CopyFrom :: "Fake \<Rightarrow> string \<Rightarrow> string \<Rightarrow> string \<Rightarrow> unit res \<times> Fake" where
  "Fake_CopyFrom f name remotePath localPath =
     (case Fake_Get f name of
        (Inl e, f') \<Rightarrow> (Inl e, f')
      | (Inr _, f') \<Rightarrow> (case fk_CopyFromFunc f' of None \<Rightarrow> Inr () | Some h \<Rightarrow> h name remotePath localPath, f'))"

definition Fake_Stats :: "Fake \<Rightarrow> string \<Rightarrow> Usage res \<times> Fake" where
  "Fake_Stats f name =
     (case Fake_Get f name of
        (Inl e, f') \<Rightarrow> (Inl e, f')
      | (Inr _, f') \<Rightarrow> (Inr \<lparr>us_Cores = 2, us_CPUPercent = 10, us_MemTotalKB = 2 ^ 20, us_MemUsedKB = 2 ^ 18,
                          us_DiskTotalGB = 0, us_DiskUsedGB = 0, us_UptimeSeconds = 0\<rparr>, f'))"

definition Fake_SetTemplates :: "string list \<Rightarrow> Fake \<Rightarrow> Fake" where
  "Fake_SetTemplates t f = f\<lparr>fk_templates := t\<rparr>"

definition Fake_ListTemplates :: "Fake \<Rightarrow> string list res \<times> Fake" where
  "Fake_ListTemplates f = (case fk_ListTemplatesErr f of Some e \<Rightarrow> (Inl e, f) | None \<Rightarrow> (Inr (fk_templates f), f))"

definition Fake_ListTemplateInfo :: "Fake \<Rightarrow> TemplateInfo list res \<times> Fake" where
  "Fake_ListTemplateInfo f =
     (Inr (\<lparr>ti_Repository = ''fake/base'', ti_Tag = ''latest'', ti_ID = ''img-fake'', ti_Agent = ''shell'',
            ti_CreatedAt = ''''\<rparr>
        # map (\<lambda>t. let (repo, tag) = SplitRepoTag t in
             \<lparr>ti_Repository = repo, ti_Tag = tag, ti_ID = '''', ti_Agent = '''', ti_CreatedAt = ''''\<rparr>)
           (fk_templates f)), f)"

definition Fake_SaveTemplate :: "Fake \<Rightarrow> string \<Rightarrow> string \<Rightarrow> unit res \<times> Fake" where
  "Fake_SaveTemplate f name tag =
     (case fk_SaveTemplateErr f of
        Some e \<Rightarrow> (Inl e, f)
      | None \<Rightarrow> (Inr (), f\<lparr>fk_savedTemplates := fk_savedTemplates f @ [name @ ''=>'' @ tag],
                           fk_templates := fk_templates f @ [tag]\<rparr>))"

definition Fake_RemoveTemplate :: "Fake \<Rightarrow> string \<Rightarrow> unit res \<times> Fake" where
  "Fake_RemoveTemplate f ref = (Inr (), f\<lparr>fk_templates := filter (\<lambda>t. t \<noteq> ref) (fk_templates f)\<rparr>)"

definition Fake_SetBlocked :: "BlockedHost list \<Rightarrow> Fake \<Rightarrow> Fake" where
  "Fake_SetBlocked b f = f\<lparr>fk_blocked := b\<rparr>"

definition Fake_SetAllowed :: "BlockedHost list \<Rightarrow> Fake \<Rightarrow> Fake" where
  "Fake_SetAllowed a f = f\<lparr>fk_allowed := a\<rparr>"

definition Fake_BlockedEgress :: "Fake \<Rightarrow> BlockedHost list res \<times> Fake" where
  "Fake_BlockedEgress f = (Inr (fk_blocked f), f)"

definition Fake_AllowedEgress :: "Fake \<Rightarrow> BlockedHost list res \<times> Fake" where
  "Fake_AllowedEgress f = (Inr (fk_allowed f), f)"

section \<open>Policy and secrets\<close>

definition fake_rule :: "string \<Rightarrow> string \<Rightarrow> PolicyRule" where
  "fake_rule host decision =
     \<lparr>pr_Provenance = '''', pr_AppliesTo = '''', pr_Rule = host, pr_Type = '''', pr_Decision = decision,
      pr_Resources = ''''\<rparr>"

definition Fake_PolicyAllow :: "Fake \<Rightarrow> string \<Rightarrow> string \<Rightarrow> unit res \<times> Fake" where
  "Fake_PolicyAllow f scope host = (Inr (), f\<lparr>fk_rules := fk_rules f @ [fake_rule host ''allow'']\<rparr>)"

definition Fake_PolicyDeny :: "Fake \<Rightarrow> string \<Rightarrow> string \<Rightarrow> unit res \<times> Fake" where
  "Fake_PolicyDeny f scope host = (Inr (), f\<lparr>fk_rules := fk_rules f @ [fake_rule host ''deny'']\<rparr>)"

definition Fake_PolicySetDefault :: "Fake \<Rightarrow> string \<Rightarrow> unit res \<times> Fake" where
  "Fake_PolicySetDefault f profile = (Inr (), f)"

definition Fake_PolicyRemoveRule :: "Fake \<Rightarrow> string \<Rightarrow> string \<Rightarrow> unit res \<times> Fake" where
  "Fake_PolicyRemoveRule f scope resource = (Inr (), f)"

definition Fake_PolicyReset :: "Fake \<Rightarrow> unit res \<times> Fake" where
  "Fake_PolicyReset f = (Inr (), f\<lparr>fk_rules := []\<rparr>)"

definition Fake_PolicyList :: "Fake \<Rightarrow> string \<Rightarrow> PolicyRule list res \<times> Fake" where
  "Fake_PolicyList f scope = (Inr (fk_rules f), f)"

definition PolicyDecision_zero :: PolicyDecision where
  "PolicyDecision_zero =
     \<lparr>pd_Allowed = False, pd_Reason = '''', pd_Rule = '''', pd_Origin = '''', pd_Resource = '''', pd_DenyKind = ''''\<rparr>"

text \<open>The loop over the rules: \<open>Inr\<close> is the early return of a deny, \<open>Inl\<close> the running decision.\<close>

fun check_rules :: "string \<Rightarrow> PolicyRule list \<Rightarrow> PolicyDecision \<Rightarrow> PolicyDecision + PolicyDecision" where
  "check_rules host [] d = Inl d"
| "check_rules host (r # rs) d =
     (if pr_Rule r \<noteq> host then check_rules host rs d
      else if pr_Decision r = ''deny''
      then Inr (PolicyDecision_zero\<lparr>pd_Resource := host, pd_Origin := ''local'', pd_Rule := pr_Rule r,
                  pd_Reason := ''denied by rule''\<rparr>)
      else check_rules host rs (d\<lparr>pd_Allowed := True, pd_Rule := pr_Rule r\<rparr>))"

definition Fake_PolicyCheck :: "Fake \<Rightarrow> string \<Rightarrow> string \<Rightarrow> PolicyDecision res \<times> Fake" where
  "Fake_PolicyCheck f scope target =
     (let host = (case cut_byte (CHR '':'') target of None \<Rightarrow> target | Some (h, _) \<Rightarrow> h);
          d0 = PolicyDecision_zero\<lparr>pd_Resource := host, pd_Origin := ''local''\<rparr>
      in case check_rules host (fk_rules f) d0 of
           Inr d \<Rightarrow> (Inr d, f)
         | Inl d \<Rightarrow>
             (Inr (if \<not> pd_Allowed d
                   then d\<lparr>pd_DenyKind := ''implicit'', pd_Reason := ''no rule matched; default deny''\<rparr>
                   else d), f))"

definition Fake_PolicyProfiles :: "Fake \<Rightarrow> string list res \<times> Fake" where
  "Fake_PolicyProfiles f = (Inr [''allow-all'', ''balanced'', ''deny-all''], f)"

fun replace_secret :: "CustomSecret \<Rightarrow> CustomSecret list \<Rightarrow> CustomSecret list option" where
  "replace_secret s [] = None"
| "replace_secret s (c # cs) =
     (if sc_Env c = sc_Env s then Some (s\<lparr>sc_Placeholder := sc_Placeholder c\<rparr> # cs)
      else map_option ((#) c) (replace_secret s cs))"

definition Fake_SecretSet :: "Fake \<Rightarrow> string \<Rightarrow> CustomSecret \<Rightarrow> unit res \<times> Fake" where
  "Fake_SecretSet f scope s =
     (let cur = slice_of (fk_secrets f) scope;
          new = (case replace_secret s cur of Some cs \<Rightarrow> cs | None \<Rightarrow> cur @ [s])
      in (Inr (), f\<lparr>fk_secrets := AList.update scope new (fk_secrets f)\<rparr>))"

definition Fake_SecretList :: "Fake \<Rightarrow> string \<Rightarrow> Secrets res \<times> Fake" where
  "Fake_SecretList f scope =
     (Inr \<lparr>se_Stored = [],
           se_Custom = map (\<lambda>s. \<lparr>sc_Host = sc_Host s, sc_Env = sc_Env s, sc_Placeholder = '''', sc_Value = ''''\<rparr>)
             (slice_of (fk_secrets f) scope)\<rparr>, f)"

definition Fake_SecretRemove :: "Fake \<Rightarrow> string \<Rightarrow> string \<Rightarrow> unit res \<times> Fake" where
  "Fake_SecretRemove f scope host =
     (Inr (), f\<lparr>fk_secrets := AList.update scope
        (filter (\<lambda>s. sc_Host s \<noteq> host) (slice_of (fk_secrets f) scope)) (fk_secrets f)\<rparr>)"

definition Fake_SecretRemoveStored :: "Fake \<Rightarrow> string \<Rightarrow> string \<Rightarrow> unit res \<times> Fake" where
  "Fake_SecretRemoveStored f scope name = (Inr (), f)"

definition fake_backend :: "Fake Backend" where
  "fake_backend =
     \<lparr>be_Create = Fake_Create, be_Get = Fake_Get, be_List = Fake_List, be_ListTemplates = Fake_ListTemplates,
      be_ListTemplateInfo = Fake_ListTemplateInfo, be_SaveTemplate = Fake_SaveTemplate,
      be_RemoveTemplate = Fake_RemoveTemplate, be_AdmittedKits = Fake_AdmittedKits, be_Start = Fake_Start,
      be_Stop = Fake_Stop, be_Remove = Fake_Remove, be_Exec = Fake_Exec, be_ExecDetached = Fake_ExecDetached,
      be_PollDetached = Fake_PollDetached, be_PublishPort = Fake_PublishPort, be_Ports = Fake_Ports,
      be_UnpublishPort = Fake_UnpublishPort, be_CopyTo = Fake_CopyTo, be_CopyFrom = Fake_CopyFrom,
      be_Stats = Fake_Stats, be_BlockedEgress = Fake_BlockedEgress, be_AllowedEgress = Fake_AllowedEgress,
      be_PolicyAllow = Fake_PolicyAllow, be_PolicyDeny = Fake_PolicyDeny,
      be_PolicySetDefault = Fake_PolicySetDefault, be_PolicyRemoveRule = Fake_PolicyRemoveRule,
      be_PolicyReset = Fake_PolicyReset, be_PolicyList = Fake_PolicyList,
      be_PolicyProfiles = Fake_PolicyProfiles, be_PolicyCheck = Fake_PolicyCheck,
      be_SecretSet = Fake_SecretSet, be_SecretList = Fake_SecretList, be_SecretRemove = Fake_SecretRemove,
      be_SecretRemoveStored = Fake_SecretRemoveStored\<rparr>"

section \<open>The backend contract\<close>

text \<open>
  \<open>status s n\<close> is the status of the sandbox called \<open>n\<close>, \<open>None\<close> when there is none.  A call that
  fails may change the daemon's state, but not which sandboxes it has.
\<close>

locale backend_contract =
  fixes BK :: "'be Backend" and binv :: "'be \<Rightarrow> bool" and status :: "'be \<Rightarrow> string \<Rightarrow> string option"
  assumes create_ok: "binv s \<Longrightarrow> be_Create BK s spec = (Inr bs, s') \<Longrightarrow>
      binv s' \<and> status s (cs_Name spec) = None \<and> status s' = (status s)(cs_Name spec \<mapsto> bs_Status bs)"
    and create_err: "binv s \<Longrightarrow> be_Create BK s spec = (Inl e, s') \<Longrightarrow> binv s' \<and> status s' = status s"
    and list_ok: "binv s \<Longrightarrow> be_List BK s = (Inr l, s') \<Longrightarrow> bs_Name ` set l = dom (status s)"
    and list_frame: "binv s \<Longrightarrow> be_List BK s = (r, s') \<Longrightarrow> binv s' \<and> status s' = status s"
    and start_ok: "binv s \<Longrightarrow> be_Start BK s n = (Inr u, s') \<Longrightarrow>
      binv s' \<and> status s n \<noteq> None \<and> status s' = (status s)(n \<mapsto> ''running'')"
    and start_err: "binv s \<Longrightarrow> be_Start BK s n = (Inl e, s') \<Longrightarrow> binv s' \<and> status s' = status s"
    and stop_ok: "binv s \<Longrightarrow> be_Stop BK s n = (Inr u, s') \<Longrightarrow>
      binv s' \<and> status s n \<noteq> None \<and> status s' = (status s)(n \<mapsto> ''stopped'')"
    and stop_err: "binv s \<Longrightarrow> be_Stop BK s n = (Inl e, s') \<Longrightarrow> binv s' \<and> status s' = status s"
    and remove_ok: "binv s \<Longrightarrow> be_Remove BK s n = (Inr u, s') \<Longrightarrow> binv s' \<and> status s' = (status s)(n := None)"
    and remove_absent: "binv s \<Longrightarrow> be_Remove BK s n = (Inl ErrNotFound, s') \<Longrightarrow> status s n = None"
    and remove_err: "binv s \<Longrightarrow> be_Remove BK s n = (Inl e, s') \<Longrightarrow> binv s' \<and> status s' = status s"
    and ports_frame: "binv s \<Longrightarrow> be_Ports BK s n = (rp, s') \<Longrightarrow> binv s' \<and> status s' = status s"
    and secret_list_frame: "binv s \<Longrightarrow> be_SecretList BK s n = (q, s') \<Longrightarrow> binv s' \<and> status s' = status s"
    and secret_remove_frame: "binv s \<Longrightarrow> be_SecretRemove BK s n h = (w, s') \<Longrightarrow> binv s' \<and> status s' = status s"
begin

lemma removed:
  assumes "binv s" "be_Remove BK s n = (r, s')" "r = Inr u \<or> r = Inl ErrNotFound"
  shows "binv s' \<and> status s' = (status s)(n := None)"
proof (cases r)
  case (Inl e)
  with assms have "status s n = None" "binv s' \<and> status s' = status s"
    using remove_absent remove_err by auto
  then show ?thesis by (simp add: fun_upd_idem)
next
  case (Inr u)
  with assms show ?thesis using remove_ok by auto
qed

lemma secrets_frame:
  "binv s \<Longrightarrow> binv (fold (\<lambda>c s. snd (be_SecretRemove BK s scope (sc_Host c))) cs s)
    \<and> status (fold (\<lambda>c s. snd (be_SecretRemove BK s scope (sc_Host c))) cs s) = status s"
proof (induction cs arbitrary: s)
  case (Cons c cs)
  obtain w s' where "be_SecretRemove BK s scope (sc_Host c) = (w, s')" by fastforce
  with Cons show ?case using secret_remove_frame by fastforce
qed simp

end

definition fake_status :: "Fake \<Rightarrow> string \<Rightarrow> string option" where
  "fake_status f n = map_option bs_Status (map_of (fk_sandboxes f) n)"

text \<open>Names are the keys of the map, as \<^verbatim>\<open>Create\<close> stores them.\<close>

definition fake_inv :: "Fake \<Rightarrow> bool" where
  "fake_inv f \<longleftrightarrow> distinct (map fst (fk_sandboxes f)) \<and> list_all (\<lambda>(n, sb). bs_Name sb = n) (fk_sandboxes f)"

lemma distinct_fst_update: "distinct (map fst m) \<Longrightarrow> distinct (map fst (AList.update k v m))"
  by (rule distinct_update)

lemma list_all_update:
  "list_all (\<lambda>(n, sb). P n sb) m \<Longrightarrow> P k v \<Longrightarrow> list_all (\<lambda>(n, sb). P n sb) (AList.update k v m)"
  by (induction m) auto

lemma fake_inv_new: "fake_inv (NewFake kits)"
  by (simp add: fake_inv_def NewFake_def)

lemma fake_inv_lookup: "fake_inv f \<Longrightarrow> map_of (fk_sandboxes f) n = Some sb \<Longrightarrow> bs_Name sb = n"
  by (auto simp: fake_inv_def list_all_iff dest: map_of_SomeD)

lemma fake_status_update:
  "fake_status (f\<lparr>fk_sandboxes := AList.update n sb (fk_sandboxes f)\<rparr>) = (fake_status f)(n \<mapsto> bs_Status sb)"
  by (auto simp: fake_status_def fun_eq_iff)

lemma fake_inv_update:
  "fake_inv f \<Longrightarrow> bs_Name sb = n \<Longrightarrow> fake_inv (f\<lparr>fk_sandboxes := AList.update n sb (fk_sandboxes f)\<rparr>)"
  by (auto simp: fake_inv_def distinct_fst_update intro: list_all_update)

lemma fake_cong:
  "fk_sandboxes f = fk_sandboxes f' \<Longrightarrow> fake_inv f = fake_inv f' \<and> fake_status f = fake_status f'"
  by (simp add: fake_inv_def fake_status_def fun_eq_iff)

lemma setStatus_ok:
  assumes "fake_inv s" "Fake_setStatus st s n = (Inr u, s')"
  shows "fake_inv s' \<and> fake_status s n \<noteq> None \<and> fake_status s' = (fake_status s)(n \<mapsto> st)"
proof -
  obtain sb where sb: "map_of (fk_sandboxes s) n = Some sb"
    and s': "s' = s\<lparr>fk_sandboxes := AList.update n (sb\<lparr>bs_Status := st\<rparr>) (fk_sandboxes s)\<rparr>"
    using assms(2) by (auto simp: Fake_setStatus_def split: option.splits)
  have "bs_Name (sb\<lparr>bs_Status := st\<rparr>) = n" using fake_inv_lookup[OF assms(1) sb] by simp
  from fake_inv_update[OF assms(1) this] sb show ?thesis
    by (simp add: s' fake_status_update) (simp add: fake_status_def)
qed

lemma setStatus_err: "Fake_setStatus st s n = (Inl e, s') \<Longrightarrow> s' = s"
  by (auto simp: Fake_setStatus_def split: option.splits)

lemma Fake_Create_ok:
  assumes "fake_inv s" "Fake_Create s spec = (Inr bs, s')"
  shows "fake_inv s' \<and> fake_status s (cs_Name spec) = None
    \<and> fake_status s' = (fake_status s)(cs_Name spec \<mapsto> bs_Status bs)"
proof -
  let ?u = "s\<lparr>fk_sandboxes := AList.update (cs_Name spec) bs (fk_sandboxes s)\<rparr>"
  have n: "map_of (fk_sandboxes s) (cs_Name spec) = None" "bs_Name bs = cs_Name spec"
    and e: "fk_sandboxes s' = fk_sandboxes ?u"
    using assms(2) by (auto simp: Fake_Create_def Let_def split: if_splits option.splits)
  from fake_inv_update[OF assms(1) n(2)] fake_cong[OF e] n(1) show ?thesis
    by (simp add: fake_status_update) (simp add: fake_status_def)
qed

lemma Fake_Create_err: "Fake_Create s spec = (Inl e, s') \<Longrightarrow> s' = s"
  by (auto simp: Fake_Create_def Let_def split: if_splits option.splits)

lemma Fake_List_dom:
  assumes "fake_inv s"
  shows "bs_Name ` snd ` set (fk_sandboxes s) = dom (fake_status s)"
proof -
  have "bs_Name ` snd ` set (fk_sandboxes s) = fst ` set (fk_sandboxes s)"
    using assms by (force simp: fake_inv_def list_all_iff image_iff)
  also have "\<dots> = dom (fake_status s)"
    by (auto simp: fake_status_def dom_def map_of_eq_None_iff image_iff split: option.splits)
  finally show ?thesis .
qed

lemma Fake_Remove_ok:
  assumes "fake_inv s" "Fake_Remove s n = (Inr u, s')"
  shows "fake_inv s' \<and> fake_status s' = (fake_status s)(n := None)"
proof -
  have "fk_sandboxes s' = AList.delete n (fk_sandboxes s)"
    using assms(2) by (auto simp: Fake_Remove_def split: if_splits)
  with assms(1) show ?thesis
    by (auto simp: fake_inv_def fake_status_def fun_eq_iff distinct_delete list_all_iff set_delete_conv)
qed

lemma Fake_Remove_err: "Fake_Remove s n = (Inl e, s') \<Longrightarrow> s' = s \<and> fake_status s n = None"
  by (auto simp: Fake_Remove_def fake_status_def split: if_splits)

lemma fake_frames:
  "Fake_List s = (r, s') \<Longrightarrow> fake_inv s' = fake_inv s \<and> fake_status s' = fake_status s"
  "Fake_Ports s n = (rp, s') \<Longrightarrow> fake_inv s' = fake_inv s \<and> fake_status s' = fake_status s"
  "Fake_SecretList s n = (q, s') \<Longrightarrow> fake_inv s' = fake_inv s \<and> fake_status s' = fake_status s"
  "Fake_SecretRemove s n h = (w, s') \<Longrightarrow> fake_inv s' = fake_inv s \<and> fake_status s' = fake_status s"
  by (auto simp: Fake_List_def Fake_Ports_def Fake_SecretList_def Fake_SecretRemove_def
      fake_inv_def fake_status_def fun_eq_iff split: option.splits)

interpretation fake: backend_contract fake_backend fake_inv fake_status
proof unfold_locales
  fix s l s'
  assume "fake_inv s" "be_List fake_backend s = (Inr l, s')"
  then show "bs_Name ` set l = dom (fake_status s)"
    using Fake_List_dom[of s] by (simp add: fake_backend_def Fake_List_def split: option.splits)
       (metis image_set)
qed (simp_all only: fake_backend_def Fake_Start_def Fake_Stop_def Backend.select_convs,
     (metis setStatus_ok setStatus_err Fake_Create_ok Fake_Create_err Fake_Remove_ok Fake_Remove_err fake_frames)+)

end
