(* ===== verification/World.thy ===== *)
theory World
  imports Store Routing Events Capacity Fake
begin

text \<open>
  The state one node's components share, as the wiring in \<^verbatim>\<open>internal/node/node.go\<close> shares it: the
  store, the backend's state, the id generator, the event bus, the owned-ids notifier, the capacity
  tracker and the operation counters.  The components' operations are functions on this record, so
  that what one does is visible to the next.  What is outside the repository comes in \<open>Env\<close>: the
  bbolt functions, the backend's functions, the clock (its n-th reading) and the ULID source.
\<close>

record ('db, 'be) Env =
  en_bolt :: "'db Bolt"
  en_backend :: "'be Backend"
  en_clock :: "nat \<Rightarrow> gotime"
  en_ulid :: "nat \<Rightarrow> string"

text \<open>
  \<open>w_bus\<close> is \<open>None\<close> when no publisher is wired, \<open>w_owned\<close> when no notifier is wired and otherwise
  the list last pushed to it, \<open>w_metrics\<close> when no counter is wired and otherwise the increments.
\<close>

record ('db, 'be) World =
  w_node :: string
  w_db :: 'db
  w_be :: 'be
  w_gen :: Gen
  w_bus :: "Bus option"
  w_owned :: "string list option"
  w_cap :: Capacity
  w_metrics :: "(string \<times> string) list option"
  w_tick :: nat

definition now :: "('db, 'be) Env \<Rightarrow> ('db, 'be) World \<Rightarrow> gotime \<times> ('db, 'be) World" where
  "now E w = (en_clock E (w_tick w), w\<lparr>w_tick := Suc (w_tick w)\<rparr>)"

definition publish ::
  "('db, 'be) Env \<Rightarrow> string \<Rightarrow> string \<Rightarrow> payload \<Rightarrow> ('db, 'be) World \<Rightarrow> ('db, 'be) World" where
  "publish E eventType sandboxID pl w =
     (case w_bus w of
        None \<Rightarrow> w
      | Some b \<Rightarrow> let (t, w') = now E w
                 in w'\<lparr>w_bus := Some (snd (Bus_Publish t eventType sandboxID pl b))\<rparr>)"

definition new_sandbox_id :: "('db, 'be) Env \<Rightarrow> ('db, 'be) World \<Rightarrow> string \<times> ('db, 'be) World" where
  "new_sandbox_id E w = (let (i, g) = Gen_Sandbox (en_ulid E) (w_gen w) in (i, w\<lparr>w_gen := g\<rparr>))"

definition new_op_id :: "('db, 'be) Env \<Rightarrow> ('db, 'be) World \<Rightarrow> string \<times> ('db, 'be) World" where
  "new_op_id E w = (let (i, g) = Gen_Op (en_ulid E) (w_gen w) in (i, w\<lparr>w_gen := g\<rparr>))"

text \<open>Two worlds that agree on the store and on the daemon.\<close>

definition same_data :: "('db, 'be) World \<Rightarrow> ('db, 'be) World \<Rightarrow> bool" where
  "same_data w w' \<longleftrightarrow> w_db w' = w_db w \<and> w_be w' = w_be w \<and> w_node w' = w_node w"

lemma now_sel [simp]:
  "w_db (snd (now E w)) = w_db w" "w_be (snd (now E w)) = w_be w" "w_node (snd (now E w)) = w_node w"
  "w_gen (snd (now E w)) = w_gen w" "w_cap (snd (now E w)) = w_cap w" "w_owned (snd (now E w)) = w_owned w"
  "w_bus (snd (now E w)) = w_bus w" "w_metrics (snd (now E w)) = w_metrics w"
  "fst (now E w) = en_clock E (w_tick w)"
  by (simp_all add: now_def)

lemma publish_sel [simp]:
  "w_db (publish E t s p w) = w_db w" "w_be (publish E t s p w) = w_be w"
  "w_node (publish E t s p w) = w_node w" "w_gen (publish E t s p w) = w_gen w"
  "w_cap (publish E t s p w) = w_cap w" "w_owned (publish E t s p w) = w_owned w"
  "w_metrics (publish E t s p w) = w_metrics w"
  by (auto simp: publish_def now_def split: option.splits)

lemma new_sandbox_id_sel [simp]:
  "w_db (snd (new_sandbox_id E w)) = w_db w" "w_be (snd (new_sandbox_id E w)) = w_be w"
  "w_node (snd (new_sandbox_id E w)) = w_node w" "w_cap (snd (new_sandbox_id E w)) = w_cap w"
  "w_owned (snd (new_sandbox_id E w)) = w_owned w" "w_bus (snd (new_sandbox_id E w)) = w_bus w"
  "w_tick (snd (new_sandbox_id E w)) = w_tick w"
  "fst (new_sandbox_id E w) = g_node (w_gen w) @ CHR ''.'' # en_ulid E (g_next (w_gen w))"
  "w_gen (snd (new_sandbox_id E w)) = (w_gen w)\<lparr>g_next := Suc (g_next (w_gen w))\<rparr>"
  by (simp_all add: new_sandbox_id_def Gen_Sandbox_def newULID_def)

lemma new_op_id_sel [simp]:
  "w_db (snd (new_op_id E w)) = w_db w" "w_be (snd (new_op_id E w)) = w_be w"
  "w_node (snd (new_op_id E w)) = w_node w" "w_cap (snd (new_op_id E w)) = w_cap w"
  "fst (new_op_id E w) = g_node (w_gen w) @ CHR ''.'' # en_ulid E (g_next (w_gen w))"
  "w_gen (snd (new_op_id E w)) = (w_gen w)\<lparr>g_next := Suc (g_next (w_gen w))\<rparr>"
  by (simp_all add: new_op_id_def Gen_Op_def newULID_def)

section \<open>A concrete node\<close>

text \<open>
  An in-memory node on the fake backend, with four cores to give away, for the witnesses.
\<close>

definition mem_env :: "(mem_db, Fake) Env" where
  "mem_env = \<lparr>en_bolt = mem_bolt, en_backend = fake_backend, en_clock = int, en_ulid = example_ulid\<rparr>"

definition mem_world :: "(mem_db, Fake) World" where
  "mem_world =
     \<lparr>w_node = ''n1'', w_db = mem_open, w_be = NewFake [], w_gen = NewGen ''n1'', w_bus = Some (NewBus ''n1'' 0),
      w_owned = Some [], w_cap = NewCapacity 4 0 0, w_metrics = None, w_tick = 0\<rparr>"

definition small_spec :: CreateSpec where
  "small_spec = CreateSpec_zero\<lparr>cs_CPUs := 2, cs_Agent := ''shell''\<rparr>"

end
