(* ===== verification/Manager.thy ===== *)
theory Manager
  imports World
begin

text \<open>
  The sandbox manager (\<^verbatim>\<open>internal/sandbox/manager.go\<close>): every method as a function on the shared
  state.  The abstract view of the store is \<open>records\<close>, a finite map from ids to records; the
  lemmas show each operation as an update of that map and of the backend's view, on success and on
  every error path, and that the manager's invariant is kept.
\<close>

definition costOf :: "CreateSpec \<Rightarrow> rat \<times> rat \<times> rat" where
  "costOf spec = (of_int (cs_CPUs spec), of_int (cs_MemoryBytes spec) / 1024, cs_DiskGB spec)"

definition costSum :: "Record list \<Rightarrow> rat \<times> rat \<times> rat" where
  "costSum recs =
     fold (\<lambda>rec (cpu, mem, disk).
         if r_Status rec = ''lost'' then (cpu, mem, disk)
         else let (c, m, d) = costOf (r_Spec rec) in (cpu + c, mem + m, disk + d)) recs (0, 0, 0)"

definition Manager_Get ::
  "('db, 'be) Env \<Rightarrow> string \<Rightarrow> ('db, 'be) World \<Rightarrow> Record res" where
  "Manager_Get E i w =
     (case store_Get (en_bolt E) (w_db w) ''sandboxes'' i of
        Inl e \<Rightarrow> Inl e
      | Inr None \<Rightarrow> Inl ErrNotFound
      | Inr (Some raw) \<Rightarrow> unmarshal_Record raw)"

definition Manager_List :: "('db, 'be) Env \<Rightarrow> ('db, 'be) World \<Rightarrow> Record list res" where
  "Manager_List E w = store_ForEach (en_bolt E) (w_db w) ''sandboxes'' (\<lambda>(_, v). unmarshal_Record v)"

definition Manager_notifyOwnedChanged ::
  "('db, 'be) Env \<Rightarrow> ('db, 'be) World \<Rightarrow> ('db, 'be) World" where
  "Manager_notifyOwnedChanged E w =
     (case w_owned w of
        None \<Rightarrow> w
      | Some _ \<Rightarrow>
          (case Manager_List E w of
             Inl e \<Rightarrow> w
           | Inr recs \<Rightarrow> w\<lparr>w_owned := Some (map r_ID recs)\<rparr>))"

definition Manager_save ::
  "('db, 'be) Env \<Rightarrow> Record \<Rightarrow> ('db, 'be) World \<Rightarrow> Record res \<times> ('db, 'be) World" where
  "Manager_save E rec w =
     (let (t, w') = now E w; rec' = rec\<lparr>r_UpdatedAt := t\<rparr> in
      case store_Put (en_bolt E) (w_db w') ''sandboxes'' (r_ID rec') (JRecord rec') of
        Inl e \<Rightarrow> (Inl e, w')
      | Inr db \<Rightarrow> (Inr rec', w'\<lparr>w_db := db\<rparr>))"

definition Manager_mutate ::
  "('db, 'be) Env \<Rightarrow> string \<Rightarrow> (Record \<Rightarrow> Record) \<Rightarrow> ('db, 'be) World \<Rightarrow> unit res \<times> ('db, 'be) World" where
  "Manager_mutate E i fn w =
     (case Manager_Get E i w of
        Inl e \<Rightarrow> (Inl e, w)
      | Inr rec \<Rightarrow>
          (case Manager_save E (fn rec) w of
             (Inl e, w') \<Rightarrow> (Inl e, w')
           | (Inr _, w') \<Rightarrow> (Inr (), w')))"

text \<open>The ports of a sandbox with kits are read once, best effort, before the record is saved.\<close>

definition read_kit_ports ::
  "('db, 'be) Env \<Rightarrow> CreateSpec \<Rightarrow> string \<Rightarrow> ('db, 'be) World \<Rightarrow> PublishedPort list \<times> ('db, 'be) World" where
  "read_kit_ports E spec name w =
     (if cs_Kits spec = [] then ([], w)
      else case be_Ports (en_backend E) (w_be w) name of
             (Inr ports, be') \<Rightarrow> (ports, w\<lparr>w_be := be'\<rparr>)
           | (Inl e, be') \<Rightarrow> ([], w\<lparr>w_be := be'\<rparr>))"

definition Manager_Create ::
  "('db, 'be) Env \<Rightarrow> CreateSpec \<Rightarrow> ('db, 'be) World \<Rightarrow> Record res \<times> ('db, 'be) World" where
  "Manager_Create E spec w =
     (let (i, w) = new_sandbox_id E w; spec = spec\<lparr>cs_Name := i\<rparr> in
      case be_Create (en_backend E) (w_be w) spec of
        (Inl e, be') \<Rightarrow> (Inl (Wrapf ''backend create: %w'' [] e), w\<lparr>w_be := be'\<rparr>)
      | (Inr bs, be') \<Rightarrow>
          (let (t, w) = now E (w\<lparr>w_be := be'\<rparr>);
               (ports, w) = read_kit_ports E spec i w;
               rec = \<lparr>r_ID = i, r_BackendName = i, r_OwnerNode = w_node w, r_Spec = spec,
                      r_Status = bs_Status bs, r_Ports = ports, r_Labels = cs_Labels spec,
                      r_IdempKey = '''', r_CreatedAt = t, r_UpdatedAt = 0, r_LastActivity = t,
                      r_LastPublish = 0\<rparr>
           in case Manager_save E rec w of
                (Inl e, w) \<Rightarrow> (Inl e, w)
              | (Inr rec, w) \<Rightarrow>
                  (Inr rec, Manager_notifyOwnedChanged E
                     (publish E ''sandbox.created'' i (Some [(''status'', r_Status rec)]) w))))"

definition Manager_AdmitAndCreate ::
  "('db, 'be) Env \<Rightarrow> CreateSpec \<Rightarrow> ('db, 'be) World \<Rightarrow> Record res \<times> ('db, 'be) World" where
  "Manager_AdmitAndCreate E spec w =
     (let (cpu, mem, disk) = costOf spec in
      case Capacity_TryReserve cpu mem disk (w_cap w) of
        (None, c) \<Rightarrow> (Inl ErrNoCapacity, w\<lparr>w_cap := c\<rparr>)
      | (Some i, c) \<Rightarrow>
          (case Manager_Create E spec (w\<lparr>w_cap := c\<rparr>) of
             (Inl e, w) \<Rightarrow> (Inl e, w\<lparr>w_cap := Capacity_Release i (w_cap w)\<rparr>)
           | (Inr rec, w) \<Rightarrow>
               (case Manager_List E w of
                  Inr recs \<Rightarrow>
                    (let (bc, bm, bd) = costSum recs in
                     (Inr rec, w\<lparr>w_cap := Capacity_CommitBase bc bm bd i (w_cap w)\<rparr>))
                | Inl e \<Rightarrow> (Inr rec, w\<lparr>w_cap := Capacity_Commit i (w_cap w)\<rparr>))))"

definition Manager_lifecycle ::
  "('db, 'be) Env \<Rightarrow> string \<Rightarrow> ('be \<Rightarrow> string \<Rightarrow> unit res \<times> 'be) \<Rightarrow> string \<Rightarrow> ('db, 'be) World
    \<Rightarrow> unit res \<times> ('db, 'be) World" where
  "Manager_lifecycle E i fn status w =
     (case Manager_Get E i w of
        Inl e \<Rightarrow> (Inl e, w)
      | Inr rec \<Rightarrow>
          (case fn (w_be w) (r_BackendName rec) of
             (Inl e, be') \<Rightarrow> (Inl e, w\<lparr>w_be := be'\<rparr>)
           | (Inr _, be') \<Rightarrow>
               (case Manager_mutate E i (\<lambda>r. r\<lparr>r_Status := status\<rparr>) (w\<lparr>w_be := be'\<rparr>) of
                  (Inl e, w') \<Rightarrow> (Inl e, w')
                | (Inr _, w') \<Rightarrow> (Inr (), publish E (''sandbox.'' @ status) (r_ID rec) None w'))))"

definition Manager_BumpActivity ::
  "('db, 'be) Env \<Rightarrow> string \<Rightarrow> ('db, 'be) World \<Rightarrow> unit res \<times> ('db, 'be) World" where
  "Manager_BumpActivity E i w =
     (case Manager_Get E i w of
        Inl e \<Rightarrow> (Inl e, w)
      | Inr _ \<Rightarrow> let (t, w') = now E w in Manager_mutate E i (\<lambda>r. r\<lparr>r_LastActivity := t\<rparr>) w')"

definition Manager_Start ::
  "('db, 'be) Env \<Rightarrow> string \<Rightarrow> ('db, 'be) World \<Rightarrow> unit res \<times> ('db, 'be) World" where
  "Manager_Start E i w =
     (case Manager_lifecycle E i (be_Start (en_backend E)) ''running'' w of
        (Inl e, w') \<Rightarrow> (Inl e, w')
      | (Inr _, w') \<Rightarrow> Manager_BumpActivity E i w')"

definition Manager_Stop ::
  "('db, 'be) Env \<Rightarrow> string \<Rightarrow> ('db, 'be) World \<Rightarrow> unit res \<times> ('db, 'be) World" where
  "Manager_Stop E i w = Manager_lifecycle E i (be_Stop (en_backend E)) ''stopped'' w"

definition removeCustomSecrets ::
  "('db, 'be) Env \<Rightarrow> string \<Rightarrow> ('db, 'be) World \<Rightarrow> ('db, 'be) World" where
  "removeCustomSecrets E scope w =
     (case be_SecretList (en_backend E) (w_be w) scope of
        (Inl e, be') \<Rightarrow> w\<lparr>w_be := be'\<rparr>
      | (Inr secs, be') \<Rightarrow>
          w\<lparr>w_be := fold (\<lambda>c s. snd (be_SecretRemove (en_backend E) s scope (sc_Host c))) (se_Custom secs) be'\<rparr>)"

definition Manager_Delete ::
  "('db, 'be) Env \<Rightarrow> string \<Rightarrow> ('db, 'be) World \<Rightarrow> unit res \<times> ('db, 'be) World" where
  "Manager_Delete E i w =
     (case Manager_Get E i w of
        Inl e \<Rightarrow>
          if e = ErrNotFound then
            (case be_Remove (en_backend E) (w_be w) i of
               (Inl e', be') \<Rightarrow> if e' \<noteq> ErrNotFound then (Inl e', w\<lparr>w_be := be'\<rparr>) else (Inr (), w\<lparr>w_be := be'\<rparr>)
             | (Inr _, be') \<Rightarrow> (Inr (), w\<lparr>w_be := be'\<rparr>))
          else (Inl e, w)
      | Inr rec \<Rightarrow>
          (let (r, be') = be_Remove (en_backend E) (w_be w) (r_BackendName rec); w = w\<lparr>w_be := be'\<rparr> in
           if r \<noteq> Inr () \<and> r \<noteq> Inl ErrNotFound then (r, w)
           else
             let w = removeCustomSecrets E (r_BackendName rec) w in
             case store_Delete (en_bolt E) (w_db w) ''sandboxes'' i of
               Inl e \<Rightarrow> (Inl e, w)
             | Inr db \<Rightarrow>
                 (Inr (), Manager_notifyOwnedChanged E
                    (publish E ''sandbox.deleted'' i None (w\<lparr>w_db := db\<rparr>)))))"

definition Manager_SetLastPublish ::
  "('db, 'be) Env \<Rightarrow> string \<Rightarrow> gotime \<Rightarrow> ('db, 'be) World \<Rightarrow> unit res \<times> ('db, 'be) World" where
  "Manager_SetLastPublish E i t = Manager_mutate E i (\<lambda>r. r\<lparr>r_LastPublish := t\<rparr>)"

definition Manager_IdleRunning ::
  "('db, 'be) Env \<Rightarrow> gotime \<Rightarrow> int \<Rightarrow> ('db, 'be) World \<Rightarrow> Record list res" where
  "Manager_IdleRunning E t timeout w =
     (if timeout \<le> 0 then Inr []
      else case Manager_List E w of
        Inl e \<Rightarrow> Inl e
      | Inr recs \<Rightarrow>
          Inr (filter (\<lambda>rec. \<not> (r_Status rec \<noteq> ''running'' \<or> label_of (r_Labels rec) ''idle-stop'' = ''off'')
                   \<and> time_sub t (r_LastActivity rec) > timeout) recs))"

definition Manager_Resolve :: "('db, 'be) Env \<Rightarrow> string \<Rightarrow> ('db, 'be) World \<Rightarrow> string res" where
  "Manager_Resolve E i w =
     (case Manager_Get E i w of Inl e \<Rightarrow> Inl e | Inr rec \<Rightarrow> Inr (r_BackendName rec))"

definition Manager_ResolveVMToID :: "('db, 'be) Env \<Rightarrow> string \<Rightarrow> ('db, 'be) World \<Rightarrow> string option" where
  "Manager_ResolveVMToID E vm w =
     (case Manager_List E w of
        Inl e \<Rightarrow> None
      | Inr recs \<Rightarrow> map_option r_ID (find (\<lambda>rec. r_BackendName rec = vm) recs))"

definition Manager_MarkUnreachable :: "string \<Rightarrow> ('db, 'be) World \<Rightarrow> ('db, 'be) World" where
  "Manager_MarkUnreachable deadNodeID w = w"

section \<open>Reconcile\<close>

text \<open>
  The loop over the listed records: each record that is not lost and not alive is marked lost, the
  snapshot included.  \<open>Inl\<close> is the early return of a failed mutate.
\<close>

fun reconcile_loop ::
  "('db, 'be) Env \<Rightarrow> string list \<Rightarrow> Record list \<Rightarrow> ('db, 'be) World
    \<Rightarrow> Record list res \<times> ('db, 'be) World" where
  "reconcile_loop E alive [] w = (Inr [], w)"
| "reconcile_loop E alive (rec # recs) w =
     (if r_Status rec = ''lost'' \<or> r_BackendName rec \<in> set alive
      then (case reconcile_loop E alive recs w of
              (Inl e, w') \<Rightarrow> (Inl e, w')
            | (Inr recs', w') \<Rightarrow> (Inr (rec # recs'), w'))
      else (case Manager_mutate E (r_ID rec) (\<lambda>r. r\<lparr>r_Status := ''lost''\<rparr>) w of
              (Inl e, w') \<Rightarrow>
                if e = ErrNotFound
                then (case reconcile_loop E alive recs w' of
                        (Inl e, w'') \<Rightarrow> (Inl e, w'')
                      | (Inr recs', w'') \<Rightarrow> (Inr (rec # recs'), w''))
                else (Inl e, w')
            | (Inr _, w') \<Rightarrow>
                (case reconcile_loop E alive recs (publish E ''sandbox.lost'' (r_ID rec) None w') of
                   (Inl e, w'') \<Rightarrow> (Inl e, w'')
                 | (Inr recs', w'') \<Rightarrow> (Inr (rec\<lparr>r_Status := ''lost''\<rparr> # recs'), w''))))"

text \<open>
  Reconcile in its two phases, between which other operations may run: the backend's list is read
  first, the records afterwards.
\<close>

definition Reconcile_with ::
  "('db, 'be) Env \<Rightarrow> BackendSandbox list \<Rightarrow> ('db, 'be) World \<Rightarrow> unit res \<times> ('db, 'be) World" where
  "Reconcile_with E live w =
     (case Manager_List E w of
        Inl e \<Rightarrow> (Inl e, w)
      | Inr recs \<Rightarrow>
          (case reconcile_loop E (map bs_Name live) recs w of
             (Inl e, w') \<Rightarrow> (Inl e, w')
           | (Inr recs', w') \<Rightarrow>
               (let (bc, bm, bd) = costSum recs' in
                (Inr (), w'\<lparr>w_cap := Capacity_SetBase bc bm bd (w_cap w')\<rparr>))))"

definition Manager_Reconcile ::
  "('db, 'be) Env \<Rightarrow> ('db, 'be) World \<Rightarrow> unit res \<times> ('db, 'be) World" where
  "Manager_Reconcile E w =
     (case be_List (en_backend E) (w_be w) of
        (Inl e, be') \<Rightarrow> (Inl e, w\<lparr>w_be := be'\<rparr>)
      | (Inr live, be') \<Rightarrow> Reconcile_with E live (w\<lparr>w_be := be'\<rparr>))"

section \<open>The abstract view and the invariant\<close>

definition records :: "('db, 'be) Env \<Rightarrow> ('db, 'be) World \<Rightarrow> string \<Rightarrow> Record option" where
  "records E w i = (case b_get (en_bolt E) (w_db w) ''sandboxes'' i of Some (JRecord r) \<Rightarrow> Some r | _ \<Rightarrow> None)"

text \<open>
  The bucket exists and holds records only, each under its own id, which is also the name the
  backend knows it by, and owned by this node.
\<close>

definition rec_ok :: "string \<Rightarrow> string \<Rightarrow> blob \<Rightarrow> bool" where
  "rec_ok node k v =
     (case v of JRecord r \<Rightarrow> r_ID r = k \<and> r_BackendName r = k \<and> r_OwnerNode r = node | _ \<Rightarrow> False)"

definition mgr_inv :: "('db, 'be) Env \<Rightarrow> ('db, 'be) World \<Rightarrow> bool" where
  "mgr_inv E w \<longleftrightarrow> b_has (en_bolt E) (w_db w) ''sandboxes''
     \<and> (\<forall>k v. b_get (en_bolt E) (w_db w) ''sandboxes'' k = Some v \<longrightarrow> rec_ok (w_node w) k v)"

lemma rec_okE: "rec_ok n k v \<Longrightarrow> \<exists>r. v = JRecord r \<and> r_ID r = k \<and> r_BackendName r = k \<and> r_OwnerNode r = n"
  by (cases v) (auto simp: rec_ok_def)

lemma records_get: "mgr_inv E w \<Longrightarrow> b_get (en_bolt E) (w_db w) ''sandboxes'' k = map_option JRecord (records E w k)"
  unfolding records_def mgr_inv_def by (fastforce split: option.splits blob.splits dest: rec_okE)

lemma records_ok: "mgr_inv E w \<Longrightarrow> records E w k = Some r \<Longrightarrow>
    r_ID r = k \<and> r_BackendName r = k \<and> r_OwnerNode r = w_node w"
  using records_get[of E w k] by (fastforce simp: mgr_inv_def rec_ok_def)

lemma Manager_Get_eq:
  "mgr_inv E w \<Longrightarrow> Manager_Get E i w = (case records E w i of None \<Rightarrow> Inl ErrNotFound | Some r \<Rightarrow> Inr r)"
  using records_get[of E w i] by (auto simp: Manager_Get_def store_Get_def mgr_inv_def split: option.splits)

lemma records_cong: "w_db w' = w_db w \<Longrightarrow> records E w' = records E w"
  by (simp add: records_def fun_eq_iff)

lemma mgr_inv_cong: "w_db w' = w_db w \<Longrightarrow> w_node w' = w_node w \<Longrightarrow> mgr_inv E w' = mgr_inv E w"
  by (simp add: mgr_inv_def)

lemma Manager_Get_cong: "w_db w' = w_db w \<Longrightarrow> Manager_Get E i w' = Manager_Get E i w"
  by (simp add: Manager_Get_def)

lemma Manager_List_cong: "w_db w' = w_db w \<Longrightarrow> Manager_List E w' = Manager_List E w"
  by (simp add: Manager_List_def)

lemma notify_sel [simp]:
  "w_db (Manager_notifyOwnedChanged E w) = w_db w" "w_be (Manager_notifyOwnedChanged E w) = w_be w"
  "w_node (Manager_notifyOwnedChanged E w) = w_node w" "w_cap (Manager_notifyOwnedChanged E w) = w_cap w"
  by (auto simp: Manager_notifyOwnedChanged_def split: option.splits sum.splits)

text \<open>A backend call that moves a sandbox to the status \<open>st\<close>, or fails and changes nothing.\<close>

definition transition ::
  "('be \<Rightarrow> bool) \<Rightarrow> ('be \<Rightarrow> string \<Rightarrow> string option) \<Rightarrow> ('be \<Rightarrow> string \<Rightarrow> unit res \<times> 'be) \<Rightarrow> string \<Rightarrow> bool" where
  "transition binv status fn st \<longleftrightarrow>
     (\<forall>s n s'. binv s \<and> fn s n = (Inr (), s') \<longrightarrow>
        binv s' \<and> status s n \<noteq> None \<and> status s' = (status s)(n \<mapsto> st))
   \<and> (\<forall>s n e s'. binv s \<and> fn s n = (Inl e, s') \<longrightarrow> binv s' \<and> status s' = status s)"

text \<open>The manager's environment: bbolt as documented, a backend that keeps its contract.\<close>

locale manager_env =
  fixes E :: "('db, 'be) Env" and binv :: "'be \<Rightarrow> bool" and status :: "'be \<Rightarrow> string \<Rightarrow> string option"
  assumes bolt: "bolt_laws (en_bolt E)" and contract: "backend_contract (en_backend E) binv status"

sublocale manager_env \<subseteq> db: bolt_db "en_bolt E"
  by unfold_locales (rule bolt)

sublocale manager_env \<subseteq> bk: backend_contract "en_backend E" binv status
  by (rule contract)

context manager_env
begin

lemma Manager_List_eq:
  assumes "mgr_inv E w"
  shows "\<exists>recs. Manager_List E w = Inr recs \<and> set recs = ran (records E w) \<and> sorted_wrt (<) (map r_ID recs)"
proof -
  have dec: "\<exists>x. unmarshal_Record v = Inr x \<and> r_ID x = k"
    if "b_get (en_bolt E) (w_db w) ''sandboxes'' k = Some v" for k v
    using that assms by (fastforce simp: mgr_inv_def dest: rec_okE)
  have "{x. \<exists>k v. b_get (en_bolt E) (w_db w) ''sandboxes'' k = Some v \<and> unmarshal_Record v = Inr x}
      = ran (records E w)"
    using records_get[OF assms] by (auto simp: ran_def)
  then show ?thesis
    using db.ForEach_decode[of "w_db w" "''sandboxes''" unmarshal_Record r_ID, OF _ dec] assms
    by (simp add: Manager_List_def mgr_inv_def)
qed

lemma save_cases:
  assumes "mgr_inv E w" "Manager_save E rec w = (r, w')"
  shows "w_be w' = w_be w \<and> w_node w' = w_node w \<and> w_cap w' = w_cap w \<and> w_gen w' = w_gen w
    \<and> w_owned w' = w_owned w \<and>
    (case r of
       Inl e \<Rightarrow> w_db w' = w_db w \<and> e \<noteq> ErrNotFound
     | Inr rec' \<Rightarrow> rec' = rec\<lparr>r_UpdatedAt := en_clock E (w_tick w)\<rparr>
         \<and> records E w' = (records E w)(r_ID rec \<mapsto> rec')
         \<and> (r_BackendName rec = r_ID rec \<and> r_OwnerNode rec = w_node w \<longrightarrow> mgr_inv E w'))"
proof -
  let ?rec = "rec\<lparr>r_UpdatedAt := en_clock E (w_tick w)\<rparr>"
  show ?thesis
  proof (cases "store_Put (en_bolt E) (w_db w) ''sandboxes'' (r_ID rec) (JRecord ?rec)")
    case (Inl e)
    then have "e \<noteq> ErrNotFound"
      using assms(1) db.put_err by (auto simp: store_Put_def mgr_inv_def)
    with Inl assms(2) show ?thesis by (auto simp: Manager_save_def Let_def now_def)
  next
    case (Inr db')
    with assms(2) have w': "r = Inr ?rec" "w' = (snd (now E w))\<lparr>w_db := db'\<rparr>"
      by (auto simp: Manager_save_def Let_def now_def)
    have p: "b_put (en_bolt E) (w_db w) ''sandboxes'' (r_ID rec) (JRecord ?rec) = Inr db'"
      using Inr assms(1) by (simp add: store_Put_def mgr_inv_def)
    note D = db.put_D[OF p]
    have "records E w' = (records E w)(r_ID rec \<mapsto> ?rec)"
      using D by (auto simp: records_def fun_eq_iff w')
    moreover have "mgr_inv E w'" if "r_BackendName rec = r_ID rec" "r_OwnerNode rec = w_node w"
      using D assms(1) that by (auto simp: mgr_inv_def w' rec_ok_def)
    ultimately show ?thesis using w' by simp
  qed
qed

end

context manager_env
begin

lemma mutate_cases:
  assumes "mgr_inv E w" "Manager_mutate E i fn w = (r, w')"
    and "\<And>x. r_ID (fn x) = r_ID x \<and> r_BackendName (fn x) = r_BackendName x \<and> r_OwnerNode (fn x) = r_OwnerNode x"
  shows "mgr_inv E w' \<and> w_be w' = w_be w \<and> w_node w' = w_node w \<and> w_cap w' = w_cap w
    \<and> w_owned w' = w_owned w \<and> w_gen w' = w_gen w \<and>
    (case r of
       Inl e \<Rightarrow> w_db w' = w_db w \<and> (records E w i = None \<longleftrightarrow> e = ErrNotFound)
     | Inr _ \<Rightarrow> \<exists>x. records E w i = Some x
         \<and> records E w' = (records E w)(i \<mapsto> (fn x)\<lparr>r_UpdatedAt := en_clock E (w_tick w)\<rparr>))"
proof (cases "records E w i")
  case None
  with assms show ?thesis by (auto simp: Manager_mutate_def Manager_Get_eq split: sum.splits)
next
  case (Some x)
  have x: "r_ID x = i" "r_BackendName x = i" "r_OwnerNode x = w_node w" using records_ok[OF assms(1) Some] by auto
  obtain q v where s: "Manager_save E (fn x) w = (q, v)" by fastforce
  have "(r, w') = (case q of Inl e \<Rightarrow> (Inl e, v) | Inr _ \<Rightarrow> (Inr (), v))"
    using assms(2) s Some by (simp add: Manager_mutate_def Manager_Get_eq[OF assms(1)] split: sum.splits)
  with save_cases[OF assms(1) s] assms(1,3) x Some show ?thesis
    using mgr_inv_cong[of v w E] by (auto split: sum.splits)
qed

lemma kit_ports_frame:
  assumes "binv (w_be w)" "read_kit_ports E spec n w = (p, w')"
  shows "binv (w_be w') \<and> status (w_be w') = status (w_be w) \<and> w_db w' = w_db w \<and> w_node w' = w_node w
    \<and> w_cap w' = w_cap w \<and> w_tick w' = w_tick w \<and> w_owned w' = w_owned w"
proof (cases "cs_Kits spec = []")
  case False
  obtain q s where q: "be_Ports (en_backend E) (w_be w) n = (q, s)" by fastforce
  with assms False bk.ports_frame[OF assms(1) q] show ?thesis
    by (auto simp: read_kit_ports_def split: sum.splits)
qed (use assms in \<open>simp add: read_kit_ports_def\<close>)

text \<open>What a create does, on each of its three outcomes.\<close>

lemma Create_cases:
  assumes "mgr_inv E w" "binv (w_be w)" "Manager_Create E spec w = (r, w')"
  defines "i \<equiv> g_node (w_gen w) @ CHR ''.'' # en_ulid E (g_next (w_gen w))"
  shows "mgr_inv E w' \<and> binv (w_be w') \<and> w_cap w' = w_cap w \<and> w_node w' = w_node w \<and>
    (case r of
       Inr rec \<Rightarrow> r_ID rec = i \<and> r_Spec rec = spec\<lparr>cs_Name := i\<rparr> \<and> status (w_be w) i = None
         \<and> records E w' = (records E w)(i \<mapsto> rec)
         \<and> status (w_be w') = (status (w_be w))(i \<mapsto> r_Status rec)
     | Inl e \<Rightarrow> records E w' = records E w \<and>
         (status (w_be w') = status (w_be w) \<or> (\<exists>st. status (w_be w') = (status (w_be w))(i \<mapsto> st))))"
proof -
  let ?spec = "spec\<lparr>cs_Name := i\<rparr>"
  define w1 where "w1 = snd (new_sandbox_id E w)"
  have n: "new_sandbox_id E w = (i, w1)" by (metis i_def new_sandbox_id_sel(8) prod.collapse w1_def)
  have w1: "w_db w1 = w_db w" "w_be w1 = w_be w" "w_node w1 = w_node w" "w_cap w1 = w_cap w"
    by (simp_all add: w1_def)
  obtain b s where c: "be_Create (en_backend E) (w_be w) ?spec = (b, s)" by fastforce
  show ?thesis
  proof (cases b)
    case (Inl e)
    with assms(3) n c w1 have "w' = w1\<lparr>w_be := s\<rparr>" "\<exists>e. r = Inl e" by (auto simp: Manager_Create_def)
    with bk.create_err[OF assms(2) c[unfolded Inl]] w1 assms(1) show ?thesis
      using mgr_inv_cong[of w' w E] records_cong[of w' w E] by auto
  next
    case (Inr bs)
    obtain t w2 where nw: "now E (w1\<lparr>w_be := s\<rparr>) = (t, w2)" by fastforce
    obtain ports w3 where k: "read_kit_ports E ?spec i w2 = (ports, w3)" by fastforce
    define rec where "rec = \<lparr>r_ID = i, r_BackendName = i, r_OwnerNode = w_node w, r_Spec = ?spec,
                      r_Status = bs_Status bs, r_Ports = ports, r_Labels = cs_Labels ?spec,
                      r_IdempKey = '''', r_CreatedAt = t, r_UpdatedAt = 0, r_LastActivity = t,
                      r_LastPublish = 0\<rparr>"
    note co = bk.create_ok[OF assms(2) c[unfolded Inr]]
    have w2: "w_db w2 = w_db w" "w_be w2 = s" "w_node w2 = w_node w" "w_cap w2 = w_cap w"
      using nw w1 by (auto simp: now_def)
    have b2: "binv (w_be w2)" using co w2 by simp
    note k3 = kit_ports_frame[OF b2 k]
    have inv3: "mgr_inv E w3" and r3: "records E w3 = records E w"
      using k3 w2 assms(1) mgr_inv_cong[of w3 w E] records_cong[of w3 w E] by simp_all
    obtain q w4 where sv: "Manager_save E rec w3 = (q, w4)" by fastforce
    have out: "(r, w') = (case q of Inl e \<Rightarrow> (Inl e, w4)
        | Inr rec \<Rightarrow> (Inr rec, Manager_notifyOwnedChanged E
            (publish E ''sandbox.created'' i (Some [(''status'', r_Status rec)]) w4)))"
      using assms(3) n c w1 Inr k sv k3 w2
      by (simp add: Manager_Create_def Let_def nw rec_def split: sum.splits)
    note s4 = save_cases[OF inv3 sv]
    show ?thesis
    proof (cases q)
      case (Inl e)
      with out s4 k3 w2 co inv3 r3 show ?thesis
        using mgr_inv_cong[of w4 w3 E] records_cong[of w4 w3 E] by auto
    next
      case (Inr rec')
      then have q': "rec' = rec\<lparr>r_UpdatedAt := en_clock E (w_tick w3)\<rparr>" "records E w4 = (records E w)(i \<mapsto> rec')"
        "mgr_inv E w4" "w_be w4 = w_be w3" "w_cap w4 = w_cap w3" "w_node w4 = w_node w3"
        using s4 k3 w2 r3 by (auto simp: rec_def)
      have w': "r = Inr rec'" "w_db w' = w_db w4" "w_be w' = w_be w4" "w_node w' = w_node w4" "w_cap w' = w_cap w4"
        using out Inr by auto
      then show ?thesis
        using q' k3 w2 co mgr_inv_cong[of w' w4 E] records_cong[of w' w4 E] by (simp add: rec_def)
    qed
  qed
qed

end

section \<open>Listing, lifecycle and deletion\<close>

context manager_env
begin

lemma List_records:
  assumes "mgr_inv E w"
  shows "finite (dom (records E w)) \<and>
    Manager_List E w = Inr (map (\<lambda>k. the (records E w k)) (sorted_list_of_set (dom (records E w))))"
proof -
  obtain recs where l: "Manager_List E w = Inr recs" and s: "set recs = ran (records E w)"
    and o: "sorted_wrt (<) (map r_ID recs)"
    using Manager_List_eq[OF assms] by blast
  have rec: "records E w (r_ID r) = Some r" if "r \<in> set recs" for r
    using that s records_ok[OF assms] by (force simp: ran_def)
  have d: "set (map r_ID recs) = dom (records E w)"
    using s rec records_ok[OF assms] by (force simp: ran_def dom_def image_iff)
  have "map r_ID recs = sorted_list_of_set (dom (records E w))"
    using o d sorted_list_of_set.idem_if_sorted_distinct[of "map r_ID recs"] by (simp add: strict_sorted_iff)
  moreover have "recs = map (\<lambda>k. the (records E w k)) (map r_ID recs)"
    using rec by (simp add: map_idI)
  moreover have "finite (dom (records E w))" using d by (metis List.finite_set)
  ultimately show ?thesis using l by metis
qed

lemma start_transition: "transition binv status (be_Start (en_backend E)) ''running''"
  unfolding transition_def using bk.start_ok bk.start_err by blast

lemma stop_transition: "transition binv status (be_Stop (en_backend E)) ''stopped''"
  unfolding transition_def using bk.stop_ok bk.stop_err by blast

lemma lifecycle_cases:
  assumes "mgr_inv E w" "binv (w_be w)" "Manager_lifecycle E i fn st w = (r, w')"
    and tr: "transition binv status fn st"
  shows "mgr_inv E w' \<and> binv (w_be w') \<and> w_cap w' = w_cap w \<and> w_node w' = w_node w \<and>
    (case r of
       Inr _ \<Rightarrow> status (w_be w) i \<noteq> None \<and> status (w_be w') = (status (w_be w))(i \<mapsto> st)
         \<and> (\<exists>x t. records E w i = Some x
              \<and> records E w' = (records E w)(i \<mapsto> x\<lparr>r_Status := st, r_UpdatedAt := t\<rparr>))
     | Inl e \<Rightarrow> records E w' = records E w
         \<and> (records E w i = None \<longrightarrow> e = ErrNotFound \<and> w_be w' = w_be w))"
proof (cases "records E w i")
  case None
  with assms(1,2,3) show ?thesis by (auto simp: Manager_lifecycle_def Manager_Get_eq)
next
  case (Some x)
  have x: "r_BackendName x = i" using records_ok[OF assms(1) Some] by simp
  obtain q s where f: "fn (w_be w) i = (q, s)" by fastforce
  show ?thesis
  proof (cases q)
    case (Inl e)
    have "r = Inl e" "w' = w\<lparr>w_be := s\<rparr>"
      using assms(3) Some x f Inl by (auto simp: Manager_lifecycle_def Manager_Get_eq[OF assms(1)])
    moreover have "binv s \<and> status s = status (w_be w)"
      using tr assms(2) f[unfolded Inl] unfolding transition_def by blast
    ultimately show ?thesis
      using assms(1) Some mgr_inv_cong[of w' w E] records_cong[of w' w E] by auto
  next
    case (Inr u)
    let ?w1 = "w\<lparr>w_be := s\<rparr>"
    obtain p v where m: "Manager_mutate E i (\<lambda>r. r\<lparr>r_Status := st\<rparr>) ?w1 = (p, v)" by fastforce
    have inv1: "mgr_inv E ?w1" and r1: "records E ?w1 = records E w"
      using assms(1) mgr_inv_cong[of ?w1 w E] records_cong[of ?w1 w E] by auto
    note mc = mutate_cases[OF inv1 m]
    have k: "binv s \<and> status (w_be w) i \<noteq> None \<and> status s = (status (w_be w))(i \<mapsto> st)"
      using tr assms(2) f[unfolded Inr] unfolding transition_def by (metis (full_types) old.unit.exhaust)
    have out: "(r, w') = (case p of Inl e \<Rightarrow> (Inl e, v) | Inr _ \<Rightarrow> (Inr (), publish E (''sandbox.'' @ st) (r_ID x) None v))"
      using assms(3) Some x f Inr m
      by (auto simp: Manager_lifecycle_def Manager_Get_eq[OF assms(1)] split: sum.splits)
    have same: "w_db w' = w_db v" "w_be w' = w_be v" "w_node w' = w_node v" "w_cap w' = w_cap v"
      using out by (auto split: sum.splits)
    show ?thesis
      using out mc k same r1 Some mgr_inv_cong[of w' v E] records_cong[of w' v E] records_cong[of v ?w1 E]
      by (cases p) auto
  qed
qed

lemma secrets_cases:
  assumes "binv (w_be w)"
  shows "binv (w_be (removeCustomSecrets E n w))
    \<and> status (w_be (removeCustomSecrets E n w)) = status (w_be w)
    \<and> w_db (removeCustomSecrets E n w) = w_db w \<and> w_node (removeCustomSecrets E n w) = w_node w
    \<and> w_cap (removeCustomSecrets E n w) = w_cap w"
proof -
  obtain q s where l: "be_SecretList (en_backend E) (w_be w) n = (q, s)" by fastforce
  then have s: "binv s" "status s = status (w_be w)" using bk.secret_list_frame[OF assms l] by auto
  show ?thesis
    using l s bk.secrets_frame[OF s(1)] by (auto simp: removeCustomSecrets_def split: sum.splits)
qed

lemma Delete_cases:
  assumes "mgr_inv E w" "binv (w_be w)" "Manager_Delete E i w = (r, w')"
  shows "mgr_inv E w' \<and> binv (w_be w') \<and> w_cap w' = w_cap w \<and> w_node w' = w_node w \<and>
    (case r of
       Inr _ \<Rightarrow> records E w' = (records E w)(i := None) \<and> status (w_be w') = (status (w_be w))(i := None)
     | Inl e \<Rightarrow> records E w' = records E w)"
proof -
  obtain q s where rm: "be_Remove (en_backend E) (w_be w) i = (q, s)" by fastforce
  note err = bk.remove_err[OF assms(2)] and gone = bk.removed[OF assms(2) rm]
  show ?thesis
  proof (cases "records E w i")
    case None
    have b: "binv s" using rm bk.remove_ok[OF assms(2)] err by (cases q) auto
    have "w' = w\<lparr>w_be := s\<rparr>" "r = (if q = Inr () \<or> q = Inl ErrNotFound then Inr () else q)"
      using assms(3) None rm
      by (auto simp: Manager_Delete_def Manager_Get_eq[OF assms(1)] split: sum.splits if_splits)
    then show ?thesis
      using b assms(1) None gone mgr_inv_cong[of w' w E] records_cong[of w' w E]
      by (auto simp: fun_upd_idem split: if_splits sum.splits)
  next
    case (Some x)
    have x: "r_BackendName x = i" using records_ok[OF assms(1) Some] by simp
    show ?thesis
    proof (cases "q = Inr () \<or> q = Inl ErrNotFound")
      case False
      then obtain e where "q = Inl e" by (cases q) auto
      with False assms(3) Some x rm have "w' = w\<lparr>w_be := s\<rparr>" "r = Inl e"
        by (auto simp: Manager_Delete_def Manager_Get_eq[OF assms(1)])
      then show ?thesis
        using err rm \<open>q = Inl e\<close> assms(1) mgr_inv_cong[of w' w E] records_cong[of w' w E] by auto
    next
      case True
      define v where "v = removeCustomSecrets E i (w\<lparr>w_be := s\<rparr>)"
      have bs: "binv s \<and> status s = (status (w_be w))(i := None)" using gone True by auto
      have v: "binv (w_be v)" "status (w_be v) = (status (w_be w))(i := None)" "w_db v = w_db w"
        "w_node v = w_node w" "w_cap v = w_cap w"
        using secrets_cases[of "w\<lparr>w_be := s\<rparr>" i] bs by (auto simp: v_def)
      have out: "(r, w') = (case store_Delete (en_bolt E) (w_db v) ''sandboxes'' i of
            Inl e \<Rightarrow> (Inl e, v)
          | Inr db' \<Rightarrow> (Inr (), Manager_notifyOwnedChanged E (publish E ''sandbox.deleted'' i None (v\<lparr>w_db := db'\<rparr>))))"
        using assms(3) Some x rm True
        by (auto simp: Manager_Delete_def Manager_Get_eq[OF assms(1)] v_def Let_def split: sum.splits)
      show ?thesis
      proof (cases "store_Delete (en_bolt E) (w_db v) ''sandboxes'' i")
        case (Inl e)
        with out v assms(1) show ?thesis using mgr_inv_cong[of v w E] records_cong[of v w E] by auto
      next
        case (Inr db')
        then have "b_delete (en_bolt E) (w_db w) ''sandboxes'' i = Inr db'"
          using assms(1) v(3) by (simp add: store_Delete_def mgr_inv_def)
        note D = db.delete_D[OF this]
        have w': "w_db w' = db'" "w_be w' = w_be v" "w_node w' = w_node w" "w_cap w' = w_cap w" "r = Inr ()"
          using out Inr v by auto
        have "records E w' = (records E w)(i := None)" "mgr_inv E w'"
          using D w' assms(1) by (auto simp: records_def mgr_inv_def fun_eq_iff)
        with w' v show ?thesis by simp
      qed
    qed
  qed
qed

end

end
