(* ===== verification/Manager_Correct.thy ===== *)
theory Manager_Correct
  imports Manager
begin

text \<open>
  Correctness of the sandbox manager: admission together with creation, reconciliation, the
  invariant over every interleaving of whole operations, and the properties.  The theorems hold for
  every bbolt that behaves as documented (\<open>bolt_laws\<close>) and every backend that keeps
  \<open>backend_contract\<close>; the witnesses run on the in-memory database and the fake backend.
\<close>

section \<open>Admission\<close>

definition base_of :: "Capacity \<Rightarrow> rat \<times> rat \<times> rat" where
  "base_of c = (baseCPU c, baseMem c, baseDisk c)"

lemma costSum_cong:
  "map (\<lambda>r. (r_Status r, r_Spec r)) xs = map (\<lambda>r. (r_Status r, r_Spec r)) ys \<Longrightarrow> costSum xs = costSum ys"
proof -
  assume m: "map (\<lambda>r. (r_Status r, r_Spec r)) xs = map (\<lambda>r. (r_Status r, r_Spec r)) ys"
  define f where "f = (\<lambda>(st, sp) (cpu, mem, disk). if st = ''lost'' then (cpu, mem, disk)
         else let (c, m, d) = costOf sp in (cpu + c :: rat, mem + m :: rat, disk + d :: rat))"
  have "costSum zs = fold f (map (\<lambda>r. (r_Status r, r_Spec r)) zs) (0, 0, 0)" for zs
    unfolding costSum_def f_def fold_map by (rule arg_cong2[of _ _ _ _ "\<lambda>g. fold g zs"]) (auto simp: fun_eq_iff)
  with m show ?thesis by simp
qed

definition cost_amount :: "CreateSpec \<Rightarrow> reservation" where
  "cost_amount spec = (case costOf spec of (c, m, d) \<Rightarrow> \<lparr>rv_cpu = c, rv_mem = m, rv_disk = d\<rparr>)"

lemma reserve_cost:
  "(case costOf spec of (c, m, d) \<Rightarrow> Capacity_TryReserve c m d cap) = reserve_amount (cost_amount spec) cap"
  by (simp add: reserve_amount_def cost_amount_def split: prod.splits)

lemma CommitBase_resv:
  assumes "cap_inv c" "reserve_amount q c = (Some i, c')"
  shows "resv (Capacity_CommitBase a b d i c') = resv c"
    and "base_of (Capacity_CommitBase a b d i c') = (a, b, d)"
  using used_TryReserve[OF assms] cap_inv_next_fresh[OF assms(1)]
  by (auto simp: Capacity_CommitBase_def base_of_def AList.delete_eq filter_id_conv image_iff)

context manager_env
begin

lemma Admit_cases:
  assumes "mgr_inv E w" "binv (w_be w)" "cap_inv (w_cap w)" "Manager_AdmitAndCreate E spec w = (r, w')"
  shows "mgr_inv E w' \<and> binv (w_be w') \<and> cap_inv (w_cap w') \<and> w_node w' = w_node w \<and>
    (case r of
       Inl e \<Rightarrow> records E w' = records E w \<and> usedLocked (w_cap w') = usedLocked (w_cap w)
         \<and> (\<not> within_limits (amount_plus (usedLocked (w_cap w)) (cost_amount spec)) (w_cap w) \<longrightarrow> e = ErrNoCapacity \<and> w' = w)
     | Inr rec \<Rightarrow> within_limits (amount_plus (usedLocked (w_cap w)) (cost_amount spec)) (w_cap w)
         \<and> records E w' = (records E w)(r_ID rec \<mapsto> rec)
         \<and> (\<exists>recs. Manager_List E w' = Inr recs \<and> base_of (w_cap w') = costSum recs)
         \<and> resv (w_cap w') = resv (w_cap w))"
proof -
  obtain x c where t: "reserve_amount (cost_amount spec) (w_cap w) = (x, c)" by fastforce
  then have t': "(case costOf spec of (a, m, d) \<Rightarrow> Capacity_TryReserve a m d (w_cap w)) = (x, c)"
    by (simp only: reserve_cost)
  show ?thesis
  proof (cases x)
    case None
    then have "c = w_cap w" using t cap.reserve_refused by blast
    then have "r = Inl ErrNoCapacity" "w' = w"
      using assms(4) t' None by (auto simp: Manager_AdmitAndCreate_def split: prod.splits)
    with assms(1-3) show ?thesis by simp
  next
    case (Some i)
    note t = t[unfolded Some]
    let ?w1 = "w\<lparr>w_cap := c\<rparr>"
    have fit: "within_limits (amount_plus (usedLocked (w_cap w)) (cost_amount spec)) (w_cap w)"
      using cap.reserve_None[of "cost_amount spec" "w_cap w"] t by simp
    have ci: "cap_inv c" using cap.reserve_Some[OF assms(3) t] by simp
    obtain q v where cr: "Manager_Create E spec ?w1 = (q, v)" by fastforce
    have inv1: "mgr_inv E ?w1" and r1: "records E ?w1 = records E w" and b1: "binv (w_be ?w1)"
      using assms mgr_inv_cong[of ?w1 w E] records_cong[of ?w1 w E] by auto
    note cc = Create_cases[OF inv1 b1 cr]
    show ?thesis
    proof (cases q)
      case (Inl e)
      then have "r = Inl e" "w' = v\<lparr>w_cap := Capacity_Release i (w_cap v)\<rparr>"
        using assms(4) t' Some cr by (auto simp: Manager_AdmitAndCreate_def split: prod.splits)
      moreover have "w_cap v = c" using cc by simp
      ultimately show ?thesis
        using cc Inl r1 fit ci cap.admit_then_release[OF assms(3) t] cap_inv_Release[OF ci]
          mgr_inv_cong[of w' v E] records_cong[of w' v E] by simp
    next
      case (Inr rec)
      have invv: "mgr_inv E v" and cv: "w_cap v = c" using cc by simp_all
      obtain recs where l: "Manager_List E v = Inr recs" using Manager_List_eq[OF invv] by blast
      obtain bc bm bd where cs: "costSum recs = (bc, bm, bd)" by (metis prod_cases3)
      have w': "r = Inr rec" "w' = v\<lparr>w_cap := Capacity_CommitBase bc bm bd i c\<rparr>"
        using assms(4) t' Some cr Inr l cs cv by (auto simp: Manager_AdmitAndCreate_def split: prod.splits)
      have "Manager_List E w' = Inr recs" using l Manager_List_cong[of w' v E] w' by simp
      moreover have "records E w' = (records E w)(r_ID rec \<mapsto> rec)"
        using cc Inr r1 records_cong[of w' v E] w' by simp
      ultimately show ?thesis
        using w' cc Inr fit CommitBase_resv[OF assms(3) t] cap_inv_CommitBase[OF ci] cs
          mgr_inv_cong[of w' v E] by simp
    qed
  qed
qed

end

section \<open>Reconciliation\<close>

definition dead :: "string list \<Rightarrow> Record \<Rightarrow> bool" where
  "dead alive r \<longleftrightarrow> r_Status r \<noteq> ''lost'' \<and> r_BackendName r \<notin> set alive"

definition mark :: "string list \<Rightarrow> Record \<Rightarrow> Record" where
  "mark alive r = (if dead alive r then r\<lparr>r_Status := ''lost''\<rparr> else r)"

text \<open>\<open>x'\<close> is the record \<open>x\<close> after reconciliation: marked if it is dead, with a new update time.\<close>

definition reconciled :: "string list \<Rightarrow> Record \<Rightarrow> Record \<Rightarrow> bool" where
  "reconciled alive x x' \<longleftrightarrow>
     (if dead alive x then \<exists>t. x' = x\<lparr>r_Status := ''lost'', r_UpdatedAt := t\<rparr> else x' = x)"

lemma mark_alive [simp]: "\<not> dead alive x \<Longrightarrow> mark alive x = x \<and> reconciled alive x x"
  by (simp add: mark_def reconciled_def)

lemma mark_dead [simp]:
  "dead alive x \<Longrightarrow> mark alive x = x\<lparr>r_Status := ''lost''\<rparr>
    \<and> reconciled alive x (x\<lparr>r_Status := ''lost'', r_UpdatedAt := t\<rparr>)"
  by (auto simp: mark_def reconciled_def)

lemma reconciled_same:
  "reconciled alive x x' \<Longrightarrow> r_Status x' = r_Status (mark alive x) \<and> r_Spec x' = r_Spec x"
  by (auto simp: reconciled_def mark_def split: if_splits)

context manager_env
begin

lemma reconcile_loop_ok:
  assumes "mgr_inv E w" "distinct (map r_ID recs)" "\<forall>x \<in> set recs. records E w (r_ID x) = Some x"
    and "reconcile_loop E alive recs w = (r, w')"
  shows "mgr_inv E w' \<and> w_be w' = w_be w \<and> w_node w' = w_node w \<and> w_cap w' = w_cap w \<and>
    (\<forall>out. r = Inr out \<longrightarrow> out = map (mark alive) recs
      \<and> (\<forall>k. k \<notin> r_ID ` set recs \<longrightarrow> records E w' k = records E w k)
      \<and> (\<forall>x \<in> set recs. \<exists>x'. records E w' (r_ID x) = Some x' \<and> reconciled alive x x'))"
  using assms
proof (induction recs arbitrary: w r w')
  case Nil
  then show ?case by auto
next
  case (Cons x xs)
  show ?case
  proof (cases "dead alive x")
    case False
    obtain q v where l: "reconcile_loop E alive xs w = (q, v)" by fastforce
    have "(r, w') = (case q of Inl e \<Rightarrow> (Inl e, v) | Inr out \<Rightarrow> (Inr (x # out), v))"
      using Cons.prems(4) False l by (auto simp: dead_def split: sum.splits)
    with Cons.IH[OF Cons.prems(1) _ _ l] Cons.prems(2,3) False show ?thesis
      by (auto split: sum.splits)
  next
    case True
    obtain p v where m: "Manager_mutate E (r_ID x) (\<lambda>r. r\<lparr>r_Status := ''lost''\<rparr>) w = (p, v)" by fastforce
    note mc = mutate_cases[OF Cons.prems(1) m]
    have rx: "records E w (r_ID x) = Some x" using Cons.prems(3) by simp
    show ?thesis
    proof (cases p)
      case (Inl e)
      then have "e \<noteq> ErrNotFound" using mc rx by simp
      then have "r = Inl e" "w' = v" using Cons.prems(4) True m Inl by (auto simp: dead_def)
      with mc show ?thesis by auto
    next
      case (Inr u)
      let ?v = "publish E ''sandbox.lost'' (r_ID x) None v"
      obtain q u' where l: "reconcile_loop E alive xs ?v = (q, u')" by fastforce
      have out: "(r, w') = (case q of Inl e \<Rightarrow> (Inl e, u') | Inr recs' \<Rightarrow> (Inr (x\<lparr>r_Status := ''lost''\<rparr> # recs'), u'))"
        using Cons.prems(4) True m Inr l by (auto simp: dead_def split: sum.splits)
      have rv: "records E ?v = (records E w)(r_ID x \<mapsto> x\<lparr>r_Status := ''lost'', r_UpdatedAt := en_clock E (w_tick w)\<rparr>)"
        using mc Inr rx records_cong[of ?v v E] by simp
      have iv: "mgr_inv E ?v" using mc mgr_inv_cong[of ?v v E] by simp
      have sn: "\<forall>y \<in> set xs. records E ?v (r_ID y) = Some y"
        using Cons.prems(2,3) rv by (auto simp: image_iff)
      have dx: "distinct (map r_ID xs)" using Cons.prems(2) by simp
      have "r_ID x \<notin> r_ID ` set xs" using Cons.prems(2) by simp
      with Cons.IH[OF iv dx sn l] out mc rv True show ?thesis
        by (auto split: sum.splits)
    qed
  qed
qed

end

context manager_env
begin

lemma Reconcile_with_cases:
  assumes "mgr_inv E w" "Reconcile_with E live w = (r, w')"
  shows "mgr_inv E w' \<and> w_be w' = w_be w \<and> w_node w' = w_node w \<and> (cap_inv (w_cap w) \<longrightarrow> cap_inv (w_cap w')) \<and>
    (r = Inr () \<longrightarrow>
       dom (records E w') = dom (records E w)
     \<and> (\<forall>k x. records E w k = Some x \<longrightarrow> (\<exists>x'. records E w' k = Some x' \<and> reconciled (map bs_Name live) x x'))
     \<and> (\<exists>recs. Manager_List E w' = Inr recs \<and> base_of (w_cap w') = costSum recs)
     \<and> resv (w_cap w') = resv (w_cap w))"
proof -
  let ?al = "map bs_Name live"
  let ?ks = "sorted_list_of_set (dom (records E w))"
  define recs where "recs = map (\<lambda>k. the (records E w k)) ?ks"
  have fin: "finite (dom (records E w))" and l: "Manager_List E w = Inr recs"
    using List_records[OF assms(1)] by (auto simp: recs_def)
  have ids: "map r_ID recs = ?ks" and cur: "\<forall>x \<in> set recs. records E w (r_ID x) = Some x"
    using records_ok[OF assms(1)] fin by (auto simp: recs_def o_def dom_def intro!: map_idI)
  have dist: "distinct (map r_ID recs)" using ids by simp
  obtain q v where lp: "reconcile_loop E ?al recs w = (q, v)" by fastforce
  note rl = reconcile_loop_ok[OF assms(1) dist cur lp]
  show ?thesis
  proof (cases q)
    case (Inl e)
    then have "w' = v" "r \<noteq> Inr ()" using assms(2) l lp by (auto simp: Reconcile_with_def)
    with rl show ?thesis by simp
  next
    case (Inr out)
    have out: "out = map (mark ?al) recs" using rl Inr by simp
    obtain a b d where cs: "costSum out = (a, b, d)" by (metis prod_cases3)
    have w': "w' = v\<lparr>w_cap := Capacity_SetBase a b d (w_cap v)\<rparr>"
      using assms(2) l lp Inr cs by (auto simp: Reconcile_with_def)
    have iv: "mgr_inv E w'" and rv: "records E w' = records E v"
      using rl mgr_inv_cong[of w' v E] records_cong[of w' v E] w' by auto
    have at: "\<exists>x'. records E w' k = Some x' \<and> reconciled ?al x x'" if "records E w k = Some x" for k x
    proof -
      have "x \<in> set recs" "r_ID x = k" using that records_ok[OF assms(1) that] fin by (force simp: recs_def)+
      then show ?thesis using rl Inr rv by auto
    qed
    have dm: "dom (records E w') = dom (records E w)"
    proof
      show "dom (records E w') \<subseteq> dom (records E w)"
      proof
        fix k assume k: "k \<in> dom (records E w')"
        show "k \<in> dom (records E w)"
        proof (rule ccontr)
          assume n: "k \<notin> dom (records E w)"
          then have "k \<notin> r_ID ` set recs" using cur by (auto simp: dom_def)
          then have "records E v k = records E w k" using rl Inr by simp
          with k n rv show False by (simp add: dom_def)
        qed
      qed
    qed (use at in blast)
    have "Manager_List E w' = Inr (map (\<lambda>k. the (records E w' k)) ?ks)"
      using List_records[OF iv] dm by simp
    moreover have "costSum (map (\<lambda>k. the (records E w' k)) ?ks) = costSum out"
    proof (rule costSum_cong, unfold out recs_def map_map, rule map_cong[OF refl])
      fix k assume "k \<in> set ?ks"
      then obtain x where x: "records E w k = Some x" using fin by auto
      from at[OF x] obtain x' where "records E w' k = Some x'" "reconciled ?al x x'" by blast
      then show "((\<lambda>r. (r_Status r, r_Spec r)) \<circ> (\<lambda>k. the (records E w' k))) k =
          ((\<lambda>r. (r_Status r, r_Spec r)) \<circ> (mark ?al \<circ> (\<lambda>k. the (records E w k)))) k"
        using x reconciled_same[of ?al x x'] by (simp add: mark_def)
    qed
    ultimately have "\<exists>recs. Manager_List E w' = Inr recs \<and> base_of (w_cap w') = costSum recs"
      using cs w' by (auto simp: base_of_def Capacity_SetBase_def)
    with iv dm at rl w' show ?thesis
      by (auto simp: Capacity_SetBase_def cap_inv_SetBase[unfolded Capacity_SetBase_def])
  qed
qed

end

section \<open>Sequences of operations\<close>

datatype mgr_op =
    DoCreate CreateSpec
  | DoAdmit CreateSpec
  | DoStart string
  | DoStop string
  | DoDelete string
  | DoBump string
  | DoSetPublish string gotime
  | DoReconcile

fun mgr_exec :: "('db, 'be) Env \<Rightarrow> mgr_op \<Rightarrow> ('db, 'be) World \<Rightarrow> ('db, 'be) World" where
  "mgr_exec E (DoCreate spec) w = snd (Manager_Create E spec w)"
| "mgr_exec E (DoAdmit spec) w = snd (Manager_AdmitAndCreate E spec w)"
| "mgr_exec E (DoStart i) w = snd (Manager_Start E i w)"
| "mgr_exec E (DoStop i) w = snd (Manager_Stop E i w)"
| "mgr_exec E (DoDelete i) w = snd (Manager_Delete E i w)"
| "mgr_exec E (DoBump i) w = snd (Manager_BumpActivity E i w)"
| "mgr_exec E (DoSetPublish i t) w = snd (Manager_SetLastPublish E i t w)"
| "mgr_exec E DoReconcile w = snd (Manager_Reconcile E w)"

definition node_ok :: "('db, 'be) Env \<Rightarrow> ('be \<Rightarrow> bool) \<Rightarrow> ('db, 'be) World \<Rightarrow> bool" where
  "node_ok E binv w \<longleftrightarrow> mgr_inv E w \<and> binv (w_be w) \<and> cap_inv (w_cap w)"

context manager_env
begin

lemma Bump_cases:
  assumes "mgr_inv E w" "Manager_BumpActivity E i w = (r, w')"
  shows "mgr_inv E w' \<and> w_be w' = w_be w \<and> w_node w' = w_node w \<and> w_cap w' = w_cap w \<and>
    (case r of
       Inl e \<Rightarrow> records E w' = records E w \<and> (records E w i = None \<longleftrightarrow> e = ErrNotFound)
     | Inr _ \<Rightarrow> \<exists>x t. records E w i = Some x
         \<and> records E w' = (records E w)(i \<mapsto> x\<lparr>r_LastActivity := en_clock E (w_tick w), r_UpdatedAt := t\<rparr>))"
proof (cases "records E w i")
  case None
  with assms show ?thesis by (auto simp: Manager_BumpActivity_def Manager_Get_eq)
next
  case (Some x)
  define v where "v = snd (now E w)"
  have v: "mgr_inv E v" "records E v = records E w"
    using assms(1) mgr_inv_cong[of v w E] records_cong[of v w E] by (simp_all add: v_def)
  have m: "Manager_mutate E i (\<lambda>r. r\<lparr>r_LastActivity := en_clock E (w_tick w)\<rparr>) v = (r, w')"
    using assms Some by (simp add: Manager_BumpActivity_def Manager_Get_eq v_def case_prod_unfold)
  from mutate_cases[OF v(1) m] v(2) Some show ?thesis
    using records_cong[of w' v E] by (auto simp: v_def split: sum.splits)
qed

lemma Start_cases:
  assumes "mgr_inv E w" "binv (w_be w)" "Manager_Start E i w = (r, w')"
  shows "mgr_inv E w' \<and> binv (w_be w') \<and> w_node w' = w_node w \<and> w_cap w' = w_cap w \<and>
    (r = Inr () \<longrightarrow> status (w_be w) i \<noteq> None \<and> status (w_be w') = (status (w_be w))(i \<mapsto> ''running'')
       \<and> (\<exists>x x'. records E w i = Some x \<and> records E w' = (records E w)(i \<mapsto> x')
            \<and> r_Status x' = ''running'' \<and> r_Spec x' = r_Spec x))"
proof -
  obtain q v where l: "Manager_lifecycle E i (be_Start (en_backend E)) ''running'' w = (q, v)" by fastforce
  note lc = lifecycle_cases[OF assms(1,2) l start_transition]
  show ?thesis
  proof (cases q)
    case (Inl e)
    with assms(3) l have "r = Inl e" "w' = v" by (auto simp: Manager_Start_def)
    with lc show ?thesis by simp
  next
    case (Inr u)
    have b: "Manager_BumpActivity E i v = (r, w')" using assms(3) l Inr by (simp add: Manager_Start_def)
    have iv: "mgr_inv E v" using lc by blast
    have lcr: "status (w_be w) i \<noteq> None" "status (w_be v) = (status (w_be w))(i \<mapsto> ''running'')"
      "\<exists>x t. records E w i = Some x \<and> records E v = (records E w)(i \<mapsto> x\<lparr>r_Status := ''running'', r_UpdatedAt := t\<rparr>)"
      using lc Inr by auto
    then show ?thesis using Bump_cases[OF iv b] lc by (auto split: sum.splits)
  qed
qed

lemma Reconcile_cases:
  assumes "mgr_inv E w" "binv (w_be w)" "Manager_Reconcile E w = (r, w')"
  shows "mgr_inv E w' \<and> binv (w_be w') \<and> status (w_be w') = status (w_be w) \<and> w_node w' = w_node w
    \<and> (cap_inv (w_cap w) \<longrightarrow> cap_inv (w_cap w')) \<and>
    (r = Inr () \<longrightarrow>
       dom (records E w') = dom (records E w)
     \<and> (\<forall>k x. records E w k = Some x \<longrightarrow> (\<exists>x'. records E w' k = Some x' \<and>
          (if r_Status x \<noteq> ''lost'' \<and> status (w_be w) k = None
           then \<exists>t. x' = x\<lparr>r_Status := ''lost'', r_UpdatedAt := t\<rparr> else x' = x)))
     \<and> (\<exists>recs. Manager_List E w' = Inr recs \<and> base_of (w_cap w') = costSum recs)
     \<and> resv (w_cap w') = resv (w_cap w))"
proof -
  obtain q s where l: "be_List (en_backend E) (w_be w) = (q, s)" by fastforce
  note fr = bk.list_frame[OF assms(2) l]
  let ?w = "w\<lparr>w_be := s\<rparr>"
  have iv: "mgr_inv E ?w" and rv: "records E ?w = records E w"
    using assms(1) mgr_inv_cong[of ?w w E] records_cong[of ?w w E] by auto
  show ?thesis
  proof (cases q)
    case (Inl e)
    then have "r = Inl e" "w' = ?w" using assms(3) l by (auto simp: Manager_Reconcile_def)
    with fr iv show ?thesis by simp
  next
    case (Inr live)
    have al: "set (map bs_Name live) = dom (status (w_be w))"
      using bk.list_ok[OF assms(2) l[unfolded Inr]] by simp
    have rw: "Reconcile_with E live ?w = (r, w')" using assms(3) l Inr by (simp add: Manager_Reconcile_def)
    have dd: "dead (map bs_Name live) x \<longleftrightarrow> r_Status x \<noteq> ''lost'' \<and> status (w_be w) k = None"
      if "records E w k = Some x" for k x
      using records_ok[OF assms(1) that] al by (auto simp: dead_def dom_def)
    note rc = Reconcile_with_cases[OF iv rw, unfolded rv reconciled_def]
    have "\<forall>k x. records E w k = Some x \<longrightarrow> (\<exists>x'. records E w' k = Some x' \<and>
          (if r_Status x \<noteq> ''lost'' \<and> status (w_be w) k = None
           then \<exists>t. x' = x\<lparr>r_Status := ''lost'', r_UpdatedAt := t\<rparr> else x' = x))" if "r = Inr ()"
      using rc that dd by (simp only: simp_thms) metis
    with rc fr show ?thesis by auto
  qed
qed

lemma mgr_exec_ok: "node_ok E binv w \<Longrightarrow> node_ok E binv (mgr_exec E op w)"
proof -
  assume "node_ok E binv w"
  then have i: "mgr_inv E w" and b: "binv (w_be w)" and c: "cap_inv (w_cap w)" by (simp_all add: node_ok_def)
  show ?thesis
  proof (cases op)
    case (DoCreate spec)
    obtain r w' where "Manager_Create E spec w = (r, w')" by fastforce
    with Create_cases[OF i b this] c DoCreate show ?thesis by (simp add: node_ok_def)
  next
    case (DoAdmit spec)
    obtain r w' where "Manager_AdmitAndCreate E spec w = (r, w')" by fastforce
    with Admit_cases[OF i b c this] DoAdmit show ?thesis by (simp add: node_ok_def)
  next
    case (DoStart k)
    obtain r w' where "Manager_Start E k w = (r, w')" by fastforce
    with Start_cases[OF i b this] c DoStart show ?thesis by (simp add: node_ok_def)
  next
    case (DoStop k)
    obtain r w' where s: "Manager_Stop E k w = (r, w')" by fastforce
    from lifecycle_cases[OF i b s[unfolded Manager_Stop_def] stop_transition] s c DoStop
    show ?thesis by (simp add: node_ok_def)
  next
    case (DoDelete k)
    obtain r w' where "Manager_Delete E k w = (r, w')" by fastforce
    with Delete_cases[OF i b this] c DoDelete show ?thesis by (simp add: node_ok_def)
  next
    case (DoBump k)
    obtain r w' where "Manager_BumpActivity E k w = (r, w')" by fastforce
    with Bump_cases[OF i this] b c DoBump show ?thesis by (simp add: node_ok_def)
  next
    case (DoSetPublish k t)
    obtain r w' where s: "Manager_SetLastPublish E k t w = (r, w')" by fastforce
    from mutate_cases[OF i s[unfolded Manager_SetLastPublish_def]] s b c DoSetPublish show ?thesis
      by (simp add: node_ok_def)
  next
    case DoReconcile
    obtain r w' where "Manager_Reconcile E w = (r, w')" by fastforce
    with Reconcile_cases[OF i b this] c DoReconcile show ?thesis by (simp add: node_ok_def)
  qed
qed

lemma mgr_run_ok: "node_ok E binv w \<Longrightarrow> node_ok E binv (fold (mgr_exec E) ops w)"
  by (induction ops arbitrary: w) (auto intro: mgr_exec_ok)

end

section \<open>A node with one sandbox\<close>

definition mem_world1 :: "(mem_db, Fake) World" where
  "mem_world1 = snd (Manager_AdmitAndCreate mem_env small_spec mem_world)"

interpretation memenv: manager_env mem_env fake_inv fake_status
  by (rule manager_env.intro) (simp_all add: mem_env_def mem_bolt_laws fake.backend_contract_axioms)

lemma mem_manager_env: "manager_env mem_env fake_inv fake_status"
  by (rule memenv.manager_env_axioms)

lemma mem_world_ok: "node_ok mem_env fake_inv mem_world"
proof -
  have "b_has mem_bolt mem_open ''sandboxes''" "mem_kvs mem_open ''sandboxes'' = []" by code_simp+
  then have "mgr_inv mem_env mem_world"
    by (simp add: mgr_inv_def mem_env_def mem_world_def mem_bolt_def)
  then show ?thesis
    using cap_inv_new[of 4 0 0] fake_inv_new[of "[]"] by (simp add: node_ok_def mem_world_def)
qed

lemma mem_world1_create:
  "\<exists>rec. Manager_AdmitAndCreate mem_env small_spec mem_world = (Inr rec, mem_world1) \<and> r_ID rec = ''n1.00''"
proof -
  have "map_sum (\<lambda>_. ()) r_ID (fst (Manager_AdmitAndCreate mem_env small_spec mem_world)) = Inr ''n1.00''"
    by code_simp
  then obtain rec where "fst (Manager_AdmitAndCreate mem_env small_spec mem_world) = Inr rec" "r_ID rec = ''n1.00''"
    by (cases "fst (Manager_AdmitAndCreate mem_env small_spec mem_world)") auto
  then show ?thesis by (metis mem_world1_def prod.collapse)
qed

lemma mem_world1_ok: "node_ok mem_env fake_inv mem_world1"
  using memenv.mgr_exec_ok[OF mem_world_ok, of "DoAdmit small_spec"] by (simp add: mem_world1_def)

section \<open>Properties\<close>

text \<open>
  C1: the manager's invariant.  Whatever sequence of its operations runs, and whether each succeeds
  or fails, the store keeps one well-formed record per id, stored under that id, named so in the
  backend and owned by this node, and the capacity tracker stays consistent.
\<close>

theorem manager_invariant:
  assumes "manager_env E binv status" and "node_ok E binv w"
  shows "node_ok E binv (fold (mgr_exec E) ops w)"
  using manager_env.mgr_run_ok[OF assms] .

theorem manager_invariant_witness:
  "node_ok mem_env fake_inv (fold (mgr_exec mem_env) [DoAdmit small_spec, DoStop ''n1.00'', DoReconcile] mem_world)"
  by (rule manager_invariant[OF mem_manager_env mem_world_ok])

text \<open>
  C2: admission and creation.  On success the request fitted on top of everything used, the new
  record and nothing else was added to the store and reads back, other reservations are untouched,
  and the tracker's base is exactly the cost of all stored records that are not lost.  On failure
  the store is unchanged and so is the usage; a request that does not fit is refused with
  \<open>ErrNoCapacity\<close> and changes nothing at all.
\<close>

theorem AdmitAndCreate_correct:
  assumes "manager_env E binv status" and "node_ok E binv w"
    and "Manager_AdmitAndCreate E spec w = (r, w')"
  shows "case r of
     Inr rec \<Rightarrow>
       within_limits (amount_plus (Capacity_Snapshot (w_cap w)) (cost_amount spec)) (w_cap w)
     \<and> records E w' = (records E w)(r_ID rec \<mapsto> rec) \<and> Manager_Get E (r_ID rec) w' = Inr rec
     \<and> (\<exists>recs. Manager_List E w' = Inr recs \<and> base_of (w_cap w') = costSum recs)
     \<and> resv (w_cap w') = resv (w_cap w)
   | Inl e \<Rightarrow>
       records E w' = records E w \<and> Capacity_Snapshot (w_cap w') = Capacity_Snapshot (w_cap w)
     \<and> (\<not> within_limits (amount_plus (Capacity_Snapshot (w_cap w)) (cost_amount spec)) (w_cap w) \<longrightarrow>
          e = ErrNoCapacity \<and> w' = w)"
proof -
  have "mgr_inv E w" "binv (w_be w)" "cap_inv (w_cap w)" using assms(2) by (simp_all add: node_ok_def)
  note a = manager_env.Admit_cases[OF assms(1) this assms(3)]
  show ?thesis
    using a by (auto simp: Capacity_Snapshot_def Manager_Get_eq split: sum.splits)
qed

theorem AdmitAndCreate_correct_witness:
  "\<exists>rec. Manager_Get mem_env ''n1.00'' mem_world1 = Inr rec"
proof -
  obtain rec where c: "Manager_AdmitAndCreate mem_env small_spec mem_world = (Inr rec, mem_world1)"
    and i: "r_ID rec = ''n1.00''" using mem_world1_create by blast
  from AdmitAndCreate_correct[OF mem_manager_env mem_world_ok c] i show ?thesis by auto
qed

text \<open>
  Creation.  A successful create returns a record under a fresh name of the backend, carrying
  the requested spec, adds exactly that record to the store and that sandbox to the backend; a
  failed one leaves the store as it was.
\<close>

theorem Create_correct:
  assumes "manager_env E binv status" and "node_ok E binv w" and "Manager_Create E spec w = (r, w')"
  shows "case r of
     Inr rec \<Rightarrow> status (w_be w) (r_ID rec) = None \<and> r_Spec rec = spec\<lparr>cs_Name := r_ID rec\<rparr>
       \<and> records E w' = (records E w)(r_ID rec \<mapsto> rec)
       \<and> status (w_be w') = (status (w_be w))(r_ID rec \<mapsto> r_Status rec)
   | Inl e \<Rightarrow> records E w' = records E w"
proof -
  have "mgr_inv E w" "binv (w_be w)" using assms(2) by (simp_all add: node_ok_def)
  from manager_env.Create_cases[OF assms(1) this assms(3)] show ?thesis by (auto split: sum.splits)
qed

theorem Create_correct_witness:
  "\<exists>rec w'. Manager_Create mem_env small_spec mem_world = (Inr rec, w')
     \<and> fake_status (w_be w') (r_ID rec) = Some (r_Status rec)"
proof -
  have "case fst (Manager_Create mem_env small_spec mem_world) of Inl _ \<Rightarrow> False | Inr _ \<Rightarrow> True" by code_simp
  then obtain rec w' where c: "Manager_Create mem_env small_spec mem_world = (Inr rec, w')"
    by (cases "Manager_Create mem_env small_spec mem_world") (auto split: sum.splits)
  from Create_correct[OF mem_manager_env mem_world_ok c] c show ?thesis by auto
qed

text \<open>
  Deletion.  A delete that returns without error leaves neither a record nor a sandbox of that
  id, whether the node had a record or only the daemon had the container, and touches no other; a
  delete that fails keeps every record.
\<close>

theorem Delete_correct:
  assumes "manager_env E binv status" and "node_ok E binv w" and "Manager_Delete E i w = (r, w')"
  shows "case r of
     Inr _ \<Rightarrow> Manager_Get E i w' = Inl ErrNotFound \<and> records E w' = (records E w)(i := None)
       \<and> status (w_be w') = (status (w_be w))(i := None)
   | Inl e \<Rightarrow> records E w' = records E w"
proof -
  have "mgr_inv E w" "binv (w_be w)" using assms(2) by (simp_all add: node_ok_def)
  from manager_env.Delete_cases[OF assms(1) this assms(3)] show ?thesis
    by (auto simp: Manager_Get_eq split: sum.splits)
qed

theorem Delete_correct_witness:
  "Manager_Get mem_env ''n1.00'' (snd (Manager_Delete mem_env ''n1.00'' mem_world1)) = Inl ErrNotFound"
proof -
  have "fst (Manager_Delete mem_env ''n1.00'' mem_world1) = Inr ()" by code_simp
  then have "Manager_Delete mem_env ''n1.00'' mem_world1 = (Inr (), snd (Manager_Delete mem_env ''n1.00'' mem_world1))"
    by (metis prod.collapse)
  from Delete_correct[OF mem_manager_env mem_world1_ok this] show ?thesis by simp
qed

text \<open>
  Stopping and starting.  A successful stop or start moves both the sandbox and its record to
  the new status and changes no other record.  A stop that fails changes no record, and on an id
  without a record it does not reach the backend.
\<close>

theorem Stop_Start_correct:
  assumes "manager_env E binv status" and "node_ok E binv w"
    and "Manager_Stop E i w = (r, w')" and "Manager_Start E i w = (q, v)"
  shows "(case r of
     Inr _ \<Rightarrow> status (w_be w') = (status (w_be w))(i \<mapsto> ''stopped'')
       \<and> (\<exists>x t. records E w i = Some x \<and> records E w' = (records E w)(i \<mapsto> x\<lparr>r_Status := ''stopped'', r_UpdatedAt := t\<rparr>))
   | Inl e \<Rightarrow> records E w' = records E w \<and> (records E w i = None \<longrightarrow> e = ErrNotFound \<and> w_be w' = w_be w))
   \<and> (q = Inr () \<longrightarrow> status (w_be v) = (status (w_be w))(i \<mapsto> ''running'')
       \<and> (\<exists>x x'. records E w i = Some x \<and> records E v = (records E w)(i \<mapsto> x') \<and> r_Status x' = ''running''))"
proof -
  have i: "mgr_inv E w" "binv (w_be w)" using assms(2) by (simp_all add: node_ok_def)
  note s = manager_env.lifecycle_cases[OF assms(1) i assms(3)[unfolded Manager_Stop_def]
      manager_env.stop_transition[OF assms(1)]]
  note t = manager_env.Start_cases[OF assms(1) i assms(4)]
  show ?thesis using s t by (auto split: sum.splits)
qed

theorem Stop_Start_correct_witness:
  "fake_status (w_be (snd (Manager_Start mem_env ''n1.00'' mem_world1))) ''n1.00'' = Some ''running''"
proof -
  have "fst (Manager_Start mem_env ''n1.00'' mem_world1) = Inr ()" by code_simp
  then show ?thesis
    using Stop_Start_correct[OF mem_manager_env mem_world1_ok
        prod.collapse[symmetric, of "Manager_Stop mem_env ''n1.00'' mem_world1"]
        prod.collapse[symmetric, of "Manager_Start mem_env ''n1.00'' mem_world1"]]
    by simp
qed

text \<open>
  C17: reconciliation is exact.  When it succeeds, the records whose sandbox the backend no longer
  has, and only those, are marked lost; no record appears or disappears; the backend is untouched;
  and the capacity base becomes the cost of the records that are left.
\<close>

theorem Reconcile_exact:
  assumes "manager_env E binv status" and "node_ok E binv w" and "Manager_Reconcile E w = (Inr (), w')"
  shows "dom (records E w') = dom (records E w) \<and> status (w_be w') = status (w_be w)
    \<and> (\<forall>k x. records E w k = Some x \<longrightarrow> (\<exists>x'. records E w' k = Some x' \<and>
         (if r_Status x \<noteq> ''lost'' \<and> status (w_be w) k = None
          then \<exists>t. x' = x\<lparr>r_Status := ''lost'', r_UpdatedAt := t\<rparr> else x' = x)))
    \<and> (\<exists>recs. Manager_List E w' = Inr recs \<and> base_of (w_cap w') = costSum recs)"
proof -
  have "mgr_inv E w" "binv (w_be w)" using assms(2) by (simp_all add: node_ok_def)
  from manager_env.Reconcile_cases[OF assms(1) this assms(3)] show ?thesis by simp
qed

theorem Reconcile_exact_witness:
  "dom (records mem_env (snd (Manager_Reconcile mem_env mem_world1))) = dom (records mem_env mem_world1)"
proof -
  have "fst (Manager_Reconcile mem_env mem_world1) = Inr ()" by code_simp
  then have "Manager_Reconcile mem_env mem_world1 = (Inr (), snd (Manager_Reconcile mem_env mem_world1))"
    by (metis prod.collapse)
  from Reconcile_exact[OF mem_manager_env mem_world1_ok this] show ?thesis by blast
qed

text \<open>
  Idle selection is exact.  With a positive timeout the reaper's candidates are exactly the
  running records that are not labelled \<open>idle-stop: off\<close> and whose last activity is more than the
  timeout ago; with a timeout of zero or less there are none.
\<close>

theorem IdleRunning_exact:
  assumes "manager_env E binv status" and "node_ok E binv w"
  shows "\<exists>out. Manager_IdleRunning E t timeout w = Inr out \<and> distinct (map r_ID out)
    \<and> set out = {x. records E w (r_ID x) = Some x \<and> 0 < timeout \<and> r_Status x = ''running''
          \<and> label_of (r_Labels x) ''idle-stop'' \<noteq> ''off'' \<and> timeout < time_sub t (r_LastActivity x)}"
proof -
  have i: "mgr_inv E w" using assms(2) by (simp add: node_ok_def)
  obtain recs where l: "Manager_List E w = Inr recs" "set recs = ran (records E w)" "sorted_wrt (<) (map r_ID recs)"
    using manager_env.Manager_List_eq[OF assms(1) i] by blast
  have r: "x \<in> set recs \<longleftrightarrow> records E w (r_ID x) = Some x" for x
    using l(2) records_ok[OF i] by (auto simp: ran_def)
  have "distinct (map r_ID recs)" using l(3) by (simp add: strict_sorted_iff)
  then show ?thesis
    using l(1) r by (auto simp: Manager_IdleRunning_def distinct_map intro: inj_on_subset)
qed

theorem IdleRunning_exact_witness:
  "\<exists>out. Manager_IdleRunning mem_env 1000 10 mem_world1 = Inr out"
  using IdleRunning_exact[OF mem_manager_env mem_world1_ok] by blast

text \<open>
  Reconciliation is not safe against a concurrent create.  Reconcile reads the backend's list
  before it reads the records; a sandbox created in between is in the records but not in the list,
  so it is marked lost although the backend has it running.
\<close>

theorem Reconcile_race_marks_live_sandbox_lost:
  assumes "manager_env E binv status" and "node_ok E binv w"
    and "be_List (en_backend E) (w_be w) = (Inr live, s)"
    and "Manager_Create E spec (w\<lparr>w_be := s\<rparr>) = (Inr rec, w1)" and "r_Status rec \<noteq> ''lost''"
    and "Reconcile_with E live w1 = (Inr (), w2)"
  shows "(\<exists>x. Manager_Get E (r_ID rec) w2 = Inr x \<and> r_Status x = ''lost'')
    \<and> status (w_be w2) (r_ID rec) = Some (r_Status rec)"
proof -
  let ?w = "w\<lparr>w_be := s\<rparr>"
  have i: "mgr_inv E w" "binv (w_be w)" using assms(2) by (simp_all add: node_ok_def)
  have bc: "backend_contract (en_backend E) binv status" using assms(1) by (simp add: manager_env_def)
  have al: "bs_Name ` set live = dom (status (w_be w))" and fr: "binv s" "status s = status (w_be w)"
    using backend_contract.list_ok[OF bc i(2) assms(3)] backend_contract.list_frame[OF bc i(2) assms(3)] by auto
  have iw: "mgr_inv E ?w" "binv (w_be ?w)" using i fr mgr_inv_cong[of ?w w E] by auto
  note c = manager_env.Create_cases[OF assms(1) iw assms(4)]
  have inv1: "mgr_inv E w1" and r1: "records E w1 (r_ID rec) = Some rec"
    and st: "status (w_be w1) (r_ID rec) = Some (r_Status rec)" "status (w_be w) (r_ID rec) = None"
    using c fr by auto
  have "dead (map bs_Name live) rec"
    using assms(5) records_ok[OF inv1 r1] al st(2) by (auto simp: dead_def)
  then obtain t where "records E w2 (r_ID rec) = Some (rec\<lparr>r_Status := ''lost'', r_UpdatedAt := t\<rparr>)"
    using manager_env.Reconcile_with_cases[OF assms(1) inv1 assms(6)] r1 by (fastforce simp: reconciled_def)
  then show ?thesis
    using manager_env.Reconcile_with_cases[OF assms(1) inv1 assms(6)] st by (simp add: Manager_Get_eq)
qed

theorem Reconcile_race_marks_live_sandbox_lost_witness:
  "\<exists>rec w1 w2. Manager_Create mem_env small_spec mem_world = (Inr rec, w1)
     \<and> Reconcile_with mem_env [] w1 = (Inr (), w2)
     \<and> (\<exists>x. Manager_Get mem_env (r_ID rec) w2 = Inr x \<and> r_Status x = ''lost'')
     \<and> fake_status (w_be w2) (r_ID rec) = Some ''running''"
proof -
  have l: "be_List (en_backend mem_env) (w_be mem_world) = (Inr [], w_be mem_world)"
    by (simp add: mem_env_def fake_backend_def Fake_List_def mem_world_def NewFake_def)

  have "map_sum (\<lambda>_. ()) r_Status (fst (Manager_Create mem_env small_spec mem_world)) = Inr ''running''" by code_simp
  then obtain rec w1 where c: "Manager_Create mem_env small_spec mem_world = (Inr rec, w1)" and s: "r_Status rec = ''running''"
    by (cases "Manager_Create mem_env small_spec mem_world"; cases "fst (Manager_Create mem_env small_spec mem_world)") auto
  have "fst (Reconcile_with mem_env [] (snd (Manager_Create mem_env small_spec mem_world))) = Inr ()" by code_simp
  then obtain w2 where r: "Reconcile_with mem_env [] w1 = (Inr (), w2)" using c by (metis prod.collapse snd_conv)
  have ns: "r_Status rec \<noteq> ''lost''" using s by simp
  have c': "Manager_Create mem_env small_spec (mem_world\<lparr>w_be := w_be mem_world\<rparr>) = (Inr rec, w1)"
    using c by simp
  from Reconcile_race_marks_live_sandbox_lost[OF mem_manager_env mem_world_ok l c' ns r] c r s
  show ?thesis by auto
qed

text \<open>
  Committing a stale absolute base loses an admission.  Two admissions are granted; the second
  one commits the sum that includes both, then the first one commits the sum it had read before the
  second was stored.  The tracker then no longer counts the second at all.
\<close>

theorem CommitBase_stale_undercounts:
  assumes "cap_inv c" and "reserve_amount q1 c = (Some i, c1)" and "reserve_amount q2 c1 = (Some j, c2)"
    and "amount_plus (base_of c) q1 = (a1, b1, d1)" and "amount_plus (a1, b1, d1) q2 = (a2, b2, d2)"
  shows "Capacity_Snapshot (Capacity_CommitBase a1 b1 d1 i (Capacity_CommitBase a2 b2 d2 j c2))
    = amount_plus (Capacity_Snapshot c) q1"
proof -
  have c1: "cap_inv c1" using cap.reserve_Some[OF assms(1,2)] by simp
  note u1 = used_TryReserve[OF assms(1,2)] and u2 = used_TryReserve[OF c1 assms(3)]
  have f: "cap_next c \<notin> fst ` set (resv c)" "cap_next c + 1 \<notin> fst ` set (resv c)"
    using assms(1) by (auto simp: cap_inv_def)
  have "resv (Capacity_CommitBase a1 b1 d1 i (Capacity_CommitBase a2 b2 d2 j c2)) = resv c"
    using u1 u2 f by (auto simp: Capacity_CommitBase_def AList.delete_eq filter_id_conv image_iff)
  then show ?thesis
    using assms(4) u1
    by (auto simp: Capacity_Snapshot_def usedLocked_eq usedCPU_def usedMem_def usedDisk_def amount_plus_def
        base_of_def Capacity_CommitBase_def)
qed

theorem CommitBase_stale_undercounts_witness:
  "\<exists>c1 c2. Capacity_TryReserve 2 0 0 (NewCapacity 4 0 0) = (Some 0, c1)
     \<and> Capacity_TryReserve 2 0 0 c1 = (Some 1, c2)
     \<and> Capacity_Snapshot (Capacity_CommitBase 2 0 0 0 (Capacity_CommitBase 4 0 0 1 c2)) = (2, 0, 0)"
proof -
  let ?q = "\<lparr>rv_cpu = 2, rv_mem = 0, rv_disk = 0\<rparr>"
  have "fst (Capacity_TryReserve 2 0 0 (NewCapacity 4 0 0)) = Some 0"
    "fst (Capacity_TryReserve 2 0 0 (snd (Capacity_TryReserve 2 0 0 (NewCapacity 4 0 0)))) = Some 1" by code_simp+
  then obtain c1 c2 where c: "Capacity_TryReserve 2 0 0 (NewCapacity 4 0 0) = (Some 0, c1)"
    "Capacity_TryReserve 2 0 0 c1 = (Some 1, c2)" by (metis prod.collapse)
  have s: "Capacity_Snapshot (NewCapacity 4 0 0) = (0, 0, 0)" by code_simp
  from CommitBase_stale_undercounts[OF cap_inv_new[of 4 0 0], of ?q 0 c1 ?q 1 c2 2 0 0 4 0 0] c s show ?thesis
    by (auto simp: reserve_amount_def base_of_def amount_plus_def NewCapacity_def)
qed

end
