(* ===== verification/GoLib.thy ===== *)
theory GoLib
  imports Prelude
begin

text \<open>
  More of Go's standard library, as far as the git, file-transfer and authentication code uses it:
  slash-separated paths (\<^verbatim>\<open>path.Clean\<close>, \<^verbatim>\<open>Join\<close>, \<^verbatim>\<open>Dir\<close>, \<^verbatim>\<open>Base\<close>), \<^verbatim>\<open>strings.NewReplacer\<close> and
  \<^verbatim>\<open>strings.ReplaceAll\<close>, and standard base64.
\<close>

section \<open>Paths\<close>

text \<open>
  \<^verbatim>\<open>path.Clean\<close> works component by component on a stack (its top first): empty and dot components
  vanish, dot-dot pops a component, stays at the front of a relative path, and vanishes at the root.
\<close>

fun clean_step :: "bool \<Rightarrow> string \<Rightarrow> string list \<Rightarrow> string list" where
  "clean_step rooted c st =
     (if c = '''' \<or> c = ''.'' then st
      else if c = ''..'' then
        (case st of
           [] \<Rightarrow> if rooted then [] else [''..'']
         | t # st' \<Rightarrow> if t = ''..'' then ''..'' # st else st')
      else c # st)"

definition clean_parts :: "string \<Rightarrow> string list" where
  "clean_parts p = rev (fold (clean_step (prefix ''/'' p)) (split_on CHR ''/'' p) [])"

definition path_Clean :: "string \<Rightarrow> string" where
  "path_Clean p =
     (let s = (if prefix ''/'' p then ''/'' else '''') @ join_with ''/'' (clean_parts p) in
      if s = '''' then ''.'' else s)"

definition path_IsAbs :: "string \<Rightarrow> bool" where
  "path_IsAbs p = prefix ''/'' p"

definition path_Join :: "string list \<Rightarrow> string" where
  "path_Join ps =
     (case filter (\<lambda>p. p \<noteq> '''') ps of [] \<Rightarrow> '''' | q # qs \<Rightarrow> path_Clean (join_with ''/'' (q # qs)))"

definition path_Dir :: "string \<Rightarrow> string" where
  "path_Dir p = path_Clean (case last_index_byte CHR ''/'' p of None \<Rightarrow> '''' | Some i \<Rightarrow> take (Suc i) p)"

definition path_Base :: "string \<Rightarrow> string" where
  "path_Base p =
     (if p = '''' then ''.''
      else let q = trim_right_by (\<lambda>c. c = CHR ''/'') p;
               b = (case last_index_byte CHR ''/'' q of None \<Rightarrow> q | Some i \<Rightarrow> drop (Suc i) q)
           in if b = '''' then ''/'' else b)"

lemma clean_step_parts:
  assumes "\<forall>d \<in> set st. CHR ''/'' \<notin> set d \<and> d \<noteq> '''' \<and> d \<noteq> ''.''" "CHR ''/'' \<notin> set c"
  shows "\<forall>d \<in> set (clean_step r c st). CHR ''/'' \<notin> set d \<and> d \<noteq> '''' \<and> d \<noteq> ''.''"
  using assms by (auto split: list.splits)

lemma clean_step_no_dotdot: "''..'' \<notin> set st \<Longrightarrow> ''..'' \<notin> set (clean_step True c st)"
  by (auto split: list.splits)

declare clean_step.simps [simp del]

lemma clean_steps_parts:
  assumes "\<forall>d \<in> set st. CHR ''/'' \<notin> set d \<and> d \<noteq> '''' \<and> d \<noteq> ''.''" "\<forall>c \<in> set cs. CHR ''/'' \<notin> set c"
  shows "\<forall>d \<in> set (fold (clean_step r) cs st). CHR ''/'' \<notin> set d \<and> d \<noteq> '''' \<and> d \<noteq> ''.''"
  using assms
proof (induction cs arbitrary: st)
  case (Cons c cs)
  have "CHR ''/'' \<notin> set c" "\<forall>c \<in> set cs. CHR ''/'' \<notin> set c" using Cons.prems(2) by simp_all
  from Cons.IH[OF clean_step_parts[OF Cons.prems(1) this(1), of r] this(2)]
  show ?case unfolding fold_Cons o_apply .
qed simp

lemma clean_rooted_no_dotdot:
  "''..'' \<notin> set st \<Longrightarrow> ''..'' \<notin> set (fold (clean_step True) cs st)"
proof (induction cs arbitrary: st)
  case (Cons c cs)
  from clean_step_no_dotdot[OF Cons.prems] Cons.IH show ?case by simp
qed simp

text \<open>A cleaned absolute path is the root followed by plain components, none of them dot or dot-dot.\<close>

lemma clean_parts_plain:
  "d \<in> set (clean_parts p) \<Longrightarrow> CHR ''/'' \<notin> set d \<and> d \<noteq> '''' \<and> d \<noteq> ''.''"
  using clean_steps_parts[of "[]" "split_on CHR ''/'' p" "prefix ''/'' p"] split_on_parts_notin[of _ "CHR ''/''" p]
  by (auto simp: clean_parts_def)

lemma path_Clean_abs:
  assumes "prefix ''/'' p"
  shows "path_Clean p = CHR ''/'' # join_with ''/'' (clean_parts p) \<and> ''..'' \<notin> set (clean_parts p)"
  using clean_rooted_no_dotdot[of "[]"] assms by (simp add: path_Clean_def clean_parts_def)

section \<open>Replacing\<close>

text \<open>
  \<^verbatim>\<open>strings.NewReplacer(old, new, ...).Replace\<close>: at each position the first pattern that matches is
  replaced and the scan goes on after it; replacements are not scanned again.
\<close>

function replace_pairs :: "(string \<times> string) list \<Rightarrow> string \<Rightarrow> string" where
  "replace_pairs ps [] = []"
| "replace_pairs ps (c # cs) =
     (case find (\<lambda>(old, _). old \<noteq> [] \<and> prefix old (c # cs)) ps of
        Some (old, new) \<Rightarrow> new @ replace_pairs ps (drop (length old) (c # cs))
      | None \<Rightarrow> c # replace_pairs ps cs)"
  by pat_completeness auto
termination
  by (relation "measure (\<lambda>(ps, s). length s)") (auto simp: find_Some_iff)

definition replace_all :: "string \<Rightarrow> string \<Rightarrow> string \<Rightarrow> string" where
  "replace_all s old new = replace_pairs [(old, new)] s"

lemma replace_pairs_exact:
  assumes "(old, new) \<in> set ps" "old \<noteq> []"
    and "\<forall>(o', n') \<in> set ps. prefix o' old \<and> o' \<noteq> [] \<longrightarrow> o' = old \<and> n' = new"
  shows "replace_pairs ps old = new"
proof -
  obtain c cs where old: "old = c # cs" using assms(2) by (cases old) auto
  obtain q where f: "find (\<lambda>(old', _). old' \<noteq> [] \<and> prefix old' old) ps = Some q"
    using assms(1,2) by (cases "find (\<lambda>(old', _). old' \<noteq> [] \<and> prefix old' old) ps") (auto simp: find_None_iff)
  then have "q \<in> set ps" "fst q \<noteq> []" "prefix (fst q) old" by (auto simp: find_Some_iff in_set_conv_nth)
  then have "q = (old, new)" using assms(3) by (cases q) auto
  then show ?thesis using f old by simp
qed

lemma replace_pairs_none:
  assumes "\<forall>(old, _) \<in> set ps. old \<noteq> [] \<longrightarrow> hd old \<notin> set s"
  shows "replace_pairs ps s = s"
  using assms
proof (induction s)
  case (Cons c cs)
  have "find (\<lambda>(old, _). old \<noteq> [] \<and> prefix old (c # cs)) ps = None"
    using Cons.prems by (fastforce simp: find_None_iff prefix_Cons)
  with Cons show ?case by auto
qed simp

section \<open>Base64\<close>

definition byte :: "char \<Rightarrow> nat" where "byte c = of_char c"

definition b64_alphabet :: string where
  "b64_alphabet = ''ABCDEFGHIJKLMNOPQRSTUVWXYZabcdefghijklmnopqrstuvwxyz0123456789+/''"

definition b64_char :: "nat \<Rightarrow> char" where
  "b64_char n = b64_alphabet ! n"

definition b64_val :: "char \<Rightarrow> nat option" where
  "b64_val c = index_byte c b64_alphabet"

fun b64_encode :: "string \<Rightarrow> string" where
  "b64_encode [] = []"
| "b64_encode [a] = [b64_char (byte a div 4), b64_char (byte a mod 4 * 16), CHR ''='', CHR ''='']"
| "b64_encode [a, b] =
     [b64_char (byte a div 4), b64_char (byte a mod 4 * 16 + byte b div 16), b64_char (byte b mod 16 * 4), CHR ''='']"
| "b64_encode (a # b # c # r) =
     b64_char (byte a div 4) # b64_char (byte a mod 4 * 16 + byte b div 16)
     # b64_char (byte b mod 16 * 4 + byte c div 64) # b64_char (byte c mod 64) # b64_encode r"

text \<open>
  Decoding skips line breaks, accepts padding only in the last group, and does not require the unused
  low bits of a padded group to be zero.
\<close>

fun b64_groups :: "string \<Rightarrow> string option" where
  "b64_groups [] = Some []"
| "b64_groups (w # x # y # z # r) =
     (case (b64_val w, b64_val x) of
        (Some i, Some j) \<Rightarrow>
          (case (b64_val y, b64_val z) of
             (Some k, Some l) \<Rightarrow>
               map_option (\<lambda>t. char_of (i * 4 + j div 16) # char_of (j mod 16 * 16 + k div 4)
                 # char_of (k mod 4 * 64 + l) # t) (b64_groups r)
           | (Some k, None) \<Rightarrow>
               if z = CHR ''='' \<and> r = [] then Some [char_of (i * 4 + j div 16), char_of (j mod 16 * 16 + k div 4)]
               else None
           | (None, _) \<Rightarrow>
               if y = CHR ''='' \<and> z = CHR ''='' \<and> r = [] then Some [char_of (i * 4 + j div 16)] else None)
      | _ \<Rightarrow> None)"
| "b64_groups _ = None"

definition b64_decode :: "string \<Rightarrow> string option" where
  "b64_decode s = b64_groups (filter (\<lambda>c. byte c \<noteq> 10 \<and> byte c \<noteq> 13) s)"

lemma byte_less [simp]: "byte c < 256"
  unfolding byte_def by (rule of_char_mod_256[of c, THEN subst[where P = "\<lambda>x. x < 256"]]) simp

lemma char_of_byte [simp]: "char_of (byte c) = c"
  by (simp add: byte_def)

lemma b64_table: "\<forall>n \<in> set [0..<64]. b64_val (b64_char n) = Some n \<and> byte (b64_char n) \<noteq> 10 \<and> byte (b64_char n) \<noteq> 13"
  by code_simp

lemma b64_val_char [simp]: "n < 64 \<Longrightarrow> b64_val (b64_char n) = Some n"
  and b64_char_not_break [simp]: "n < 64 \<Longrightarrow> byte (b64_char n) \<noteq> 10 \<and> byte (b64_char n) \<noteq> 13"
  using b64_table by simp_all

lemma b64_val_pad [simp]: "b64_val CHR ''='' = None" and byte_pad [simp]: "byte CHR ''='' = 61"
  by code_simp+

lemma byte_div: "byte a div 4 < 64" "byte a div 16 < 16" "byte a div 64 < 4"
  using byte_less[of a] by (simp_all add: less_mult_imp_div_less)

lemma byte_mod: "byte a mod 4 < 4" "byte a mod 16 < 16" "byte a mod 64 < 64"
  by simp_all

lemma sextets:
  "byte a div 4 < 64" "byte a mod 4 * 16 < 64" "byte a mod 4 * 16 + byte b div 16 < 64"
  "byte b mod 16 * 4 < 64" "byte b mod 16 * 4 + byte c div 64 < 64" "byte c mod 64 < 64"
  using byte_div[of a] byte_mod[of a] byte_div[of b] byte_mod[of b] byte_div[of c] byte_mod[of c] by linarith+

lemma regroup:
  "byte b div 16 div 16 = 0" "byte b div 16 mod 16 = byte b div 16"
  "byte c div 64 div 4 = 0" "byte c div 64 mod 4 = byte c div 64"
  using byte_div[of b] byte_div[of c] by simp_all

lemma b64_groups_encode: "b64_groups (b64_encode s) = Some s"
  by (induction s rule: b64_encode.induct) (simp_all add: sextets regroup)

lemma b64_encode_chars: "\<forall>c \<in> set (b64_encode s). byte c \<noteq> 10 \<and> byte c \<noteq> 13"
  by (induction s rule: b64_encode.induct) (simp_all add: sextets)

lemma b64_decode_encode [simp]: "b64_decode (b64_encode s) = Some s"
  using b64_encode_chars[of s] by (simp add: b64_decode_def b64_groups_encode filter_True)

end
