(* ===== verification/Git.thy ===== *)
theory Git
  imports GoLib
begin

text \<open>
  The shell-free git pipelines (\<^verbatim>\<open>internal/git\<close>): binding of validated values into configured steps,
  the credential environment, the runner with its allowlist, and the workspace operations under the
  per-workspace lock.  Running a program and touching the file system are parameters, a record of
  functions on the host's state \<open>'g\<close>.  A workspace's mutex is part of the state: an operation that
  finds it held would wait, and has the value \<open>None\<close>.
\<close>

section \<open>Binding values into steps\<close>

record Vars =
  va_Branch :: string
  va_BaseRef :: string
  va_Remote :: string
  va_SandboxRemote :: string

text \<open>The character class of \<^verbatim>\<open>refOK\<close>; the pattern is anchored and asks for one character at least.\<close>

definition ref_char :: "char \<Rightarrow> bool" where
  "ref_char c \<longleftrightarrow>
     (CHR ''A'' \<le> c \<and> c \<le> CHR ''Z'') \<or> (CHR ''a'' \<le> c \<and> c \<le> CHR ''z'') \<or> (CHR ''0'' \<le> c \<and> c \<le> CHR ''9'')
   \<or> c \<in> set ''._/-''"

definition refOK :: "string \<Rightarrow> bool" where
  "refOK s \<longleftrightarrow> s \<noteq> '''' \<and> list_all ref_char s"

definition validateRef :: "string \<Rightarrow> string \<Rightarrow> unit res" where
  "validateRef name val =
     (if val = '''' then Inr ()
      else if prefix ''-'' val \<or> sublist ''..'' val \<or> \<not> refOK val then Inl (Errf ''invalid %s %q'' [name, val])
      else Inr ())"

definition var_fields :: "Vars \<Rightarrow> (string \<times> string) list" where
  "var_fields v = [(''branch'', va_Branch v), (''base_ref'', va_BaseRef v), (''remote'', va_Remote v),
     (''sandbox_remote'', va_SandboxRemote v)]"

fun validate_all :: "(string \<times> string) list \<Rightarrow> unit res" where
  "validate_all [] = Inr ()"
| "validate_all ((n, v) # fs) = (case validateRef n v of Inl e \<Rightarrow> Inl e | Inr _ \<Rightarrow> validate_all fs)"

definition replacements :: "Vars \<Rightarrow> (string \<times> string) list" where
  "replacements v = [(''{branch}'', va_Branch v), (''{base_ref}'', va_BaseRef v), (''{remote}'', va_Remote v),
     (''{sandbox_remote}'', va_SandboxRemote v)]"

definition Build :: "string list list \<Rightarrow> Vars \<Rightarrow> string list list res" where
  "Build steps v =
     (case validate_all (var_fields v) of
        Inl e \<Rightarrow> Inl e
      | Inr _ \<Rightarrow> Inr (map (map (replace_pairs (replacements v))) steps))"

section \<open>Credentials\<close>

record Credential =
  cr_Token :: string
  cr_SSHKeyPath :: string
  cr_SSHKnownHostsPath :: string
  cr_CAPath :: string

definition Credential_String :: "Credential \<Rightarrow> string" where
  "Credential_String c = ''Credential{<redacted>}''"

definition shQuote :: "string \<Rightarrow> string" where
  "shQuote s = [CHR 0x27] @ replace_all s [CHR 0x27] [CHR 0x27, CHR 0x5C, CHR 0x27, CHR 0x27] @ [CHR 0x27]"

definition Credential_Env :: "Credential \<Rightarrow> string \<Rightarrow> string list res" where
  "Credential_Env c remoteURL =
     (let env = [''GIT_TERMINAL_PROMPT=0''];
          env = (if cr_Token c \<noteq> ''''
                 then env @ [''GIT_CONFIG_COUNT=1'',
                        ''GIT_CONFIG_KEY_0=http.'' @ remoteURL @ ''.extraheader'',
                        ''GIT_CONFIG_VALUE_0='' @ ''Authorization: Basic '' @ b64_encode (''x-access-token:'' @ cr_Token c)]
                 else env);
          env = (if cr_SSHKeyPath c \<noteq> ''''
                 then env @ [''GIT_SSH_COMMAND='' @ ''ssh -i '' @ shQuote (cr_SSHKeyPath c) @ '' -o IdentitiesOnly=yes''
                        @ (if cr_SSHKnownHostsPath c \<noteq> ''''
                           then '' -o StrictHostKeyChecking=yes -o UserKnownHostsFile='' @ shQuote (cr_SSHKnownHostsPath c)
                           else '' -o StrictHostKeyChecking=accept-new'')]
                 else env);
          env = (if cr_CAPath c \<noteq> '''' then env @ [''GIT_SSL_CAINFO='' @ cr_CAPath c] else env)
      in Inr env)"

section \<open>Running steps\<close>

text \<open>
  \<open>gx_run\<close> runs a program in a directory with extra environment: \<open>None\<close> when it exits with 0,
  otherwise its exit code (-1 when it could not be started).
\<close>

record 'g GitHost =
  gx_run :: "string \<Rightarrow> string list \<Rightarrow> string list \<Rightarrow> 'g \<Rightarrow> (int option \<times> string) \<times> 'g"
  gx_exists :: "'g \<Rightarrow> string \<Rightarrow> bool"
  gx_mkdir :: "'g \<Rightarrow> string \<Rightarrow> unit res \<times> 'g"

record StepResult =
  st_Argv :: "string list"
  st_ExitCode :: int
  st_Output :: string

fun Runner_Run ::
  "'g GitHost \<Rightarrow> string list \<Rightarrow> string \<Rightarrow> string list \<Rightarrow> string list list \<Rightarrow> 'g \<Rightarrow> (StepResult list \<times> unit res) \<times> 'g" where
  "Runner_Run X allow dir env [] g = (([], Inr ()), g)"
| "Runner_Run X allow dir env (argv # steps) g =
     (if argv = [] then Runner_Run X allow dir env steps g
      else if hd argv \<notin> set allow then (([], Inl (Errf ''binary %q not allowed'' [hd argv])), g)
      else case gx_run X dir env argv g of
             ((Some code, out), g) \<Rightarrow>
               (([\<lparr>st_Argv = argv, st_ExitCode = code, st_Output = out\<rparr>],
                 Inl (Errf ''step %v failed (exit %d): %s'' (argv @ [format_int code, out]))), g)
           | ((None, out), g) \<Rightarrow>
               (let ((rs, r), g) = Runner_Run X allow dir env steps g in
                ((\<lparr>st_Argv = argv, st_ExitCode = 0, st_Output = out\<rparr> # rs, r), g)))"

section \<open>Workspaces\<close>

record Spec =
  gs_Name :: string
  gs_Base :: string
  gs_Remote :: string
  gs_RemoteURL :: string
  gs_Provider :: string
  gs_Cred :: Credential
  gs_DefaultBranch :: string
  gs_AllowPush :: bool
  gs_APIBaseURL :: string
  gs_PreSteps :: "string list list"
  gs_PublishSteps :: "string list list"
  gs_Allowlist :: "string list"

text \<open>The host with the workspaces whose mutex is held, by name.\<close>

record 'g GitState =
  gi_host :: 'g
  gi_locked :: "string list"

definition RemoteName :: "Spec \<Rightarrow> string" where
  "RemoteName s = (if gs_Remote s \<noteq> '''' then gs_Remote s else ''origin'')"

definition gitEnv :: "string list" where "gitEnv = [''GIT_TERMINAL_PROMPT=0'']"

definition runEnv :: "Spec \<Rightarrow> string list" where
  "runEnv s = (case Credential_Env (gs_Cred s) (gs_RemoteURL s) of Inl e \<Rightarrow> gitEnv | Inr env \<Rightarrow> env)"

definition Lock :: "Spec \<Rightarrow> 'g GitState \<Rightarrow> 'g GitState option" where
  "Lock s g = (if gs_Name s \<in> set (gi_locked g) then None else Some (g\<lparr>gi_locked := gs_Name s # gi_locked g\<rparr>))"

definition Unlock :: "Spec \<Rightarrow> 'g GitState \<Rightarrow> 'g GitState" where
  "Unlock s g = g\<lparr>gi_locked := removeAll (gs_Name s) (gi_locked g)\<rparr>"

definition run_in ::
  "'g GitHost \<Rightarrow> Spec \<Rightarrow> string \<Rightarrow> string list \<Rightarrow> string list list \<Rightarrow> 'g GitState \<Rightarrow> unit res \<times> 'g GitState" where
  "run_in X s dir env steps g =
     (let ((_, r), h) = Runner_Run X (gs_Allowlist s) dir env steps (gi_host g) in (r, g\<lparr>gi_host := h\<rparr>))"

text \<open>What \<^verbatim>\<open>EnsureBase\<close> does while it holds the lock.\<close>

definition ensure_base_locked :: "'g GitHost \<Rightarrow> Spec \<Rightarrow> 'g GitState \<Rightarrow> unit res \<times> 'g GitState" where
  "ensure_base_locked X s g =
     (if gx_exists X (gi_host g) (path_Join [gs_Base s, ''.git'']) then (Inr (), g)
      else if gx_exists X (gi_host g) (path_Join [gs_Base s, ''HEAD'']) then (Inr (), g)
      else case Credential_Env (gs_Cred s) (gs_RemoteURL s) of
        Inl e \<Rightarrow> (Inl e, g)
      | Inr env \<Rightarrow>
          (case gx_mkdir X (gi_host g) (path_Dir (gs_Base s)) of
             (Inl e, h) \<Rightarrow> (Inl e, g\<lparr>gi_host := h\<rparr>)
           | (Inr _, h) \<Rightarrow>
               (case run_in X s '''' env [[''git'', ''clone'', gs_RemoteURL s, gs_Base s]] (g\<lparr>gi_host := h\<rparr>) of
                  (Inl e, g) \<Rightarrow> (Inl e, g)
                | (Inr _, g) \<Rightarrow>
                    (case run_in X s '''' env [[''git'', ''-C'', gs_Base s, ''rev-parse'', ''--verify'', ''-q'', ''HEAD'']] g of
                       (Inl e, g) \<Rightarrow> (Inr (), g)
                     | (Inr _, g) \<Rightarrow> run_in X s '''' env [[''git'', ''-C'', gs_Base s, ''checkout'', ''--detach'']] g))))"

definition EnsureBase :: "'g GitHost \<Rightarrow> Spec \<Rightarrow> 'g GitState \<Rightarrow> (unit res \<times> 'g GitState) option" where
  "EnsureBase X s g =
     (if gs_RemoteURL s = '''' then Some (Inr (), g)
      else case Lock s g of
        None \<Rightarrow> None
      | Some g \<Rightarrow> let (r, g) = ensure_base_locked X s g in Some (r, Unlock s g))"

text \<open>\<^verbatim>\<open>PreLock\<close> returns with the lock held when it succeeds; the caller unlocks.\<close>

definition PreLock :: "'g GitHost \<Rightarrow> Spec \<Rightarrow> string \<Rightarrow> 'g GitState \<Rightarrow> (unit res \<times> 'g GitState) option" where
  "PreLock X s branch g =
     (case Lock s g of
        None \<Rightarrow> None
      | Some g \<Rightarrow>
          Some (case Build (gs_PreSteps s) \<lparr>va_Branch = branch, va_BaseRef = gs_DefaultBranch s,
                       va_Remote = gs_Remote s, va_SandboxRemote = ''''\<rparr> of
                  Inl e \<Rightarrow> (Inl e, Unlock s g)
                | Inr argv \<Rightarrow>
                    (case run_in X s (gs_Base s) (runEnv s) argv g of
                       (Inl e, g) \<Rightarrow> (Inl e, Unlock s g)
                     | (Inr _, g) \<Rightarrow> (Inr (), g))))"

definition FetchRef :: "'g GitHost \<Rightarrow> Spec \<Rightarrow> string \<Rightarrow> string \<Rightarrow> 'g GitState \<Rightarrow> (unit res \<times> 'g GitState) option" where
  "FetchRef X s ref localBranch g =
     (case Lock s g of
        None \<Rightarrow> None
      | Some g \<Rightarrow>
          let (r, g) = run_in X s (gs_Base s) (runEnv s)
                [[''git'', ''fetch'', RemoteName s, ''+'' @ ref @ '':refs/heads/'' @ localBranch]] g
          in Some (r, Unlock s g))"

definition Workspace_Publish ::
  "'g GitHost \<Rightarrow> Spec \<Rightarrow> string \<Rightarrow> string \<Rightarrow> 'g GitState \<Rightarrow> (unit res \<times> 'g GitState) option" where
  "Workspace_Publish X s branch sandboxRemote g =
     (case Lock s g of
        None \<Rightarrow> None
      | Some g \<Rightarrow>
          Some (case Build (gs_PublishSteps s) \<lparr>va_Branch = branch, va_BaseRef = gs_DefaultBranch s,
                       va_Remote = gs_Remote s, va_SandboxRemote = sandboxRemote\<rparr> of
                  Inl e \<Rightarrow> (Inl e, Unlock s g)
                | Inr argv \<Rightarrow> let (r, g) = run_in X s (gs_Base s) (runEnv s) argv g in (r, Unlock s g)))"

text \<open>Like \<^verbatim>\<open>PreLock\<close>, a successful \<^verbatim>\<open>FetchFromBundle\<close> leaves the lock held.\<close>

definition FetchFromBundle ::
  "'g GitHost \<Rightarrow> Spec \<Rightarrow> string \<Rightarrow> string \<Rightarrow> 'g GitState \<Rightarrow> (unit res \<times> 'g GitState) option" where
  "FetchFromBundle X s branch bundlePath g =
     (case Lock s g of
        None \<Rightarrow> None
      | Some g \<Rightarrow>
          Some (case run_in X s (gs_Base s) (runEnv s)
                       [[''git'', ''fetch'', bundlePath, ''+refs/heads/'' @ branch @ '':refs/heads/'' @ branch]] g of
                  (Inl e, g) \<Rightarrow> (Inl e, Unlock s g)
                | (Inr _, g) \<Rightarrow> (Inr (), g)))"

section \<open>Lemmas\<close>

definition ref_valid :: "string \<Rightarrow> bool" where
  "ref_valid x \<longleftrightarrow> x = '''' \<or> (hd x \<noteq> CHR ''-'' \<and> \<not> sublist ''..'' x \<and> list_all ref_char x)"

lemma validateRef_iff: "validateRef n x = Inr () \<longleftrightarrow> ref_valid x"
  by (cases x) (auto simp: validateRef_def ref_valid_def refOK_def)

lemma validate_all_iff: "validate_all fs = Inr () \<longleftrightarrow> (\<forall>f \<in> set fs. ref_valid (snd f))"
proof (induction fs)
  case (Cons f fs)
  then show ?case using validateRef_iff[of "fst f" "snd f"] by (cases f) (auto split: sum.splits)
qed simp

lemma Build_Inr_iff:
  "Build steps v = Inr out \<longleftrightarrow>
     (\<forall>x \<in> {va_Branch v, va_BaseRef v, va_Remote v, va_SandboxRemote v}. ref_valid x)
   \<and> out = map (map (replace_pairs (replacements v))) steps"
proof -
  have "validate_all (var_fields v) = Inr () \<longleftrightarrow>
      (\<forall>x \<in> {va_Branch v, va_BaseRef v, va_Remote v, va_SandboxRemote v}. ref_valid x)"
    unfolding validate_all_iff by (auto simp: var_fields_def)
  moreover have "\<exists>e. validate_all (var_fields v) = Inl e" if "validate_all (var_fields v) \<noteq> Inr ()"
    using that by (cases "validate_all (var_fields v)") auto
  ultimately show ?thesis by (auto simp: Build_def)
qed

lemma replace_placeholder:
  "replace_pairs (replacements v) ''{branch}'' = va_Branch v"
  "replace_pairs (replacements v) ''{base_ref}'' = va_BaseRef v"
  "replace_pairs (replacements v) ''{remote}'' = va_Remote v"
  "replace_pairs (replacements v) ''{sandbox_remote}'' = va_SandboxRemote v"
  by (simp_all add: replacements_def)

lemma replace_plain: "CHR ''{'' \<notin> set t \<Longrightarrow> replace_pairs (replacements v) t = t"
  by (rule replace_pairs_none) (auto simp: replacements_def)

lemma Runner_Run_steps:
  assumes "Runner_Run X allow dir env steps g = ((rs, r), g')"
  shows "prefix (map st_Argv rs) (filter (\<lambda>a. a \<noteq> []) steps) \<and> (\<forall>a \<in> set (map st_Argv rs). hd a \<in> set allow)
    \<and> g' = fold (\<lambda>a g. snd (gx_run X dir env a g)) (map st_Argv rs) g
    \<and> (r = Inr () \<longrightarrow> map st_Argv rs = filter (\<lambda>a. a \<noteq> []) steps \<and> (\<forall>x \<in> set rs. st_ExitCode x = 0))
    \<and> (r \<noteq> Inr () \<longrightarrow> (\<forall>x \<in> set (butlast rs). st_ExitCode x = 0)
         \<and> (rs \<noteq> [] \<and> (\<exists>g0 out. fst (gx_run X dir env (st_Argv (last rs)) g0) = (Some (st_ExitCode (last rs)), out))
            \<or> length rs < length (filter (\<lambda>a. a \<noteq> []) steps)
              \<and> hd (filter (\<lambda>a. a \<noteq> []) steps ! length rs) \<notin> set allow))"
  using assms
proof (induction steps arbitrary: g rs r g')
  case (Cons argv steps)
  show ?case
  proof (cases "argv = [] \<or> hd argv \<notin> set allow")
    case True
    with Cons show ?thesis by (auto split: if_splits)
  next
    case ok: False
    obtain c out g1 where x: "gx_run X dir env argv g = ((c, out), g1)" by (metis surj_pair)
    show ?thesis
    proof (cases c)
      case (Some code)
      with Cons.prems ok x show ?thesis by (auto intro!: exI[of _ g] exI[of _ out])
    next
      case None
      obtain rs1 r1 g2 where i: "Runner_Run X allow dir env steps g1 = ((rs1, r1), g2)" by (metis surj_pair)
      from Cons.prems ok x None i have e: "rs = \<lparr>st_Argv = argv, st_ExitCode = 0, st_Output = out\<rparr> # rs1" "r = r1" "g' = g2"
        by auto
      from Cons.IH[OF i] e ok x show ?thesis by (cases "rs1 = []") auto
    qed
  qed
qed auto

section \<open>Reading a shell word\<close>

text \<open>
  How a POSIX shell reads one word: between single quotes every character stands for itself, outside
  them a backslash quotes the next character and a blank or an operator ends the word.  \<open>True\<close>
  is inside quotes; \<open>None\<close> is an unterminated word.
\<close>

definition sh_plain :: "char \<Rightarrow> bool" where
  "sh_plain c \<longleftrightarrow> ref_char c \<or> c \<in> set '':@%+,_''"

fun sh_word :: "bool \<Rightarrow> string \<Rightarrow> (string \<times> string) option" where
  "sh_word True [] = None"
| "sh_word False [] = Some ([], [])"
| "sh_word True (c # cs) =
     (if c = CHR 0x27 then sh_word False cs else map_option (apfst (Cons c)) (sh_word True cs))"
| "sh_word False (c # cs) =
     (if c = CHR 0x27 then sh_word True cs
      else if c = CHR 0x5C then (case cs of [] \<Rightarrow> None | d # ds \<Rightarrow> map_option (apfst (Cons d)) (sh_word False ds))
      else if sh_plain c then map_option (apfst (Cons c)) (sh_word False cs)
      else Some ([], c # cs))"

lemma replace_quote:
  "replace_all (c # s) [CHR 0x27] n = (if c = CHR 0x27 then n else [c]) @ replace_all s [CHR 0x27] n"
  by (auto simp: replace_all_def)

lemma sh_word_quoted:
  "sh_word True (replace_all s [CHR 0x27] [CHR 0x27, CHR 0x5C, CHR 0x27, CHR 0x27] @ CHR 0x27 # rest)
     = map_option (apfst ((@) s)) (sh_word False rest)"
proof (induction s)
  case Nil
  show ?case by (cases "sh_word False rest") (auto simp: replace_all_def)
next
  case (Cons c s)
  then show ?case by (cases "sh_word False rest") (auto simp: replace_quote)
qed

section \<open>Locks\<close>

lemma Lock_Some: "Lock s g = Some g' \<longleftrightarrow> gs_Name s \<notin> set (gi_locked g) \<and> g' = g\<lparr>gi_locked := gs_Name s # gi_locked g\<rparr>"
  by (auto simp: Lock_def)

lemma run_in_locked [simp]: "gi_locked (snd (run_in X s dir env steps g)) = gi_locked g"
  by (simp add: run_in_def case_prod_unfold Let_def)

lemma ensure_base_locked_locked [simp]: "gi_locked (snd (ensure_base_locked X s g)) = gi_locked g"
proof -
  have l: "gi_locked g' = gi_locked g0" if "run_in X s d e st g0 = (r, g')" for d e st r g' and g0 :: "'a GitState"
    using run_in_locked[of X s d e st g0] that by simp
  show ?thesis
    by (auto simp: ensure_base_locked_def split: sum.splits prod.splits dest!: l)
qed

lemma Unlock_locked: "gs_Name s \<notin> set L \<Longrightarrow> gi_locked g = gs_Name s # L \<Longrightarrow> gi_locked (Unlock s g) = L"
  by (simp add: Unlock_def)

text \<open>
  Every operation runs when the workspace is free, and hands the lock back; only a successful
  \<open>PreLock\<close> or \<open>FetchFromBundle\<close> returns with it held.
\<close>

lemma EnsureBase_locks:
  assumes "gs_Name s \<notin> set (gi_locked g)"
  shows "\<exists>r g'. EnsureBase X s g = Some (r, g') \<and> gi_locked g' = gi_locked g"
  using assms ensure_base_locked_locked[of X s "g\<lparr>gi_locked := gs_Name s # gi_locked g\<rparr>"]
  by (auto simp: EnsureBase_def Lock_def Unlock_def case_prod_unfold Let_def)

lemma FetchRef_locks:
  assumes "gs_Name s \<notin> set (gi_locked g)"
  shows "\<exists>r g'. FetchRef X s ref b g = Some (r, g') \<and> gi_locked g' = gi_locked g"
  using assms by (auto simp: FetchRef_def Lock_def Unlock_def case_prod_unfold Let_def)

lemma Publish_locks:
  assumes "gs_Name s \<notin> set (gi_locked g)"
  shows "\<exists>r g'. Workspace_Publish X s b rem g = Some (r, g') \<and> gi_locked g' = gi_locked g"
  using assms
  by (auto simp: Workspace_Publish_def Lock_def Unlock_def case_prod_unfold Let_def split: sum.splits)

lemma PreLock_locks:
  assumes "gs_Name s \<notin> set (gi_locked g)"
  shows "\<exists>r g'. PreLock X s b g = Some (r, g')
    \<and> gi_locked g' = (if r = Inr () then gs_Name s # gi_locked g else gi_locked g)"
  using assms
  by (simp add: PreLock_def Lock_def Unlock_def case_prod_unfold split: sum.split) auto

lemma FetchFromBundle_locks:
  assumes "gs_Name s \<notin> set (gi_locked g)"
  shows "\<exists>r g'. FetchFromBundle X s b p g = Some (r, g')
    \<and> gi_locked g' = (if r = Inr () then gs_Name s # gi_locked g else gi_locked g)"
  using assms
  by (simp add: FetchFromBundle_def Lock_def Unlock_def case_prod_unfold split: sum.split) auto

section \<open>Properties\<close>

text \<open>
  Values are bound safely.  Building succeeds exactly when every value is empty or a plain ref
  (allowed characters only, no leading dash, no dot-dot); the steps then keep their shape, argument by
  argument, a placeholder becomes its value as one argument, and an argument without a brace is
  untouched.  So no value can add an argument, an option, or anything a shell would interpret.
\<close>

theorem Build_correct:
  "((\<exists>out. Build steps v = Inr out) \<longleftrightarrow>
     (\<forall>x \<in> {va_Branch v, va_BaseRef v, va_Remote v, va_SandboxRemote v}.
        x = '''' \<or> hd x \<noteq> CHR ''-'' \<and> \<not> sublist ''..'' x \<and> list_all ref_char x))
   \<and> (Build steps v = Inr out \<longrightarrow>
        map length out = map length steps
      \<and> (\<forall>i j. i < length steps \<and> j < length (steps ! i) \<longrightarrow>
           (CHR ''{'' \<notin> set (steps ! i ! j) \<longrightarrow> out ! i ! j = steps ! i ! j)
         \<and> (steps ! i ! j = ''{branch}'' \<longrightarrow> out ! i ! j = va_Branch v)
         \<and> (steps ! i ! j = ''{base_ref}'' \<longrightarrow> out ! i ! j = va_BaseRef v)
         \<and> (steps ! i ! j = ''{remote}'' \<longrightarrow> out ! i ! j = va_Remote v)
         \<and> (steps ! i ! j = ''{sandbox_remote}'' \<longrightarrow> out ! i ! j = va_SandboxRemote v)))"
proof -
  have "(\<exists>out. Build steps v = Inr out) \<longleftrightarrow>
      (\<forall>x \<in> {va_Branch v, va_BaseRef v, va_Remote v, va_SandboxRemote v}. ref_valid x)"
    by (auto simp: Build_Inr_iff)
  moreover have "Build steps v = Inr out \<longrightarrow> out = map (map (replace_pairs (replacements v))) steps"
    by (simp add: Build_Inr_iff)
  ultimately show ?thesis
    using replace_placeholder[of v] replace_plain[of _ v] by (auto simp: ref_valid_def)
qed

theorem Build_correct_witness:
  "\<exists>out. Build [[''git'', ''push'', ''{remote}'', ''{branch}'']]
      \<lparr>va_Branch = ''feature/x'', va_BaseRef = '''', va_Remote = ''origin'', va_SandboxRemote = ''''\<rparr> = Inr out
    \<and> out ! 0 ! 3 = ''feature/x''"
proof -
  let ?v = "\<lparr>va_Branch = ''feature/x'', va_BaseRef = '''', va_Remote = ''origin'', va_SandboxRemote = ''''\<rparr>"
  let ?steps = "[[''git'', ''push'', ''{remote}'', ''{branch}'']]"
  have "\<forall>x \<in> {va_Branch ?v, va_BaseRef ?v, va_Remote ?v, va_SandboxRemote ?v}.
      x = '''' \<or> hd x \<noteq> CHR ''-'' \<and> \<not> sublist ''..'' x \<and> list_all ref_char x" by code_simp
  then obtain out where o: "Build ?steps ?v = Inr out" using Build_correct[of ?steps ?v] by blast
  with Build_correct[of ?steps ?v out] have "out ! 0 ! 3 = ''feature/x''" by force
  with o show ?thesis by blast
qed

text \<open>
  The runner.  What runs is a prefix of the configured non-empty steps, in order, each of an
  allowed program, and the host is changed by exactly those runs; without an error all of them ran and
  exited with zero; with an error, either the last one run failed or the next one is not allowed.
\<close>

theorem Runner_Run_correct:
  assumes "Runner_Run X allow dir env steps g = ((rs, r), g')"
  defines "want \<equiv> filter (\<lambda>a. a \<noteq> []) steps" and "executed \<equiv> map st_Argv rs"
  shows "prefix executed want \<and> (\<forall>a \<in> set executed. hd a \<in> set allow)
    \<and> g' = fold (\<lambda>a g. snd (gx_run X dir env a g)) executed g
    \<and> (r = Inr () \<longrightarrow> executed = want \<and> (\<forall>x \<in> set rs. st_ExitCode x = 0))
    \<and> (r \<noteq> Inr () \<longrightarrow> (\<forall>x \<in> set (butlast rs). st_ExitCode x = 0)
         \<and> (rs \<noteq> [] \<and> (\<exists>g0 out. fst (gx_run X dir env (st_Argv (last rs)) g0) = (Some (st_ExitCode (last rs)), out))
            \<or> length rs < length want \<and> hd (want ! length rs) \<notin> set allow))"
  using Runner_Run_steps[OF assms(1)] unfolding want_def executed_def .

definition example_host :: "nat GitHost" where
  "example_host =
     \<lparr>gx_run = (\<lambda>dir env argv n. ((if argv = [''git'', ''push''] then Some 1 else None, []), Suc n)),
      gx_exists = (\<lambda>_ _. False), gx_mkdir = (\<lambda>n _. (Inr (), n))\<rparr>"

theorem Runner_Run_correct_witness:
  "snd (Runner_Run example_host [''git''] '''' [] [[''git'', ''fetch''], [''git'', ''push''], [''git'', ''gc'']] 0) = 2"
proof -
  let ?r = "Runner_Run example_host [''git''] '''' [] [[''git'', ''fetch''], [''git'', ''push''], [''git'', ''gc'']] 0"
  have "map st_Argv (fst (fst ?r)) = [[''git'', ''fetch''], [''git'', ''push'']]" by code_simp
  moreover have "?r = ((fst (fst ?r), snd (fst ?r)), snd ?r)" by simp
  ultimately show ?thesis using Runner_Run_correct[of example_host "[''git'']" "''''" "[]"
      "[[''git'', ''fetch''], [''git'', ''push''], [''git'', ''gc'']]" 0 "fst (fst ?r)" "snd (fst ?r)" "snd ?r"]
    by (simp add: example_host_def)
qed

text \<open>
  Quoting for the shell is exact.  Whatever the operator's path contains, a shell that reads the
  quoted text gets that path back as one word and goes on right after it.
\<close>

theorem shQuote_roundtrip:
  "sh_word False (shQuote p) = Some (p, []) \<and> sh_word False (shQuote p @ CHR '' '' # rest) = Some (p, CHR '' '' # rest)"
proof -
  have "\<not> sh_plain CHR '' ''" by code_simp
  then show ?thesis by (simp add: shQuote_def sh_word_quoted)
qed

end
