(* ===== verification/Config.thy ===== *)
theory Config
  imports Git Types
begin

text \<open>
  Node configuration (\<^verbatim>\<open>internal/config/config.go\<close>) and the functions of \<^verbatim>\<open>internal/node/node.go\<close> that
  derive the wiring from it.  The YAML decoder, the file system and the flag parser are parameters:
  a file is read by \<open>readFile\<close>, decoded onto a configuration by \<open>unmarshal\<close>, and the command line is
  given as the flags it sets, in the order the flag set visits them, or the parse error.
\<close>

record GitConfig =
  gc_Remote :: string
  gc_DefaultBranch :: string
  gc_AllowPush :: bool
  gc_PreSteps :: "string list list"
  gc_PublishSteps :: "string list list"
  gc_ExecAllowlist :: "string list"
  gc_RemoteURL :: string
  gc_Provider :: string
  gc_TokenEnv :: string
  gc_SSHKeyPath :: string
  gc_SSHKnownHostsPath :: string
  gc_CAPath :: string
  gc_APIBaseURL :: string

record WorkspaceConfig =
  wc_Name :: string
  wc_HostPath :: string
  wc_ReadOnly :: bool
  wc_Git :: "GitConfig option"

record KitConfig =
  kc_Name :: string
  kc_Ref :: string

record APIKey =
  ak_Key :: string
  ak_Role :: string

record ProvisionLimits =
  pl_CPUCores :: rat
  pl_MemoryBytes :: int
  pl_DiskGB :: rat

record Config =
  cf_NodeName :: string
  cf_DataDir :: string
  cf_ListenAddr :: string
  cf_LogLevel :: string
  cf_TLSCertFile :: string
  cf_TLSKeyFile :: string
  cf_ConsoleAddr :: string
  cf_ConsoleTLS :: bool
  cf_ConsoleTLSCertFile :: string
  cf_ConsoleTLSKeyFile :: string
  cf_APIKeys :: "APIKey list"
  cf_ClusterSecret :: string
  cf_Join :: "string list"
  cf_SwarmName :: string
  cf_Labels :: "(string, string) gomap"
  cf_ProvisionLimits :: ProvisionLimits
  cf_GossipAddr :: string
  cf_Workspaces :: "WorkspaceConfig list"
  cf_DefaultStrategy :: string
  cf_DefaultSandboxResources :: Resources
  cf_Backend :: string
  cf_IdleTimeout :: string
  cf_MaxUploadBytes :: int
  cf_Kits :: "KitConfig list"

definition GitConfig_WithDefaults :: "GitConfig \<Rightarrow> GitConfig" where
  "GitConfig_WithDefaults g =
     (let g = (if gc_Remote g = '''' then g\<lparr>gc_Remote := ''origin''\<rparr> else g);
          g = (if gc_ExecAllowlist g = [] then g\<lparr>gc_ExecAllowlist := [''git'', ''git-lfs'']\<rparr> else g);
          g = (if gc_PreSteps g = []
               then g\<lparr>gc_PreSteps := [[''git'', ''fetch'', ''{remote}'', ''+refs/heads/*:refs/heads/*'']]\<rparr> else g);
          g = (if gc_PublishSteps g = []
               then g\<lparr>gc_PublishSteps := [[''git'', ''fetch'', ''{sandbox_remote}'', ''+refs/heads/{branch}:refs/heads/{branch}''],
                      [''git'', ''push'', ''{remote}'', ''{branch}'']]\<rparr> else g)
      in g)"

text \<open>\<open>host\<close> is the host name, empty when it cannot be read.\<close>

definition Config_Default :: "string \<Rightarrow> Config" where
  "Config_Default host =
     \<lparr>cf_NodeName = (if host = '''' then ''sbx-node'' else host), cf_DataDir = ''./data'', cf_ListenAddr = '':8443'',
      cf_LogLevel = ''info'', cf_TLSCertFile = '''', cf_TLSKeyFile = '''', cf_ConsoleAddr = '''', cf_ConsoleTLS = True,
      cf_ConsoleTLSCertFile = '''', cf_ConsoleTLSKeyFile = '''', cf_APIKeys = [], cf_ClusterSecret = '''', cf_Join = [],
      cf_SwarmName = '''', cf_Labels = [], cf_ProvisionLimits = \<lparr>pl_CPUCores = 0, pl_MemoryBytes = 0, pl_DiskGB = 0\<rparr>,
      cf_GossipAddr = '':7946'', cf_Workspaces = [], cf_DefaultStrategy = '''', cf_DefaultSandboxResources = \<lparr>rs_CPUCores = 0, rs_MemoryBytes = 0, rs_DiskGB = 0\<rparr>,
      cf_Backend = ''fake'', cf_IdleTimeout = '''', cf_MaxUploadBytes = 0, cf_Kits = []\<rparr>"

section \<open>Loading\<close>

definition env_layer :: "(string \<Rightarrow> string option) \<Rightarrow> Config \<Rightarrow> Config" where
  "env_layer lookupEnv cfg =
     (let cfg = (case lookupEnv ''SBX_NODE_NAME'' of None \<Rightarrow> cfg | Some v \<Rightarrow> cfg\<lparr>cf_NodeName := v\<rparr>);
          cfg = (case lookupEnv ''SBX_DATA_DIR'' of None \<Rightarrow> cfg | Some v \<Rightarrow> cfg\<lparr>cf_DataDir := v\<rparr>);
          cfg = (case lookupEnv ''SBX_LISTEN_ADDR'' of None \<Rightarrow> cfg | Some v \<Rightarrow> cfg\<lparr>cf_ListenAddr := v\<rparr>);
          cfg = (case lookupEnv ''SBX_CONSOLE_ADDR'' of None \<Rightarrow> cfg | Some v \<Rightarrow> cfg\<lparr>cf_ConsoleAddr := v\<rparr>);
          cfg = (case lookupEnv ''SBX_LOG_LEVEL'' of None \<Rightarrow> cfg | Some v \<Rightarrow> cfg\<lparr>cf_LogLevel := v\<rparr>)
      in cfg)"

definition set_flag :: "string \<times> string \<Rightarrow> Config \<Rightarrow> Config" where
  "set_flag f cfg =
     (case f of (n, v) \<Rightarrow>
        if n = ''node-name'' then cfg\<lparr>cf_NodeName := v\<rparr>
        else if n = ''data-dir'' then cfg\<lparr>cf_DataDir := v\<rparr>
        else if n = ''listen-addr'' then cfg\<lparr>cf_ListenAddr := v\<rparr>
        else if n = ''console-addr'' then cfg\<lparr>cf_ConsoleAddr := v\<rparr>
        else if n = ''log-level'' then cfg\<lparr>cf_LogLevel := v\<rparr>
        else cfg)"

definition Config_Load ::
  "(string \<Rightarrow> string res) \<Rightarrow> (string \<Rightarrow> Config \<Rightarrow> Config res) \<Rightarrow> string \<Rightarrow> (string \<Rightarrow> string option)
    \<Rightarrow> (string, string) gomap res \<Rightarrow> Config res" where
  "Config_Load readFile unmarshal host lookupEnv parsed =
     (case parsed of
        Inl e \<Rightarrow> Inl e
      | Inr flags \<Rightarrow>
          (let cfg = Config_Default host;
               path = (case map_of flags ''config'' of None \<Rightarrow> '''' | Some p \<Rightarrow> p);
               layered = (if path \<noteq> '''' then
                            (case readFile path of
                               Inl e \<Rightarrow> Inl (Wrapf ''read config file: %w'' [] e)
                             | Inr raw \<Rightarrow> (case unmarshal raw cfg of
                                             Inl e \<Rightarrow> Inl (Wrapf ''parse config file: %w'' [] e)
                                           | Inr cfg \<Rightarrow> Inr cfg))
                          else Inr cfg)
           in (case layered of
                 Inl e \<Rightarrow> Inl e
               | Inr cfg \<Rightarrow> Inr (fold set_flag flags (env_layer lookupEnv cfg)))))"

definition RoleForKey :: "Config \<Rightarrow> string \<Rightarrow> string option" where
  "RoleForKey c key = map_option ak_Role (find (\<lambda>k. ak_Key k = key) (cf_APIKeys c))"

section \<open>Durations\<close>

text \<open>
  \<^verbatim>\<open>time.ParseDuration\<close>: a sign, then either a lone zero or one or more decimal numbers with a unit.
  A fraction counts as the number of nanoseconds it gives, rounded down.  Values beyond 63 bits are
  refused.
\<close>

definition is_digit :: "char \<Rightarrow> bool" where
  "is_digit c \<longleftrightarrow> CHR ''0'' \<le> c \<and> c \<le> CHR ''9''"

definition digits_val :: "string \<Rightarrow> nat" where
  "digits_val ds = foldl (\<lambda>n c. 10 * n + (of_char c - 48)) 0 ds"

definition unit_ns :: "string \<Rightarrow> nat option" where
  "unit_ns u =
     map_of [(''ns'', 1), (''us'', 1000), ([CHR 0xC2, CHR 0xB5, CHR ''s''], 1000),
       ([CHR 0xCE, CHR 0xBC, CHR ''s''], 1000), (''ms'', 1000000), (''s'', 1000000000),
       (''m'', 60000000000), (''h'', 3600000000000)] u"

function duration_terms :: "nat \<Rightarrow> string \<Rightarrow> nat option" where
  "duration_terms acc s =
     (if s = [] then Some acc
      else let whole = takeWhile is_digit s; r = dropWhile is_digit s;
               frac = (if r \<noteq> [] \<and> hd r = CHR ''.'' then takeWhile is_digit (tl r) else []);
               r = (if r \<noteq> [] \<and> hd r = CHR ''.'' then dropWhile is_digit (tl r) else r);
               u = takeWhile (\<lambda>c. c \<noteq> CHR ''.'' \<and> \<not> is_digit c) r;
               rest = dropWhile (\<lambda>c. c \<noteq> CHR ''.'' \<and> \<not> is_digit c) r
           in if whole = [] \<and> frac = [] \<or> u = [] then None
              else case unit_ns u of
                     None \<Rightarrow> None
                   | Some n \<Rightarrow>
                       let v = digits_val whole * n + digits_val frac * n div 10 ^ length frac
                       in if 2 ^ 63 < acc + v then None else duration_terms (acc + v) rest)"
  by pat_completeness auto
termination
proof (relation "measure (\<lambda>(acc, s). length s)", goal_cases)
  case (2 acc s x xa xb xc xd xe x2 xf)
  have "length xa \<le> length s" using 2 by (simp add: length_dropWhile_le)
  have "length xc \<le> length xa"
    using 2 length_dropWhile_le[of is_digit "tl xa"] by (auto split: if_splits)
  moreover have "length xe < length xc"
  proof -
    have "xc = xd @ xe" using 2 by simp
    moreover have "xd \<noteq> []" using 2 by simp
    ultimately show ?thesis by simp
  qed
  ultimately show ?case using \<open>length xa \<le> length s\<close> by simp
qed simp

definition ParseDuration :: "string \<Rightarrow> int option" where
  "ParseDuration s =
     (let neg = (s \<noteq> [] \<and> hd s = CHR ''-'');
          r = (if s \<noteq> [] \<and> (hd s = CHR ''-'' \<or> hd s = CHR ''+'') then tl s else s)
      in if r = ''0'' then Some 0
         else if r = [] then None
         else case duration_terms 0 r of
                None \<Rightarrow> None
              | Some d \<Rightarrow> if neg then Some (- int d) else if 2 ^ 63 - 1 < d then None else Some (int d))"

section \<open>Validation\<close>

fun validate_keys :: "APIKey list \<Rightarrow> unit res" where
  "validate_keys [] = Inr ()"
| "validate_keys (k # ks) =
     (if ak_Key k = '''' then Inl (Errf ''api_keys: empty key'' [])
      else if ak_Role k \<noteq> ''admin'' \<and> ak_Role k \<noteq> ''read-only''
      then Inl (Errf ''api_keys: role must be admin|read-only, got %q'' [ak_Role k])
      else validate_keys ks)"

fun validate_workspaces :: "WorkspaceConfig list \<Rightarrow> unit res" where
  "validate_workspaces [] = Inr ()"
| "validate_workspaces (w # ws) =
     (case wc_Git w of
        None \<Rightarrow> validate_workspaces ws
      | Some g \<Rightarrow>
          if wc_HostPath w = '''' \<and> gc_RemoteURL g = ''''
          then Inl (Errf ''workspace %q is git-backed but has neither host_path nor remote_url'' [wc_Name w])
          else validate_workspaces ws)"

fun validate_kits :: "string list \<Rightarrow> KitConfig list \<Rightarrow> unit res" where
  "validate_kits seen [] = Inr ()"
| "validate_kits seen (k # ks) =
     (if kc_Name k = '''' then Inl (Errf ''kits: empty name'' [])
      else if kc_Ref k = '''' then Inl (Errf ''kit %q: ref must not be empty'' [kc_Name k])
      else if kc_Name k \<in> set seen then Inl (Errf ''kits: duplicate name %q'' [kc_Name k])
      else validate_kits (kc_Name k # seen) ks)"

definition validate_idle :: "string \<Rightarrow> unit res" where
  "validate_idle s =
     (if s = '''' then Inr ()
      else case ParseDuration s of
             None \<Rightarrow> Inl (Errf ''idle_timeout: invalid duration'' [s])
           | Some d \<Rightarrow> if d < 0 then Inl (Errf ''idle_timeout must not be negative, got %q'' [s]) else Inr ())"

definition Config_Validate :: "Config \<Rightarrow> unit res" where
  "Config_Validate c =
     (if cf_NodeName c = '''' then Inl (Errf ''node_name must not be empty'' [])
      else if cf_DataDir c = '''' then Inl (Errf ''data_dir must not be empty'' [])
      else if cf_ListenAddr c = '''' then Inl (Errf ''listen_addr must not be empty'' [])
      else if cf_LogLevel c \<notin> set [''debug'', ''info'', ''warn'', ''error'']
      then Inl (Errf ''log_level must be one of debug|info|warn|error, got %q'' [cf_LogLevel c])
      else case validate_keys (cf_APIKeys c) of Inl e \<Rightarrow> Inl e | Inr _ \<Rightarrow>
      if cf_Join c \<noteq> [] \<and> cf_ClusterSecret c = ''''
      then Inl (Errf ''cluster_secret must be set when join seeds are configured'' [])
      else if cf_ClusterSecret c \<noteq> '''' \<and> (cf_TLSCertFile c \<noteq> '''' \<or> cf_TLSKeyFile c \<noteq> '''')
      then Inl (Errf ''tls_cert_file/tls_key_file is incompatible with clustering'' [])
      else if cf_GossipAddr c = '''' then Inl (Errf ''gossip_addr must not be empty'' [])
      else if pl_CPUCores (cf_ProvisionLimits c) < 0 \<or> pl_MemoryBytes (cf_ProvisionLimits c) < 0
        \<or> pl_DiskGB (cf_ProvisionLimits c) < 0
      then Inl (Errf ''provision_limits must not be negative'' [])
      else if cf_DefaultStrategy c \<notin> set ['''', ''least-loaded'', ''bin-pack'', ''spread'']
      then Inl (Errf ''default_strategy must be one of least-loaded|bin-pack|spread, got %q'' [cf_DefaultStrategy c])
      else case validate_workspaces (cf_Workspaces c) of Inl e \<Rightarrow> Inl e | Inr _ \<Rightarrow>
      case validate_kits [] (cf_Kits c) of Inl e \<Rightarrow> Inl e | Inr _ \<Rightarrow>
      if cf_Backend c \<notin> set ['''', ''fake'', ''sdk'']
      then Inl (Errf ''backend must be one of fake|sdk, got %q'' [cf_Backend c])
      else validate_idle (cf_IdleTimeout c))"

definition IdleTimeoutDuration :: "Config \<Rightarrow> int" where
  "IdleTimeoutDuration c = (case ParseDuration (cf_IdleTimeout c) of None \<Rightarrow> 0 | Some d \<Rightarrow> d)"

section \<open>Wiring derived from the configuration\<close>

definition resolveCfgLimit :: "rat \<Rightarrow> rat \<Rightarrow> rat" where
  "resolveCfgLimit configured detected = (if configured > 0 then configured else detected)"

text \<open>
  \<open>getenv\<close> is \<^verbatim>\<open>os.Getenv\<close>, \<open>absPath\<close> is \<^verbatim>\<open>filepath.Abs\<close> (\<open>None\<close> when it fails).
\<close>

definition effectiveGitBase :: "(string \<Rightarrow> string) \<Rightarrow> (string \<Rightarrow> string option) \<Rightarrow> string \<Rightarrow> WorkspaceConfig \<Rightarrow> string" where
  "effectiveGitBase getenv absPath dataDir w =
     (if wc_HostPath w \<noteq> '''' then wc_HostPath w
      else case wc_Git w of
        None \<Rightarrow> wc_HostPath w
      | Some g \<Rightarrow>
          if gc_RemoteURL g \<noteq> '''' then
            (let root = getenv ''SBX_GIT_WORKSPACE_DIR'';
                 root = (if root = '''' then path_Join [dataDir, ''git-workspaces''] else root);
                 base = path_Join [root, wc_Name w @ ''.git'']
             in case absPath base of Some a \<Rightarrow> a | None \<Rightarrow> base)
          else wc_HostPath w)"

definition git_spec :: "(string \<Rightarrow> string) \<Rightarrow> (string \<Rightarrow> string option) \<Rightarrow> string \<Rightarrow> WorkspaceConfig \<Rightarrow> GitConfig \<Rightarrow> Spec" where
  "git_spec getenv absPath dataDir w g0 =
     (let g = GitConfig_WithDefaults g0;
          token = (if gc_TokenEnv g \<noteq> '''' then getenv (gc_TokenEnv g) else '''')
      in \<lparr>gs_Name = wc_Name w, gs_Base = effectiveGitBase getenv absPath dataDir w, gs_Remote = gc_Remote g,
          gs_RemoteURL = gc_RemoteURL g, gs_Provider = gc_Provider g,
          gs_Cred = \<lparr>cr_Token = token, cr_SSHKeyPath = gc_SSHKeyPath g, cr_SSHKnownHostsPath = gc_SSHKnownHostsPath g,
                     cr_CAPath = gc_CAPath g\<rparr>,
          gs_DefaultBranch = gc_DefaultBranch g, gs_AllowPush = gc_AllowPush g, gs_APIBaseURL = gc_APIBaseURL g,
          gs_PreSteps = gc_PreSteps g, gs_PublishSteps = gc_PublishSteps g, gs_Allowlist = gc_ExecAllowlist g\<rparr>)"

definition buildGitWorkspaces ::
  "(string \<Rightarrow> string) \<Rightarrow> (string \<Rightarrow> string option) \<Rightarrow> WorkspaceConfig list \<Rightarrow> string \<Rightarrow> (string, Spec) gomap" where
  "buildGitWorkspaces getenv absPath ws dataDir =
     fold (\<lambda>w out. case wc_Git w of
                     None \<Rightarrow> out
                   | Some g \<Rightarrow> AList.update (wc_Name w) (git_spec getenv absPath dataDir w g) out) ws []"

definition kitMap :: "KitConfig list \<Rightarrow> (string, string) gomap" where
  "kitMap ks = fold (\<lambda>k m. AList.update (kc_Name k) (kc_Ref k) m) ks []"

definition kitNamesFromConfig :: "KitConfig list \<Rightarrow> string list" where
  "kitNamesFromConfig ks = map kc_Name ks"

text \<open>The resolver of the backend: host path and read-only flag of a workspace name.\<close>

definition workspaceResolver ::
  "(string \<Rightarrow> string) \<Rightarrow> (string \<Rightarrow> string option) \<Rightarrow> WorkspaceConfig list \<Rightarrow> string \<Rightarrow> string \<Rightarrow> (string \<times> bool) option" where
  "workspaceResolver getenv absPath ws dataDir name =
     map_of (fold (\<lambda>w m. AList.update (wc_Name w)
        (effectiveGitBase getenv absPath dataDir w, wc_ReadOnly w \<or> wc_Git w \<noteq> None) m) ws []) name"

definition workspaceNames :: "WorkspaceConfig list \<Rightarrow> string list" where
  "workspaceNames ws = map wc_Name ws"

definition gitWorkspaceNames :: "WorkspaceConfig list \<Rightarrow> string list" where
  "gitWorkspaceNames ws = map wc_Name (filter (\<lambda>w. wc_Git w \<noteq> None) ws)"

definition nameSet :: "string list \<Rightarrow> (string, bool) gomap" where
  "nameSet ss = fold (\<lambda>s m. AList.update s True m) ss []"

text \<open>\<^verbatim>\<open>net.SplitHostPort\<close>; \<open>None\<close> is an error.\<close>

definition SplitHostPort :: "string \<Rightarrow> (string \<times> string) option" where
  "SplitHostPort s =
     (case last_index_byte CHR '':'' s of
        None \<Rightarrow> None
      | Some i \<Rightarrow>
          if prefix ''['' s then
            (case index_byte CHR '']'' s of
               None \<Rightarrow> None
             | Some e \<Rightarrow>
                 if Suc e \<noteq> i then None
                 else if CHR ''['' \<in> set (drop 1 s) \<or> CHR '']'' \<in> set (drop (Suc e) s) then None
                 else Some (take (e - 1) (drop 1 s), drop (Suc i) s))
          else if CHR '':'' \<in> set (take i s) \<or> CHR ''['' \<in> set s \<or> CHR '']'' \<in> set s then None
          else Some (take i s, drop (Suc i) s))"

definition dialableAddr :: "string \<Rightarrow> string" where
  "dialableAddr addr =
     (case SplitHostPort addr of
        None \<Rightarrow> addr
      | Some (host, port) \<Rightarrow>
          if host = '''' \<or> host = ''0.0.0.0'' \<or> host = ''::'' then ''127.0.0.1:'' @ port else addr)"

definition reapInterval :: "int \<Rightarrow> int" where
  "reapInterval timeout = (if timeout < minute then timeout else minute)"

section \<open>Lemmas\<close>

definition layered :: "(string, string) gomap \<Rightarrow> (string \<Rightarrow> string option) \<Rightarrow> string \<Rightarrow> string \<Rightarrow> string \<Rightarrow> string" where
  "layered flags lookupEnv f e d =
     (case map_of flags f of Some v \<Rightarrow> v | None \<Rightarrow> (case lookupEnv e of Some v \<Rightarrow> v | None \<Rightarrow> d))"

definition flagged :: "(string, string) gomap \<Rightarrow> string \<Rightarrow> string \<Rightarrow> string" where
  "flagged flags f d = (case map_of flags f of Some v \<Rightarrow> v | None \<Rightarrow> d)"

lemma flagged_Cons: "flagged ((n, v) # fs) f d = (if f = n then v else flagged fs f d)"
  by (simp add: flagged_def)

lemma flagged_notin: "f \<notin> fst ` set fs \<Longrightarrow> flagged fs f d = d"
  by (simp add: flagged_def map_of_eq_None_iff[THEN iffD2])

lemma fold_set_flag:
  "distinct (map fst flags) \<Longrightarrow> fold set_flag flags cfg =
     cfg\<lparr>cf_NodeName := flagged flags ''node-name'' (cf_NodeName cfg),
         cf_DataDir := flagged flags ''data-dir'' (cf_DataDir cfg),
         cf_ListenAddr := flagged flags ''listen-addr'' (cf_ListenAddr cfg),
         cf_LogLevel := flagged flags ''log-level'' (cf_LogLevel cfg),
         cf_ConsoleAddr := flagged flags ''console-addr'' (cf_ConsoleAddr cfg)\<rparr>"
proof (induction flags arbitrary: cfg)
  case Nil
  show ?case by (simp add: flagged_def)
next
  case (Cons fl flags)
  obtain n v where f: "fl = (n, v)" by fastforce
  have n: "flagged flags n d = d" for d using Cons.prems f by (intro flagged_notin) auto
  have "fold set_flag (fl # flags) cfg = fold set_flag flags (set_flag (n, v) cfg)" using f by simp
  also have "\<dots> = (set_flag (n, v) cfg)\<lparr>cf_NodeName := flagged flags ''node-name'' (cf_NodeName (set_flag (n, v) cfg)),
         cf_DataDir := flagged flags ''data-dir'' (cf_DataDir (set_flag (n, v) cfg)),
         cf_ListenAddr := flagged flags ''listen-addr'' (cf_ListenAddr (set_flag (n, v) cfg)),
         cf_LogLevel := flagged flags ''log-level'' (cf_LogLevel (set_flag (n, v) cfg)),
         cf_ConsoleAddr := flagged flags ''console-addr'' (cf_ConsoleAddr (set_flag (n, v) cfg))\<rparr>"
    using Cons by simp
  also have "\<dots> = cfg\<lparr>cf_NodeName := flagged (fl # flags) ''node-name'' (cf_NodeName cfg),
         cf_DataDir := flagged (fl # flags) ''data-dir'' (cf_DataDir cfg),
         cf_ListenAddr := flagged (fl # flags) ''listen-addr'' (cf_ListenAddr cfg),
         cf_LogLevel := flagged (fl # flags) ''log-level'' (cf_LogLevel cfg),
         cf_ConsoleAddr := flagged (fl # flags) ''console-addr'' (cf_ConsoleAddr cfg)\<rparr>"
    unfolding f flagged_Cons set_flag_def using n by (cases cfg) auto
  finally show ?case .
qed

lemma env_layer_eq:
  "env_layer env cfg =
     cfg\<lparr>cf_NodeName := (case env ''SBX_NODE_NAME'' of Some v \<Rightarrow> v | None \<Rightarrow> cf_NodeName cfg),
         cf_DataDir := (case env ''SBX_DATA_DIR'' of Some v \<Rightarrow> v | None \<Rightarrow> cf_DataDir cfg),
         cf_ListenAddr := (case env ''SBX_LISTEN_ADDR'' of Some v \<Rightarrow> v | None \<Rightarrow> cf_ListenAddr cfg),
         cf_LogLevel := (case env ''SBX_LOG_LEVEL'' of Some v \<Rightarrow> v | None \<Rightarrow> cf_LogLevel cfg),
         cf_ConsoleAddr := (case env ''SBX_CONSOLE_ADDR'' of Some v \<Rightarrow> v | None \<Rightarrow> cf_ConsoleAddr cfg)\<rparr>"
  by (cases cfg) (auto simp: env_layer_def Let_def split: option.splits)

lemma validate_keys_iff:
  "validate_keys ks = Inr () \<longleftrightarrow> (\<forall>k \<in> set ks. ak_Key k \<noteq> '''' \<and> (ak_Role k = ''admin'' \<or> ak_Role k = ''read-only''))"
  by (induction ks) auto

lemma validate_workspaces_iff:
  "validate_workspaces ws = Inr () \<longleftrightarrow>
     (\<forall>w \<in> set ws. \<forall>g. wc_Git w = Some g \<longrightarrow> wc_HostPath w \<noteq> '''' \<or> gc_RemoteURL g \<noteq> '''')"
  by (induction ws) (auto split: option.splits)

lemma validate_kits_iff:
  "validate_kits seen ks = Inr () \<longleftrightarrow>
     (\<forall>k \<in> set ks. kc_Name k \<noteq> '''' \<and> kc_Ref k \<noteq> '''' \<and> kc_Name k \<notin> set seen) \<and> distinct (map kc_Name ks)"
  by (induction ks arbitrary: seen) (auto, metis image_eqI)

lemma fold_update_notin:
  "k \<notin> set (map f xs) \<Longrightarrow> map_of (fold (\<lambda>x m. AList.update (f x) (g x) m) xs m0) k = map_of m0 k"
  by (induction xs arbitrary: m0) (auto simp: update_conv')

lemma fold_update_distinct:
  "distinct (map f xs) \<Longrightarrow> x \<in> set xs \<Longrightarrow> map_of (fold (\<lambda>x m. AList.update (f x) (g x) m) xs m0) (f x) = Some (g x)"
proof (induction xs arbitrary: m0)
  case (Cons y xs)
  show ?case
  proof (cases "x = y")
    case True
    then have "f x \<notin> set (map f xs)" using Cons.prems by simp
    from fold_update_notin[OF this, of g] True show ?thesis by (simp add: update_conv')
  qed (use Cons in simp)
qed simp

lemma nameSet_iff: "in_set_map (nameSet ss) s \<longleftrightarrow> s \<in> set ss"
proof -
  have "map_of (fold (\<lambda>s m. AList.update s True m) ss m0) s = (if s \<in> set ss then Some True else map_of m0 s)" for m0
    by (induction ss arbitrary: m0) (auto simp: update_conv')
  from this[of "[]"] show ?thesis by (simp add: nameSet_def in_set_map_def)
qed

text \<open>The facts a valid configuration gives, one per check.\<close>

lemma Validate_Inr:
  "Config_Validate c = Inr () \<Longrightarrow>
     validate_keys (cf_APIKeys c) = Inr () \<and> validate_workspaces (cf_Workspaces c) = Inr ()
   \<and> validate_kits [] (cf_Kits c) = Inr () \<and> validate_idle (cf_IdleTimeout c) = Inr ()
   \<and> cf_DefaultStrategy c \<in> set ['''', ''least-loaded'', ''bin-pack'', ''spread'']
   \<and> (cf_Join c \<noteq> [] \<longrightarrow> cf_ClusterSecret c \<noteq> '''')
   \<and> (cf_ClusterSecret c \<noteq> '''' \<longrightarrow> cf_TLSCertFile c = '''' \<and> cf_TLSKeyFile c = '''')"
  unfolding Config_Validate_def by (simp split: if_splits sum.splits) blast

section \<open>Properties\<close>

text \<open>
  Configuration layers.  When loading succeeds, each of the five settings that may come from the
  environment or the command line is the flag's value if the flag is set, else the variable's, else
  what the file gave, else the default; everything else is as the file left it.
\<close>

theorem Config_Load_precedence:
  assumes "Config_Load readFile unmarshal host lookupEnv (Inr flags) = Inr cfg" and "distinct (map fst flags)"
  shows "\<exists>base. (if flagged flags ''config'' '''' = '''' then base = Config_Default host
       else \<exists>raw. readFile (flagged flags ''config'' '''') = Inr raw \<and> unmarshal raw (Config_Default host) = Inr base)
    \<and> cfg = base\<lparr>cf_NodeName := layered flags lookupEnv ''node-name'' ''SBX_NODE_NAME'' (cf_NodeName base),
        cf_DataDir := layered flags lookupEnv ''data-dir'' ''SBX_DATA_DIR'' (cf_DataDir base),
        cf_ListenAddr := layered flags lookupEnv ''listen-addr'' ''SBX_LISTEN_ADDR'' (cf_ListenAddr base),
        cf_LogLevel := layered flags lookupEnv ''log-level'' ''SBX_LOG_LEVEL'' (cf_LogLevel base),
        cf_ConsoleAddr := layered flags lookupEnv ''console-addr'' ''SBX_CONSOLE_ADDR'' (cf_ConsoleAddr base)\<rparr>"
proof -
  obtain base where b: "if flagged flags ''config'' '''' = '''' then base = Config_Default host
       else \<exists>raw. readFile (flagged flags ''config'' '''') = Inr raw \<and> unmarshal raw (Config_Default host) = Inr base"
    and c: "cfg = fold set_flag flags (env_layer lookupEnv base)"
    using assms(1) by (auto simp: Config_Load_def Let_def flagged_def split: if_splits sum.splits)
  from c fold_set_flag[OF assms(2), of "env_layer lookupEnv base"] b show ?thesis
    by (intro exI[of _ base]) (simp add: env_layer_eq flagged_def layered_def)
qed

theorem Config_Load_precedence_witness:
  "\<exists>cfg. Config_Load (\<lambda>_. Inr '''') (\<lambda>_ c. Inr (c\<lparr>cf_DataDir := ''/file'', cf_LogLevel := ''warn''\<rparr>)) ''h''
      (\<lambda>e. if e = ''SBX_DATA_DIR'' then Some ''/env'' else None)
      (Inr [(''config'', ''c.yaml''), (''data-dir'', ''/flag'')]) = Inr cfg
    \<and> cf_DataDir cfg = ''/flag'' \<and> cf_LogLevel cfg = ''warn''"
proof -
  let ?load = "Config_Load (\<lambda>_. Inr '''') (\<lambda>_ c. Inr (c\<lparr>cf_DataDir := ''/file'', cf_LogLevel := ''warn''\<rparr>)) ''h''
      (\<lambda>e. if e = ''SBX_DATA_DIR'' then Some ''/env'' else None)
      (Inr [(''config'', ''c.yaml''), (''data-dir'', ''/flag'')])"
  obtain cfg where c: "?load = Inr cfg" by (simp add: Config_Load_def Let_def)
  from Config_Load_precedence[OF this] have "cf_DataDir cfg = ''/flag'' \<and> cf_LogLevel cfg = ''warn''"
    by (auto simp: flagged_def layered_def)
  with c show ?thesis by blast
qed

end
