(* ===== verification/AuditLog.thy ===== *)
theory AuditLog
  imports Manager
begin

text \<open>
  The durable audit log (\<^verbatim>\<open>internal/audit/audit.go\<close>) and the policy and secret service that writes
  to it (\<^verbatim>\<open>internal/apiserver/policyservice.go\<close>).  The log is append only: keys are the big-endian
  sequence numbers of the bucket, so byte order is sequence order.  \<open>actor\<close> is the role of the
  authenticated principal.
\<close>

definition Log_Record ::
  "('db, 'be) Env \<Rightarrow> Entry \<Rightarrow> ('db, 'be) World \<Rightarrow> unit res \<times> ('db, 'be) World" where
  "Log_Record E e w =
     (let (t, w) = now E w; e = e\<lparr>e_TSUnix := t div second\<rparr>; B = en_bolt E; db = w_db w in
      if \<not> b_has B db ''audit'' then (Inl (unknown_bucket ''audit''), w)
      else case b_next_seq B db ''audit'' of
             Inl err \<Rightarrow> (Inl err, w)
           | Inr (seq, db1) \<Rightarrow>
               (let e = e\<lparr>e_Seq := sint seq\<rparr> in
                case b_put B db1 ''audit'' (be_bytes seq) (JEntry e) of
                  Inl err \<Rightarrow> (Inl err, w)
                | Inr db2 \<Rightarrow> (Inr (), w\<lparr>w_db := db2\<rparr>)))"

definition decode_entry :: "blob \<Rightarrow> Entry res" where
  "decode_entry v = (case unmarshal_Entry v of Inl e \<Rightarrow> Inl (Wrapf ''decode audit entry: %w'' [] e) | Inr x \<Rightarrow> Inr x)"

definition Log_List :: "('db, 'be) Env \<Rightarrow> ('db, 'be) World \<Rightarrow> Entry list res" where
  "Log_List E w = store_ForEach (en_bolt E) (w_db w) ''audit'' (\<lambda>(_, v). decode_entry v)"

definition audit_entry :: "string \<Rightarrow> string \<Rightarrow> string \<Rightarrow> string \<Rightarrow> Entry" where
  "audit_entry actor action target outcome =
     \<lparr>e_Seq = 0, e_Actor = actor, e_Action = action, e_Target = target, e_Outcome = outcome, e_TSUnix = 0\<rparr>"

section \<open>The policy and secret service\<close>

definition nodeGlobalScope :: string where "nodeGlobalScope = ''_node''"

definition scopeName :: "('db, 'be) Env \<Rightarrow> string \<Rightarrow> ('db, 'be) World \<Rightarrow> string res" where
  "scopeName E scope w =
     (if scope = '''' \<or> scope = nodeGlobalScope then Inr '''' else Manager_Resolve E scope w)"

definition storedScopeName :: "string \<Rightarrow> string" where
  "storedScopeName scope = (if scope = '''' \<or> scope = nodeGlobalScope then '''' else scope)"

definition scopeStatusErr :: "go_error \<Rightarrow> go_error" where
  "scopeStatusErr e =
     (if errors_is e ErrNotFound then Status NotFound ''%s'' [] (Some e) else Status Internal ''%s'' [] (Some e))"

definition outcomeOf :: "unit res \<Rightarrow> string" where
  "outcomeOf r = (case r of Inl e \<Rightarrow> ''error'' | Inr _ \<Rightarrow> ''ok'')"

text \<open>The common tail of a mutation: audit the outcome (ignoring a failed append), then answer.\<close>

definition audited ::
  "('db, 'be) Env \<Rightarrow> string \<Rightarrow> string \<Rightarrow> string \<Rightarrow> unit res \<times> 'be \<Rightarrow> ('db, 'be) World
    \<Rightarrow> unit res \<times> ('db, 'be) World" where
  "audited E actor action target rb w =
     (let w = snd (Log_Record E (audit_entry actor action target (outcomeOf (fst rb))) (w\<lparr>w_be := snd rb\<rparr>)) in
      case fst rb of Inl e \<Rightarrow> (Inl (Status Internal ''%s'' [] (Some e)), w) | Inr _ \<Rightarrow> (Inr (), w))"

definition PolicyService_SetPolicy ::
  "('db, 'be) Env \<Rightarrow> string \<Rightarrow> string \<Rightarrow> string \<Rightarrow> string \<Rightarrow> ('db, 'be) World
    \<Rightarrow> unit res \<times> ('db, 'be) World" where
  "PolicyService_SetPolicy E actor scope decision host w =
     (case scopeName E scope w of
        Inl e \<Rightarrow> (Inl (scopeStatusErr e), w)
      | Inr name \<Rightarrow>
          if decision = ''allow''
          then audited E actor (''policy.'' @ decision) host (be_PolicyAllow (en_backend E) (w_be w) name host) w
          else if decision = ''deny''
          then audited E actor (''policy.'' @ decision) host (be_PolicyDeny (en_backend E) (w_be w) name host) w
          else (Inl (Status InvalidArgument ''decision must be allow|deny'' [] None), w))"

definition PolicyService_DeletePolicyRule ::
  "('db, 'be) Env \<Rightarrow> string \<Rightarrow> string \<Rightarrow> string \<Rightarrow> ('db, 'be) World \<Rightarrow> unit res \<times> ('db, 'be) World" where
  "PolicyService_DeletePolicyRule E actor scope resource w =
     (case scopeName E scope w of
        Inl e \<Rightarrow> (Inl (scopeStatusErr e), w)
      | Inr name \<Rightarrow>
          audited E actor ''policy.remove'' resource (be_PolicyRemoveRule (en_backend E) (w_be w) name resource) w)"

definition PolicyService_ListPolicy ::
  "('db, 'be) Env \<Rightarrow> string \<Rightarrow> ('db, 'be) World \<Rightarrow> PolicyRule list res \<times> ('db, 'be) World" where
  "PolicyService_ListPolicy E scope w =
     (case scopeName E scope w of
        Inl e \<Rightarrow> (Inl (scopeStatusErr e), w)
      | Inr name \<Rightarrow>
          (case be_PolicyList (en_backend E) (w_be w) name of
             (Inl e, s) \<Rightarrow> (Inl (Status Internal ''%s'' [] (Some e)), w\<lparr>w_be := s\<rparr>)
           | (Inr rules, s) \<Rightarrow> (Inr rules, w\<lparr>w_be := s\<rparr>)))"

definition PolicyService_SetSecret ::
  "('db, 'be) Env \<Rightarrow> string \<Rightarrow> string \<Rightarrow> string \<Rightarrow> string \<Rightarrow> string \<Rightarrow> ('db, 'be) World
    \<Rightarrow> unit res \<times> ('db, 'be) World" where
  "PolicyService_SetSecret E actor scope host env val w =
     (case scopeName E scope w of
        Inl e \<Rightarrow> (Inl (scopeStatusErr e), w)
      | Inr name \<Rightarrow>
          audited E actor ''secret.set'' host
            (be_SecretSet (en_backend E) (w_be w) name
               \<lparr>sc_Host = host, sc_Env = env, sc_Placeholder = '''', sc_Value = val\<rparr>) w)"

definition PolicyService_CheckPolicy ::
  "('db, 'be) Env \<Rightarrow> string \<Rightarrow> string \<Rightarrow> ('db, 'be) World \<Rightarrow> PolicyDecision res \<times> ('db, 'be) World" where
  "PolicyService_CheckPolicy E scope target w =
     (if target = '''' then (Inl (Status InvalidArgument ''target must not be empty'' [] None), w)
      else case scopeName E scope w of
        Inl e \<Rightarrow> (Inl (scopeStatusErr e), w)
      | Inr name \<Rightarrow>
          (case be_PolicyCheck (en_backend E) (w_be w) name target of
             (Inl e, s) \<Rightarrow> (Inl (Status Internal ''%s'' [] (Some e)), w\<lparr>w_be := s\<rparr>)
           | (Inr d, s) \<Rightarrow> (Inr d, w\<lparr>w_be := s\<rparr>)))"

text \<open>The reply: custom secrets without their value, stored secrets with name, type and scope.\<close>

definition PolicyService_ListSecrets ::
  "('db, 'be) Env \<Rightarrow> string \<Rightarrow> ('db, 'be) World
    \<Rightarrow> ((string \<times> string \<times> string) list \<times> (string \<times> string \<times> string) list) res \<times> ('db, 'be) World" where
  "PolicyService_ListSecrets E scope w =
     (case scopeName E scope w of
        Inl e \<Rightarrow> (Inl (scopeStatusErr e), w)
      | Inr name \<Rightarrow>
          (case be_SecretList (en_backend E) (w_be w) name of
             (Inl e, s) \<Rightarrow> (Inl (Status Internal ''%s'' [] (Some e)), w\<lparr>w_be := s\<rparr>)
           | (Inr secs, s) \<Rightarrow>
               (Inr (map (\<lambda>c. (sc_Host c, sc_Env c, sc_Placeholder c)) (se_Custom secs),
                     map (\<lambda>st. (ss_Name st, ss_Type st, ss_Scope st)) (se_Stored secs)), w\<lparr>w_be := s\<rparr>)))"

definition PolicyService_DeleteSecret ::
  "('db, 'be) Env \<Rightarrow> string \<Rightarrow> string \<Rightarrow> string \<Rightarrow> ('db, 'be) World \<Rightarrow> unit res \<times> ('db, 'be) World" where
  "PolicyService_DeleteSecret E actor scope host w =
     (case scopeName E scope w of
        Inl e \<Rightarrow> (Inl (scopeStatusErr e), w)
      | Inr name \<Rightarrow> audited E actor ''secret.remove'' host (be_SecretRemove (en_backend E) (w_be w) name host) w)"

definition PolicyService_DeleteStoredSecret ::
  "('db, 'be) Env \<Rightarrow> string \<Rightarrow> string \<Rightarrow> string \<Rightarrow> ('db, 'be) World \<Rightarrow> unit res \<times> ('db, 'be) World" where
  "PolicyService_DeleteStoredSecret E actor scope name w =
     audited E actor ''secret.remove_stored'' name
       (be_SecretRemoveStored (en_backend E) (w_be w) (storedScopeName scope) name) w"

section \<open>Keys in byte order\<close>

lemma foldl_bval: "foldl (\<lambda>acc c. acc * 256 + of_char c) a s = a * 256 ^ length s + bval s"
proof (induction s arbitrary: a)
  case (Cons c s)
  show ?case
    using Cons[of "a * 256 + of_char c"] Cons[of "of_char c"] by (simp add: bval_def algebra_simps)
qed (simp add: bval_def)

lemma bval_Cons: "bval (c # s) = of_char c * 256 ^ length s + bval s"
  using foldl_bval[of "of_char c" s] by (simp add: bval_def)

lemma bval_less: "bval s < 256 ^ length s"
proof (induction s)
  case (Cons c s)
  have "(of_char c :: nat) < 256" by simp
  then have "of_char c * 256 ^ length s + bval s < (of_char c + 1) * (256 :: nat) ^ length s"
    using Cons by simp
  also have "\<dots> \<le> 256 * 256 ^ length s"
    using \<open>(of_char c :: nat) < 256\<close> by (intro mult_right_mono) linarith+
  finally show ?case by (simp add: bval_Cons)
qed (simp add: bval_def)

lemma bval_less_iff: "length a = length b \<Longrightarrow> bval a < bval b \<longleftrightarrow> a < b"
proof (induction rule: list_induct2)
  case (Cons x xs y ys)
  let ?n = "(256 :: nat) ^ length xs"
  have l: "bval xs < ?n" "bval ys < ?n" using bval_less[of xs] bval_less[of ys] Cons.hyps by simp_all
  consider "(of_char x :: nat) < of_char y" | "(of_char x :: nat) = of_char y" | "(of_char y :: nat) < of_char x"
    by linarith
  then show ?case
  proof cases
    case 1
    then have "(of_char x + 1) * ?n \<le> of_char y * ?n" by (intro mult_right_mono) simp_all
    with 1 l Cons.hyps show ?thesis by (simp add: bval_Cons less_char_def)
  next
    case 2
    then have "x = y" by (metis char_of_char)
    with Cons show ?thesis by (simp add: bval_Cons)
  next
    case 3
    then have "(of_char y + 1) * ?n \<le> of_char x * ?n" by (intro mult_right_mono) simp_all
    with 3 l Cons.hyps show ?thesis by (auto simp: bval_Cons less_char_def)
  qed
qed simp

lemma be_bytes_less_iff: "be_bytes u < be_bytes v \<longleftrightarrow> u < v"
  using bval_less_iff[of "be_bytes u" "be_bytes v"]
  by (simp add: bval_be_bytes word_less_nat_alt)

section \<open>The log is append only\<close>

definition audit_inv :: "('db, 'be) Env \<Rightarrow> ('db, 'be) World \<Rightarrow> bool" where
  "audit_inv E w \<longleftrightarrow> b_has (en_bolt E) (w_db w) ''audit''
     \<and> (\<forall>k v. b_get (en_bolt E) (w_db w) ''audit'' k = Some v \<longrightarrow>
          (\<exists>s e. k = be_bytes s \<and> v = JEntry e \<and> e_Seq e = sint s \<and> s \<le> b_seq (en_bolt E) (w_db w) ''audit''))"

lemma decode_entry_Inr [simp]: "decode_entry v = Inr e \<longleftrightarrow> v = JEntry e"
  by (auto simp: decode_entry_def split: sum.splits)

lemma decode_all_append:
  "decode_all dec xs = Inr us \<Longrightarrow> decode_all dec ys = Inr vs \<Longrightarrow> decode_all dec (xs @ ys) = Inr (us @ vs)"
  by (simp add: decode_all_Inr_iff list_all2_appendI)

lemma sorted_insert_last:
  fixes xs ys :: "(string \<times> 'a) list"
  assumes "sorted_wrt (<) (map fst xs)" "sorted_wrt (<) (map fst ys)" "set ys = insert p (set xs)"
    and "\<forall>q \<in> set xs. fst q < fst p"
  shows "ys = xs @ [p]"
proof -
  have s: "sorted_wrt (<) (map fst (xs @ [p]))" using assms(1,4) by (auto simp: sorted_wrt_append)
  have "distinct (map fst (xs @ [p]))" "distinct (map fst ys)" using s assms(2) by (simp_all add: strict_sorted_iff)
  moreover have "sorted (map fst (xs @ [p]))" "sorted (map fst ys)" using s assms(2) by (simp_all add: strict_sorted_iff)
  moreover have "inj_on fst (set ys \<union> set (xs @ [p]))"
    using \<open>distinct (map fst ys)\<close> assms(3) by (simp add: distinct_map insert_absorb)
  ultimately show ?thesis
    using assms(3) by (intro map_sorted_distinct_set_unique[of fst]) auto
qed

lemma word_le_less_Suc: "(s :: 64 word) \<le> t \<Longrightarrow> t \<noteq> - 1 \<Longrightarrow> s < t + 1"
proof -
  assume st: "s \<le> t" and "t \<noteq> - 1"
  then have "t < - 1" by (simp add: word_order.not_eq_extremum)
  then have "unat (t + 1) = Suc (unat t)" by (rule unat_Suc_less)
  then show ?thesis using st by (simp add: word_less_nat_alt word_le_nat_alt)
qed

context bolt_db
begin

lemma items_get_cong:
  assumes "b_get B db' bk = b_get B db bk"
  shows "b_items B db' bk = b_items B db bk"
proof -
  have "set (b_items B db' bk) = set (b_items B db bk)"
    using items_mem assms by (metis subrelI subset_antisym)
  moreover have "distinct (map fst (b_items B db' bk))" "sorted (map fst (b_items B db' bk))"
    "distinct (map fst (b_items B db bk))" "sorted (map fst (b_items B db bk))"
    using items_sorted strict_sorted_iff by blast+
  ultimately show ?thesis
    by (intro map_sorted_distinct_set_unique[of fst]) (auto simp: distinct_map)
qed

lemma items_put_last:
  assumes "b_put B db bk k v = Inr db'" "\<forall>q \<in> set (b_items B db bk). fst q < k"
  shows "b_items B db' bk = b_items B db bk @ [(k, v)]"
proof (rule sorted_insert_last)
  show "sorted_wrt (<) (map fst (b_items B db bk))" "sorted_wrt (<) (map fst (b_items B db' bk))"
    by (rule items_sorted)+
  have n: "b_get B db bk k = None"
    using assms(2) items_mem by (metis fst_conv less_irrefl not_None_eq)
  show "set (b_items B db' bk) = insert (k, v) (set (b_items B db bk))"
  proof (rule set_eqI)
    fix q
    show "q \<in> set (b_items B db' bk) \<longleftrightarrow> q \<in> insert (k, v) (set (b_items B db bk))"
      using put_D[OF assms(1)] items_mem[of "fst q" "snd q"] n by (cases q) auto
  qed
qed (use assms(2) in auto)

end

lemma Log_Record_ok:
  assumes "bolt_laws (en_bolt E)" "audit_inv E w" "Log_List E w = Inr es"
    and "b_seq (en_bolt E) (w_db w) ''audit'' \<noteq> - 1" "Log_Record E e w = (Inr (), w')"
  defines "e' \<equiv> e\<lparr>e_TSUnix := en_clock E (w_tick w) div second,
                   e_Seq := sint (b_seq (en_bolt E) (w_db w) ''audit'' + 1)\<rparr>"
  shows "Log_List E w' = Inr (es @ [e']) \<and> audit_inv E w'
    \<and> b_get (en_bolt E) (w_db w') = (b_get (en_bolt E) (w_db w))(''audit'' :=
        (b_get (en_bolt E) (w_db w) ''audit'')(be_bytes (b_seq (en_bolt E) (w_db w) ''audit'' + 1) \<mapsto> JEntry e'))"
proof -
  let ?B = "en_bolt E"
  let ?seq = "b_seq ?B (w_db w) ''audit'' + 1"
  have b: "bolt_db ?B" using assms(1) by (rule bolt_db.intro)
  have h: "b_has ?B (w_db w) ''audit''" using assms(2) by (simp add: audit_inv_def)
  obtain seq db1 where n: "b_next_seq ?B (w_db w) ''audit'' = Inr (seq, db1)"
    using assms(5) h by (auto simp: Log_Record_def Let_def now_def split: sum.splits)
  note nd = bolt_db.next_seq_D[OF b n]
  obtain db2 where p: "b_put ?B db1 ''audit'' (be_bytes ?seq) (JEntry e') = Inr db2" and w': "w_db w' = db2"
    using assms(5) h n nd by (auto simp: Log_Record_def Let_def now_def e'_def split: sum.splits)
  note pd = bolt_db.put_D[OF b p]
  have get: "b_get ?B db2 = (b_get ?B (w_db w))(''audit'' := (b_get ?B (w_db w) ''audit'')(be_bytes ?seq \<mapsto> JEntry e'))"
    using pd nd by simp
  have it: "b_items ?B db1 ''audit'' = b_items ?B (w_db w) ''audit''"
    using bolt_db.items_get_cong[OF b] nd by metis
  have "fst q < be_bytes ?seq" if "q \<in> set (b_items ?B db1 ''audit'')" for q
  proof -
    have "b_get ?B (w_db w) ''audit'' (fst q) = Some (snd q)"
      using that it bolt_db.items_mem[OF b, of "fst q" "snd q"] by simp
    then obtain s where "fst q = be_bytes s" "s \<le> b_seq ?B (w_db w) ''audit''"
      using assms(2) by (auto simp: audit_inv_def)
    then show ?thesis using word_le_less_Suc[OF _ assms(4)] by (simp add: be_bytes_less_iff)
  qed
  then have items: "b_items ?B db2 ''audit'' = b_items ?B (w_db w) ''audit'' @ [(be_bytes ?seq, JEntry e')]"
    using bolt_db.items_put_last[OF b p] it by simp
  have "Log_List E w' = Inr (es @ [e'])"
    using assms(3) h nd pd items w' decode_all_append[of "\<lambda>(_, v). decode_entry v" _ es "[(be_bytes ?seq, JEntry e')]" "[e']"]
    by (simp add: Log_List_def store_ForEach_def decode_entry_def)
  moreover have "audit_inv E w'"
  proof -
    have "\<exists>s x. k = be_bytes s \<and> v = JEntry x \<and> e_Seq x = sint s \<and> s \<le> ?seq"
      if g: "b_get ?B db2 ''audit'' k = Some v" for k v
    proof (cases "k = be_bytes ?seq")
      case True
      with g get show ?thesis by (auto simp: e'_def)
    next
      case False
      with g get have "b_get ?B (w_db w) ''audit'' k = Some v" by simp
      then obtain s x where "k = be_bytes s" "v = JEntry x" "e_Seq x = sint s" "s \<le> b_seq ?B (w_db w) ''audit''"
        using assms(2) unfolding audit_inv_def by blast
      then show ?thesis using word_le_less_Suc[OF _ assms(4)] by (metis less_imp_le)
    qed
    then show ?thesis using h nd pd w' by (simp add: audit_inv_def)
  qed
  ultimately show ?thesis using get w' by simp
qed

section \<open>Properties\<close>

text \<open>
  C39: the audit log only grows.  Recording an entry leaves every earlier entry where it was and
  puts the new one, with the next sequence number and the clock's second, at the end of the list.
\<close>

theorem audit_append_only:
  assumes "bolt_laws (en_bolt E)" and "audit_inv E w" and "Log_List E w = Inr es"
    and "b_seq (en_bolt E) (w_db w) ''audit'' \<noteq> - 1" and "Log_Record E e w = (Inr (), w')"
  shows "Log_List E w' = Inr (es @ [e\<lparr>e_TSUnix := en_clock E (w_tick w) div second,
      e_Seq := sint (b_seq (en_bolt E) (w_db w) ''audit'' + 1)\<rparr>]) \<and> audit_inv E w'"
  using Log_Record_ok[OF assms] by blast

theorem audit_append_only_witness:
  "map_sum (\<lambda>_. ()) (map e_Seq)
     (Log_List mem_env (snd (Log_Record mem_env (audit_entry ''admin'' ''policy.deny'' ''x.com'' ''ok'') mem_world)))
   = Inr [1]"
proof -
  let ?r = "Log_Record mem_env (audit_entry ''admin'' ''policy.deny'' ''x.com'' ''ok'') mem_world"
  have k: "b_has mem_bolt mem_open ''audit''" "mem_kvs mem_open ''audit'' = []" "mem_seq mem_open ''audit'' = 0"
    "fst ?r = Inr ()" by code_simp+
  have i: "audit_inv mem_env mem_world"
    using k by (simp add: audit_inv_def mem_env_def mem_world_def mem_bolt_def)
  have l: "Log_List mem_env mem_world = Inr []" by code_simp
  have s: "b_seq (en_bolt mem_env) (w_db mem_world) ''audit'' = 0"
    using k by (simp add: mem_env_def mem_world_def mem_bolt_def)
  have r: "?r = (Inr (), snd ?r)" using k(4) by (metis prod.collapse)
  have b: "bolt_laws (en_bolt mem_env)" by (simp add: mem_env_def mem_bolt_laws)
  from audit_append_only[OF b i l _ r] s show ?thesis by simp
qed

text \<open>
  Secret values never reach the store.  Setting a secret to two different values leaves the
  same database, audit entry included, whenever the backend accepts or refuses both alike.
\<close>

theorem SetSecret_value_not_stored:
  assumes "scopeName E scope w = Inr name"
    and "outcomeOf (fst (be_SecretSet (en_backend E) (w_be w) name
           \<lparr>sc_Host = host, sc_Env = env, sc_Placeholder = '''', sc_Value = v1\<rparr>))
       = outcomeOf (fst (be_SecretSet (en_backend E) (w_be w) name
           \<lparr>sc_Host = host, sc_Env = env, sc_Placeholder = '''', sc_Value = v2\<rparr>))"
  shows "w_db (snd (PolicyService_SetSecret E actor scope host env v1 w))
       = w_db (snd (PolicyService_SetSecret E actor scope host env v2 w))"
proof -
  have "w_db (snd (Log_Record E e (w\<lparr>w_be := s1\<rparr>))) = w_db (snd (Log_Record E e (w\<lparr>w_be := s2\<rparr>)))" for e s1 s2
    by (simp add: Log_Record_def now_def Let_def split: sum.splits prod.splits)
  then show ?thesis
    using assms by (simp add: PolicyService_SetSecret_def audited_def Let_def split: sum.splits)
qed

theorem SetSecret_value_not_stored_witness:
  "w_db (snd (PolicyService_SetSecret mem_env ''admin'' ''_node'' ''h'' ''TOKEN'' ''s3cret'' mem_world))
 = w_db (snd (PolicyService_SetSecret mem_env ''admin'' ''_node'' ''h'' ''TOKEN'' ''other'' mem_world))"
  by (rule SetSecret_value_not_stored[of _ _ _ "''''"])
     (simp_all add: scopeName_def nodeGlobalScope_def mem_env_def fake_backend_def Fake_SecretSet_def
        outcomeOf_def Let_def)

end
