(* ===== verification/Membership.thy ===== *)
theory Membership
  imports Store Routing
begin

text \<open>
  Swarm membership (\<^verbatim>\<open>internal/membership\<close>): the advertised node state, the swarm identity and its
  start-up rules, the cluster's local updates, the delegate callbacks that gossip makes, and the
  grow-only set of revoked nodes.  The gossip library is not part of the repository: its callbacks
  are the operations here, with the peer's state (already decoded, or the decoding error) as
  argument; what it sends is \<open>ns_*\<close> of the local state.  Writing \<^verbatim>\<open>swarm.json\<close> takes the outcome
  of the file write as an argument.
\<close>

record NodeState =
  ns_NodeID :: string
  ns_Addr :: string
  ns_Cordoned :: bool
  ns_StateVersion :: "64 word"
  ns_ProtocolVersion :: "32 word"
  ns_SwarmID :: string
  ns_SwarmName :: string
  ns_NodeName :: string
  ns_PubKey :: string
  ns_Capabilities :: "string list"
  ns_OwnedSandboxIDs :: "string list"
  ns_Labels :: "(string, string) gomap"
  ns_LimitCPU :: rat
  ns_LimitMemKB :: rat
  ns_AllocCPU :: rat
  ns_AllocMemKB :: rat
  ns_Workspaces :: "string list"
  ns_GitWorkspaces :: "string list"
  ns_Templates :: "string list"
  ns_Kits :: "string list"
  ns_LimitDiskGB :: rat
  ns_AllocDiskGB :: rat
  ns_ActualCPU :: rat
  ns_ActualMem :: rat
  ns_Revoked :: "string list"

definition NodeState_zero :: NodeState where
  "NodeState_zero =
     \<lparr>ns_NodeID = '''', ns_Addr = '''', ns_Cordoned = False, ns_StateVersion = 0, ns_ProtocolVersion = 0,
      ns_SwarmID = '''', ns_SwarmName = '''', ns_NodeName = '''', ns_PubKey = '''', ns_Capabilities = [],
      ns_OwnedSandboxIDs = [], ns_Labels = [], ns_LimitCPU = 0, ns_LimitMemKB = 0, ns_AllocCPU = 0,
      ns_AllocMemKB = 0, ns_Workspaces = [], ns_GitWorkspaces = [], ns_Templates = [], ns_Kits = [],
      ns_LimitDiskGB = 0, ns_AllocDiskGB = 0, ns_ActualCPU = 0, ns_ActualMem = 0, ns_Revoked = []\<rparr>"

text \<open>The meta tier carries only the routing fields; decoding gives a state with the rest zero.\<close>

definition EncodeMeta :: "NodeState \<Rightarrow> string \<times> string \<times> bool \<times> 64 word \<times> 32 word" where
  "EncodeMeta n = (ns_NodeID n, ns_Addr n, ns_Cordoned n, ns_StateVersion n, ns_ProtocolVersion n)"

definition DecodeMeta :: "string \<times> string \<times> bool \<times> 64 word \<times> 32 word \<Rightarrow> NodeState" where
  "DecodeMeta m =
     (case m of (i, a, c, v, p) \<Rightarrow>
        NodeState_zero\<lparr>ns_NodeID := i, ns_Addr := a, ns_Cordoned := c, ns_StateVersion := v,
          ns_ProtocolVersion := p\<rparr>)"

section \<open>Swarm identity\<close>

definition ProtocolVersion :: "32 word" where "ProtocolVersion = 1"

datatype Mode = ModeStandalone | ModePendingJoin | ModeRejoin

record SwarmIdentity =
  si_SwarmID :: string
  si_SwarmName :: string
  si_Mode :: Mode

text \<open>
  \<open>read\<close> is the outcome of reading the file: \<open>Inl None\<close> when it does not exist, \<open>Inl (Some e)\<close> on
  another error, \<open>Inr d\<close> with the decoded id and name (or the decoding error).  \<open>fresh\<close> is the
  random id, \<open>werr\<close> the outcome of the write.  The identity to persist is the second component.
\<close>

definition LoadOrInit ::
  "go_error option + (string \<times> string) res \<Rightarrow> string list \<Rightarrow> string \<Rightarrow> go_error option
    \<Rightarrow> SwarmIdentity res \<times> (string \<times> string) option" where
  "LoadOrInit read seeds fresh werr =
     (case read of
        Inr (Inl e) \<Rightarrow> (Inl e, None)
      | Inr (Inr (i, n)) \<Rightarrow> (Inr \<lparr>si_SwarmID = i, si_SwarmName = n, si_Mode = ModeRejoin\<rparr>, None)
      | Inl (Some e) \<Rightarrow> (Inl e, None)
      | Inl None \<Rightarrow>
          if seeds \<noteq> [] then (Inr \<lparr>si_SwarmID = '''', si_SwarmName = '''', si_Mode = ModePendingJoin\<rparr>, None)
          else (case werr of
                  Some e \<Rightarrow> (Inl e, None)
                | None \<Rightarrow> (Inr \<lparr>si_SwarmID = fresh, si_SwarmName = '''', si_Mode = ModeStandalone\<rparr>,
                          Some (fresh, ''''))))"

definition GuardJoin :: "string \<Rightarrow> string \<Rightarrow> unit res" where
  "GuardJoin localID peerID =
     (if localID = '''' \<or> peerID = '''' \<or> localID = peerID then Inr ()
      else Inl (Errf ''refusing to join: peer swarm id differs from ours under the same cluster secret'' []))"

section \<open>The cluster\<close>

text \<open>
  \<open>cl_db\<close> is the store (\<open>None\<close> for nil), \<open>cl_revoked\<close> the keys of the revoked set, \<open>cl_file\<close> what
  \<^verbatim>\<open>swarm.json\<close> holds, \<open>cl_dead\<close> the calls made to \<^verbatim>\<open>onNodeDead\<close>, \<open>cl_updates\<close> the number of
  re-advertisements requested, \<open>cl_pushpulls\<close> the number of push/pull fan-outs.
\<close>

record 'db Cluster =
  cl_local :: NodeState
  cl_peerStates :: "(string, NodeState) gomap"
  cl_tbl :: Table
  cl_si :: SwarmIdentity
  cl_file :: "(string \<times> string) option"
  cl_db :: "'db option"
  cl_revoked :: "string list"
  cl_dead :: "string list"
  cl_updates :: nat
  cl_pushpulls :: nat
  cl_shutdown :: bool

definition bump :: "'db Cluster \<Rightarrow> 'db Cluster" where
  "bump c = c\<lparr>cl_local := (cl_local c)\<lparr>ns_StateVersion := ns_StateVersion (cl_local c) + 1\<rparr>\<rparr>"

definition readvertise :: "'db Cluster \<Rightarrow> 'db Cluster" where
  "readvertise c = c\<lparr>cl_updates := Suc (cl_updates c)\<rparr>"

definition sortedKeys :: "string list \<Rightarrow> string list" where
  "sortedKeys ks = sort ks"

definition loadRevoked :: "'db Bolt \<Rightarrow> 'db Cluster \<Rightarrow> 'db Cluster" where
  "loadRevoked B c =
     (case cl_db c of
        None \<Rightarrow> c
      | Some db \<Rightarrow>
          (let ks = (case store_ForEach B db ''revoked'' (\<lambda>(k, _). Inr k) of Inl e \<Rightarrow> [] | Inr ks \<Rightarrow> ks);
               c = c\<lparr>cl_revoked := fold List.insert ks (cl_revoked c)\<rparr>
           in if cl_revoked c \<noteq> []
              then c\<lparr>cl_local := (cl_local c)\<lparr>ns_Revoked := sortedKeys (cl_revoked c)\<rparr>\<rparr> else c))"

definition NewCluster ::
  "'db Bolt \<Rightarrow> NodeState \<Rightarrow> Table \<Rightarrow> SwarmIdentity \<Rightarrow> (string \<times> string) option \<Rightarrow> 'db option \<Rightarrow> 'db Cluster" where
  "NewCluster B loc tbl si file db =
     loadRevoked B
       \<lparr>cl_local = loc, cl_peerStates = [], cl_tbl = tbl, cl_si = si, cl_file = file, cl_db = db,
        cl_revoked = [], cl_dead = [], cl_updates = 0, cl_pushpulls = 0, cl_shutdown = False\<rparr>"

definition SetCordoned :: "bool \<Rightarrow> 'db Cluster \<Rightarrow> 'db Cluster" where
  "SetCordoned b c =
     readvertise (bump (c\<lparr>cl_local := (cl_local c)\<lparr>ns_Cordoned := b\<rparr>\<rparr>))"

definition PeerStates :: "'db Cluster \<Rightarrow> NodeState list" where
  "PeerStates c = map snd (cl_peerStates c)"

definition UpdateLocalSandboxIDs :: "string list \<Rightarrow> 'db Cluster \<Rightarrow> 'db Cluster" where
  "UpdateLocalSandboxIDs ids c =
     readvertise (bump (c\<lparr>cl_local := (cl_local c)\<lparr>ns_OwnedSandboxIDs := ids\<rparr>\<rparr>))"

definition UpdateLocalLoad :: "rat \<Rightarrow> rat \<Rightarrow> rat \<Rightarrow> rat \<Rightarrow> rat \<Rightarrow> 'db Cluster \<Rightarrow> 'db Cluster" where
  "UpdateLocalLoad cpu memKB diskGB utilCPU utilMem c =
     readvertise (bump (c\<lparr>cl_local := (cl_local c)\<lparr>ns_AllocCPU := cpu, ns_AllocMemKB := memKB,
        ns_AllocDiskGB := diskGB, ns_ActualCPU := utilCPU, ns_ActualMem := utilMem\<rparr>\<rparr>))"

definition UpdateLocalTemplates :: "string list \<Rightarrow> 'db Cluster \<Rightarrow> 'db Cluster" where
  "UpdateLocalTemplates tmpls c =
     (let sorted = sort tmpls in
      if ns_Templates (cl_local c) = sorted then c
      else readvertise (bump (c\<lparr>cl_local := (cl_local c)\<lparr>ns_Templates := sorted\<rparr>\<rparr>)))"

section \<open>Revocation\<close>

fun add_ids :: "'db Bolt \<Rightarrow> string list \<Rightarrow> 'db Cluster \<Rightarrow> bool \<times> 'db Cluster" where
  "add_ids B [] c = (False, c)"
| "add_ids B (i # ids) c =
     (if i = '''' \<or> i \<in> set (cl_revoked c) then add_ids B ids c
      else let c = c\<lparr>cl_revoked := cl_revoked c @ [i],
                     cl_db := (case cl_db c of
                                 None \<Rightarrow> None
                               | Some db \<Rightarrow> (case store_Put B db ''revoked'' i (Bytes [char_of (1 :: nat)]) of
                                              Inl e \<Rightarrow> Some db | Inr db' \<Rightarrow> Some db'))\<rparr>
           in (True, snd (add_ids B ids c)))"

definition addRevokedLocked :: "'db Bolt \<Rightarrow> string list \<Rightarrow> 'db Cluster \<Rightarrow> bool \<times> 'db Cluster" where
  "addRevokedLocked B ids c =
     (let (grew, c) = add_ids B ids c in
      (grew, if grew then bump (c\<lparr>cl_local := (cl_local c)\<lparr>ns_Revoked := sortedKeys (cl_revoked c)\<rparr>\<rparr>) else c))"

definition fan_out :: "bool \<Rightarrow> 'db Cluster \<Rightarrow> 'db Cluster" where
  "fan_out grew c = (if grew then readvertise (c\<lparr>cl_pushpulls := Suc (cl_pushpulls c)\<rparr>) else c)"

definition Revoke :: "'db Bolt \<Rightarrow> string \<Rightarrow> 'db Cluster \<Rightarrow> unit res \<times> 'db Cluster" where
  "Revoke B nodeID c =
     (if nodeID = '''' then (Inl (Errf ''revoke: empty node id'' []), c)
      else if nodeID = ns_NodeID (cl_local c) then (Inl (Errf ''revoke: cannot revoke self'' []), c)
      else let (grew, c) = addRevokedLocked B [nodeID] c in (Inr (), fan_out grew c))"

definition IsRevoked :: "'db Cluster \<Rightarrow> string \<Rightarrow> bool" where
  "IsRevoked c nodeID \<longleftrightarrow> nodeID \<in> set (cl_revoked c)"

definition RevokedList :: "'db Cluster \<Rightarrow> string list" where
  "RevokedList c = sortedKeys (cl_revoked c)"

section \<open>Gossip callbacks\<close>

text \<open>\<^verbatim>\<open>Adopt\<close> sets the identity in memory before it writes the file.\<close>

definition Adopt :: "go_error option \<Rightarrow> string \<Rightarrow> string \<Rightarrow> 'db Cluster \<Rightarrow> unit res \<times> 'db Cluster" where
  "Adopt werr swarmID swarmName c =
     (let c = c\<lparr>cl_si := (cl_si c)\<lparr>si_SwarmID := swarmID, si_SwarmName := swarmName\<rparr>\<rparr> in
      case werr of
        Some e \<Rightarrow> (Inl e, c)
      | None \<Rightarrow> (Inr (), c\<lparr>cl_file := Some (swarmID, swarmName)\<rparr>))"

definition adopt_if_pending :: "go_error option \<Rightarrow> bool \<Rightarrow> NodeState \<Rightarrow> 'db Cluster \<Rightarrow> 'db Cluster" where
  "adopt_if_pending werr isPending remote c =
     (if isPending \<and> ns_SwarmID remote \<noteq> '''' then
        (case Adopt werr (ns_SwarmID remote) (ns_SwarmName remote) c of
           (Inl e, c) \<Rightarrow> c
         | (Inr _, c) \<Rightarrow> c\<lparr>cl_local := (cl_local c)\<lparr>ns_SwarmID := ns_SwarmID remote\<rparr>,
                            cl_si := (cl_si c)\<lparr>si_Mode := ModeRejoin\<rparr>\<rparr>)
      else c)"

definition merge_accepted :: "'db Bolt \<Rightarrow> go_error option \<Rightarrow> NodeState \<Rightarrow> 'db Cluster \<Rightarrow> 'db Cluster" where
  "merge_accepted B werr remote c =
     (let c = c\<lparr>cl_peerStates := AList.update (ns_NodeID remote) remote (cl_peerStates c)\<rparr>;
          isPending = (si_Mode (cl_si c) = ModePendingJoin);
          (grew, c) = addRevokedLocked B (ns_Revoked remote) c;
          c = fan_out grew c;
          c = c\<lparr>cl_tbl := Table_Upsert (ns_NodeID remote) (ns_Addr remote) (ns_PubKey remote) (cl_tbl c)\<rparr>
      in adopt_if_pending werr isPending remote c)"

definition MergeRemoteState ::
  "'db Bolt \<Rightarrow> go_error option \<Rightarrow> NodeState res \<Rightarrow> 'db Cluster \<Rightarrow> 'db Cluster" where
  "MergeRemoteState B werr buf c =
     (case buf of
        Inl e \<Rightarrow> c
      | Inr remote \<Rightarrow>
          if ns_ProtocolVersion remote \<noteq> ProtocolVersion then c
          else (case GuardJoin (si_SwarmID (cl_si c)) (ns_SwarmID remote) of
                  Inl e \<Rightarrow> c
                | Inr _ \<Rightarrow> merge_accepted B werr remote c))"

text \<open>\<^verbatim>\<open>NotifyJoin\<close> and \<^verbatim>\<open>NotifyUpdate\<close> act alike: they record the address of the meta tier.\<close>

definition NotifyJoin :: "NodeState res \<Rightarrow> 'db Cluster \<Rightarrow> 'db Cluster" where
  "NotifyJoin meta c =
     (case meta of
        Inl e \<Rightarrow> c
      | Inr ns \<Rightarrow>
          if ns_NodeID ns = '''' \<or> ns_Addr ns = '''' then c
          else c\<lparr>cl_tbl := Table_Upsert (ns_NodeID ns) (ns_Addr ns) (ns_PubKey ns) (cl_tbl c)\<rparr>)"

definition NotifyUpdate :: "NodeState res \<Rightarrow> 'db Cluster \<Rightarrow> 'db Cluster" where
  "NotifyUpdate meta c =
     (case meta of
        Inl e \<Rightarrow> c
      | Inr ns \<Rightarrow>
          if ns_NodeID ns = '''' \<or> ns_Addr ns = '''' then c
          else c\<lparr>cl_tbl := Table_Upsert (ns_NodeID ns) (ns_Addr ns) (ns_PubKey ns) (cl_tbl c)\<rparr>)"

definition NotifyLeave :: "string \<Rightarrow> 'db Cluster \<Rightarrow> 'db Cluster" where
  "NotifyLeave nodeID c =
     c\<lparr>cl_tbl := Table_Remove nodeID (cl_tbl c),
       cl_peerStates := AList.delete nodeID (cl_peerStates c), cl_dead := cl_dead c @ [nodeID]\<rparr>"

text \<open>Leave and Shutdown are idempotent: the flag says whether the transport is still up.\<close>

definition Cluster_Shutdown :: "'db Cluster \<Rightarrow> bool \<times> 'db Cluster" where
  "Cluster_Shutdown c = (if cl_shutdown c then (False, c) else (True, c\<lparr>cl_shutdown := True\<rparr>))"

definition Cluster_Leave :: "'db Cluster \<Rightarrow> bool" where
  "Cluster_Leave c = (\<not> cl_shutdown c)"

section \<open>Grow-only merging\<close>

text \<open>
  The contract of a replica that merges messages into a set: what it holds afterwards is what it
  held and what the message carries.  Then the order of messages and their repetition do not matter.
\<close>

locale grow_only =
  fixes view :: "'s \<Rightarrow> 'v set" and merge :: "'m \<Rightarrow> 's \<Rightarrow> 's" and carry :: "'m \<Rightarrow> 'v set"
  assumes view_merge: "view (merge m s) = view s \<union> carry m"
begin

lemma view_fold: "view (fold merge ms s) = view s \<union> \<Union> (carry ` set ms)"
  by (induction ms arbitrary: s) (auto simp: view_merge)

lemma order_independent: "set ms = set ms' \<Longrightarrow> view (fold merge ms s) = view (fold merge ms' s)"
  by (simp add: view_fold)

lemma idempotent: "view (merge m (merge m s)) = view (merge m s)"
  by (auto simp: view_merge)

lemma monotone: "view s \<subseteq> view (fold merge ms s)"
  by (simp add: view_fold)

end

definition revoked_set :: "'db Cluster \<Rightarrow> string set" where
  "revoked_set c = set (cl_revoked c)"

text \<open>The revoked set has no duplicates and no empty id, and is what the node advertises, sorted.\<close>

definition cluster_inv :: "'db Cluster \<Rightarrow> bool" where
  "cluster_inv c \<longleftrightarrow> distinct (cl_revoked c) \<and> '''' \<notin> set (cl_revoked c)
     \<and> ns_Revoked (cl_local c) = sortedKeys (cl_revoked c)"

lemma add_ids_frame:
  "cl_local (snd (add_ids B ids c)) = cl_local c \<and> cl_si (snd (add_ids B ids c)) = cl_si c
    \<and> cl_tbl (snd (add_ids B ids c)) = cl_tbl c \<and> cl_peerStates (snd (add_ids B ids c)) = cl_peerStates c
    \<and> cl_file (snd (add_ids B ids c)) = cl_file c"
  by (induction ids arbitrary: c) (auto simp: Let_def)

lemma add_ids_set: "set (cl_revoked (snd (add_ids B ids c))) = set (cl_revoked c) \<union> (set ids - {''''})"
  by (induction ids arbitrary: c) (auto simp: Let_def)

lemma add_ids_distinct:
  "distinct (cl_revoked c) \<Longrightarrow> distinct (cl_revoked (snd (add_ids B ids c)))"
  by (induction ids arbitrary: c) (auto simp: Let_def)

lemma add_ids_noop: "\<not> fst (add_ids B ids c) \<Longrightarrow> snd (add_ids B ids c) = c"
  by (induction ids arbitrary: c) (auto simp: Let_def split: if_splits)

lemma addRevoked_revoked: "cl_revoked (snd (addRevokedLocked B ids c)) = cl_revoked (snd (add_ids B ids c))"
  by (simp add: addRevokedLocked_def bump_def split: prod.splits)

lemma addRevoked_frame:
  "cl_si (snd (addRevokedLocked B ids c)) = cl_si c \<and> cl_tbl (snd (addRevokedLocked B ids c)) = cl_tbl c
    \<and> cl_peerStates (snd (addRevokedLocked B ids c)) = cl_peerStates c
    \<and> cl_file (snd (addRevokedLocked B ids c)) = cl_file c
    \<and> ns_NodeID (cl_local (snd (addRevokedLocked B ids c))) = ns_NodeID (cl_local c)
    \<and> ns_SwarmID (cl_local (snd (addRevokedLocked B ids c))) = ns_SwarmID (cl_local c)
    \<and> ns_ProtocolVersion (cl_local (snd (addRevokedLocked B ids c))) = ns_ProtocolVersion (cl_local c)"
  using add_ids_frame[of B ids c] by (simp add: addRevokedLocked_def bump_def case_prod_unfold Let_def)

lemma addRevoked_inv: "cluster_inv c \<Longrightarrow> cluster_inv (snd (addRevokedLocked B ids c))"
proof -
  assume i: "cluster_inv c"
  obtain g d where a: "add_ids B ids c = (g, d)" by fastforce
  have d: "distinct (cl_revoked d)" "'''' \<notin> set (cl_revoked d)"
    using i add_ids_distinct[of c B ids] add_ids_set[of B ids c] a by (auto simp: cluster_inv_def)
  show ?thesis
  proof (cases g)
    case True
    with a d show ?thesis by (simp add: addRevokedLocked_def cluster_inv_def bump_def)
  next
    case False
    with a add_ids_noop[of B ids c] i show ?thesis by (simp add: addRevokedLocked_def)
  qed
qed

lemma readvertise_sel [simp]:
  "cl_revoked (readvertise c) = cl_revoked c" "cl_local (readvertise c) = cl_local c"
  "cl_si (readvertise c) = cl_si c" "cl_tbl (readvertise c) = cl_tbl c" "cl_peerStates (readvertise c) = cl_peerStates c"
  "cl_db (readvertise c) = cl_db c"
  by (simp_all add: readvertise_def)

lemma fan_out_sel [simp]:
  "cl_revoked (fan_out g c) = cl_revoked c" "cl_local (fan_out g c) = cl_local c"
  "cl_si (fan_out g c) = cl_si c" "cl_tbl (fan_out g c) = cl_tbl c" "cl_peerStates (fan_out g c) = cl_peerStates c"
  "cl_db (fan_out g c) = cl_db c"
  by (auto simp: fan_out_def readvertise_def)

lemma adopt_sel [simp]:
  "cl_revoked (adopt_if_pending w p r c) = cl_revoked c"
  "ns_Revoked (cl_local (adopt_if_pending w p r c)) = ns_Revoked (cl_local c)"
  "cl_db (adopt_if_pending w p r c) = cl_db c"
  "cl_tbl (adopt_if_pending w p r c) = cl_tbl c" "cl_peerStates (adopt_if_pending w p r c) = cl_peerStates c"
  by (auto simp: adopt_if_pending_def Adopt_def Let_def split: option.splits)

lemma merge_accepted_eq:
  fixes c :: "'db Cluster" and r :: NodeState
  defines "c1 \<equiv> c\<lparr>cl_peerStates := AList.update (ns_NodeID r) r (cl_peerStates c)\<rparr>"
  shows "merge_accepted B w r c =
    adopt_if_pending w (si_Mode (cl_si c) = ModePendingJoin) r
      ((fan_out (fst (addRevokedLocked B (ns_Revoked r) c1)) (snd (addRevokedLocked B (ns_Revoked r) c1)))
        \<lparr>cl_tbl := Table_Upsert (ns_NodeID r) (ns_Addr r) (ns_PubKey r) (cl_tbl c)\<rparr>)"
  using addRevoked_frame[of B "ns_Revoked r" c1]
  by (simp add: merge_accepted_def c1_def Let_def case_prod_unfold)

interpretation revocations: grow_only revoked_set "merge_accepted B w" "\<lambda>r. set (ns_Revoked r) - {''''}" for B w
proof
  fix r and c :: "'a Cluster"
  show "revoked_set (merge_accepted B w r c) = revoked_set c \<union> (set (ns_Revoked r) - {''''})"
    by (simp add: revoked_set_def merge_accepted_eq addRevoked_revoked add_ids_set)
qed

lemma merge_accepted_inv:
  assumes "cluster_inv c"
  shows "cluster_inv (merge_accepted B w r c)"
proof -
  let ?c1 = "c\<lparr>cl_peerStates := AList.update (ns_NodeID r) r (cl_peerStates c)\<rparr>"
  have "cluster_inv ?c1" using assms by (simp add: cluster_inv_def)
  from addRevoked_inv[OF this, of B "ns_Revoked r"] show ?thesis
    by (simp add: merge_accepted_eq cluster_inv_def)
qed

section \<open>Everything a cluster does\<close>

datatype cl_op =
    ClSetCordoned bool
  | ClSandboxIDs "string list"
  | ClLoad rat rat rat rat rat
  | ClTemplates "string list"
  | ClRevoke string
  | ClMerge "go_error option" "NodeState res"
  | ClJoin "NodeState res"
  | ClUpdate "NodeState res"
  | ClLeave string

fun cl_exec :: "'db Bolt \<Rightarrow> cl_op \<Rightarrow> 'db Cluster \<Rightarrow> 'db Cluster" where
  "cl_exec B (ClSetCordoned b) c = SetCordoned b c"
| "cl_exec B (ClSandboxIDs ids) c = UpdateLocalSandboxIDs ids c"
| "cl_exec B (ClLoad a b d u v) c = UpdateLocalLoad a b d u v c"
| "cl_exec B (ClTemplates ts) c = UpdateLocalTemplates ts c"
| "cl_exec B (ClRevoke n) c = snd (Revoke B n c)"
| "cl_exec B (ClMerge w r) c = MergeRemoteState B w r c"
| "cl_exec B (ClJoin r) c = NotifyJoin r c"
| "cl_exec B (ClUpdate r) c = NotifyUpdate r c"
| "cl_exec B (ClLeave n) c = NotifyLeave n c"

lemma Revoke_ok:
  "cluster_inv c \<Longrightarrow> cluster_inv (snd (Revoke B n c)) \<and> revoked_set c \<subseteq> revoked_set (snd (Revoke B n c))"
  using addRevoked_inv[of c B "[n]"] add_ids_set[of B "[n]" c] addRevoked_revoked[of B "[n]" c]
  by (auto simp: Revoke_def case_prod_unfold Let_def revoked_set_def cluster_inv_def)

lemma Merge_ok:
  "cluster_inv c \<Longrightarrow> cluster_inv (MergeRemoteState B w r c) \<and> revoked_set c \<subseteq> revoked_set (MergeRemoteState B w r c)"
  using merge_accepted_inv revocations.view_merge by (fastforce simp: MergeRemoteState_def split: sum.splits)

lemma cl_exec_ok: "cluster_inv c \<Longrightarrow> cluster_inv (cl_exec B op c) \<and> revoked_set c \<subseteq> revoked_set (cl_exec B op c)"
proof (cases op)
  case (ClRevoke n)
  assume "cluster_inv c"
  with Revoke_ok ClRevoke show ?thesis by simp
next
  case (ClMerge w r)
  assume "cluster_inv c"
  with Merge_ok ClMerge show ?thesis by simp
qed (auto simp: SetCordoned_def UpdateLocalSandboxIDs_def UpdateLocalLoad_def UpdateLocalTemplates_def
      NotifyJoin_def NotifyUpdate_def NotifyLeave_def bump_def readvertise_def cluster_inv_def revoked_set_def
      Let_def split: sum.splits)

lemma cl_run_ok:
  "cluster_inv c \<Longrightarrow> cluster_inv (fold (cl_exec B) ops c) \<and> revoked_set c \<subseteq> revoked_set (fold (cl_exec B) ops c)"
proof (induction ops arbitrary: c)
  case (Cons op ops)
  from cl_exec_ok[OF Cons.prems, of B op] Cons.IH[of "cl_exec B op c"] show ?case by auto
qed simp

lemma fold_List_insert_set: "set (fold List.insert ks xs) = set xs \<union> set ks"
  by (induction ks arbitrary: xs) auto

lemma RevokedList_set: "cluster_inv a \<Longrightarrow> cluster_inv b \<Longrightarrow> revoked_set a = revoked_set b \<Longrightarrow> RevokedList a = RevokedList b"
  unfolding RevokedList_def sortedKeys_def cluster_inv_def revoked_set_def
  by (metis sorted_list_of_set_sort_remdups distinct_remdups_id)

lemma loadRevoked_set:
  assumes "bolt_laws B" "b_has B db ''revoked''"
  shows "revoked_set (NewCluster B loc tbl si file (Some db)) = {k. b_get B db ''revoked'' k \<noteq> None}"
proof -
  have l: "bolt_db B" using assms(1) by (rule bolt_db.intro)
  have "decode_all (\<lambda>(k, _). Inr k) kvs = Inr (map fst kvs)" for kvs :: "(string \<times> blob) list"
    by (induction kvs) auto
  then have "store_ForEach B db ''revoked'' (\<lambda>(k, _). Inr k) = Inr (map fst (b_items B db ''revoked''))"
    using assms(2) by (simp add: store_ForEach_def)
  then have "cl_revoked (NewCluster B loc tbl si file (Some db))
      = fold List.insert (map fst (b_items B db ''revoked'')) []"
    by (simp add: NewCluster_def loadRevoked_def Let_def)
  then have "revoked_set (NewCluster B loc tbl si file (Some db)) = set (map fst (b_items B db ''revoked''))"
    by (simp add: revoked_set_def fold_List_insert_set)
  moreover have "set (map fst (b_items B db ''revoked'')) = {k. b_get B db ''revoked'' k \<noteq> None}"
    using bolt_db.items_mem[OF l] by (force simp: image_iff)
  ultimately show ?thesis by simp
qed

lemma adopt_pending:
  "ns_SwarmID r \<noteq> '''' \<Longrightarrow>
     cl_si (adopt_if_pending None True r c)
       = \<lparr>si_SwarmID = ns_SwarmID r, si_SwarmName = ns_SwarmName r, si_Mode = ModeRejoin\<rparr>
     \<and> cl_file (adopt_if_pending None True r c) = Some (ns_SwarmID r, ns_SwarmName r)"
  by (simp add: adopt_if_pending_def Adopt_def Let_def)

lemma merge_accepted_routes:
  "map_of (cl_peerStates (merge_accepted B w r c)) (ns_NodeID r) = Some r
   \<and> Table_Addr (cl_tbl (merge_accepted B w r c)) (ns_NodeID r) = Some (ns_Addr r)"
  using addRevoked_frame[of B "ns_Revoked r" "c\<lparr>cl_peerStates := AList.update (ns_NodeID r) r (cl_peerStates c)\<rparr>"]
  by (simp add: merge_accepted_eq Table_Addr_Upsert update_conv')

lemma merge_accepted_adopts:
  assumes "si_Mode (cl_si c) = ModePendingJoin" "ns_SwarmID r \<noteq> ''''"
  shows "cl_si (merge_accepted B None r c)
       = \<lparr>si_SwarmID = ns_SwarmID r, si_SwarmName = ns_SwarmName r, si_Mode = ModeRejoin\<rparr>
     \<and> cl_file (merge_accepted B None r c) = Some (ns_SwarmID r, ns_SwarmName r)"
  using adopt_pending[OF assms(2)] assms(1) by (simp add: merge_accepted_eq)

section \<open>Properties\<close>

text \<open>
  C30: revocation is permanent.  Whatever the node does and whatever its peers gossip to it, in any
  order, a revoked node stays revoked, and the list the node advertises is exactly its revoked set,
  sorted.
\<close>

theorem revocation_permanent:
  assumes "cluster_inv c" and "IsRevoked c n"
  shows "IsRevoked (fold (cl_exec B) ops c) n
    \<and> ns_Revoked (cl_local (fold (cl_exec B) ops c)) = RevokedList (fold (cl_exec B) ops c)"
  using cl_run_ok[OF assms(1), of B ops] assms(2)
  by (auto simp: IsRevoked_def revoked_set_def cluster_inv_def RevokedList_def)

definition example_cluster :: "string \<Rightarrow> mem_db Cluster" where
  "example_cluster n =
     NewCluster mem_bolt (NodeState_zero\<lparr>ns_NodeID := n, ns_ProtocolVersion := 1\<rparr>) (NewTable n)
       \<lparr>si_SwarmID = ''s'', si_SwarmName = '''', si_Mode = ModeRejoin\<rparr> None (Some mem_open)"

lemma example_revoked: "cl_revoked (snd (Revoke mem_bolt ''bad'' (example_cluster ''n1''))) = [''bad'']"
  by code_simp

lemma example_inv: "cluster_inv (snd (Revoke mem_bolt ''bad'' (example_cluster ''n1'')))"
proof -
  have "cl_revoked (example_cluster ''n1'') = []" "ns_Revoked (cl_local (example_cluster ''n1'')) = []" by code_simp+
  then have "cluster_inv (example_cluster ''n1'')" by (simp add: cluster_inv_def sortedKeys_def)
  then show ?thesis using Revoke_ok by blast
qed

theorem revocation_permanent_witness:
  "IsRevoked (fold (cl_exec mem_bolt) [ClLeave ''bad'', ClSetCordoned True]
     (snd (Revoke mem_bolt ''bad'' (example_cluster ''n1'')))) ''bad''"
proof -
  have "IsRevoked (snd (Revoke mem_bolt ''bad'' (example_cluster ''n1''))) ''bad''"
    by (simp add: IsRevoked_def example_revoked)
  from revocation_permanent[OF example_inv this] show ?thesis by blast
qed

text \<open>
  Revocations converge.  When two nodes of the same swarm and protocol exchange their states,
  both end with the union of their denylists, so they advertise the same list.
\<close>

theorem revocation_converges:
  assumes "cluster_inv a" and "cluster_inv b"
    and "ns_ProtocolVersion (cl_local a) = ProtocolVersion" and "ns_ProtocolVersion (cl_local b) = ProtocolVersion"
    and "GuardJoin (si_SwarmID (cl_si a)) (ns_SwarmID (cl_local b)) = Inr ()"
    and "GuardJoin (si_SwarmID (cl_si b)) (ns_SwarmID (cl_local a)) = Inr ()"
  shows "RevokedList (MergeRemoteState B w (Inr (cl_local b)) a) = RevokedList (MergeRemoteState B' w' (Inr (cl_local a)) b)
    \<and> revoked_set (MergeRemoteState B w (Inr (cl_local b)) a) = revoked_set a \<union> revoked_set b"
proof -
  have adv: "set (ns_Revoked (cl_local x)) - {''''} = revoked_set x" if "cluster_inv x" for x :: "'c Cluster"
    using that by (auto simp: cluster_inv_def revoked_set_def sortedKeys_def)
  have m: "MergeRemoteState B w (Inr (cl_local b)) a = merge_accepted B w (cl_local b) a"
    "MergeRemoteState B' w' (Inr (cl_local a)) b = merge_accepted B' w' (cl_local a) b"
    using assms(3-6) by (simp_all add: MergeRemoteState_def)
  have "revoked_set (merge_accepted B w (cl_local b) a) = revoked_set a \<union> revoked_set b"
    "revoked_set (merge_accepted B' w' (cl_local a) b) = revoked_set a \<union> revoked_set b"
    using adv[OF assms(1)] adv[OF assms(2)] by (auto simp: revocations.view_merge)
  with m show ?thesis
    using RevokedList_set[OF merge_accepted_inv[OF assms(1)] merge_accepted_inv[OF assms(2)]] by simp
qed

theorem revocation_converges_witness:
  "revoked_set (MergeRemoteState mem_bolt None (Inr (cl_local (example_cluster ''n2'')))
     (snd (Revoke mem_bolt ''bad'' (example_cluster ''n1'')))) = {''bad''}"
proof -
  let ?a = "snd (Revoke mem_bolt ''bad'' (example_cluster ''n1''))" and ?b = "example_cluster ''n2''"
  have f: "cl_revoked ?b = []" "ns_Revoked (cl_local ?b) = []" "ns_ProtocolVersion (cl_local ?b) = 1"
    "ns_ProtocolVersion (cl_local ?a) = 1" "ns_SwarmID (cl_local ?b) = ''''" "ns_SwarmID (cl_local ?a) = ''''"
    by code_simp+
  have "cluster_inv ?b" using f by (simp add: cluster_inv_def sortedKeys_def)
  from revocation_converges[OF example_inv this, of mem_bolt None mem_bolt None] f example_revoked show ?thesis
    by (simp add: ProtocolVersion_def GuardJoin_def revoked_set_def)
qed

text \<open>
  Joining is gated.  A peer whose state does not decode, that speaks another protocol version,
  or that presents a different non-empty swarm id changes nothing.  An accepted peer is recorded and
  routed, and a node still pending a join takes over the peer's swarm id, persists it and leaves the
  pending mode.
\<close>

theorem MergeRemoteState_gated:
  "MergeRemoteState B w (Inl e) c = c
   \<and> (ns_ProtocolVersion r \<noteq> ProtocolVersion \<longrightarrow> MergeRemoteState B w (Inr r) c = c)
   \<and> (ns_SwarmID r \<noteq> '''' \<and> si_SwarmID (cl_si c) \<noteq> '''' \<and> ns_SwarmID r \<noteq> si_SwarmID (cl_si c) \<longrightarrow>
        MergeRemoteState B w (Inr r) c = c)
   \<and> (ns_ProtocolVersion r = ProtocolVersion \<and> GuardJoin (si_SwarmID (cl_si c)) (ns_SwarmID r) = Inr () \<longrightarrow>
        map_of (cl_peerStates (MergeRemoteState B w (Inr r) c)) (ns_NodeID r) = Some r
      \<and> Table_Addr (cl_tbl (MergeRemoteState B w (Inr r) c)) (ns_NodeID r) = Some (ns_Addr r))
   \<and> (ns_ProtocolVersion r = ProtocolVersion \<and> si_Mode (cl_si c) = ModePendingJoin \<and> si_SwarmID (cl_si c) = ''''
        \<and> ns_SwarmID r \<noteq> '''' \<and> w = None \<longrightarrow>
        si_SwarmID (cl_si (MergeRemoteState B w (Inr r) c)) = ns_SwarmID r
      \<and> si_Mode (cl_si (MergeRemoteState B w (Inr r) c)) = ModeRejoin
      \<and> cl_file (MergeRemoteState B w (Inr r) c) = Some (ns_SwarmID r, ns_SwarmName r))"
  using merge_accepted_routes[of B w r c] merge_accepted_adopts[of c r B]
  by (auto simp: MergeRemoteState_def GuardJoin_def)

theorem MergeRemoteState_gated_witness:
  "MergeRemoteState mem_bolt None (Inr (NodeState_zero\<lparr>ns_ProtocolVersion := 2\<rparr>)) (example_cluster ''n1'')
   = example_cluster ''n1''"
  using MergeRemoteState_gated[of mem_bolt None ErrNotFound "example_cluster ''n1''" "NodeState_zero\<lparr>ns_ProtocolVersion := 2\<rparr>"]
  by (simp add: ProtocolVersion_def)

text \<open>
  A revocation survives a restart.  Once the store has accepted a revoked id, a cluster started
  on that store, whatever its other settings, has the id revoked.
\<close>

theorem revocation_survives_restart:
  assumes "bolt_laws B" and "cl_db c = Some db" and "store_Put B db ''revoked'' n (Bytes [char_of (1 :: nat)]) = Inr db'"
    and "\<not> IsRevoked c n" and "Revoke B n c = (Inr (), c')"
  shows "IsRevoked (NewCluster B loc tbl si file (cl_db c')) n"
proof -
  have n: "n \<noteq> ''''" using assms(5) by (auto simp: Revoke_def)
  have db: "cl_db c' = Some db'"
    using assms n
    by (auto simp: Revoke_def addRevokedLocked_def case_prod_unfold Let_def IsRevoked_def bump_def split: if_splits)
  have h: "b_has B db ''revoked''" and p: "b_put B db ''revoked'' n (Bytes [char_of (1 :: nat)]) = Inr db'"
    using assms(3) by (auto simp: store_Put_def split: if_splits)
  note D = bolt_db.put_D[OF bolt_db.intro[OF assms(1)] p]
  have "n \<in> {k. b_get B db' ''revoked'' k \<noteq> None}" using D by simp
  then show ?thesis
    using loadRevoked_set[OF assms(1), where db = db' and loc = loc and tbl = tbl and si = si] D h by (simp add: db IsRevoked_def revoked_set_def)
qed

theorem revocation_survives_restart_witness:
  "IsRevoked (NewCluster mem_bolt NodeState_zero (NewTable ''n1'')
      \<lparr>si_SwarmID = ''s'', si_SwarmName = '''', si_Mode = ModeRejoin\<rparr> None
      (cl_db (snd (Revoke mem_bolt ''bad'' (example_cluster ''n1''))))) ''bad''"
proof -
  have f: "cl_db (example_cluster ''n1'') = Some mem_open" "cl_revoked (example_cluster ''n1'') = []"
    "fst (Revoke mem_bolt ''bad'' (example_cluster ''n1'')) = Inr ()" by code_simp+
  have "case store_Put mem_bolt mem_open ''revoked'' ''bad'' (Bytes [char_of (1 :: nat)]) of Inl _ \<Rightarrow> False | Inr _ \<Rightarrow> True"
    by code_simp
  then obtain db' where p: "store_Put mem_bolt mem_open ''revoked'' ''bad'' (Bytes [char_of (1 :: nat)]) = Inr db'"
    by (auto split: sum.splits)
  have "Revoke mem_bolt ''bad'' (example_cluster ''n1'') = (Inr (), snd (Revoke mem_bolt ''bad'' (example_cluster ''n1'')))"
    using f(3) by (metis prod.collapse)
  from revocation_survives_restart[OF mem_bolt_laws f(1) p _ this] f(2) show ?thesis by (simp add: IsRevoked_def)
qed

text \<open>
  How a cordon reaches a peer.  The update of the meta tier carries the flag, and the peer that
  receives it leaves the states that placement reads as they were; only the next push/pull exchange,
  when it passes the gates, brings the flag in.
\<close>

theorem cordon_reaches_peers_by_push_pull_only:
  fixes p c :: "'db Cluster"
  assumes "ns_ProtocolVersion (cl_local p) = ProtocolVersion"
    and "GuardJoin (si_SwarmID (cl_si c)) (ns_SwarmID (cl_local p)) = Inr ()"
  shows "ns_Cordoned (DecodeMeta (EncodeMeta (cl_local (SetCordoned b p)))) = b
    \<and> PeerStates (NotifyUpdate (Inr (DecodeMeta (EncodeMeta (cl_local (SetCordoned b p))))) c) = PeerStates c
    \<and> (\<exists>s. map_of (cl_peerStates (MergeRemoteState B w (Inr (cl_local (SetCordoned b p))) c))
           (ns_NodeID (cl_local p)) = Some s \<and> ns_Cordoned s = b)"
  using assms merge_accepted_routes[of B w "cl_local (SetCordoned b p)" c]
  by (simp add: MergeRemoteState_def NotifyUpdate_def PeerStates_def SetCordoned_def bump_def
      EncodeMeta_def DecodeMeta_def)

theorem cordon_reaches_peers_by_push_pull_only_witness:
  "PeerStates (NotifyUpdate (Inr (DecodeMeta (EncodeMeta (cl_local (SetCordoned True (example_cluster ''n2''))))))
     (example_cluster ''n1'')) = PeerStates (example_cluster ''n1'')"
proof -
  have f: "ns_ProtocolVersion (cl_local (example_cluster ''n2'')) = 1" "ns_SwarmID (cl_local (example_cluster ''n2'')) = ''''"
    by code_simp+
  from cordon_reaches_peers_by_push_pull_only[of "example_cluster ''n2''" "example_cluster ''n1''"] f show ?thesis
    by (simp add: ProtocolVersion_def GuardJoin_def)
qed

end
