(* ===== verification/NodeService.thy ===== *)
theory NodeService
  imports AuditLog Membership
begin

text \<open>
  The node service (\<^verbatim>\<open>internal/apiserver/nodeservice.go\<close>) and the persisted operator flags
  (\<^verbatim>\<open>internal/node/flags.go\<close>).  The service's state is a record: the node's world, the cluster when
  there is one (it is the \<^verbatim>\<open>Cordoner\<close> and the \<^verbatim>\<open>Revoker\<close>), the two flags, and which optional
  collaborators are wired.  The cluster and the rest of the node share one store, so an operation of
  the cluster runs on the world's database and hands it back.  The goroutine that a drain starts is
  two steps: starting it records its actor, \<open>sweep_done\<close> is its end; what it does to the sandboxes is
  \<open>DrainAll\<close> of the sandbox service.
\<close>

record ('db, 'be) NodeService =
  sv_nodeID :: string
  sv_nodeName :: string
  sv_version :: string
  sv_world :: "('db, 'be) World"
  sv_cluster :: "'db Cluster option"
  sv_draining :: bool
  sv_cordoned :: bool
  sv_sweeping :: bool
  sv_sweeps :: "string list"
  sv_finished :: nat
  sv_persistFlags :: bool
  sv_drainer :: bool
  sv_templateLister :: bool
  sv_removeTemplate :: bool
  sv_audit :: bool

record NodeInfo =
  ni_NodeId :: string
  ni_NodeName :: string
  ni_Version :: string
  ni_Role :: string
  ni_Cordoned :: bool
  ni_Draining :: bool

section \<open>Persisted flags\<close>

definition loadNodeFlags :: "'db Bolt \<Rightarrow> 'db \<Rightarrow> nodeFlags" where
  "loadNodeFlags B db =
     (let none = \<lparr>nf_Cordoned = False, nf_Draining = False\<rparr> in
      case store_Get B db ''node'' ''flags'' of
        Inl e \<Rightarrow> none
      | Inr None \<Rightarrow> none
      | Inr (Some raw) \<Rightarrow> (case unmarshal_nodeFlags raw of Inl e \<Rightarrow> none | Inr f \<Rightarrow> f))"

definition saveNodeFlags :: "'db Bolt \<Rightarrow> nodeFlags \<Rightarrow> 'db \<Rightarrow> 'db" where
  "saveNodeFlags B f db =
     (case store_Put B db ''node'' ''flags'' (JFlags f) of Inl e \<Rightarrow> db | Inr db' \<Rightarrow> db')"

section \<open>Handlers\<close>

definition NewNodeService ::
  "string \<Rightarrow> string \<Rightarrow> string \<Rightarrow> ('db, 'be) World \<Rightarrow> ('db, 'be) NodeService" where
  "NewNodeService nodeID nodeName version w =
     \<lparr>sv_nodeID = nodeID, sv_nodeName = nodeName, sv_version = version, sv_world = w, sv_cluster = None,
      sv_draining = False, sv_cordoned = False, sv_sweeping = False, sv_sweeps = [], sv_finished = 0,
      sv_persistFlags = False, sv_drainer = False, sv_templateLister = False, sv_removeTemplate = False,
      sv_audit = False\<rparr>"

definition saveFlags :: "('db, 'be) Env \<Rightarrow> ('db, 'be) NodeService \<Rightarrow> ('db, 'be) NodeService" where
  "saveFlags E s =
     (if sv_persistFlags s then
        s\<lparr>sv_world := (sv_world s)\<lparr>w_db := saveNodeFlags (en_bolt E)
            \<lparr>nf_Cordoned = sv_cordoned s, nf_Draining = sv_draining s\<rparr> (w_db (sv_world s))\<rparr>\<rparr>
      else s)"

definition mirror_cordon :: "bool \<Rightarrow> ('db, 'be) NodeService \<Rightarrow> ('db, 'be) NodeService" where
  "mirror_cordon b s = s\<lparr>sv_cluster := map_option (SetCordoned b) (sv_cluster s)\<rparr>"

definition node_info :: "('db, 'be) NodeService \<Rightarrow> NodeInfo" where
  "node_info s =
     \<lparr>ni_NodeId = sv_nodeID s, ni_NodeName = sv_nodeName s, ni_Version = sv_version s, ni_Role = '''',
      ni_Cordoned = sv_cordoned s, ni_Draining = sv_draining s\<rparr>"

definition GetNodeInfo :: "string \<Rightarrow> ('db, 'be) NodeService \<Rightarrow> NodeInfo" where
  "GetNodeInfo role s =
     \<lparr>ni_NodeId = sv_nodeID s, ni_NodeName = sv_nodeName s, ni_Version = sv_version s, ni_Role = role,
      ni_Cordoned = False, ni_Draining = False\<rparr>"

definition Cordon :: "('db, 'be) Env \<Rightarrow> ('db, 'be) NodeService \<Rightarrow> NodeInfo \<times> ('db, 'be) NodeService" where
  "Cordon E s =
     (let s = s\<lparr>sv_cordoned := True\<rparr>;
          s = mirror_cordon True s;
          s = saveFlags E s
      in (node_info s, s))"

definition Uncordon :: "('db, 'be) Env \<Rightarrow> ('db, 'be) NodeService \<Rightarrow> NodeInfo \<times> ('db, 'be) NodeService" where
  "Uncordon E s =
     (let s = s\<lparr>sv_cordoned := False\<rparr>;
          s = mirror_cordon False s;
          s = s\<lparr>sv_draining := False\<rparr>;
          s = saveFlags E s
      in (node_info s, s))"

definition actorOrSystem :: "string \<Rightarrow> string" where
  "actorOrSystem actor = (if actor \<noteq> '''' then actor else ''system'')"

definition Drain ::
  "('db, 'be) Env \<Rightarrow> string \<Rightarrow> ('db, 'be) NodeService \<Rightarrow> NodeInfo \<times> ('db, 'be) NodeService" where
  "Drain E actor s =
     (let s = s\<lparr>sv_draining := True, sv_cordoned := True\<rparr>;
          s = mirror_cordon True s;
          s = saveFlags E s;
          s = (if sv_drainer s \<and> \<not> sv_sweeping s
               then s\<lparr>sv_sweeping := True, sv_sweeps := sv_sweeps s @ [actorOrSystem actor]\<rparr> else s)
      in (node_info s, s))"

definition sweep_done :: "('db, 'be) NodeService \<Rightarrow> ('db, 'be) NodeService" where
  "sweep_done s = (if sv_sweeping s then s\<lparr>sv_sweeping := False, sv_finished := Suc (sv_finished s)\<rparr> else s)"

text \<open>Running an operation of the cluster on the shared store.\<close>

definition on_cluster ::
  "('db Cluster \<Rightarrow> 'r \<times> 'db Cluster) \<Rightarrow> 'db Cluster \<Rightarrow> ('db, 'be) NodeService \<Rightarrow> 'r \<times> ('db, 'be) NodeService" where
  "on_cluster f c s =
     (let (r, c') = f (c\<lparr>cl_db := Some (w_db (sv_world s))\<rparr>) in
      (r, s\<lparr>sv_cluster := Some c',
            sv_world := (sv_world s)\<lparr>w_db := (case cl_db c' of None \<Rightarrow> w_db (sv_world s) | Some db \<Rightarrow> db)\<rparr>\<rparr>))"

definition RevokeNode ::
  "('db, 'be) Env \<Rightarrow> string \<Rightarrow> ('db, 'be) NodeService \<Rightarrow> string list res \<times> ('db, 'be) NodeService" where
  "RevokeNode E nodeID s =
     (case sv_cluster s of
        None \<Rightarrow> (Inl (Status FailedPrecondition ''revocation requires clustering'' [] None), s)
      | Some c \<Rightarrow>
          (case on_cluster (Revoke (en_bolt E) nodeID) c s of
             (Inl e, s) \<Rightarrow> (Inl (Status InvalidArgument ''%s'' [] (Some e)), s)
           | (Inr _, s) \<Rightarrow> (Inr (case sv_cluster s of None \<Rightarrow> [] | Some c \<Rightarrow> RevokedList c), s)))"

definition ListRevoked :: "('db, 'be) NodeService \<Rightarrow> string list" where
  "ListRevoked s = (case sv_cluster s of None \<Rightarrow> [] | Some c \<Rightarrow> RevokedList c)"

text \<open>
  \<^verbatim>\<open>status.FromError\<close>: a status, or an error that wraps one (the code is kept, the text becomes that of
  the whole error).  Anything else is answered as an internal error.
\<close>

fun as_status :: "go_error \<Rightarrow> code option" where
  "as_status (Status c f as x) = Some c"
| "as_status (Wrapf f as e) = as_status e"
| "as_status _ = None"

definition status_err :: "go_error \<Rightarrow> go_error" where
  "status_err e =
     (case e of
        Status _ _ _ _ \<Rightarrow> e
      | _ \<Rightarrow> Status (case as_status e of Some c \<Rightarrow> c | None \<Rightarrow> Internal) ''%s'' [] (Some e))"

definition NodeService_ListTemplates ::
  "('db, 'be) Env \<Rightarrow> ('db, 'be) NodeService \<Rightarrow> TemplateInfo list res \<times> ('db, 'be) NodeService" where
  "NodeService_ListTemplates E s =
     (if \<not> sv_templateLister s then (Inr [], s)
      else let (r, be) = be_ListTemplateInfo (en_backend E) (w_be (sv_world s));
               s = s\<lparr>sv_world := (sv_world s)\<lparr>w_be := be\<rparr>\<rparr>
           in (case r of Inl e \<Rightarrow> (Inl (status_err e), s) | Inr infos \<Rightarrow> (Inr infos, s)))"

definition NodeService_RemoveTemplate ::
  "('db, 'be) Env \<Rightarrow> string \<Rightarrow> string \<Rightarrow> string \<Rightarrow> ('db, 'be) NodeService
    \<Rightarrow> TemplateInfo list res \<times> ('db, 'be) NodeService" where
  "NodeService_RemoveTemplate E actor nodeID ref s =
     (if nodeID \<noteq> '''' \<and> nodeID \<noteq> sv_nodeID s then (Inl (Status NotFound ''unknown node'' [] None), s)
      else if ref = '''' then (Inl (Status InvalidArgument ''ref is required'' [] None), s)
      else if \<not> sv_removeTemplate s then (Inl (Status Unavailable ''no sandbox backend on this node'' [] None), s)
      else let (r, be) = be_RemoveTemplate (en_backend E) (w_be (sv_world s)) ref;
               w = (sv_world s)\<lparr>w_be := be\<rparr>;
               w = (if sv_audit s then snd (Log_Record E (audit_entry actor ''template.remove'' ref (outcomeOf r)) w) else w);
               s = s\<lparr>sv_world := w\<rparr>
           in (case r of Inl e \<Rightarrow> (Inl (status_err e), s) | Inr _ \<Rightarrow> NodeService_ListTemplates E s))"

section \<open>Listing the nodes\<close>

record NodeRow =
  nr_NodeID :: string
  nr_NodeName :: string
  nr_Cordoned :: bool
  nr_Draining :: bool
  nr_Labels :: "(string, string) gomap"
  nr_Capabilities :: "string list"
  nr_Workspaces :: "string list"
  nr_Templates :: "string list"
  nr_GitWorkspaces :: "string list"
  nr_Kits :: "string list"
  nr_LimitCPU :: rat
  nr_LimitMemKB :: rat
  nr_LimitDiskGB :: rat
  nr_AllocCPU :: rat
  nr_AllocMemKB :: rat
  nr_AllocDiskGB :: rat
  nr_ActualCPU :: rat
  nr_ActualMem :: rat

text \<open>\<open>lister\<close> is what the wired lister returns, \<open>None\<close> when there is none.\<close>

definition ListNodes :: "NodeRow list option \<Rightarrow> ('db, 'be) NodeService \<Rightarrow> NodeRow list" where
  "ListNodes lister s =
     (case lister of
        Some rows \<Rightarrow> rows
      | None \<Rightarrow>
          [\<lparr>nr_NodeID = sv_nodeID s, nr_NodeName = sv_nodeName s, nr_Cordoned = False, nr_Draining = sv_draining s,
            nr_Labels = [], nr_Capabilities = [], nr_Workspaces = [], nr_Templates = [], nr_GitWorkspaces = [],
            nr_Kits = [], nr_LimitCPU = 0, nr_LimitMemKB = 0, nr_LimitDiskGB = 0, nr_AllocCPU = 0,
            nr_AllocMemKB = 0, nr_AllocDiskGB = 0, nr_ActualCPU = 0, nr_ActualMem = 0\<rparr>])"

section \<open>Boot\<close>

text \<open>
  The part of \<^verbatim>\<open>node.New\<close> that restores the flags and wires the service: the flags are read from the
  store and restored locally, the collaborators are wired, and a restored cordon is told to the
  cluster when there is one.
\<close>

definition boot_NodeService ::
  "('db, 'be) Env \<Rightarrow> string \<Rightarrow> string \<Rightarrow> string \<Rightarrow> 'db Cluster option \<Rightarrow> ('db, 'be) World \<Rightarrow> ('db, 'be) NodeService" where
  "boot_NodeService E nodeID nodeName version cl w =
     (let flags = loadNodeFlags (en_bolt E) (w_db w);
          s = NewNodeService nodeID nodeName version w
      in s\<lparr>sv_cordoned := nf_Cordoned flags, sv_draining := nf_Draining flags, sv_persistFlags := True,
           sv_drainer := True, sv_templateLister := True, sv_removeTemplate := True, sv_audit := True,
           sv_cluster := (if nf_Cordoned flags then map_option (SetCordoned True) cl else cl)\<rparr>)"

section \<open>The interfaces the service relies on\<close>

text \<open>
  \<^verbatim>\<open>Cordoner\<close>: whoever publishes the cordon to the swarm advertises the flag last set.
  \<^verbatim>\<open>Revoker\<close>: a denylist that only grows, lists what it holds, and refuses an id without effect.
\<close>

locale cordoner =
  fixes set_cordoned :: "bool \<Rightarrow> 'c \<Rightarrow> 'c" and advertised :: "'c \<Rightarrow> bool"
  assumes advertised_set: "advertised (set_cordoned b c) = b"
begin

lemma last_wins: "bs \<noteq> [] \<Longrightarrow> advertised (fold set_cordoned bs c) = last bs"
  by (induction bs arbitrary: c) (auto simp: advertised_set)

lemma agree_after_set: "sv = b \<Longrightarrow> advertised (set_cordoned b c) = sv"
  by (simp add: advertised_set)

end

locale revoker =
  fixes revoke :: "string \<Rightarrow> 'c \<Rightarrow> unit res \<times> 'c" and listed :: "'c \<Rightarrow> string list" and ok :: "'c \<Rightarrow> bool"
  assumes revoke_ok: "ok c \<Longrightarrow> revoke n c = (Inr (), c') \<Longrightarrow> ok c' \<and> set (listed c') = insert n (set (listed c))"
    and revoke_err: "revoke n c = (Inl e, c') \<Longrightarrow> c' = c"
begin

lemma revoke_grows: "ok c \<Longrightarrow> set (listed c) \<subseteq> set (listed (snd (revoke n c)))"
proof -
  assume o: "ok c"
  obtain r c' where "revoke n c = (r, c')" by fastforce
  then show ?thesis using revoke_ok[OF o, of n c'] revoke_err[of n c _ c'] by (cases r) auto
qed

lemma revoke_all_grows: "ok c \<Longrightarrow> ok (fold (\<lambda>n c. snd (revoke n c)) ns c)
    \<and> set (listed c) \<subseteq> set (listed (fold (\<lambda>n c. snd (revoke n c)) ns c))"
proof (induction ns arbitrary: c)
  case (Cons n ns)
  obtain r c' where r: "revoke n c = (r, c')" by fastforce
  have "ok c'" using revoke_ok[OF Cons.prems] revoke_err[of n c] r Cons.prems by (cases r) auto
  from Cons.IH[OF this] revoke_grows[OF Cons.prems, of n] r show ?case by auto
qed simp

end

interpretation cluster_cordon: cordoner SetCordoned "\<lambda>c. ns_Cordoned (cl_local c)"
  by unfold_locales (simp add: SetCordoned_def bump_def)

lemma Revoke_Inr:
  assumes "cluster_inv c" "Revoke B n c = (Inr (), c')"
  shows "cluster_inv c' \<and> set (RevokedList c') = insert n (set (RevokedList c))"
  using Revoke_ok[OF assms(1), of B n] assms(2) add_ids_set[of B "[n]" c] addRevoked_revoked[of B "[n]" c]
  by (auto simp: Revoke_def RevokedList_def sortedKeys_def case_prod_unfold Let_def split: if_splits)

interpretation cluster_revoker: revoker "Revoke B" RevokedList cluster_inv for B
proof
  show "Revoke B n c = (Inl e, c') \<Longrightarrow> c' = c" for n e and c c' :: "'a Cluster"
    by (auto simp: Revoke_def case_prod_unfold Let_def split: if_splits)
qed (use Revoke_Inr in blast)

section \<open>What the handlers do to the flags\<close>

definition same_flags :: "'db Bolt \<Rightarrow> 'db \<Rightarrow> 'db \<Rightarrow> bool" where
  "same_flags B db db' \<longleftrightarrow> b_has B db' ''node'' = b_has B db ''node'' \<and> b_get B db' ''node'' = b_get B db ''node''"

lemma same_flags_refl [simp]: "same_flags B db db"
  by (simp add: same_flags_def)

lemma same_flags_trans: "same_flags B a b \<Longrightarrow> same_flags B b c \<Longrightarrow> same_flags B a c"
  by (simp add: same_flags_def)

lemma same_flags_load: "same_flags B db db' \<Longrightarrow> loadNodeFlags B db' = loadNodeFlags B db"
  by (simp add: same_flags_def loadNodeFlags_def store_Get_def)

text \<open>The disk accepts the flags; a failed write is only logged, so without this nothing is kept.\<close>

definition flags_writable :: "'db Bolt \<Rightarrow> bool" where
  "flags_writable B \<longleftrightarrow> (\<forall>db f. b_has B db ''node'' \<longrightarrow> (\<exists>db'. b_put B db ''node'' ''flags'' (JFlags f) = Inr db'))"

lemma load_saved:
  assumes "bolt_laws B" "flags_writable B" "b_has B db ''node''"
  shows "loadNodeFlags B (saveNodeFlags B f db) = f \<and> b_has B (saveNodeFlags B f db) ''node''"
proof -
  obtain db' where p: "b_put B db ''node'' ''flags'' (JFlags f) = Inr db'"
    using assms(2,3) unfolding flags_writable_def by blast
  with bolt_db.put_D[OF bolt_db.intro[OF assms(1)] p] assms(3) show ?thesis
    by (simp add: saveNodeFlags_def store_Put_def loadNodeFlags_def store_Get_def)
qed

lemma store_Put_flags:
  assumes "bolt_laws B" "store_Put B db bk k v = Inr db'" "bk \<noteq> ''node''"
  shows "same_flags B db db'"
proof -
  have "b_put B db bk k v = Inr db'" using assms(2) by (simp add: store_Put_def split: if_splits)
  from bolt_db.put_D[OF bolt_db.intro[OF assms(1)] this] assms(3) show ?thesis by (simp add: same_flags_def)
qed

lemma add_ids_flags:
  assumes "bolt_laws B"
  shows "cl_db c = Some db \<Longrightarrow> \<exists>db'. cl_db (snd (add_ids B ids c)) = Some db' \<and> same_flags B db db'"
proof (induction ids arbitrary: c db)
  case (Cons i ids)
  have "i = '''' \<or> i \<in> set (cl_revoked c) \<Longrightarrow> ?case" using Cons by auto
  moreover
  { assume new: "\<not> (i = '''' \<or> i \<in> set (cl_revoked c))"
    let ?put = "store_Put B db ''revoked'' i (Bytes [char_of (1 :: nat)])"
    obtain db1 where d: "(case ?put of Inl e \<Rightarrow> Some db | Inr db' \<Rightarrow> Some db') = Some db1" "same_flags B db db1"
      using store_Put_flags[OF assms, of db "''revoked''" i "Bytes [char_of (1 :: nat)]"] by (cases ?put) auto
    have "cl_db (c\<lparr>cl_revoked := cl_revoked c @ [i], cl_db := Some db1\<rparr>) = Some db1" by simp
    from Cons.IH[OF this] d same_flags_trans[OF d(2)] new Cons.prems have ?case by (auto simp: Let_def) }
  ultimately show ?case by blast
qed auto

lemma addRevoked_flags:
  assumes "bolt_laws B" "cl_db c = Some db"
  shows "(\<exists>db'. cl_db (snd (addRevokedLocked B ids c)) = Some db' \<and> same_flags B db db')
    \<and> ns_Cordoned (cl_local (snd (addRevokedLocked B ids c))) = ns_Cordoned (cl_local c)"
  using add_ids_flags[OF assms, of ids] add_ids_frame[of B ids c]
  by (simp add: addRevokedLocked_def bump_def case_prod_unfold Let_def)

lemma Revoke_flags:
  assumes "bolt_laws B" "cl_db c = Some db"
  shows "(\<exists>db'. cl_db (snd (Revoke B n c)) = Some db' \<and> same_flags B db db')
    \<and> ns_Cordoned (cl_local (snd (Revoke B n c))) = ns_Cordoned (cl_local c)"
  using addRevoked_flags[OF assms, of "[n]"] assms(2) by (simp add: Revoke_def case_prod_unfold Let_def)

lemma adopt_cordoned [simp]:
  "ns_Cordoned (cl_local (adopt_if_pending w p r c)) = ns_Cordoned (cl_local c)"
  by (auto simp: adopt_if_pending_def Adopt_def Let_def split: option.splits)

lemma MergeRemoteState_flags:
  assumes "bolt_laws B" "cl_db c = Some db"
  shows "(\<exists>db'. cl_db (MergeRemoteState B w r c) = Some db' \<and> same_flags B db db')
    \<and> ns_Cordoned (cl_local (MergeRemoteState B w r c)) = ns_Cordoned (cl_local c)"
proof -
  have "(\<exists>db'. cl_db (merge_accepted B w n c) = Some db' \<and> same_flags B db db')
      \<and> ns_Cordoned (cl_local (merge_accepted B w n c)) = ns_Cordoned (cl_local c)" for n
    using addRevoked_flags[OF assms(1), of "c\<lparr>cl_peerStates := AList.update (ns_NodeID n) n (cl_peerStates c)\<rparr>" db
        "ns_Revoked n"] assms(2)
    by (simp add: merge_accepted_eq)
  then show ?thesis using assms(2) by (auto simp: MergeRemoteState_def split: sum.splits)
qed

lemma Log_Record_flags:
  assumes "bolt_laws (en_bolt E)"
  shows "same_flags (en_bolt E) (w_db w) (w_db (snd (Log_Record E e w)))"
proof -
  note l = bolt_db.intro[OF assms]
  show ?thesis
    unfolding Log_Record_def
    by (auto simp: Let_def now_def same_flags_def split: sum.splits prod.splits
        dest!: bolt_db.next_seq_D[OF l] bolt_db.put_D[OF l])
qed

section \<open>Everything the service does\<close>

text \<open>
  One step of the service: a request, the end of a drain's sweep, or a state merged by gossip.
\<close>

datatype sv_op =
    SvCordon
  | SvUncordon
  | SvDrain string
  | SvSweepDone
  | SvRevoke string
  | SvRemoveTemplate string string string
  | SvGossip "go_error option" "NodeState res"

fun sv_exec :: "('db, 'be) Env \<Rightarrow> sv_op \<Rightarrow> ('db, 'be) NodeService \<Rightarrow> ('db, 'be) NodeService" where
  "sv_exec E SvCordon s = snd (Cordon E s)"
| "sv_exec E SvUncordon s = snd (Uncordon E s)"
| "sv_exec E (SvDrain a) s = snd (Drain E a s)"
| "sv_exec E SvSweepDone s = sweep_done s"
| "sv_exec E (SvRevoke n) s = snd (RevokeNode E n s)"
| "sv_exec E (SvRemoveTemplate a n r) s = snd (NodeService_RemoveTemplate E a n r s)"
| "sv_exec E (SvGossip w r) s =
     (case sv_cluster s of
        None \<Rightarrow> s
      | Some c \<Rightarrow> snd (on_cluster (\<lambda>c. ((), MergeRemoteState (en_bolt E) w r c)) c s))"

text \<open>
  The three copies of the operator's intent agree: the local flags, what the store holds, and what
  the cluster advertises.  A draining node is cordoned, and at most one sweep runs at a time.
\<close>

definition svc_ok :: "('db, 'be) Env \<Rightarrow> ('db, 'be) NodeService \<Rightarrow> bool" where
  "svc_ok E s \<longleftrightarrow>
     b_has (en_bolt E) (w_db (sv_world s)) ''node'' \<and> sv_persistFlags s
   \<and> loadNodeFlags (en_bolt E) (w_db (sv_world s)) = \<lparr>nf_Cordoned = sv_cordoned s, nf_Draining = sv_draining s\<rparr>
   \<and> (sv_draining s \<longrightarrow> sv_cordoned s)
   \<and> (\<forall>c. sv_cluster s = Some c \<longrightarrow> ns_Cordoned (cl_local c) = sv_cordoned s)
   \<and> length (sv_sweeps s) = sv_finished s + (if sv_sweeping s then 1 else 0)"

lemma svc_ok_flags:
  assumes "svc_ok E s" "same_flags (en_bolt E) (w_db (sv_world s)) (w_db w')"
    and "\<And>c. cl' = Some c \<Longrightarrow> ns_Cordoned (cl_local c) = sv_cordoned s"
  shows "svc_ok E (s\<lparr>sv_cluster := cl', sv_world := w'\<rparr>)"
  using assms same_flags_load[OF assms(2)] by (auto simp: svc_ok_def same_flags_def split: option.splits)

lemma saveFlags_ok:
  assumes "bolt_laws (en_bolt E)" "flags_writable (en_bolt E)"
    and "b_has (en_bolt E) (w_db (sv_world s)) ''node''" "sv_persistFlags s" "sv_draining s \<longrightarrow> sv_cordoned s"
    and "\<forall>c. sv_cluster s = Some c \<longrightarrow> ns_Cordoned (cl_local c) = sv_cordoned s"
    and "length (sv_sweeps s) = sv_finished s + (if sv_sweeping s then 1 else 0)"
  shows "svc_ok E (saveFlags E s)"
  using load_saved[OF assms(1-3)] assms(4-7) by (simp add: svc_ok_def saveFlags_def)

lemma saveFlags_sel [simp]:
  "sv_cordoned (saveFlags E s) = sv_cordoned s" "sv_draining (saveFlags E s) = sv_draining s"
  "sv_sweeping (saveFlags E s) = sv_sweeping s" "sv_drainer (saveFlags E s) = sv_drainer s"
  "sv_sweeps (saveFlags E s) = sv_sweeps s" "sv_cluster (saveFlags E s) = sv_cluster s"
  "sv_finished (saveFlags E s) = sv_finished s"
  by (simp_all add: saveFlags_def)

lemma Cordon_ok: "bolt_laws (en_bolt E) \<Longrightarrow> flags_writable (en_bolt E) \<Longrightarrow> svc_ok E s \<Longrightarrow> svc_ok E (snd (Cordon E s))"
  unfolding Cordon_def Let_def snd_conv
  by (rule saveFlags_ok) (auto simp: svc_ok_def mirror_cordon_def cluster_cordon.advertised_set split: option.splits)

lemma Uncordon_ok: "bolt_laws (en_bolt E) \<Longrightarrow> flags_writable (en_bolt E) \<Longrightarrow> svc_ok E s \<Longrightarrow> svc_ok E (snd (Uncordon E s))"
  unfolding Uncordon_def Let_def snd_conv
  by (rule saveFlags_ok) (auto simp: svc_ok_def mirror_cordon_def cluster_cordon.advertised_set split: option.splits)

lemma svc_ok_sweep:
  "svc_ok E s \<Longrightarrow> \<not> sv_sweeping s \<Longrightarrow> svc_ok E (s\<lparr>sv_sweeping := True, sv_sweeps := sv_sweeps s @ [a]\<rparr>)"
  by (simp add: svc_ok_def)

lemma Drain_ok:
  assumes "bolt_laws (en_bolt E)" "flags_writable (en_bolt E)" "svc_ok E s"
  shows "svc_ok E (snd (Drain E a s))"
proof -
  let ?s = "saveFlags E (mirror_cordon True (s\<lparr>sv_draining := True, sv_cordoned := True\<rparr>))"
  have "svc_ok E ?s"
    by (rule saveFlags_ok)
       (use assms in \<open>auto simp: svc_ok_def mirror_cordon_def cluster_cordon.advertised_set split: option.splits\<close>)
  then show ?thesis using svc_ok_sweep[of E ?s] by (auto simp: Drain_def Let_def)
qed

lemma on_cluster_ok:
  assumes "svc_ok E s" "sv_cluster s = Some c"
    and "\<And>c db. cl_db c = Some db \<Longrightarrow>
      (\<exists>db'. cl_db (snd (f c)) = Some db' \<and> same_flags (en_bolt E) db db') \<and> ns_Cordoned (cl_local (snd (f c))) = ns_Cordoned (cl_local c)"
  shows "svc_ok E (snd (on_cluster f c s))"
proof -
  let ?c = "c\<lparr>cl_db := Some (w_db (sv_world s))\<rparr>"
  obtain db' where d: "cl_db (snd (f ?c)) = Some db'" "same_flags (en_bolt E) (w_db (sv_world s)) db'"
    "ns_Cordoned (cl_local (snd (f ?c))) = ns_Cordoned (cl_local c)"
    using assms(3)[of ?c "w_db (sv_world s)"] by auto
  have "svc_ok E (s\<lparr>sv_cluster := Some (snd (f ?c)), sv_world := (sv_world s)\<lparr>w_db := db'\<rparr>\<rparr>)"
    using d assms(1,2) by (intro svc_ok_flags) (auto simp: svc_ok_def)
  then show ?thesis using d(1) by (simp add: on_cluster_def case_prod_unfold Let_def)
qed

lemma RevokeNode_ok:
  assumes "bolt_laws (en_bolt E)" "svc_ok E s"
  shows "svc_ok E (snd (RevokeNode E n s))"
proof (cases "sv_cluster s")
  case (Some c)
  have "svc_ok E (snd (on_cluster (Revoke (en_bolt E) n) c s))"
    using Revoke_flags[OF assms(1)] by (intro on_cluster_ok[OF assms(2) Some]) auto
  then show ?thesis using Some by (auto simp: RevokeNode_def split: prod.splits sum.splits)
qed (simp add: RevokeNode_def assms)

lemma svc_ok_world:
  "svc_ok E s \<Longrightarrow> same_flags (en_bolt E) (w_db (sv_world s)) (w_db w') \<Longrightarrow> svc_ok E (s\<lparr>sv_world := w'\<rparr>)"
  using same_flags_load[of "en_bolt E" "w_db (sv_world s)" "w_db w'"]
  by (simp add: svc_ok_def same_flags_def)

lemma ListTemplates_ok: "svc_ok E s \<Longrightarrow> svc_ok E (snd (NodeService_ListTemplates E s))"
  by (auto simp: NodeService_ListTemplates_def Let_def case_prod_unfold split: sum.splits intro!: svc_ok_world)

lemma RemoveTemplate_ok:
  assumes "bolt_laws (en_bolt E)" "svc_ok E s"
  shows "svc_ok E (snd (NodeService_RemoveTemplate E a n r s))"
proof -
  let ?w = "(sv_world s)\<lparr>w_be := snd (be_RemoveTemplate (en_backend E) (w_be (sv_world s)) r)\<rparr>"
  have "svc_ok E (s\<lparr>sv_world := snd (Log_Record E e ?w)\<rparr>)" for e
    using Log_Record_flags[OF assms(1), of ?w e] by (intro svc_ok_world[OF assms(2)]) simp
  moreover have "svc_ok E (s\<lparr>sv_world := ?w\<rparr>)" by (rule svc_ok_world[OF assms(2)]) simp
  ultimately show ?thesis using assms(2) ListTemplates_ok
    by (auto simp: NodeService_RemoveTemplate_def Let_def case_prod_unfold split: sum.splits)
qed

lemma sweep_done_ok: "svc_ok E s \<Longrightarrow> svc_ok E (sweep_done s)"
  by (simp add: sweep_done_def svc_ok_def)

lemma sv_exec_ok:
  assumes "bolt_laws (en_bolt E)" "flags_writable (en_bolt E)" "svc_ok E s"
  shows "svc_ok E (sv_exec E op s)"
proof (cases op)
  case (SvGossip w r)
  show ?thesis
  proof (cases "sv_cluster s")
    case (Some c)
    have "svc_ok E (snd (on_cluster (\<lambda>c. ((), MergeRemoteState (en_bolt E) w r c)) c s))"
      using MergeRemoteState_flags[OF assms(1)] by (intro on_cluster_ok[OF assms(3) Some]) auto
    then show ?thesis using Some SvGossip by simp
  qed (simp add: SvGossip assms)
qed (simp_all add: assms Cordon_ok Uncordon_ok Drain_ok RevokeNode_ok RemoveTemplate_ok sweep_done_ok)

lemma sv_run_ok:
  "bolt_laws (en_bolt E) \<Longrightarrow> flags_writable (en_bolt E) \<Longrightarrow> svc_ok E s \<Longrightarrow> svc_ok E (fold (sv_exec E) ops s)"
  by (induction ops arbitrary: s) (simp_all add: sv_exec_ok)

section \<open>Properties\<close>

text \<open>
  C38: the operator's intent survives a restart.  Whatever a booted service is asked to do, and
  whatever gossip brings in between, a service booted on the store it leaves has the same cordon and
  drain flags, a draining node is cordoned, the cluster of either service advertises the node's own
  cordon, and no two drain sweeps ever run at the same time.
\<close>

theorem cordon_survives_restart:
  assumes "bolt_laws (en_bolt E)" and "flags_writable (en_bolt E)" and "svc_ok E s"
    and "s' = fold (sv_exec E) ops s" and "s'' = boot_NodeService E i n v cl (sv_world s')"
    and "\<And>c. cl = Some c \<Longrightarrow> \<not> ns_Cordoned (cl_local c)"
  shows "sv_cordoned s'' = sv_cordoned s' \<and> sv_draining s'' = sv_draining s'
    \<and> (sv_draining s' \<longrightarrow> sv_cordoned s')
    \<and> (\<forall>c. sv_cluster s' = Some c \<or> sv_cluster s'' = Some c \<longrightarrow> ns_Cordoned (cl_local c) = sv_cordoned s')
    \<and> length (sv_sweeps s') - sv_finished s' \<le> 1"
proof -
  have ok: "svc_ok E s'" using sv_run_ok[OF assms(1-3)] assms(4) by simp
  have b: "sv_cordoned s'' = sv_cordoned s'" "sv_draining s'' = sv_draining s'"
    "sv_cluster s'' = (if sv_cordoned s' then map_option (SetCordoned True) cl else cl)"
    using ok assms(5) by (simp_all add: svc_ok_def boot_NodeService_def Let_def)
  have "ns_Cordoned (cl_local c) = sv_cordoned s'" if "sv_cluster s'' = Some c" for c
    using that b(3) assms(6) by (auto simp: cluster_cordon.advertised_set split: if_splits)
  with ok b show ?thesis by (auto simp: svc_ok_def)
qed

definition example_service :: "(mem_db, Fake) NodeService" where
  "example_service = boot_NodeService mem_env ''n1'' ''one'' ''v'' (Some (example_cluster ''n1'')) mem_world"

lemma mem_flags_writable: "flags_writable (en_bolt mem_env)"
  by (auto simp: flags_writable_def mem_env_def mem_bolt_def)

lemma example_service_ok: "svc_ok mem_env example_service"
proof -
  have f: "b_has (en_bolt mem_env) (w_db (sv_world example_service)) ''node''" "sv_persistFlags example_service"
    "loadNodeFlags (en_bolt mem_env) (w_db (sv_world example_service)) = \<lparr>nf_Cordoned = False, nf_Draining = False\<rparr>"
    "sv_cordoned example_service = False" "sv_draining example_service = False"
    "map_option (\<lambda>c. ns_Cordoned (cl_local c)) (sv_cluster example_service) = Some False"
    "sv_sweeps example_service = []" "sv_finished example_service = 0" "sv_sweeping example_service = False"
    by code_simp+
  then show ?thesis by (auto simp: svc_ok_def)
qed

theorem cordon_survives_restart_witness:
  "sv_cordoned (boot_NodeService mem_env ''n1'' ''one'' ''v2'' None
      (sv_world (fold (sv_exec mem_env) [SvDrain ''admin'', SvRevoke ''bad'', SvDrain ''admin''] example_service)))
   = sv_cordoned (fold (sv_exec mem_env) [SvDrain ''admin'', SvRevoke ''bad'', SvDrain ''admin''] example_service)"
proof -
  have "bolt_laws (en_bolt mem_env)" by (simp add: mem_env_def mem_bolt_laws)
  from cordon_survives_restart[OF this mem_flags_writable example_service_ok refl refl, where cl = None]
  show ?thesis by blast
qed

end
