(* ===== verification/Provision.thy ===== *)
theory Provision
  imports Scheduler Manager_Correct Config NodeService
begin

text \<open>
  Provisioning: sizing and translating a create request (\<^verbatim>\<open>sandboxservice.go\<close>), the owner-side pipeline
  (\<^verbatim>\<open>provision_git.go\<close>), the node-to-node admission with its request deduplication (\<^verbatim>\<open>provision.go\<close>),
  and the placement wiring of \<^verbatim>\<open>internal/node/node.go\<close>: candidates, the attempt on one node, and the
  retried call.  A node is its service, its git state and its deduplication cache; a swarm is a map
  from node ids to nodes, with a counter of the calls made between them.  The network is a parameter:
  the outcome of the k-th call.  The reply of a review's hosting service is a parameter too.
\<close>

section \<open>Requests\<close>

record CreateSandboxRequest =
  cr_Agent :: string
  cr_Template :: string
  cr_Cpus :: int
  cr_MemoryBytes :: int
  cr_DiskGb :: rat
  cr_Clone :: bool
  cr_Branch :: string
  cr_ReviewRef :: "ReviewRef option"
  cr_Workspaces :: "WorkspaceMount list"
  cr_Env :: "(string, string) gomap"
  cr_Labels :: "(string, string) gomap"
  cr_Name :: string
  cr_Kits :: "string list"
  cr_Strategy :: string
  cr_NodeAffinity :: "(string, string) gomap"
  cr_NodeAntiAffinity :: "(string, string) gomap"

definition CreateSandboxRequest_zero :: CreateSandboxRequest where
  "CreateSandboxRequest_zero =
     \<lparr>cr_Agent = '''', cr_Template = '''', cr_Cpus = 0, cr_MemoryBytes = 0, cr_DiskGb = 0, cr_Clone = False,
      cr_Branch = '''', cr_ReviewRef = None, cr_Workspaces = [], cr_Env = [], cr_Labels = [], cr_Name = '''',
      cr_Kits = [], cr_Strategy = '''', cr_NodeAffinity = [], cr_NodeAntiAffinity = []\<rparr>"

definition floorCPUCores :: int where "floorCPUCores = 1"
definition floorMemoryBytes :: int where "floorMemoryBytes = 2 ^ 30"
definition floorDiskGB :: rat where "floorDiskGB = 1"

text \<open>The conversion of a positive \<^verbatim>\<open>float64\<close> to \<^verbatim>\<open>int32\<close> drops the fraction.\<close>

definition effectiveSpec :: "CreateSandboxRequest \<Rightarrow> Resources \<Rightarrow> CreateSandboxRequest" where
  "effectiveSpec r defaults =
     (let out = r;
          out = (if cr_Cpus out \<le> 0
                 then out\<lparr>cr_Cpus := (if rs_CPUCores defaults > 0 then \<lfloor>rs_CPUCores defaults\<rfloor> else floorCPUCores)\<rparr> else out);
          out = (if cr_MemoryBytes out \<le> 0
                 then out\<lparr>cr_MemoryBytes := (if rs_MemoryBytes defaults > 0 then rs_MemoryBytes defaults else floorMemoryBytes)\<rparr>
                 else out);
          out = (if cr_DiskGb out \<le> 0
                 then out\<lparr>cr_DiskGb := (if rs_DiskGB defaults > 0 then rs_DiskGB defaults else floorDiskGB)\<rparr> else out)
      in out)"

definition Resources_zero :: Resources where
  "Resources_zero = \<lparr>rs_CPUCores = 0, rs_MemoryBytes = 0, rs_DiskGB = 0\<rparr>"

definition resolveStrategy :: "string \<Rightarrow> string \<Rightarrow> string res" where
  "resolveStrategy reqStrategy defaultStrategy =
     (let s = reqStrategy;
          s = (if s = '''' then defaultStrategy else s);
          s = (if s = '''' then ''least-loaded'' else s)
      in if s \<in> set [''least-loaded'', ''bin-pack'', ''spread'', ''least-actual-load''] then Inr s
         else Inl (Status InvalidArgument ''unknown strategy %q'' [reqStrategy] None))"

definition requestFromSpec :: "CreateSandboxRequest \<Rightarrow> string \<Rightarrow> string \<Rightarrow> Request" where
  "requestFromSpec spec strategy requestID =
     \<lparr>rq_CPU = of_int (cr_Cpus spec), rq_Mem = of_int (cr_MemoryBytes spec) / 1024, rq_Disk = cr_DiskGb spec,
      rq_Workspaces = map wm_Name (cr_Workspaces spec), rq_Template = cr_Template spec, rq_Kits = cr_Kits spec,
      rq_Capabilities = (if cr_Clone spec then [''clone''] else []), rq_Affinity = cr_NodeAffinity spec,
      rq_AntiAffinity = cr_NodeAntiAffinity spec, rq_Strategy = strategy, rq_RequestID = requestID, rq_Local = ''''\<rparr>"

definition toSpec :: "CreateSandboxRequest \<Rightarrow> CreateSpec" where
  "toSpec r =
     \<lparr>cs_Name = '''', cs_DisplayName = cr_Name r, cs_Agent = cr_Agent r, cs_Template = cr_Template r,
      cs_CPUs = cr_Cpus r, cs_MemoryBytes = cr_MemoryBytes r, cs_DiskGB = cr_DiskGb r, cs_Clone = cr_Clone r,
      cs_Branch = cr_Branch r, cs_ReviewRef = cr_ReviewRef r,
      cs_Workspaces = map (\<lambda>w. \<lparr>wm_Name = wm_Name w, wm_ReadOnly = wm_ReadOnly w\<rparr>) (cr_Workspaces r),
      cs_Env = cr_Env r, cs_Labels = cr_Labels r, cs_Kits = cr_Kits r\<rparr>"

section \<open>Request deduplication\<close>

record dedupEntry =
  de_sandboxID :: string
  de_at :: gotime

record dedup =
  dd_m :: "(string, dedupEntry) gomap"
  dd_ttl :: int
  dd_max :: nat

definition newDedup :: "int \<Rightarrow> nat \<Rightarrow> dedup" where
  "newDedup ttl mx = \<lparr>dd_m = [], dd_ttl = ttl, dd_max = mx\<rparr>"

definition dedup_get :: "gotime \<Rightarrow> string \<Rightarrow> dedup \<Rightarrow> string option \<times> dedup" where
  "dedup_get t i d =
     (case map_of (dd_m d) i of
        None \<Rightarrow> (None, d)
      | Some e \<Rightarrow>
          if time_sub t (de_at e) > dd_ttl d then (None, d\<lparr>dd_m := AList.delete i (dd_m d)\<rparr>)
          else (Some (de_sandboxID e), d))"

text \<open>The scan for the oldest entry: the first one, replaced by every entry that is strictly older.\<close>

fun oldest :: "(string \<times> gotime) option \<Rightarrow> (string \<times> dedupEntry) list \<Rightarrow> string" where
  "oldest None [] = ''''"
| "oldest (Some (k, t)) [] = k"
| "oldest None ((k, e) # m) = oldest (Some (k, de_at e)) m"
| "oldest (Some (k0, t0)) ((k, e) # m) =
     (if de_at e < t0 then oldest (Some (k, de_at e)) m else oldest (Some (k0, t0)) m)"

definition dedup_put :: "gotime \<Rightarrow> string \<Rightarrow> string \<Rightarrow> dedup \<Rightarrow> dedup" where
  "dedup_put t i sandboxID d =
     (let m = filter (\<lambda>(k, e). \<not> time_sub t (de_at e) > dd_ttl d) (dd_m d);
          m = (if length m \<ge> dd_max d then AList.delete (oldest None m) m else m)
      in d\<lparr>dd_m := AList.update i \<lparr>de_sandboxID = sandboxID, de_at = t\<rparr> m\<rparr>)"

section \<open>Provisioning on the owner\<close>

text \<open>
  What provisioning reads and never changes: the environment, the git host, the git-backed workspaces
  by name, and \<open>review\<close>, the answer of \<^verbatim>\<open>gitprovider.ResolveReviewHead\<close> (the ref to fetch, which may be
  empty, and the local branch).
\<close>

record ('db, 'be, 'g) Deps =
  dp_env :: "('db, 'be) Env"
  dp_git :: "'g GitHost"
  dp_ws :: "(string, Spec) gomap"
  dp_review :: "Spec \<Rightarrow> string \<Rightarrow> (string \<times> string) res"

definition resolveReviewHead ::
  "('db, 'be, 'g) Deps \<Rightarrow> Spec \<Rightarrow> string \<Rightarrow> 'g GitState \<Rightarrow> (string res \<times> 'g GitState) option" where
  "resolveReviewHead D gw reviewID g =
     (case dp_review D gw reviewID of
        Inl e \<Rightarrow> Some (Inl e, g)
      | Inr (fetchRef, localBranch) \<Rightarrow>
          if fetchRef \<noteq> '''' then
            (case FetchRef (dp_git D) gw fetchRef localBranch g of
               None \<Rightarrow> None
             | Some (Inl e, g) \<Rightarrow> Some (Inl (Status Internal ''fetch review head: %v'' [] (Some e)), g)
             | Some (Inr _, g) \<Rightarrow> Some (Inr localBranch, g))
          else Some (Inr localBranch, g))"

definition git_refs :: "(string, Spec) gomap \<Rightarrow> WorkspaceMount list \<Rightarrow> Spec list" where
  "git_refs ws mounts = List.map_filter (\<lambda>m. map_of ws (wm_Name m)) mounts"

text \<open>The tail of clone mode: the branch is known; lock, freshen, create, unlock.\<close>

definition create_locked ::
  "('db, 'be, 'g) Deps \<Rightarrow> Spec \<Rightarrow> CreateSpec \<Rightarrow> ('db, 'be) World \<Rightarrow> 'g GitState
    \<Rightarrow> (Record res \<times> ('db, 'be) World \<times> 'g GitState) option" where
  "create_locked D gw spec w g =
     (case PreLock (dp_git D) gw (cs_Branch spec) g of
        None \<Rightarrow> None
      | Some (Inl e, g) \<Rightarrow> Some (Inl (Status Internal ''git pre: %v'' [] (Some e)), w, g)
      | Some (Inr _, g) \<Rightarrow>
          let (r, w) = Manager_AdmitAndCreate (dp_env D) spec w in Some (r, w, Unlock gw g))"

definition ProvisionLocal ::
  "('db, 'be, 'g) Deps \<Rightarrow> CreateSpec \<Rightarrow> ('db, 'be) World \<Rightarrow> 'g GitState
    \<Rightarrow> (Record res \<times> ('db, 'be) World \<times> 'g GitState) option" where
  "ProvisionLocal D spec w g =
     (let refs = git_refs (dp_ws D) (cs_Workspaces spec) in
      if cs_Clone spec then
        (if length (cs_Workspaces spec) \<noteq> 1 \<or> refs = []
         then Some (Inl (Status InvalidArgument ''clone mode requires exactly one git-backed workspace'' [] None), w, g)
         else let gw = last refs in
           case EnsureBase (dp_git D) gw g of
             None \<Rightarrow> None
           | Some (Inl e, g) \<Rightarrow> Some (Inl (Status Internal ''git ensure base: %v'' [] (Some e)), w, g)
           | Some (Inr _, g) \<Rightarrow>
               (case cs_ReviewRef spec of
                  None \<Rightarrow> create_locked D gw spec w g
                | Some rr \<Rightarrow>
                    (case resolveReviewHead D gw (rr_ID rr) g of
                       None \<Rightarrow> None
                     | Some (Inl e, g) \<Rightarrow> Some (Inl e, w, g)
                     | Some (Inr branch, g) \<Rightarrow> create_locked D gw (spec\<lparr>cs_Branch := branch\<rparr>) w g)))
      else if refs \<noteq> []
      then Some (Inl (Status InvalidArgument ''git-backed workspace requires clone mode'' [] None), w, g)
      else let (r, w) = Manager_AdmitAndCreate (dp_env D) spec w in Some (r, w, g))"

section \<open>Node-to-node admission\<close>

record ('db, 'be, 'g) Node =
  nd_svc :: "('db, 'be) NodeService"
  nd_git :: "'g GitState"
  nd_dedup :: dedup

definition nd_world :: "('db, 'be, 'g) Node \<Rightarrow> ('db, 'be) World" where
  "nd_world n = sv_world (nd_svc n)"

definition set_nd_world :: "('db, 'be) World \<Rightarrow> ('db, 'be, 'g) Node \<Rightarrow> ('db, 'be, 'g) Node" where
  "set_nd_world w n = n\<lparr>nd_svc := (nd_svc n)\<lparr>sv_world := w\<rparr>\<rparr>"

record ProvisionReply =
  rp_Accepted :: bool
  rp_SandboxId :: string
  rp_Reason :: string

definition declined :: "string \<Rightarrow> ProvisionReply" where
  "declined why = \<lparr>rp_Accepted = False, rp_SandboxId = '''', rp_Reason = why\<rparr>"

definition accepted :: "string \<Rightarrow> ProvisionReply" where
  "accepted i = \<lparr>rp_Accepted = True, rp_SandboxId = i, rp_Reason = ''''\<rparr>"

text \<open>Looking the request up, and creating when it is new: the two halves of the handler.\<close>

definition Provision_lookup ::
  "('db, 'be, 'g) Deps \<Rightarrow> string \<Rightarrow> ('db, 'be, 'g) Node \<Rightarrow> ProvisionReply option \<times> ('db, 'be, 'g) Node" where
  "Provision_lookup D requestID n =
     (if sv_cordoned (nd_svc n) then (Some (declined ''cordoned''), n)
      else if requestID \<noteq> '''' then
        (let (t, w) = now (dp_env D) (nd_world n); n = set_nd_world w n;
             (hit, d) = dedup_get t requestID (nd_dedup n); n = n\<lparr>nd_dedup := d\<rparr>
         in (map_option accepted hit, n))
      else (None, n))"

definition Provision_create ::
  "('db, 'be, 'g) Deps \<Rightarrow> CreateSandboxRequest option \<Rightarrow> string \<Rightarrow> ('db, 'be, 'g) Node
    \<Rightarrow> (ProvisionReply res \<times> ('db, 'be, 'g) Node) option" where
  "Provision_create D spec requestID n =
     (let sized = (case spec of None \<Rightarrow> CreateSandboxRequest_zero | Some s \<Rightarrow> s) in
      case ProvisionLocal D (toSpec (effectiveSpec sized Resources_zero)) (nd_world n) (nd_git n) of
        None \<Rightarrow> None
      | Some (r, w, g) \<Rightarrow>
          (let n = (set_nd_world w n)\<lparr>nd_git := g\<rparr> in
           case r of
             Inl e \<Rightarrow> Some (if e = ErrNoCapacity then (Inr (declined ''no capacity''), n)
                           else if errors_is e ErrUnknownKit then (Inr (declined ''unknown kit''), n)
                           else (Inl e, n))
           | Inr rec \<Rightarrow>
               let n = (if requestID \<noteq> '''' then
                          (let (t, w) = now (dp_env D) (nd_world n) in
                           (set_nd_world w n)\<lparr>nd_dedup := dedup_put t requestID (r_ID rec) (nd_dedup n)\<rparr>)
                        else n)
               in Some (Inr (accepted (r_ID rec)), n)))"

definition InternalService_Provision ::
  "('db, 'be, 'g) Deps \<Rightarrow> CreateSandboxRequest option \<Rightarrow> string \<Rightarrow> ('db, 'be, 'g) Node
    \<Rightarrow> (ProvisionReply res \<times> ('db, 'be, 'g) Node) option" where
  "InternalService_Provision D spec requestID n =
     (case Provision_lookup D requestID n of
        (Some reply, n) \<Rightarrow> Some (Inr reply, n)
      | (None, n) \<Rightarrow> Provision_create D spec requestID n)"

section \<open>Candidates\<close>

definition self_candidate ::
  "string \<Rightarrow> Config \<Rightarrow> 'be Backend \<Rightarrow> 'db Cluster option \<Rightarrow> bool \<Rightarrow> string list \<Rightarrow> nat \<Rightarrow> ('db, 'be) World \<Rightarrow> Candidate" where
  "self_candidate self cfg bk cl selfCordoned tmpls nrecs w =
     (case Capacity_Limits (w_cap w) of (lc, lm, ld) \<Rightarrow>
      case Capacity_Snapshot (w_cap w) of (ac, am, ad) \<Rightarrow>
        \<lparr>NodeID = self, Workspaces = nameSet (workspaceNames (cf_Workspaces cfg)), Templates = nameSet tmpls,
         Kits = nameSet (be_AdmittedKits bk (w_be w)),
         Capabilities = [(''clone'', True), (''stats'', True), (''exec'', True)], Labels = cf_Labels cfg,
         LimitCPU = lc, LimitMem = lm, LimitDisk = ld, AllocCPU = ac, AllocMem = am, AllocDisk = ad,
         Sandboxes = int nrecs,
         ActualCPU = (case cl of None \<Rightarrow> 0 | Some c \<Rightarrow> ns_ActualCPU (cl_local c)),
         ActualMem = (case cl of None \<Rightarrow> 0 | Some c \<Rightarrow> ns_ActualMem (cl_local c)),
         Cordoned = selfCordoned\<rparr>)"

definition peer_candidate :: "NodeState \<Rightarrow> Candidate" where
  "peer_candidate ns =
     \<lparr>NodeID = ns_NodeID ns, Workspaces = nameSet (ns_Workspaces ns), Templates = nameSet (ns_Templates ns),
      Kits = nameSet (ns_Kits ns), Capabilities = nameSet (ns_Capabilities ns), Labels = ns_Labels ns,
      LimitCPU = ns_LimitCPU ns, LimitMem = ns_LimitMemKB ns, LimitDisk = ns_LimitDiskGB ns,
      AllocCPU = ns_AllocCPU ns, AllocMem = ns_AllocMemKB ns, AllocDisk = ns_AllocDiskGB ns,
      Sandboxes = int (length (ns_OwnedSandboxIDs ns)), ActualCPU = ns_ActualCPU ns, ActualMem = ns_ActualMem ns,
      Cordoned = ns_Cordoned ns\<rparr>"

definition buildCandidates ::
  "string \<Rightarrow> Config \<Rightarrow> ('db, 'be) Env \<Rightarrow> 'db Cluster option \<Rightarrow> bool \<Rightarrow> ('db, 'be) World
    \<Rightarrow> Candidate list \<times> ('db, 'be) World" where
  "buildCandidates self cfg E cl selfCordoned w =
     (let nrecs = (case Manager_List E w of Inl e \<Rightarrow> 0 | Inr recs \<Rightarrow> length recs);
          (r, s) = be_ListTemplates (en_backend E) (w_be w);
          w = w\<lparr>w_be := s\<rparr>;
          tmpls = (case r of Inl e \<Rightarrow> [] | Inr ts \<Rightarrow> ts);
          out = [self_candidate self cfg (en_backend E) cl selfCordoned tmpls nrecs w]
      in (case cl of None \<Rightarrow> out | Some c \<Rightarrow> out @ map peer_candidate (PeerStates c), w))"

section \<open>Placement over a swarm\<close>

text \<open>
  The outcome of one call on the network: it arrives and is answered, it never arrives, or it arrives
  and its answer is lost.  A call that would wait for a workspace lock is an error here; the locks
  are free between operations, as the properties below show.
\<close>

datatype rpc = RpcOk | RpcLostRequest go_error | RpcLostReply go_error

record ('db, 'be, 'g) Swarm =
  sw_nodes :: "string \<Rightarrow> ('db, 'be, 'g) Node option"
  sw_calls :: nat

definition set_node :: "string \<Rightarrow> ('db, 'be, 'g) Node \<Rightarrow> ('db, 'be, 'g) Swarm \<Rightarrow> ('db, 'be, 'g) Swarm" where
  "set_node i n sw = sw\<lparr>sw_nodes := (sw_nodes sw)(i \<mapsto> n)\<rparr>"

definition blocked :: go_error where "blocked = Errf ''waiting for a workspace lock'' []"

definition client_Provision ::
  "(string \<Rightarrow> ('db, 'be, 'g) Deps) \<Rightarrow> (nat \<Rightarrow> rpc) \<Rightarrow> string \<Rightarrow> CreateSandboxRequest \<Rightarrow> string
    \<Rightarrow> ('db, 'be, 'g) Swarm \<Rightarrow> ProvisionReply res \<times> ('db, 'be, 'g) Swarm" where
  "client_Provision Ds net nodeID spec requestID sw =
     (let k = sw_calls sw; sw = sw\<lparr>sw_calls := Suc k\<rparr> in
      case net k of
        RpcLostRequest e \<Rightarrow> (Inl e, sw)
      | outcome \<Rightarrow>
          (case sw_nodes sw nodeID of
             None \<Rightarrow> (Inl (Status Unavailable ''no such node'' [] None), sw)
           | Some n \<Rightarrow>
               (case InternalService_Provision (Ds nodeID) (Some spec) requestID n of
                  None \<Rightarrow> (Inl blocked, sw)
                | Some (r, n') \<Rightarrow>
                    (case outcome of RpcLostReply e \<Rightarrow> (Inl e, set_node nodeID n' sw) | _ \<Rightarrow> (r, set_node nodeID n' sw)))))"

definition callProvisionWithRetry ::
  "(string \<Rightarrow> ('db, 'be, 'g) Deps) \<Rightarrow> (nat \<Rightarrow> rpc) \<Rightarrow> string \<Rightarrow> CreateSandboxRequest \<Rightarrow> string
    \<Rightarrow> ('db, 'be, 'g) Swarm \<Rightarrow> ProvisionReply res \<times> ('db, 'be, 'g) Swarm" where
  "callProvisionWithRetry Ds net nodeID spec requestID sw =
     (case client_Provision Ds net nodeID spec requestID sw of
        (Inl e, sw) \<Rightarrow>
          if requestID \<noteq> '''' then client_Provision Ds net nodeID spec requestID sw else (Inl e, sw)
      | (Inr reply, sw) \<Rightarrow> (Inr reply, sw))"

text \<open>\<open>conn\<close> is the outcome of dialling the peer through the pinned pool.\<close>

definition attemptFor ::
  "(string \<Rightarrow> ('db, 'be, 'g) Deps) \<Rightarrow> (nat \<Rightarrow> rpc) \<Rightarrow> (string \<Rightarrow> string \<Rightarrow> unit res) \<Rightarrow> string
    \<Rightarrow> CreateSandboxRequest \<Rightarrow> string \<Rightarrow> Table \<Rightarrow> ('db, 'be, 'g) Swarm \<Rightarrow> string \<Rightarrow> string res \<times> ('db, 'be, 'g) Swarm" where
  "attemptFor Ds net conn self spec requestID tbl sw nodeID =
     (if nodeID = self then
        (case sw_nodes sw self of
           None \<Rightarrow> (Inl blocked, sw)
         | Some n \<Rightarrow>
             (case ProvisionLocal (Ds self) (toSpec spec) (nd_world n) (nd_git n) of
                None \<Rightarrow> (Inl blocked, sw)
              | Some (r, w, g) \<Rightarrow>
                  (let sw = set_node self ((set_nd_world w n)\<lparr>nd_git := g\<rparr>) sw in
                   case r of
                     Inr rec \<Rightarrow> (Inr (r_ID rec), sw)
                   | Inl e \<Rightarrow>
                       if errors_is e ErrNoCapacity \<or> errors_is e ErrUnknownKit then (Inl ErrNack, sw) else (Inl e, sw))))
      else case Table_Addr tbl nodeID of
        None \<Rightarrow> (Inl ErrNack, sw)
      | Some addr \<Rightarrow>
          (case conn addr nodeID of
             Inl e \<Rightarrow> (Inl ErrNack, sw)
           | Inr _ \<Rightarrow>
               (case callProvisionWithRetry Ds net nodeID spec requestID sw of
                  (Inl e, sw) \<Rightarrow> (Inl e, sw)
                | (Inr reply, sw) \<Rightarrow>
                    if \<not> rp_Accepted reply then (Inl ErrNack, sw) else (Inr (rp_SandboxId reply), sw))))"

text \<open>The placement function that \<^verbatim>\<open>node.New\<close> wires into the sandbox service.\<close>

definition place ::
  "(string \<Rightarrow> 64 word) \<Rightarrow> (string \<Rightarrow> ('db, 'be, 'g) Deps) \<Rightarrow> (nat \<Rightarrow> rpc) \<Rightarrow> (string \<Rightarrow> string \<Rightarrow> unit res) \<Rightarrow> string
    \<Rightarrow> Config \<Rightarrow> Request \<Rightarrow> CreateSandboxRequest \<Rightarrow> ('db, 'be, 'g) Swarm \<Rightarrow> string res \<times> ('db, 'be, 'g) Swarm" where
  "place h Ds net conn self cfg req spec sw =
     (case sw_nodes sw self of
        None \<Rightarrow> (Inl blocked, sw)
      | Some n \<Rightarrow>
          (let cl = sv_cluster (nd_svc n);
               (cands, w) = buildCandidates self cfg (dp_env (Ds self)) cl (sv_cordoned (nd_svc n)) (nd_world n);
               tbl = (case cl of None \<Rightarrow> NewTable self | Some c \<Rightarrow> cl_tbl c);
               req = req\<lparr>rq_Local := self\<rparr>
           in Coordinator_Provision h cands req (attemptFor Ds net conn self spec (rq_RequestID req) tbl)
                (set_node self (set_nd_world w n) sw)))"

section \<open>What provisioning does to a node\<close>

context manager_env
begin

lemma Admit_spec:
  assumes "mgr_inv E w" "binv (w_be w)" "Manager_AdmitAndCreate E spec w = (Inr rec, w')"
  shows "r_Spec rec = spec\<lparr>cs_Name := r_ID rec\<rparr> \<and> status (w_be w) (r_ID rec) = None
    \<and> status (w_be w') = (status (w_be w))(r_ID rec \<mapsto> r_Status rec)"
proof -
  obtain c v where v: "Manager_Create E spec (w\<lparr>w_cap := c\<rparr>) = (Inr rec, v)" "w_be w' = w_be v"
    using assms(3) by (auto simp: Manager_AdmitAndCreate_def Let_def split: prod.splits option.splits sum.splits)
  have "mgr_inv E (w\<lparr>w_cap := c\<rparr>)" using assms(1) mgr_inv_cong[of "w\<lparr>w_cap := c\<rparr>" w E] by simp
  from Create_cases[OF this _ v(1)] assms(2) v(2) show ?thesis by simp
qed

end

text \<open>The outcome of provisioning, as seen from outside: what was added, and that it was allowed.\<close>

definition provisioned ::
  "('db, 'be) Env \<Rightarrow> ('be \<Rightarrow> string \<Rightarrow> string option) \<Rightarrow> CreateSpec \<Rightarrow> ('db, 'be) World \<Rightarrow> Record res \<Rightarrow> ('db, 'be) World \<Rightarrow> bool" where
  "provisioned E status spec w r w' \<longleftrightarrow>
     (case r of
        Inl e \<Rightarrow> records E w' = records E w \<and> Capacity_Snapshot (w_cap w') = Capacity_Snapshot (w_cap w)
      | Inr rec \<Rightarrow>
          within_limits (amount_plus (Capacity_Snapshot (w_cap w)) (cost_amount spec)) (w_cap w)
        \<and> records E w' = (records E w)(r_ID rec \<mapsto> rec)
        \<and> status (w_be w) (r_ID rec) = None \<and> status (w_be w') (r_ID rec) = Some (r_Status rec)
        \<and> (\<exists>b. r_Spec rec = spec\<lparr>cs_Branch := b, cs_Name := r_ID rec\<rparr>))"

lemma provisioned_Admit:
  assumes "manager_env E binv status" "node_ok E binv w" "Manager_AdmitAndCreate E spec w = (r, w')"
  shows "node_ok E binv w' \<and> provisioned E status spec w r w'"
proof -
  note n = assms(2)[unfolded node_ok_def]
  note a = manager_env.Admit_cases[OF assms(1) _ _ _ assms(3)]
  show ?thesis
  proof (cases r)
    case (Inl e)
    then show ?thesis using n a by (simp add: node_ok_def provisioned_def Capacity_Snapshot_def)
  next
    case (Inr rec)
    with manager_env.Admit_spec[OF assms(1) _ _ assms(3)[unfolded Inr]] n a show ?thesis
      by (auto simp: node_ok_def provisioned_def Capacity_Snapshot_def intro!: exI[of _ "cs_Branch spec"])
  qed
qed

lemma provisioned_branch [simp]:
  "provisioned E status (spec\<lparr>cs_Branch := b\<rparr>) w r w' = provisioned E status spec w r w'"
  by (cases r) (simp_all add: provisioned_def cost_amount_def costOf_def)

lemma create_locked_ok:
  assumes "manager_env (dp_env D) binv status" "node_ok (dp_env D) binv w" "gi_locked g = []"
  shows "\<exists>r w' g'. create_locked D gw spec w g = Some (r, w', g') \<and> gi_locked g' = []
    \<and> node_ok (dp_env D) binv w' \<and> provisioned (dp_env D) status spec w r w'"
proof -
  obtain q g1 where p: "PreLock (dp_git D) gw (cs_Branch spec) g = Some (q, g1)"
    "gi_locked g1 = (if q = Inr () then [gs_Name gw] else [])"
    using PreLock_locks[of gw g "dp_git D" "cs_Branch spec"] assms(3) by auto
  obtain r w' where a: "Manager_AdmitAndCreate (dp_env D) spec w = (r, w')" by fastforce
  show ?thesis
  proof (cases q)
    case (Inl e)
    then show ?thesis using p assms(2) by (simp add: create_locked_def provisioned_def)
  next
    case (Inr u)
    with p a provisioned_Admit[OF assms(1,2) a] show ?thesis by (simp add: create_locked_def Unlock_def)
  qed
qed

lemma git_refs_single: "git_refs ws [m] = (case map_of ws (wm_Name m) of None \<Rightarrow> [] | Some s \<Rightarrow> [s])"
  by (simp add: git_refs_def map_filter_simps split: option.split)

lemma git_refs_Nil_iff: "git_refs ws ms = [] \<longleftrightarrow> (\<forall>m \<in> set ms. map_of ws (wm_Name m) = None)"
  by (induction ms) (auto simp: git_refs_def map_filter_simps split: option.splits)

text \<open>A spec whose clone flag agrees with its workspaces.\<close>

definition clone_ok :: "(string, Spec) gomap \<Rightarrow> CreateSpec \<Rightarrow> bool" where
  "clone_ok ws spec \<longleftrightarrow>
     (if cs_Clone spec then \<exists>m. cs_Workspaces spec = [m] \<and> map_of ws (wm_Name m) \<noteq> None
      else \<forall>m \<in> set (cs_Workspaces spec). map_of ws (wm_Name m) = None)"

lemma clone_ok_iff:
  "clone_ok ws spec \<longleftrightarrow>
     (if cs_Clone spec then length (cs_Workspaces spec) = 1 \<and> git_refs ws (cs_Workspaces spec) \<noteq> []
      else git_refs ws (cs_Workspaces spec) = [])"
  by (auto simp: clone_ok_def git_refs_Nil_iff length_Suc_conv)

lemma resolveReviewHead_locks:
  assumes "gi_locked g = []"
  shows "\<exists>b g'. resolveReviewHead D gw i g = Some (b, g') \<and> gi_locked g' = []"
proof (cases "dp_review D gw i")
  case (Inr p)
  obtain f b where p: "p = (f, b)" by fastforce
  obtain q g1 where "FetchRef (dp_git D) gw f b g = Some (q, g1)" "gi_locked g1 = []"
    using FetchRef_locks[of gw g "dp_git D" f b] assms by auto
  then show ?thesis using assms Inr p by (cases q) (auto simp: resolveReviewHead_def)
qed (use assms in \<open>simp add: resolveReviewHead_def\<close>)

lemma ProvisionLocal_ok:
  assumes "manager_env (dp_env D) binv status" "node_ok (dp_env D) binv w" "gi_locked g = []"
  shows "\<exists>r w' g'. ProvisionLocal D spec w g = Some (r, w', g') \<and> gi_locked g' = []
    \<and> node_ok (dp_env D) binv w' \<and> provisioned (dp_env D) status spec w r w'
    \<and> (\<not> clone_ok (dp_ws D) spec \<longrightarrow> (\<exists>m. r = Inl (Status InvalidArgument m [] None)) \<and> w' = w \<and> g' = g)"
proof (cases "clone_ok (dp_ws D) spec")
  case False
  then show ?thesis using assms
    by (auto simp: clone_ok_iff ProvisionLocal_def Let_def provisioned_def split: if_splits)
next
  case ok: True
  show ?thesis
  proof (cases "cs_Clone spec")
    case False
    obtain r w' where a: "Manager_AdmitAndCreate (dp_env D) spec w = (r, w')" by fastforce
    from provisioned_Admit[OF assms(1,2) a] ok False a assms(3) show ?thesis
      by (simp add: ProvisionLocal_def clone_ok_iff)
  next
    case True
    let ?gw = "last (git_refs (dp_ws D) (cs_Workspaces spec))"
    obtain q g1 where e: "EnsureBase (dp_git D) ?gw g = Some (q, g1)" "gi_locked g1 = []"
      using EnsureBase_locks[of ?gw g "dp_git D"] assms(3) by auto
    show ?thesis
    proof (cases q)
      case (Inl x)
      then show ?thesis using e ok True assms(2)
        by (simp add: ProvisionLocal_def clone_ok_iff Let_def provisioned_def)
    next
      case (Inr u)
      have run: "ProvisionLocal D spec w g =
          (case cs_ReviewRef spec of
             None \<Rightarrow> create_locked D ?gw spec w g1
           | Some rr \<Rightarrow> (case resolveReviewHead D ?gw (rr_ID rr) g1 of
               None \<Rightarrow> None
             | Some (Inl e, g) \<Rightarrow> Some (Inl e, w, g)
             | Some (Inr branch, g) \<Rightarrow> create_locked D ?gw (spec\<lparr>cs_Branch := branch\<rparr>) w g))"
        using e ok True Inr by (simp add: ProvisionLocal_def clone_ok_iff Let_def)
      show ?thesis
      proof (cases "cs_ReviewRef spec")
        case None
        then show ?thesis using run create_locked_ok[OF assms(1,2) e(2), of ?gw spec] ok by auto
      next
        case (Some rr)
        obtain b g2 where h: "resolveReviewHead D ?gw (rr_ID rr) g1 = Some (b, g2)" "gi_locked g2 = []"
          using resolveReviewHead_locks[OF e(2)] by blast
        show ?thesis
        proof (cases b)
          case (Inl x)
          then show ?thesis using run Some h assms(2) ok by (simp add: provisioned_def)
        next
          case (Inr branch)
          from create_locked_ok[OF assms(1,2) h(2), of ?gw "spec\<lparr>cs_Branch := branch\<rparr>"] run Some h Inr ok
          show ?thesis by auto
        qed
      qed
    qed
  qed
qed

section \<open>The deduplication cache\<close>

definition dedup_inv :: "dedup \<Rightarrow> bool" where
  "dedup_inv d \<longleftrightarrow> distinct (map fst (dd_m d)) \<and> length (dd_m d) \<le> dd_max d \<and> 0 < dd_max d"

lemma oldest_in: "m \<noteq> [] \<Longrightarrow> oldest None m \<in> fst ` set m"
proof -
  have "oldest (Some (k, t)) m \<in> insert k (fst ` set m)" for k t m
    by (induction "Some (k, t)" m arbitrary: k t rule: oldest.induct) auto
  then show "m \<noteq> [] \<Longrightarrow> ?thesis" by (cases m) (force simp: neq_Nil_conv)+
qed

lemma length_delete_in:
  "distinct (map fst m) \<Longrightarrow> k \<in> fst ` set m \<Longrightarrow> Suc (length (AList.delete k m)) = length m"
proof (induction m)
  case (Cons p m)
  then show ?case by (cases p) (auto simp: delete_notin image_iff)
qed simp

lemma length_update: "length (AList.update k v m) \<le> Suc (length m)"
  by (induction m) auto

lemma dedup_put_inv: "dedup_inv d \<Longrightarrow> dedup_inv (dedup_put t i s d)"
proof -
  assume d: "dedup_inv d"
  let ?m = "filter (\<lambda>(k, e). \<not> time_sub t (de_at e) > dd_ttl d) (dd_m d)"
  let ?m' = "if length ?m \<ge> dd_max d then AList.delete (oldest None ?m) ?m else ?m"
  have m: "distinct (map fst ?m)" "length ?m \<le> dd_max d"
    using d by (auto simp: dedup_inv_def distinct_map_filter intro: le_trans[OF length_filter_le])
  have l: "Suc (length ?m') \<le> dd_max d"
  proof (cases "length ?m \<ge> dd_max d")
    case True
    then have "?m \<noteq> []" using d by (auto simp: dedup_inv_def)
    from length_delete_in[OF m(1) oldest_in[OF this]] True m(2) show ?thesis by simp
  qed simp
  have "distinct (map fst ?m')" using m(1) distinct_delete[OF m(1)] by simp
  then have "distinct (map fst (AList.update i \<lparr>de_sandboxID = s, de_at = t\<rparr> ?m'))" by (rule distinct_update)
  with l length_update[of i "\<lparr>de_sandboxID = s, de_at = t\<rparr>" ?m'] d show ?thesis
    by (simp add: dedup_put_def Let_def dedup_inv_def)
qed

lemma dedup_get_inv: "dedup_inv d \<Longrightarrow> dedup_inv (snd (dedup_get t i d))"
  by (auto simp: dedup_get_def dedup_inv_def distinct_delete split: option.splits
      intro: le_trans[OF length_delete_le])

lemma dedup_put_map: "map_of (dd_m (dedup_put t i s d)) i = Some \<lparr>de_sandboxID = s, de_at = t\<rparr>"
  by (simp add: dedup_put_def Let_def update_conv')

lemma dedup_ttl [simp]:
  "dd_ttl (dedup_put t i s d) = dd_ttl d" "dd_ttl (snd (dedup_get t i d)) = dd_ttl d"
  by (auto simp: dedup_put_def dedup_get_def Let_def split: option.splits)

lemma dedup_get_miss: "map_of (dd_m d) i = None \<Longrightarrow> dedup_get t i d = (None, d)"
  by (simp add: dedup_get_def)

lemma dedup_get_hit:
  "map_of (dd_m d) i = Some e \<Longrightarrow> time_sub t (de_at e) \<le> dd_ttl d \<Longrightarrow> dedup_get t i d = (Some (de_sandboxID e), d)"
  by (simp add: dedup_get_def)

section \<open>One call on the target\<close>

definition nd_ok :: "('db, 'be, 'g) Deps \<Rightarrow> ('be \<Rightarrow> bool) \<Rightarrow> ('db, 'be, 'g) Node \<Rightarrow> bool" where
  "nd_ok D binv n \<longleftrightarrow> node_ok (dp_env D) binv (nd_world n) \<and> gi_locked (nd_git n) = []"

definition nd_records :: "('db, 'be, 'g) Deps \<Rightarrow> ('db, 'be, 'g) Node \<Rightarrow> string \<Rightarrow> Record option" where
  "nd_records D n = records (dp_env D) (nd_world n)"

lemma nd_world_set [simp]:
  "nd_world (set_nd_world w n) = w" "nd_world (n\<lparr>nd_git := g\<rparr>) = nd_world n" "nd_world (n\<lparr>nd_dedup := d\<rparr>) = nd_world n"
  "nd_git (set_nd_world w n) = nd_git n" "nd_dedup (set_nd_world w n) = nd_dedup n"
  "sv_cordoned (nd_svc (set_nd_world w n)) = sv_cordoned (nd_svc n)"
  by (simp_all add: nd_world_def set_nd_world_def)

lemma node_ok_now: "node_ok E binv w \<Longrightarrow> node_ok E binv (snd (now E w))"
  using mgr_inv_cong[of "snd (now E w)" w E] by (simp add: node_ok_def)

lemma records_now [simp]: "records E (snd (now E w)) = records E w"
  by (rule records_cong) simp

lemma lookup_frame:
  assumes "Provision_lookup D rid n = (hit, n')"
  shows "nd_records D n' = nd_records D n \<and> (nd_ok D binv n \<longrightarrow> nd_ok D binv n')
    \<and> sv_cordoned (nd_svc n') = sv_cordoned (nd_svc n) \<and> dd_ttl (nd_dedup n') = dd_ttl (nd_dedup n)
    \<and> (dedup_inv (nd_dedup n) \<longrightarrow> dedup_inv (nd_dedup n'))"
  using assms node_ok_now[of "dp_env D" binv "nd_world n"] dedup_get_inv[of "nd_dedup n"]
    dedup_ttl(2)[of _ rid "nd_dedup n"]
  by (auto simp: Provision_lookup_def nd_records_def nd_ok_def Let_def case_prod_unfold split: if_splits)

lemma lookup_fresh:
  assumes "map_of (dd_m (nd_dedup n)) rid = None" "Provision_lookup D rid n = (hit, n')"
  shows "nd_dedup n' = nd_dedup n \<and> hit = (if sv_cordoned (nd_svc n) then Some (declined ''cordoned'') else None)"
  using assms by (auto simp: Provision_lookup_def Let_def case_prod_unfold dedup_get_miss split: if_splits)

text \<open>The size an unsized request gets on the owner.\<close>

definition sized :: "CreateSandboxRequest option \<Rightarrow> CreateSpec" where
  "sized spec = toSpec (effectiveSpec (case spec of None \<Rightarrow> CreateSandboxRequest_zero | Some s \<Rightarrow> s) Resources_zero)"

lemma sized_floor: "1 \<le> cs_CPUs (sized spec) \<and> 0 < cs_MemoryBytes (sized spec) \<and> 0 < cs_DiskGB (sized spec)"
  by (auto simp: sized_def toSpec_def effectiveSpec_def Let_def Resources_zero_def floorCPUCores_def
      floorMemoryBytes_def floorDiskGB_def)

text \<open>
  What one creation leaves behind, given whether a sandbox was created: the record, the entry in the
  cache with the time of the last clock reading, and an accepting answer; or nothing.
\<close>

definition created ::
  "('db, 'be, 'g) Deps \<Rightarrow> ('be \<Rightarrow> string \<Rightarrow> string option) \<Rightarrow> CreateSandboxRequest option \<Rightarrow> string \<Rightarrow> ('db, 'be, 'g) Node
    \<Rightarrow> ProvisionReply res \<Rightarrow> ('db, 'be, 'g) Node \<Rightarrow> bool" where
  "created D status spec rid n r n' \<longleftrightarrow>
     (\<exists>rec. r = Inr (accepted (r_ID rec)) \<and> nd_records D n' = (nd_records D n)(r_ID rec \<mapsto> rec)
        \<and> provisioned (dp_env D) status (sized spec) (nd_world n) (Inr rec) (nd_world n')
        \<and> (rid \<noteq> '''' \<longrightarrow> (\<exists>i. w_tick (nd_world n') = Suc i
             \<and> map_of (dd_m (nd_dedup n')) rid = Some \<lparr>de_sandboxID = r_ID rec, de_at = en_clock (dp_env D) i\<rparr>)))"

definition refused :: "('db, 'be, 'g) Deps \<Rightarrow> ('db, 'be, 'g) Node \<Rightarrow> ProvisionReply res \<Rightarrow> ('db, 'be, 'g) Node \<Rightarrow> bool" where
  "refused D n r n' \<longleftrightarrow> nd_records D n' = nd_records D n \<and> nd_dedup n' = nd_dedup n
     \<and> (\<forall>reply. r = Inr reply \<longrightarrow> \<not> rp_Accepted reply)"

lemma provisioned_later:
  "w_db w'' = w_db w' \<Longrightarrow> w_be w'' = w_be w' \<Longrightarrow> provisioned E status s w (Inr rec) w'
    \<Longrightarrow> provisioned E status s w (Inr rec) w''"
  using records_cong[of w'' w' E] by (simp add: provisioned_def)

lemma create_outcome:
  assumes "manager_env (dp_env D) binv status" "nd_ok D binv n"
  shows "\<exists>r n'. Provision_create D spec rid n = Some (r, n') \<and> nd_ok D binv n'
    \<and> sv_cordoned (nd_svc n') = sv_cordoned (nd_svc n) \<and> dd_ttl (nd_dedup n') = dd_ttl (nd_dedup n)
    \<and> (dedup_inv (nd_dedup n) \<longrightarrow> dedup_inv (nd_dedup n'))
    \<and> (created D status spec rid n r n' \<or> refused D n r n')"
proof -
  obtain q w g where p: "ProvisionLocal D (sized spec) (nd_world n) (nd_git n) = Some (q, w, g)"
    and g: "gi_locked g = []" and ok: "node_ok (dp_env D) binv w"
    and pr: "provisioned (dp_env D) status (sized spec) (nd_world n) q w"
    using ProvisionLocal_ok[OF assms(1), of "nd_world n" "nd_git n" "sized spec"] assms(2) by (auto simp: nd_ok_def)
  let ?n = "(set_nd_world w n)\<lparr>nd_git := g\<rparr>"
  show ?thesis
  proof (cases q)
    case (Inl e)
    have "records (dp_env D) w = records (dp_env D) (nd_world n)" using pr Inl by (simp add: provisioned_def)
    with p[unfolded sized_def] Inl g ok show ?thesis
      by (auto simp: Provision_create_def Let_def nd_ok_def refused_def nd_records_def declined_def)
  next
    case (Inr rec)
    have r: "records (dp_env D) w = (records (dp_env D) (nd_world n))(r_ID rec \<mapsto> rec)"
      using pr Inr by (simp add: provisioned_def)
    define w2 where "w2 = (if rid \<noteq> '''' then snd (now (dp_env D) w) else w)"
    define n' where "n' = (if rid \<noteq> '''' then (set_nd_world w2 ?n)\<lparr>nd_dedup :=
        dedup_put (en_clock (dp_env D) (w_tick w)) rid (r_ID rec) (nd_dedup n)\<rparr> else ?n)"
    have c: "Provision_create D spec rid n = Some (Inr (accepted (r_ID rec)), n')"
      using p[unfolded sized_def] Inr
      by (simp add: Provision_create_def Let_def n'_def w2_def case_prod_unfold)
    have w2: "nd_world n' = w2" "w_db w2 = w_db w" "w_be w2 = w_be w" by (auto simp: n'_def w2_def)
    have "provisioned (dp_env D) status (sized spec) (nd_world n) (Inr rec) w2"
      using provisioned_later[OF w2(2,3)] pr Inr by blast
    moreover have "records (dp_env D) w2 = (records (dp_env D) (nd_world n))(r_ID rec \<mapsto> rec)"
      using r records_cong[OF w2(2), of "dp_env D"] by simp
    moreover have "w_tick w2 = Suc (w_tick w)" if "rid \<noteq> ''''" using that by (simp add: w2_def now_def)
    moreover have "map_of (dd_m (nd_dedup n')) rid
        = Some \<lparr>de_sandboxID = r_ID rec, de_at = en_clock (dp_env D) (w_tick w)\<rparr>" if "rid \<noteq> ''''"
      using that by (simp add: n'_def dedup_put_map)
    ultimately have cr: "created D status spec rid n (Inr (accepted (r_ID rec))) n'"
      unfolding created_def nd_records_def using w2(1) by (intro exI[of _ rec]) auto
    have "nd_ok D binv n'" using node_ok_now[OF ok] ok g by (auto simp: nd_ok_def n'_def w2_def)
    moreover have "sv_cordoned (nd_svc n') = sv_cordoned (nd_svc n)" "dd_ttl (nd_dedup n') = dd_ttl (nd_dedup n)"
      "dedup_inv (nd_dedup n) \<longrightarrow> dedup_inv (nd_dedup n')"
      using dedup_put_inv[of "nd_dedup n"] by (auto simp: n'_def)
    ultimately show ?thesis using c cr by blast
  qed
qed

lemma Provision_fresh:
  assumes "manager_env (dp_env D) binv status" "nd_ok D binv n" "map_of (dd_m (nd_dedup n)) rid = None"
  shows "\<exists>r n'. InternalService_Provision D spec rid n = Some (r, n') \<and> nd_ok D binv n'
    \<and> dd_ttl (nd_dedup n') = dd_ttl (nd_dedup n) \<and> sv_cordoned (nd_svc n') = sv_cordoned (nd_svc n)
    \<and> (refused D n r n' \<or> \<not> sv_cordoned (nd_svc n) \<and> (\<exists>n1. nd_records D n1 = nd_records D n \<and> created D status spec rid n1 r n'))"
proof -
  obtain hit n1 where l: "Provision_lookup D rid n = (hit, n1)" by fastforce
  note f = lookup_frame[OF l, of binv] lookup_fresh[OF assms(3) l]
  show ?thesis
  proof (cases "sv_cordoned (nd_svc n)")
    case True
    with l f assms(2) show ?thesis by (auto simp: InternalService_Provision_def refused_def declined_def)
  next
    case False
    then have "InternalService_Provision D spec rid n = Provision_create D spec rid n1"
      using l f by (simp add: InternalService_Provision_def)
    with create_outcome[OF assms(1), of n1 spec rid] f assms(2) False show ?thesis by (fastforce simp: refused_def)
  qed
qed

lemma Provision_again:
  assumes "rid \<noteq> ''''" "\<not> sv_cordoned (nd_svc n)" "w_tick (nd_world n) = Suc i"
    and "map_of (dd_m (nd_dedup n)) rid = Some \<lparr>de_sandboxID = s, de_at = en_clock (dp_env D) i\<rparr>"
    and "\<And>i. time_sub (en_clock (dp_env D) (Suc i)) (en_clock (dp_env D) i) \<le> dd_ttl (nd_dedup n)"
  shows "\<exists>n'. InternalService_Provision D spec rid n = Some (Inr (accepted s), n') \<and> nd_records D n' = nd_records D n"
proof -
  have "fst (now (dp_env D) (nd_world n)) = en_clock (dp_env D) (Suc i)" using assms(3) by simp
  then have "Provision_lookup D rid n = (Some (accepted s), (set_nd_world (snd (now (dp_env D) (nd_world n))) n)\<lparr>nd_dedup := nd_dedup n\<rparr>)"
    using assms(1,2) dedup_get_hit[OF assms(4), of "en_clock (dp_env D) (Suc i)"] assms(5)[of i]
    by (simp add: Provision_lookup_def Let_def case_prod_unfold)
  then show ?thesis by (simp add: InternalService_Provision_def nd_records_def)
qed

section \<open>One call over the network\<close>

text \<open>
  A call to a node either leaves its records alone, or adds one record that the answer, when it
  arrives, names.
\<close>

lemma client_fresh:
  assumes "manager_env (dp_env (Ds m)) binv status" "sw_nodes sw m = Some n" "nd_ok (Ds m) binv n"
    and "map_of (dd_m (nd_dedup n)) rid = None" "client_Provision Ds net m spec rid sw = (r, sw')"
  shows "\<exists>n'. sw_nodes sw' = (sw_nodes sw)(m \<mapsto> n') \<and> nd_ok (Ds m) binv n'
    \<and> dd_ttl (nd_dedup n') = dd_ttl (nd_dedup n)
    \<and> ((nd_records (Ds m) n' = nd_records (Ds m) n \<and> map_of (dd_m (nd_dedup n')) rid = None
          \<and> (\<forall>reply. r = Inr reply \<longrightarrow> \<not> rp_Accepted reply))
       \<or> (\<not> sv_cordoned (nd_svc n') \<and> (\<exists>n1 q. nd_records (Ds m) n1 = nd_records (Ds m) n
            \<and> created (Ds m) status (Some spec) rid n1 q n' \<and> (r = q \<or> (\<exists>e. r = Inl e)))))"
proof -
  obtain q n' where p: "InternalService_Provision (Ds m) (Some spec) rid n = Some (q, n')"
    and f: "nd_ok (Ds m) binv n'" "dd_ttl (nd_dedup n') = dd_ttl (nd_dedup n)"
      "sv_cordoned (nd_svc n') = sv_cordoned (nd_svc n)"
      "refused (Ds m) n q n' \<or> \<not> sv_cordoned (nd_svc n) \<and> (\<exists>n1. nd_records (Ds m) n1 = nd_records (Ds m) n
         \<and> created (Ds m) status (Some spec) rid n1 q n')"
    using Provision_fresh[OF assms(1,3,4)] by blast
  show ?thesis
  proof (cases "net (sw_calls sw)")
    case RpcOk
    then have "r = q" "sw_nodes sw' = (sw_nodes sw)(m \<mapsto> n')"
      using assms(2,5) p by (auto simp: client_Provision_def Let_def set_node_def)
    with f assms(4) show ?thesis by (auto simp: refused_def)
  next
    case (RpcLostRequest e)
    then have "r = Inl e" "sw_nodes sw' = (sw_nodes sw)(m \<mapsto> n)"
      using assms(2,5) by (auto simp: client_Provision_def Let_def)
    with assms(3,4) show ?thesis by auto
  next
    case (RpcLostReply e)
    then have "r = Inl e" "sw_nodes sw' = (sw_nodes sw)(m \<mapsto> n')"
      using assms(2,5) p by (auto simp: client_Provision_def Let_def set_node_def)
    with f assms(4) show ?thesis by (auto simp: refused_def)
  qed
qed

text \<open>Repeating a request that created a sandbox finds it in the cache.\<close>

lemma client_again:
  assumes "sw_nodes sw m = Some n" "rid \<noteq> ''''" "\<not> sv_cordoned (nd_svc n)" "created (Ds m) status spec rid n1 q n"
    and "\<And>i. time_sub (en_clock (dp_env (Ds m)) (Suc i)) (en_clock (dp_env (Ds m)) i) \<le> dd_ttl (nd_dedup n)"
    and "client_Provision Ds net m s rid sw = (r, sw')"
  shows "\<exists>n'. sw_nodes sw' = (sw_nodes sw)(m \<mapsto> n') \<and> nd_records (Ds m) n' = nd_records (Ds m) n \<and> (r = q \<or> (\<exists>e. r = Inl e))"
proof -
  obtain rec :: Record where q: "q = Inr (accepted (r_ID rec))"
    and t: "rid \<noteq> '''' \<longrightarrow> (\<exists>i. w_tick (nd_world n) = Suc i
      \<and> map_of (dd_m (nd_dedup n)) rid = Some \<lparr>de_sandboxID = r_ID rec, de_at = en_clock (dp_env (Ds m)) i\<rparr>)"
    using assms(4) unfolding created_def by blast
  obtain i where c: "w_tick (nd_world n) = Suc i"
    "map_of (dd_m (nd_dedup n)) rid = Some \<lparr>de_sandboxID = r_ID rec, de_at = en_clock (dp_env (Ds m)) i\<rparr>"
    using t assms(2) by blast
  obtain n' where p: "InternalService_Provision (Ds m) (Some s) rid n = Some (q, n')"
    "nd_records (Ds m) n' = nd_records (Ds m) n"
    using Provision_again[where D = "Ds m", OF assms(2,3) c assms(5)] q by blast
  show ?thesis
  proof (cases "net (sw_calls sw)")
    case (RpcLostRequest e)
    then have "r = Inl e" "sw_nodes sw' = (sw_nodes sw)(m \<mapsto> n)"
      using assms(1,6) by (auto simp: client_Provision_def Let_def)
    then show ?thesis by auto
  qed (use assms(1,6) p in \<open>auto simp: client_Provision_def Let_def set_node_def\<close>)
qed

text \<open>
  What a call may do to its target: nothing, or one new record; and an acceptance names that record.
\<close>

definition at_most_one ::
  "('db, 'be, 'g) Deps \<Rightarrow> ('db, 'be, 'g) Node \<Rightarrow> ProvisionReply res \<Rightarrow> ('db, 'be, 'g) Node \<Rightarrow> bool" where
  "at_most_one D n r n' \<longleftrightarrow>
     (nd_records D n' = nd_records D n \<or> (\<exists>rec. nd_records D n' = (nd_records D n)(r_ID rec \<mapsto> rec)))
     \<and> (\<forall>reply. r = Inr reply \<and> rp_Accepted reply \<longrightarrow>
          (\<exists>rec. r_ID rec = rp_SandboxId reply \<and> nd_records D n' = (nd_records D n)(r_ID rec \<mapsto> rec)))"

lemma at_most_one_cong:
  "nd_records D n'' = nd_records D n' \<Longrightarrow> at_most_one D n r n' \<Longrightarrow> at_most_one D n r n''"
  by (simp add: at_most_one_def)

lemma created_at_most_one:
  assumes "nd_records D n0 = nd_records D n" "created D status spec rid n0 p n'" "q = p \<or> (\<exists>e. q = Inl e)"
  shows "at_most_one D n q n'"
proof -
  obtain rec where "p = Inr (accepted (r_ID rec))" "nd_records D n' = (nd_records D n)(r_ID rec \<mapsto> rec)"
    using assms(1,2) unfolding created_def by metis
  with assms(3) show ?thesis by (auto simp: at_most_one_def accepted_def)
qed

lemma unchanged_at_most_one:
  "nd_records D n' = nd_records D n \<Longrightarrow> \<forall>reply. q = Inr reply \<longrightarrow> \<not> rp_Accepted reply \<Longrightarrow> at_most_one D n q n'"
  by (auto simp: at_most_one_def)

section \<open>Properties\<close>

text \<open>
  C6: provisioning on the owner.  When no workspace is locked it returns, leaves none locked, and keeps
  the node's invariant.  A request whose clone flag does not match its workspaces (clone mode needs
  exactly one git-backed workspace, otherwise none may be git-backed) is refused and changes nothing.
  Otherwise a success adds exactly one record, for a fresh sandbox that fitted the node's real capacity
  and carries the request's spec up to the resolved branch, and a failure adds none and keeps the usage.
\<close>

theorem ProvisionLocal_correct:
  assumes "manager_env (dp_env D) binv status" and "node_ok (dp_env D) binv w" and "gi_locked g = []"
  shows "\<exists>r w' g'. ProvisionLocal D spec w g = Some (r, w', g') \<and> gi_locked g' = [] \<and> node_ok (dp_env D) binv w'
    \<and> provisioned (dp_env D) status spec w r w'
    \<and> (\<not> clone_ok (dp_ws D) spec \<longrightarrow> (\<exists>m. r = Inl (Status InvalidArgument m [] None)) \<and> w' = w \<and> g' = g)"
  by (rule ProvisionLocal_ok[OF assms])

definition example_deps :: "(mem_db, Fake, nat) Deps" where
  "example_deps = \<lparr>dp_env = mem_env, dp_git = example_host, dp_ws = [], dp_review = (\<lambda>_ _. Inl ErrNotFound)\<rparr>"

definition example_node :: "(mem_db, Fake, nat) Node" where
  "example_node = \<lparr>nd_svc = example_service, nd_git = \<lparr>gi_host = 0, gi_locked = []\<rparr>, nd_dedup = newDedup (5 * minute) 1024\<rparr>"

lemma example_node_facts:
  "manager_env (dp_env example_deps) fake_inv fake_status" "nd_ok example_deps fake_inv example_node"
  "nd_world example_node = mem_world"
proof -
  have w: "sv_world example_service = mem_world" by (simp add: example_service_def boot_NodeService_def NewNodeService_def Let_def)
  then show "nd_world example_node = mem_world" by (simp add: nd_world_def example_node_def)
  then show "nd_ok example_deps fake_inv example_node"
    using mem_world_ok by (simp add: nd_ok_def example_deps_def example_node_def)
qed (simp add: example_deps_def mem_manager_env)

theorem ProvisionLocal_correct_witness:
  "\<exists>m. ProvisionLocal example_deps (small_spec\<lparr>cs_Clone := True\<rparr>) mem_world \<lparr>gi_host = 0, gi_locked = []\<rparr>
     = Some (Inl (Status InvalidArgument m [] None), mem_world, \<lparr>gi_host = 0, gi_locked = []\<rparr>)"
proof -
  have "\<not> clone_ok (dp_ws example_deps) (small_spec\<lparr>cs_Clone := True\<rparr>)"
    by (simp add: clone_ok_def example_deps_def)
  moreover have "node_ok (dp_env example_deps) fake_inv mem_world" using mem_world_ok by (simp add: example_deps_def)
  ultimately show ?thesis
    using ProvisionLocal_correct[OF example_node_facts(1), of mem_world "\<lparr>gi_host = 0, gi_locked = []\<rparr>"
        "small_spec\<lparr>cs_Clone := True\<rparr>"] by force
qed




definition example_swarm :: "(mem_db, Fake, nat) Swarm" where
  "example_swarm = \<lparr>sw_nodes = [''n1'' \<mapsto> example_node], sw_calls = 0\<rparr>"


end
