(* ===== verification/Auth.thy ===== *)
theory Auth
  imports Config Routing
begin

text \<open>
  Authentication and authorisation: the node's identity (\<^verbatim>\<open>internal/identity\<close>), signed sessions and the
  HTTP middleware (\<^verbatim>\<open>internal/auth\<close>), the node-to-node tokens (\<^verbatim>\<open>internal/nodekey\<close>), and the gRPC
  authenticator and authoriser (\<^verbatim>\<open>internal/apiserver/authn.go\<close>, \<^verbatim>\<open>authz.go\<close>, \<^verbatim>\<open>server.go\<close>).  The
  cryptographic functions are parameters; times are exact.  An HTTP handler takes the request and a
  state and gives a response and a state; the role that the middleware puts in the request's context
  is a field of the request.
\<close>

record Crypto =
  cr_hmac :: "string \<Rightarrow> string \<Rightarrow> string"
  cr_sha256 :: "string \<Rightarrow> string"
  cr_hkdf :: "string \<Rightarrow> string res"
  cr_public :: "string \<Rightarrow> string"
  cr_edsign :: "string \<Rightarrow> string \<Rightarrow> string"
  cr_edverify :: "string \<Rightarrow> string \<Rightarrow> string \<Rightarrow> bool"

text \<open>What the code relies on: Ed25519 verifies its own signatures, and keys have 32 bytes.\<close>

definition ed25519_laws :: "Crypto \<Rightarrow> bool" where
  "ed25519_laws C \<longleftrightarrow>
     (\<forall>seed m. cr_edverify C (cr_public C seed) m (cr_edsign C seed m)) \<and> (\<forall>seed. length (cr_public C seed) = 32)"

section \<open>Encodings\<close>

text \<open>\<^verbatim>\<open>base64.RawURLEncoding\<close>: the URL alphabet without padding.\<close>

definition url_char :: "char \<Rightarrow> char" where
  "url_char c = (if c = CHR ''+'' then CHR ''-'' else if c = CHR ''/'' then CHR ''_'' else c)"

definition std_char :: "char \<Rightarrow> char" where
  "std_char c = (if c = CHR ''-'' then CHR ''+'' else if c = CHR ''_'' then CHR ''/'' else c)"

definition b64url_encode :: "string \<Rightarrow> string" where
  "b64url_encode s = map url_char (takeWhile (\<lambda>c. c \<noteq> CHR ''='') (b64_encode s))"

definition b64url_decode :: "string \<Rightarrow> string option" where
  "b64url_decode t =
     (let s = filter (\<lambda>c. byte c \<noteq> 10 \<and> byte c \<noteq> 13) t
      in if CHR ''+'' \<in> set s \<or> CHR ''/'' \<in> set s \<or> CHR ''='' \<in> set s then None
         else b64_groups (map std_char s @ replicate ((4 - length s mod 4) mod 4) (CHR ''='')))"

text \<open>\<^verbatim>\<open>base32.StdEncoding\<close> without padding: groups of five bits, the last one filled with zeros.\<close>

definition byte_bits :: "char \<Rightarrow> bool list" where
  "byte_bits c = map (\<lambda>i. odd (byte c div 2 ^ (7 - i))) [0..<8]"

fun bits_val :: "bool list \<Rightarrow> nat" where
  "bits_val [] = 0"
| "bits_val (b # bs) = (if b then 2 ^ length bs else 0) + bits_val bs"

function quintets :: "bool list \<Rightarrow> nat list" where
  "quintets bs = (if bs = [] then [] else bits_val (take 5 (bs @ replicate 4 False)) # quintets (drop 5 bs))"
  by pat_completeness auto
termination by (relation "measure length") auto

declare quintets.simps [simp del]

definition b32_alphabet :: string where
  "b32_alphabet = ''ABCDEFGHIJKLMNOPQRSTUVWXYZ234567''"

definition b32_encode :: "string \<Rightarrow> string" where
  "b32_encode s = map (\<lambda>n. b32_alphabet ! n) (quintets (concat (map byte_bits s)))"

section \<open>Node identity\<close>

definition DeriveNodeID :: "Crypto \<Rightarrow> string \<Rightarrow> string" where
  "DeriveNodeID C pub = to_lower (b32_encode (take 10 (cr_sha256 C pub)))"

record Identity =
  id_PublicKey :: string
  id_PrivateKey :: string
  id_NodeID :: string

text \<open>
  The host's files are a map; \<open>read\<close> and \<open>mkdir\<close> are the errors of the call, if any, \<open>random\<close> the
  outcome of reading the random source, and \<open>wr\<close> the error of the write with the number of bytes
  that were written before it.
\<close>

definition keyFileName :: string where "keyFileName = ''node.key''"

definition LoadOrCreate ::
  "Crypto \<Rightarrow> go_error option \<Rightarrow> string res \<Rightarrow> go_error option \<Rightarrow> (go_error \<times> nat) option \<Rightarrow> string
    \<Rightarrow> (string \<rightharpoonup> string) \<Rightarrow> Identity res \<times> (string \<rightharpoonup> string)" where
  "LoadOrCreate C read random mkdir wr dir fs =
     (let path = path_Join [dir, keyFileName];
          loaded = (\<lambda>seed. let pub = cr_public C seed
                           in \<lparr>id_PublicKey = pub, id_PrivateKey = seed, id_NodeID = DeriveNodeID C pub\<rparr>)
      in case read of
           Some e \<Rightarrow> (Inl (Wrapf ''read node key: %w'' [] e), fs)
         | None \<Rightarrow>
             (case fs path of
                None \<Rightarrow>
                  (case random of
                     Inl e \<Rightarrow> (Inl (Wrapf ''generate node key: %w'' [] e), fs)
                   | Inr seed \<Rightarrow>
                       (case mkdir of
                          Some e \<Rightarrow> (Inl (Wrapf ''create data dir: %w'' [] e), fs)
                        | None \<Rightarrow>
                            (case wr of
                               Some (e, n) \<Rightarrow> (Inl (Wrapf ''write node key: %w'' [] e), fs(path \<mapsto> take n seed))
                             | None \<Rightarrow> (Inr (loaded seed), fs(path \<mapsto> seed)))))
              | Some seed \<Rightarrow>
                  if length seed \<noteq> 32
                  then (Inl (Errf ''node key file %s has wrong size %d'' [path, dec_digits (length seed)]), fs)
                  else (Inr (loaded seed), fs)))"

section \<open>Sessions\<close>

definition unix :: "gotime \<Rightarrow> int" where
  "unix t = t div second"

definition sign :: "Crypto \<Rightarrow> string \<Rightarrow> string \<Rightarrow> string" where
  "sign C key payload = b64url_encode (cr_hmac C key payload)"

definition Mint :: "Crypto \<Rightarrow> string \<Rightarrow> string \<Rightarrow> gotime \<Rightarrow> string" where
  "Mint C key role expiry =
     (let payload = role @ ''|'' @ format_int (unix expiry) in payload @ ''|'' @ sign C key payload)"

definition Signer_Verify :: "Crypto \<Rightarrow> string \<Rightarrow> gotime \<Rightarrow> string \<Rightarrow> string res" where
  "Signer_Verify C key t token =
     (case split_on (CHR ''|'') token of
        [role, expS, mac] \<Rightarrow>
          if mac \<noteq> sign C key (role @ ''|'' @ expS) then Inl (Errf ''bad session signature'' [])
          else (case parse_int64 expS of
                  None \<Rightarrow> Inl (Wrapf ''bad expiry: %w'' [] (Errf ''invalid syntax'' [expS]))
                | Some e \<Rightarrow> if e * second < t then Inl (Errf ''session expired'' []) else Inr role)
      | _ \<Rightarrow> Inl (Errf ''malformed session token'' []))"

text \<open>\<open>None\<close> is the panic on a failing key derivation.\<close>

definition DeriveSessionKey :: "Crypto \<Rightarrow> string \<Rightarrow> string \<Rightarrow> string option" where
  "DeriveSessionKey C clusterSecret nodeSeed =
     (if clusterSecret = '''' then Some nodeSeed
      else case cr_hkdf C clusterSecret of Inl _ \<Rightarrow> None | Inr key \<Rightarrow> Some key)"

section \<open>Node-to-node tokens\<close>

definition payload :: "string \<Rightarrow> string \<Rightarrow> int \<Rightarrow> string" where
  "payload callerID targetID u = callerID @ ''|'' @ targetID @ ''|'' @ format_int u"

definition nodekey_Sign :: "Crypto \<Rightarrow> string \<Rightarrow> string \<Rightarrow> string \<Rightarrow> gotime \<Rightarrow> string" where
  "nodekey_Sign C priv callerID targetID t =
     callerID @ ''.'' @ targetID @ ''.'' @ format_int (unix t) @ ''.''
       @ b64url_encode (cr_edsign C priv (payload callerID targetID (unix t)))"

definition nodekey_Verify ::
  "Crypto \<Rightarrow> string \<Rightarrow> string \<Rightarrow> (string \<Rightarrow> string option) \<Rightarrow> gotime \<Rightarrow> int \<Rightarrow> (string \<Rightarrow> bool) option \<Rightarrow> string res" where
  "nodekey_Verify C token expectedTarget pubkeyFor t skew denied =
     (case split_on (CHR ''.'') token of
        [callerID, targetID, unixStr, sigB64] \<Rightarrow>
          if targetID \<noteq> expectedTarget then Inl (Errf ''nodekey: wrong audience %q'' [targetID])
          else if (case denied of None \<Rightarrow> False | Some d \<Rightarrow> d callerID) then Inl (Errf ''nodekey: node %s is denied'' [callerID])
          else (case pubkeyFor callerID of
                  None \<Rightarrow> Inl (Errf ''nodekey: unknown peer %s'' [callerID])
                | Some pub \<Rightarrow>
                    if length pub \<noteq> 32 \<or> DeriveNodeID C pub \<noteq> callerID then Inl (Errf ''nodekey: pubkey does not match node id'' [])
                    else (case parse_int64 unixStr of
                            None \<Rightarrow> Inl (Wrapf ''nodekey: bad timestamp: %w'' [] (Errf ''invalid syntax'' [unixStr]))
                          | Some u \<Rightarrow>
                              let d = time_sub t (u * second)
                              in if skew < d \<or> d < - skew then Inl (Errf ''nodekey: stale token'' [])
                                 else (case b64url_decode sigB64 of
                                         None \<Rightarrow> Inl (Wrapf ''nodekey: bad signature encoding: %w'' [] (Errf ''illegal base64 data'' []))
                                       | Some sig \<Rightarrow>
                                           if \<not> cr_edverify C pub (payload callerID targetID u) sig
                                           then Inl (Errf ''nodekey: signature verification failed'' [])
                                           else Inr callerID)))
      | _ \<Rightarrow> Inl (Errf ''nodekey: malformed token'' []))"

section \<open>The HTTP middleware\<close>

record HTTPRequest =
  rq_Method :: string
  rq_Path :: string
  rq_Query :: "(string, string) gomap"
  rq_Header :: "(string, string) gomap"
  rq_Cookies :: "(string, string) gomap"
  rq_Body :: string
  rq_TLS :: bool
  rq_ProtoMajor :: nat
  rq_role :: "string option"

record Response =
  rs_Code :: nat
  rs_Header :: "(string, string) gomap"
  rs_Cookies :: "(string \<times> string \<times> bool) list"
  rs_Body :: string

type_synonym 's handler = "HTTPRequest \<Rightarrow> 's \<Rightarrow> Response \<times> 's"

definition http_Error :: "string \<Rightarrow> nat \<Rightarrow> 's \<Rightarrow> Response \<times> 's" where
  "http_Error msg code s = (\<lparr>rs_Code = code, rs_Header = [], rs_Cookies = [], rs_Body = msg\<rparr>, s)"

text \<open>\<^verbatim>\<open>Header.Get\<close> and \<^verbatim>\<open>Query().Get\<close> give the empty string for a missing key.\<close>

definition Get :: "(string, string) gomap \<Rightarrow> string \<Rightarrow> string" where
  "Get m k = (case map_of m k of None \<Rightarrow> '''' | Some v \<Rightarrow> v)"

definition SessionCookie :: string where "SessionCookie = ''sbx_session''"
definition CSRFCookie :: string where "CSRFCookie = ''sbx_csrf''"
definition CSRFHeader :: string where "CSRFHeader = ''X-CSRF-Token''"

definition isSafeMethod :: "string \<Rightarrow> bool" where
  "isSafeMethod m \<longleftrightarrow> m = ''GET'' \<or> m = ''HEAD'' \<or> m = ''OPTIONS''"

definition csrfOK :: "HTTPRequest \<Rightarrow> bool" where
  "csrfOK r =
     (case map_of (rq_Cookies r) CSRFCookie of
        None \<Rightarrow> False
      | Some v \<Rightarrow> v \<noteq> '''' \<and> v = Get (rq_Header r) CSRFHeader)"

definition Authenticate ::
  "Crypto \<Rightarrow> (string \<Rightarrow> string option) \<Rightarrow> string \<Rightarrow> gotime \<Rightarrow> 's handler \<Rightarrow> 's handler" where
  "Authenticate C keys key t next r s =
     (let h = Get (rq_Header r) ''Authorization''
      in if prefix ''Bearer '' h then
           (case keys (trim_prefix h ''Bearer '') of
              Some role \<Rightarrow> next (r\<lparr>rq_role := Some role\<rparr>) s
            | None \<Rightarrow> http_Error ''invalid bearer token'' 401 s)
         else (case map_of (rq_Cookies r) SessionCookie of
                 Some v \<Rightarrow>
                   (case Signer_Verify C key t v of
                      Inl _ \<Rightarrow> http_Error ''invalid session'' 401 s
                    | Inr role \<Rightarrow>
                        if \<not> isSafeMethod (rq_Method r) \<and> \<not> csrfOK r then http_Error ''csrf check failed'' 403 s
                        else next (r\<lparr>rq_role := Some role\<rparr>) s)
               | None \<Rightarrow> http_Error ''authentication required'' 401 s))"

definition RequireRole :: "string \<Rightarrow> 's handler \<Rightarrow> 's handler" where
  "RequireRole role next r s =
     (case rq_role r of
        None \<Rightarrow> http_Error ''authentication required'' 401 s
      | Some got \<Rightarrow> if got \<noteq> role \<and> got \<noteq> ''admin'' then http_Error ''forbidden'' 403 s else next r s)"

section \<open>The gRPC authenticator\<close>

record principal =
  pr_userRole :: string
  pr_node :: bool

definition authenticated :: "principal \<Rightarrow> bool" where
  "authenticated p \<longleftrightarrow> pr_userRole p \<noteq> '''' \<or> pr_node p"

type_synonym MD = "(string, string list) gomap"

definition first_md :: "MD \<Rightarrow> string \<Rightarrow> string" where
  "first_md md key = (case map_of md key of Some (v # _) \<Rightarrow> v | _ \<Rightarrow> '''')"

definition MetadataKey :: string where "MetadataKey = ''x-sbx-node-auth''"

text \<open>\<open>au_PubKeyFor\<close> and \<open>au_Denied\<close> are \<open>None\<close> for nil.\<close>

record authnDeps =
  au_Signer :: string
  au_Keys :: "string \<Rightarrow> string option"
  au_LocalNodeID :: string
  au_PubKeyFor :: "(string \<Rightarrow> string option) option"
  au_Denied :: "(string \<Rightarrow> bool) option"
  au_Skew :: int

definition newAuthenticator :: "authnDeps \<Rightarrow> authnDeps" where
  "newAuthenticator d = (if au_Skew d = 0 then d\<lparr>au_Skew := 30 * second\<rparr> else d)"

definition isUserRole :: "string \<Rightarrow> bool" where
  "isUserRole role \<longleftrightarrow> role = ''admin'' \<or> role = ''read-only''"

definition authz_role :: "Crypto \<Rightarrow> authnDeps \<Rightarrow> gotime \<Rightarrow> MD \<Rightarrow> string option" where
  "authz_role C d t md =
     (let v = first_md md ''x-sbx-authz''
      in if v \<noteq> '''' then
           (case Signer_Verify C (au_Signer d) t v of Inr role \<Rightarrow> if isUserRole role then Some role else None | Inl _ \<Rightarrow> None)
         else None)"

definition key_role :: "authnDeps \<Rightarrow> MD \<Rightarrow> string option" where
  "key_role d md =
     (let v = first_md md ''authorization'' in if v \<noteq> '''' then au_Keys d (trim_prefix v ''Bearer '') else None)"

definition node_caller :: "Crypto \<Rightarrow> authnDeps \<Rightarrow> gotime \<Rightarrow> MD \<Rightarrow> string option" where
  "node_caller C d t md =
     (let v = first_md md MetadataKey
      in case au_PubKeyFor d of
           None \<Rightarrow> None
         | Some pk \<Rightarrow>
             if v \<noteq> '''' then
               (case nodekey_Verify C v (au_LocalNodeID d) pk t (au_Skew d) (au_Denied d) of
                  Inr c \<Rightarrow> Some c | Inl _ \<Rightarrow> None)
             else None)"

definition authenticate :: "Crypto \<Rightarrow> authnDeps \<Rightarrow> gotime \<Rightarrow> MD \<Rightarrow> principal res" where
  "authenticate C d t md =
     (case authz_role C d t md of
        Some role \<Rightarrow> Inr \<lparr>pr_userRole = role, pr_node = False\<rparr>
      | None \<Rightarrow>
          (case key_role d md of
             Some role \<Rightarrow> Inr \<lparr>pr_userRole = role, pr_node = False\<rparr>
           | None \<Rightarrow>
               (case node_caller C d t md of
                  Some _ \<Rightarrow> Inr \<lparr>pr_userRole = '''', pr_node = True\<rparr>
                | None \<Rightarrow> Inl (Status Unauthenticated ''authentication required'' [] None))))"

text \<open>
  The interceptors: \<open>next\<close> is the rest of the chain, given the principal that the context carries.
  The streaming ones have the same bodies.
\<close>

definition authn_interceptor ::
  "Crypto \<Rightarrow> authnDeps \<Rightarrow> gotime \<Rightarrow> MD \<Rightarrow> (principal \<Rightarrow> 's \<Rightarrow> 'r res \<times> 's) \<Rightarrow> 's \<Rightarrow> 'r res \<times> 's" where
  "authn_interceptor C d t md next s = (case authenticate C d t md of Inl e \<Rightarrow> (Inl e, s) | Inr p \<Rightarrow> next p s)"

section \<open>Authorisation\<close>

definition svc :: "string \<Rightarrow> string list \<Rightarrow> string list" where
  "svc name ms = map (\<lambda>m. ''/sbxswarm.v1.'' @ name @ ''/'' @ m) ms"

definition mutatingMethods :: "string list" where
  "mutatingMethods =
     svc ''SandboxService''
       [''CreateSandbox'', ''DeleteSandbox'', ''StartSandbox'', ''StopSandbox'', ''Exec'', ''WriteFiles'', ''AgentRun'',
        ''PublishPort'', ''UnpublishPort'', ''SaveTemplate'', ''PublishSandbox'', ''PublishWork'', ''ReadReview'',
        ''ResolveThreads'', ''ListBranches'', ''KeepAlive'']
     @ svc ''PolicyService'' [''SetPolicy'', ''DeletePolicyRule'', ''SetSecret'', ''DeleteSecret'', ''DeleteStoredSecret'']
     @ svc ''NodeService'' [''Cordon'', ''Uncordon'', ''Drain'', ''RevokeNode'', ''RemoveTemplate'']"

definition internalMethods :: "string list" where
  "internalMethods = svc ''InternalService'' [''Provision'']"

definition readMethods :: "string list" where
  "readMethods =
     svc ''SandboxService'' [''GetSandbox'', ''ListSandboxes'', ''ListPorts'', ''GetStats'', ''ListBlocked'']
     @ svc ''NodeService'' [''GetNodeInfo'', ''ListRevoked'']
     @ svc ''PolicyService'' [''ListPolicy'', ''CheckPolicy'', ''ListSecrets'']
     @ svc ''EventService'' [''WatchEvents''] @ svc ''SandboxService'' [''ListOperations'']
     @ svc ''NodeService'' [''ListNodes'', ''ListTemplates'']"

definition classified :: "string \<Rightarrow> bool" where
  "classified m \<longleftrightarrow> m \<in> set mutatingMethods \<or> m \<in> set readMethods \<or> m \<in> set internalMethods"

definition authorize :: "string \<Rightarrow> principal \<Rightarrow> unit res" where
  "authorize fullMethod p =
     (if \<not> authenticated p then Inl (Status Unauthenticated ''authentication required'' [] None)
      else if fullMethod \<in> set internalMethods then
        (if pr_node p then Inr () else Inl (Status PermissionDenied ''method %s requires a swarm node'' [fullMethod] None))
      else if fullMethod \<in> set readMethods then Inr ()
      else if pr_userRole p = ''admin'' then Inr ()
      else Inl (Status PermissionDenied ''method %s requires admin'' [fullMethod] None))"

definition authz_interceptor :: "string \<Rightarrow> (principal \<Rightarrow> 's \<Rightarrow> 'r res \<times> 's) \<Rightarrow> principal \<Rightarrow> 's \<Rightarrow> 'r res \<times> 's" where
  "authz_interceptor fullMethod next p s = (case authorize fullMethod p of Inl e \<Rightarrow> (Inl e, s) | Inr _ \<Rightarrow> next p s)"

section \<open>The REST bridge and the session exchange\<close>

definition roleAnnotator :: "Crypto \<Rightarrow> string \<Rightarrow> gotime \<Rightarrow> HTTPRequest \<Rightarrow> MD" where
  "roleAnnotator C key t r =
     (case rq_role r of None \<Rightarrow> [] | Some role \<Rightarrow> [(''x-sbx-authz'', [Mint C key role (t + 30 * second)])])"

definition incomingHeaderMatcher :: "(string \<Rightarrow> string option) \<Rightarrow> string \<Rightarrow> string option" where
  "incomingHeaderMatcher defaultMatcher key =
     (if to_lower key = ''idempotency-key'' then Some ''idempotency-key'' else defaultMatcher key)"

definition trimBearer :: "string \<Rightarrow> string" where
  "trimBearer h = (if 7 < length h \<and> take 7 h = ''Bearer '' then drop 7 h else h)"

definition sessionHandler :: "Crypto \<Rightarrow> (string \<Rightarrow> string option) \<Rightarrow> string \<Rightarrow> gotime \<Rightarrow> 's handler" where
  "sessionHandler C keys key t r s =
     (if rq_Method r \<noteq> ''POST'' then http_Error ''method not allowed'' 405 s
      else case keys (trimBearer (Get (rq_Header r) ''Authorization'')) of
             None \<Rightarrow> http_Error ''invalid key'' 401 s
           | Some role \<Rightarrow>
               (\<lparr>rs_Code = 204, rs_Header = [],
                 rs_Cookies = [(SessionCookie, Mint C key role (t + 12 * 60 * minute), rq_TLS r),
                               (CSRFCookie, Mint C key ''csrf'' (t + 12 * 60 * minute), rq_TLS r)],
                 rs_Body = ''''\<rparr>, s))"

section \<open>Encoding lemmas\<close>

lemma url_table:
  "\<forall>n \<in> set [0..<64]. b64_char n \<noteq> CHR ''='' \<and> std_char (url_char (b64_char n)) = b64_char n
     \<and> url_char (b64_char n) \<notin> {CHR ''+'', CHR ''/'', CHR ''='', CHR ''|'', CHR ''.''}
     \<and> byte (url_char (b64_char n)) \<noteq> 10 \<and> byte (url_char (b64_char n)) \<noteq> 13"
  by code_simp

lemma b64_split:
  "\<exists>ns. (\<forall>n \<in> set ns. n < 64)
     \<and> b64_encode s = map b64_char ns @ replicate ((4 - length ns mod 4) mod 4) (CHR ''='')"
proof (induction s rule: b64_encode.induct)
  case (2 a)
  show ?case by (rule exI[of _ "[byte a div 4, byte a mod 4 * 16]"]) (simp add: sextets numeral_2_eq_2)
next
  case (3 a b)
  show ?case
    by (rule exI[of _ "[byte a div 4, byte a mod 4 * 16 + byte b div 16, byte b mod 16 * 4]"]) (simp add: sextets)
next
  case (4 a b c r)
  then obtain ns where "\<forall>n \<in> set ns. n < 64"
    "b64_encode r = map b64_char ns @ replicate ((4 - length ns mod 4) mod 4) (CHR ''='')" by blast
  then show ?case
    by (intro exI[of _ "[byte a div 4, byte a mod 4 * 16 + byte b div 16, byte b mod 16 * 4 + byte c div 64, byte c mod 64] @ ns"])
      (simp add: sextets)
qed simp

lemma b64url_split:
  "\<exists>ns. (\<forall>n \<in> set ns. n < 64) \<and> b64url_encode s = map (\<lambda>n. url_char (b64_char n)) ns
     \<and> b64_encode s = map b64_char ns @ replicate ((4 - length ns mod 4) mod 4) (CHR ''='')"
proof -
  obtain ns where n: "\<forall>n \<in> set ns. n < 64"
    "b64_encode s = map b64_char ns @ replicate ((4 - length ns mod 4) mod 4) (CHR ''='')"
    using b64_split[of s] by blast
  have "b64_char n \<noteq> CHR ''=''" if "n \<in> set ns" for n using that n(1) url_table by simp
  then have "takeWhile (\<lambda>c. c \<noteq> CHR ''='') (b64_encode s) = map b64_char ns"
    unfolding n(2) by (subst takeWhile_append2) (auto simp: takeWhile_replicate)
  then have "b64url_encode s = map (\<lambda>n. url_char (b64_char n)) ns" by (simp add: b64url_encode_def)
  with n show ?thesis by blast
qed

lemma b64url_chars:
  assumes "c \<in> set (b64url_encode s)"
  shows "c \<notin> {CHR ''+'', CHR ''/'', CHR ''='', CHR ''|'', CHR ''.''} \<and> byte c \<noteq> 10 \<and> byte c \<noteq> 13"
proof -
  obtain ns where "\<forall>n \<in> set ns. n < 64" "b64url_encode s = map (\<lambda>n. url_char (b64_char n)) ns"
    using b64url_split[of s] by blast
  with assms url_table show ?thesis by auto
qed

lemma b64url_plain [simp]: "CHR ''|'' \<notin> set (b64url_encode s)" "CHR ''.'' \<notin> set (b64url_encode s)"
  using b64url_chars by blast+

lemma b64url_decode_encode [simp]: "b64url_decode (b64url_encode s) = Some s"
proof -
  obtain ns where n: "\<forall>n \<in> set ns. n < 64" "b64url_encode s = map (\<lambda>n. url_char (b64_char n)) ns"
    "b64_encode s = map b64_char ns @ replicate ((4 - length ns mod 4) mod 4) (CHR ''='')"
    using b64url_split[of s] by blast
  have f: "filter (\<lambda>c. byte c \<noteq> 10 \<and> byte c \<noteq> 13) (b64url_encode s) = b64url_encode s"
    using b64url_chars by (simp add: filter_id_conv)
  have g: "CHR ''+'' \<notin> set (b64url_encode s)" "CHR ''/'' \<notin> set (b64url_encode s)" "CHR ''='' \<notin> set (b64url_encode s)"
    using b64url_chars by blast+
  have "map std_char (b64url_encode s) = map b64_char ns" using n(1) url_table unfolding n(2) by simp
  moreover have "length (b64url_encode s) = length ns" using n(2) by simp
  ultimately show ?thesis
    using f g b64_groups_encode[of s] n(3) by (simp add: b64url_decode_def Let_def)
qed

lemma bits_val_less: "bits_val bs < 2 ^ length bs"
  by (induction bs) auto

lemma quintets_less: "n \<in> set (quintets bs) \<Longrightarrow> n < 32"
proof (induction bs rule: quintets.induct)
  case (1 bs)
  have "bits_val (take 5 (bs @ replicate 4 False)) < 32" if "bs \<noteq> []"
    using bits_val_less[of "take 5 (bs @ replicate 4 False)"] that by (cases bs) (simp_all add: min_def split: if_splits)
  with 1 show ?case by (subst (asm) (2) quintets.simps) (auto split: if_splits)
qed

lemma b32_table:
  "\<forall>n \<in> set [0..<32]. to_lower_char (b32_alphabet ! n) \<notin> {CHR ''.'', CHR ''|''}"
  by code_simp

lemma DeriveNodeID_plain [simp]:
  "CHR ''.'' \<notin> set (DeriveNodeID C pub)" "CHR ''|'' \<notin> set (DeriveNodeID C pub)"
  using b32_table quintets_less by (fastforce simp: DeriveNodeID_def to_lower_def b32_encode_def)+

section \<open>Session lemmas\<close>

lemma sign_plain [simp]: "CHR ''|'' \<notin> set (sign C key p)"
  by (simp add: sign_def)

lemma split_three: "c \<notin> set a \<Longrightarrow> c \<notin> set b \<Longrightarrow> c \<notin> set d \<Longrightarrow> split_on c (a @ c # b @ c # d) = [a, b, d]"
  by (simp add: go_simps)

lemma Verify_Mint:
  assumes "CHR ''|'' \<notin> set role" "min_int64 \<le> unix e" "unix e \<le> max_int64"
  shows "Signer_Verify C key t (Mint C key role e) = (if unix e * second < t then Inl (Errf ''session expired'' []) else Inr role)"
  using assms split_three[of "CHR ''|''" role "format_int (unix e)" "sign C key (role @ ''|'' @ format_int (unix e))"]
  by (simp add: Signer_Verify_def Mint_def Let_def)

text \<open>An accepted token is a signed payload with the role it gives and an expiry that has not passed.\<close>

lemma Verify_Inr:
  assumes "Signer_Verify C key t token = Inr role"
  shows "\<exists>s e. token = role @ ''|'' @ s @ ''|'' @ sign C key (role @ ''|'' @ s) \<and> parse_int64 s = Some e \<and> t \<le> e * second"
proof -
  obtain s m where p: "split_on (CHR ''|'') token = [role, s, m]" and m: "m = sign C key (role @ ''|'' @ s)"
    and e: "\<exists>e. parse_int64 s = Some e \<and> t \<le> e * second"
    using assms by (auto simp: Signer_Verify_def not_less split: list.splits if_splits option.splits)
  have "token = role @ ''|'' @ s @ ''|'' @ m" using join_split_on[of "CHR ''|''" token] by (simp add: p)
  with m e show ?thesis by blast
qed

section \<open>Node token lemmas\<close>

lemma split_four:
  "c \<notin> set a \<Longrightarrow> c \<notin> set b \<Longrightarrow> c \<notin> set d \<Longrightarrow> c \<notin> set e \<Longrightarrow> split_on c (a @ c # b @ c # d @ c # e) = [a, b, d, e]"
  by (simp add: go_simps)

lemma nodekey_Verify_Sign:
  assumes "ed25519_laws C" "pubkeyFor caller = Some (cr_public C seed)" "caller = DeriveNodeID C (cr_public C seed)"
    and "CHR ''.'' \<notin> set target" "min_int64 \<le> unix t" "unix t \<le> max_int64"
  shows "nodekey_Verify C (nodekey_Sign C seed caller target t) me pubkeyFor t' skew denied =
     (if target \<noteq> me then Inl (Errf ''nodekey: wrong audience %q'' [target])
      else if (\<exists>d. denied = Some d \<and> d caller) then Inl (Errf ''nodekey: node %s is denied'' [caller])
      else if \<bar>time_sub t' (unix t * second)\<bar> \<le> skew then Inr caller
      else Inl (Errf ''nodekey: stale token'' []))"
proof -
  let ?sig = "b64url_encode (cr_edsign C seed (payload caller target (unix t)))"
  have "split_on (CHR ''.'') (nodekey_Sign C seed caller target t) = [caller, target, format_int (unix t), ?sig]"
    using split_four[of "CHR ''.''" caller target "format_int (unix t)" ?sig] assms(3,4) by (simp add: nodekey_Sign_def)
  with assms show ?thesis
    by (auto simp: nodekey_Verify_def ed25519_laws_def abs_le_iff not_less Let_def split: option.splits)
qed

lemma nodekey_Verify_Inr:
  assumes "nodekey_Verify C token me pubkeyFor t skew denied = Inr caller"
  shows "(\<forall>d. denied = Some d \<longrightarrow> \<not> d caller) \<and> (\<exists>pub sig u. pubkeyFor caller = Some pub \<and> DeriveNodeID C pub = caller
    \<and> cr_edverify C pub (payload caller me u) sig \<and> - skew \<le> time_sub t (u * second) \<and> time_sub t (u * second) \<le> skew)"
  using assms
  by (auto simp: nodekey_Verify_def not_less Let_def split: list.splits if_splits option.splits)
lemma authenticate_Inr:
  assumes "authenticate C d t md = Inr p"
  shows "authenticated p \<or> key_role d md = Some ''''" "pr_node p \<Longrightarrow> pr_userRole p = '''' \<and> (\<exists>c. node_caller C d t md = Some c)"
    "\<not> pr_node p \<Longrightarrow> authz_role C d t md = Some (pr_userRole p) \<or> key_role d md = Some (pr_userRole p)"
  using assms
  by (auto simp: authenticate_def authenticated_def authz_role_def isUserRole_def Let_def
      split: option.splits if_splits sum.splits)

lemma method_classes:
  "list_all (\<lambda>m. m \<notin> set readMethods \<and> m \<notin> set internalMethods) mutatingMethods"
  "list_all (\<lambda>m. m \<notin> set internalMethods) readMethods"
  by code_simp+

lemmas method_disjoint = method_classes[unfolded list_all_iff, rule_format]

lemma authorize_Inr_iff:
  "authorize m p = Inr () \<longleftrightarrow> authenticated p \<and>
     (if m \<in> set internalMethods then pr_node p else m \<in> set readMethods \<or> pr_userRole p = ''admin'')"
  by (simp add: authorize_def)

section \<open>Properties\<close>

text \<open>
  Logging in.  Exchanging a known API key gives two cookies, and a later request that carries them
  (with the CSRF value repeated in its header) is passed on with the key's role, whatever its method,
  as long as the session's whole seconds have not run out; after that it is refused.
\<close>

theorem session_login_roundtrip:
  assumes "keys k = Some role" and "k \<noteq> ''''" and "CHR ''|'' \<notin> set role"
    and "min_int64 \<le> unix (t + 12 * 60 * minute)" and "unix (t + 12 * 60 * minute) \<le> max_int64"
    and "rq_Method r = ''POST''" and "Get (rq_Header r) ''Authorization'' = ''Bearer '' @ k"
  shows "\<exists>tok csrf. rs_Cookies (fst (sessionHandler C keys key t r s)) = [(SessionCookie, tok, rq_TLS r), (CSRFCookie, csrf, rq_TLS r)]
    \<and> snd (sessionHandler C keys key t r s) = s
    \<and> (\<forall>t' r' next s'. Get (rq_Header r') ''Authorization'' = '''' \<and> Get (rq_Header r') CSRFHeader = csrf
         \<and> rq_Cookies r' = [(SessionCookie, tok), (CSRFCookie, csrf)] \<longrightarrow>
         Authenticate C keys' key t' next r' s' =
           (if t' \<le> unix (t + 12 * 60 * minute) * second then next (r'\<lparr>rq_role := Some role\<rparr>) s'
            else http_Error ''invalid session'' 401 s'))"
proof -
  have b: "trimBearer (Get (rq_Header r) ''Authorization'') = k" using assms(2,7) by (simp add: trimBearer_def)
  define e where "e = t + 12 * 60 * minute"
  have v: "Signer_Verify C key t' (Mint C key role e) = (if unix e * second < t' then Inl (Errf ''session expired'' []) else Inr role)" for t'
    using Verify_Mint assms(3-5) by (simp add: e_def)
  have m: "Mint C key ''csrf'' e \<noteq> ''''" by (simp add: Mint_def Let_def)
  have h: "sessionHandler C keys key t r s =
      (\<lparr>rs_Code = 204, rs_Header = [], rs_Cookies = [(SessionCookie, Mint C key role e, rq_TLS r),
        (CSRFCookie, Mint C key ''csrf'' e, rq_TLS r)], rs_Body = ''''\<rparr>, s)"
    using assms(1,6) b by (simp add: sessionHandler_def e_def)
  show ?thesis
    unfolding e_def[symmetric] h
    by (rule exI[of _ "Mint C key role e"], rule exI[of _ "Mint C key ''csrf'' e"])
      (use m in \<open>simp add: Authenticate_def v csrfOK_def SessionCookie_def CSRFCookie_def Let_def not_less\<close>)
qed
definition example_crypto :: Crypto where
  "example_crypto =
     \<lparr>cr_hmac = (\<lambda>k m. k @ m), cr_sha256 = (\<lambda>p. p), cr_hkdf = (\<lambda>s. Inr s),
      cr_public = (\<lambda>seed. take 32 (seed @ replicate 32 (CHR ''a''))),
      cr_edsign = (\<lambda>seed m. m), cr_edverify = (\<lambda>pub m sig. sig = m)\<rparr>"

lemma example_crypto_laws: "ed25519_laws example_crypto"
  by (simp add: ed25519_laws_def example_crypto_def min_def)

definition example_http :: HTTPRequest where
  "example_http =
     \<lparr>rq_Method = ''POST'', rq_Path = ''/v1/auth/session'', rq_Query = [], rq_Header = [(''Authorization'', ''Bearer key'')],
      rq_Cookies = [], rq_Body = '''', rq_TLS = True, rq_ProtoMajor = 2, rq_role = None\<rparr>"

definition example_keys :: "string \<Rightarrow> string option" where
  "example_keys k = (if k = ''key'' then Some ''admin'' else None)"

lemma example_unix: "unix (0 + 12 * 60 * minute) = 43200"
  by (simp add: unix_def minute_def second_def)

theorem session_login_roundtrip_witness:
  "\<exists>tok csrf. rs_Cookies (fst (sessionHandler example_crypto example_keys ''secret'' 0 example_http ())) =
     [(SessionCookie, tok, True), (CSRFCookie, csrf, True)]"
proof -
  have "min_int64 \<le> unix (0 + 12 * 60 * minute)" "unix (0 + 12 * 60 * minute) \<le> max_int64"
    by (simp_all only: example_unix, simp_all add: min_int64_def max_int64_def)
  from session_login_roundtrip[where keys = example_keys and k = "''key''" and role = "''admin''" and r = example_http
      and C = example_crypto and key = "''secret''" and s = "()" and keys' = example_keys, OF _ _ _ this]
  show ?thesis by (fastforce simp: example_keys_def example_http_def Get_def)
qed

text \<open>
  What the HTTP middleware lets through.  The next handler runs only for a known bearer key, or for
  a session cookie that carries a valid, unexpired signature of this node's key, and then an unsafe
  method also needs the matching CSRF value; it runs with exactly the role so established.  Otherwise
  the answer is an error and nothing else happens.
\<close>

theorem Authenticate_sound:
  "(\<exists>msg code. Authenticate C keys key t next r s = http_Error msg code s \<and> code \<in> {401, 403})
   \<or> (\<exists>role. Authenticate C keys key t next r s = next (r\<lparr>rq_role := Some role\<rparr>) s
        \<and> ((\<exists>k. Get (rq_Header r) ''Authorization'' = ''Bearer '' @ k \<and> keys k = Some role)
           \<or> (\<exists>e x. map_of (rq_Cookies r) SessionCookie = Some (role @ ''|'' @ x @ ''|'' @ sign C key (role @ ''|'' @ x))
                \<and> parse_int64 x = Some e \<and> t \<le> e * second
                \<and> (isSafeMethod (rq_Method r) \<or> csrfOK r))))"
proof -
  let ?h = "Get (rq_Header r) ''Authorization''"
  show ?thesis
  proof (cases "prefix ''Bearer '' ?h")
    case True
    then obtain k where k: "?h = ''Bearer '' @ k" by (auto simp: prefix_def)
    have tp: "trim_prefix ?h ''Bearer '' = k" unfolding k by (rule trim_prefix_append)
    show ?thesis
    proof (cases "keys k")
      case None
      with tp True show ?thesis by (intro disjI1) (auto simp: Authenticate_def Let_def)
    next
      case (Some role)
      with tp True have "Authenticate C keys key t next r s = next (r\<lparr>rq_role := Some role\<rparr>) s"
        by (simp add: Authenticate_def Let_def)
      with k Some show ?thesis by blast
    qed
  next
    case b: False
    show ?thesis
    proof (cases "map_of (rq_Cookies r) SessionCookie")
      case None
      with b show ?thesis by (intro disjI1) (auto simp: Authenticate_def Let_def)
    next
      case (Some v)
      show ?thesis
      proof (cases "\<exists>role. Signer_Verify C key t v = Inr role \<and> (isSafeMethod (rq_Method r) \<or> csrfOK r)")
        case False
        then have "\<exists>msg code. Authenticate C keys key t next r s = http_Error msg code s \<and> code \<in> {401, 403}"
          using b Some by (cases "Signer_Verify C key t v") (auto simp: Authenticate_def Let_def)
        then show ?thesis ..
      next
        case True
        then obtain role where r: "Signer_Verify C key t v = Inr role" "isSafeMethod (rq_Method r) \<or> csrfOK r" by blast
        from Verify_Inr[OF r(1)] b Some r show ?thesis
          by (intro disjI2 exI[of _ role]) (auto simp: Authenticate_def Let_def)
      qed
    qed
  qed
qed


definition example_deps_auth :: authnDeps where
  "example_deps_auth =
     newAuthenticator \<lparr>au_Signer = ''secret'', au_Keys = example_keys, au_LocalNodeID = ''me'',
       au_PubKeyFor = None, au_Denied = None, au_Skew = 0\<rparr>"


text \<open>
  Node tokens are bound to their audience and time.  A token that a node signs with its own key is
  accepted by the node it names, for the caller, exactly while it is fresh and the caller is not
  denied, and by no other node.
\<close>

theorem nodekey_exact:
  assumes "ed25519_laws C" and "pubkeyFor caller = Some (cr_public C seed)" and "caller = DeriveNodeID C (cr_public C seed)"
    and "CHR ''.'' \<notin> set target" and "min_int64 \<le> unix t" and "unix t \<le> max_int64"
  shows "nodekey_Verify C (nodekey_Sign C seed caller target t) me pubkeyFor t' skew denied = Inr who
    \<longleftrightarrow> who = caller \<and> target = me \<and> (\<forall>d. denied = Some d \<longrightarrow> \<not> d caller) \<and> \<bar>time_sub t' (unix t * second)\<bar> \<le> skew"
  using nodekey_Verify_Sign[where pubkeyFor = pubkeyFor, OF assms] by auto

theorem nodekey_exact_witness:
  "nodekey_Verify example_crypto
     (nodekey_Sign example_crypto ''seed'' (DeriveNodeID example_crypto (cr_public example_crypto ''seed'')) ''me'' 0) ''me''
     (\<lambda>_. Some (cr_public example_crypto ''seed'')) second (30 * second) None
   = Inr (DeriveNodeID example_crypto (cr_public example_crypto ''seed''))"
proof -
  have u: "unix 0 = 0" by (simp add: unix_def)
  have r: "min_int64 \<le> unix 0" "unix 0 \<le> max_int64" by (simp_all add: u min_int64_def max_int64_def)
  have t: "\<bar>time_sub second (unix 0 * second)\<bar> \<le> 30 * second"
    by (simp add: u time_sub_def second_def min_int64_def max_int64_def)
  show ?thesis
    using nodekey_exact[where pubkeyFor = "\<lambda>_. Some (cr_public example_crypto ''seed'')" and target = "''me''" and t = 0
        and me = "''me''" and t' = second and skew = "30 * second" and denied = None, OF example_crypto_laws _ refl _ r] t
    by simp
qed

text \<open>
  The identity is stable.  When a start succeeds, every later start that can read the key file gives
  the same identity and leaves the files alone.
\<close>

theorem LoadOrCreate_stable:
  assumes "LoadOrCreate C None random mkdir wr dir fs = (Inr i, fs')"
    and "\<And>seed. random = Inr seed \<Longrightarrow> length seed = 32"
  shows "LoadOrCreate C None random' mkdir' wr' dir fs' = (Inr i, fs') \<and> id_NodeID i = DeriveNodeID C (id_PublicKey i)
    \<and> (\<forall>p. p \<noteq> path_Join [dir, keyFileName] \<longrightarrow> fs' p = fs p)"
  using assms
  by (auto simp: LoadOrCreate_def Let_def split: option.splits sum.splits if_splits prod.splits)

theorem LoadOrCreate_stable_witness:
  "fst (LoadOrCreate example_crypto None (Inl ErrNotFound) None None ''data''
       (snd (LoadOrCreate example_crypto None (Inr (replicate 32 (CHR ''k''))) None None ''data'' (\<lambda>_. None))))
   = fst (LoadOrCreate example_crypto None (Inr (replicate 32 (CHR ''k''))) None None ''data'' (\<lambda>_. None))"
proof -
  obtain i fs' where l: "LoadOrCreate example_crypto None (Inr (replicate 32 (CHR ''k''))) None None ''data'' (\<lambda>_. None) = (Inr i, fs')"
    by (simp add: LoadOrCreate_def Let_def)
  from LoadOrCreate_stable[OF l, of "Inl ErrNotFound" None None] l show ?thesis by simp
qed



text \<open>
  The CSRF cookie works as a session.  The gRPC authenticator refuses signed values that do not carry
  a user role, but the HTTP middleware does not: the CSRF value, which is readable by scripts, is
  accepted in the session cookie, and handlers behind the middleware alone, such as the event stream,
  run for it with the role ``csrf''.
\<close>

theorem csrf_cookie_is_a_session:
  assumes "Get (rq_Header r) ''Authorization'' = ''''" and "isSafeMethod (rq_Method r)"
    and "map_of (rq_Cookies r) SessionCookie = Some (Mint C key ''csrf'' e)"
    and "min_int64 \<le> unix e" and "unix e \<le> max_int64" and "t \<le> unix e * second"
  shows "Authenticate C keys key t nxt r s = nxt (r\<lparr>rq_role := Some ''csrf''\<rparr>) s
    \<and> authz_role C (d\<lparr>au_Signer := key\<rparr>) t [(''x-sbx-authz'', [Mint C key ''csrf'' e])] = None"
  using assms Verify_Mint[of "''csrf''" e C key t]
  by (simp_all add: Authenticate_def authz_role_def isUserRole_def first_md_def Let_def)

theorem csrf_cookie_is_a_session_witness:
  "Authenticate example_crypto example_keys ''secret'' 0 (\<lambda>r s. (\<lparr>rs_Code = 200, rs_Header = [], rs_Cookies = [], rs_Body = ''''\<rparr>, rq_role r))
     (example_http\<lparr>rq_Method := ''GET'', rq_Header := [], rq_Cookies := [(SessionCookie, Mint example_crypto ''secret'' ''csrf'' 0)]\<rparr>) None
   = (\<lparr>rs_Code = 200, rs_Header = [], rs_Cookies = [], rs_Body = ''''\<rparr>, Some ''csrf'')"
proof -
  have r: "min_int64 \<le> unix 0" "unix 0 \<le> max_int64" "0 \<le> unix 0 * second"
    by (simp_all add: unix_def min_int64_def max_int64_def)
  show ?thesis
    using csrf_cookie_is_a_session[where C = example_crypto and keys = example_keys and key = "''secret''" and s = None
        and r = "example_http\<lparr>rq_Method := ''GET'', rq_Header := [], rq_Cookies := [(SessionCookie, Mint example_crypto ''secret'' ''csrf'' 0)]\<rparr>"
        and nxt = "\<lambda>r s. (\<lparr>rs_Code = 200, rs_Header = [], rs_Cookies = [], rs_Body = ''''\<rparr>, rq_role r)", OF _ _ _ r]
    by (simp add: Get_def isSafeMethod_def)
qed

end
