(* ===== verification/Files.thy ===== *)
theory Files
  imports Provision Auth
begin

text \<open>
  File transfer (\<^verbatim>\<open>internal/apiserver/filescopy.go\<close>, \<^verbatim>\<open>files.go\<close>): uploads send base64 chunks through
  \<^verbatim>\<open>exec\<close> arguments into a temporary file, check its size and rename it; downloads read blocks and check
  their lengths.  The commands run in a sandbox, outside the repository: \<open>vm_laws\<close> states what they do
  to its files, where an append may lose bytes and a read may be cut short, as the comments of the
  source describe.
\<close>

section \<open>Running commands\<close>

definition transferTries :: nat where "transferTries = 8"
definition execChunkRaw :: nat where "execChunkRaw = 90000"
definition execChunkBatch :: nat where "execChunkBatch = 8"

definition appendChunksScript :: string where
  "appendChunksScript = ''for a in \"$@\"; do printf %s \"$a\" | base64 -d; done >> \"$0\"''"

definition readChunkScript :: string where
  "readChunkScript =
     ''dd if=\"$0\" bs='' @ dec_digits execChunkRaw @ '' skip=\"$1\" count=1 2>/dev/null | base64 -w0''"

definition truncateScript :: string where "truncateScript = '': > \"$0\"''"

definition no_opts :: ExecOpts where "no_opts = \<lparr>eo_Workdir = '''', eo_Env = []\<rparr>"

definition execChecked :: "'be Backend \<Rightarrow> string \<Rightarrow> string list \<Rightarrow> 'be \<Rightarrow> ExecResult res \<times> 'be" where
  "execChecked BK name args be =
     (case be_Exec BK be name args no_opts of
        (Inl e, be) \<Rightarrow> (Inl e, be)
      | (Inr res, be) \<Rightarrow>
          if er_ExitCode res \<noteq> 0 then (Inl (Errf ''%s: %s'' [hd args, trim_space (er_Stderr res)]), be)
          else (Inr res, be))"

definition remoteSize :: "'be Backend \<Rightarrow> string \<Rightarrow> string \<Rightarrow> 'be \<Rightarrow> int res \<times> 'be" where
  "remoteSize BK name p be =
     (case execChecked BK name [''stat'', ''-c'', ''%s'', p] be of
        (Inl e, be) \<Rightarrow> (Inl e, be)
      | (Inr res, be) \<Rightarrow>
          (case parse_int64 (trim_space (er_Stdout res)) of
             None \<Rightarrow> (Inl (Errf ''strconv.ParseInt: parsing %q: invalid syntax'' [trim_space (er_Stdout res)]), be)
           | Some n \<Rightarrow> (Inr n, be)))"

section \<open>Uploading\<close>

text \<open>
  A seekable reader: its bytes, and for each attempt whether rewinding fails and whether reading
  fails after some number of bytes.
\<close>

record Reader =
  rd_data :: string
  rd_seek :: "nat \<Rightarrow> go_error option"
  rd_fail :: "nat \<Rightarrow> (nat \<times> go_error) option"

definition bytes_NewReader :: "string \<Rightarrow> Reader" where
  "bytes_NewReader c = \<lparr>rd_data = c, rd_seek = (\<lambda>_. None), rd_fail = (\<lambda>_. None)\<rparr>"

text \<open>The blocks that successive calls of \<^verbatim>\<open>io.ReadFull\<close> give, the last one possibly short.\<close>

function chunks :: "nat \<Rightarrow> 'a list \<Rightarrow> 'a list list" where
  "chunks n s = (if s = [] \<or> n = 0 then [] else take n s # chunks n (drop n s))"
  by pat_completeness auto
termination by (relation "measure (\<lambda>(n, s). length s)") auto

declare chunks.simps [simp del]

definition flush :: "'be Backend \<Rightarrow> string \<Rightarrow> string \<Rightarrow> string list \<Rightarrow> 'be \<Rightarrow> unit res \<times> 'be" where
  "flush BK name tmp batch be =
     (if batch = [] then (Inr (), be)
      else case execChecked BK name ([''sh'', ''-c'', appendChunksScript, tmp] @ batch) be of
             (Inl e, be) \<Rightarrow> (Inl e, be)
           | (Inr _, be) \<Rightarrow> (Inr (), be))"

fun stream_loop ::
  "'be Backend \<Rightarrow> string \<Rightarrow> string \<Rightarrow> go_error option \<Rightarrow> string list \<Rightarrow> string list \<Rightarrow> 'be \<Rightarrow> unit res \<times> 'be" where
  "stream_loop BK name tmp rerr [] batch be =
     (case rerr of Some e \<Rightarrow> (Inl e, be) | None \<Rightarrow> flush BK name tmp batch be)"
| "stream_loop BK name tmp rerr (c # cs) batch be =
     (let batch = batch @ [b64_encode c] in
      if length batch = execChunkBatch then
        (case flush BK name tmp batch be of
           (Inl e, be) \<Rightarrow> (Inl e, be)
         | (Inr _, be) \<Rightarrow> stream_loop BK name tmp rerr cs [] be)
      else stream_loop BK name tmp rerr cs batch be)"

definition streamToSandbox ::
  "'be Backend \<Rightarrow> string \<Rightarrow> string \<Rightarrow> (nat \<times> go_error) option \<Rightarrow> string \<Rightarrow> 'be \<Rightarrow> unit res \<times> 'be" where
  "streamToSandbox BK name data fail tmp be =
     (case execChecked BK name [''sh'', ''-c'', truncateScript, tmp] be of
        (Inl e, be) \<Rightarrow> (Inl e, be)
      | (Inr _, be) \<Rightarrow>
          stream_loop BK name tmp (map_option snd fail)
            (chunks execChunkRaw (case fail of None \<Rightarrow> data | Some (n, _) \<Rightarrow> take n data)) [] be)"

fun transfer_loop ::
  "'be Backend \<Rightarrow> string \<Rightarrow> Reader \<Rightarrow> int \<Rightarrow> string \<Rightarrow> string \<Rightarrow> nat \<Rightarrow> go_error \<Rightarrow> 'be \<Rightarrow> unit res \<times> 'be" where
  "transfer_loop BK name r sz remotePath tmp 0 lastErr be =
     (Inl (Wrapf ''transfer to %s failed after %d attempts: %w'' [remotePath, dec_digits transferTries] lastErr), be)"
| "transfer_loop BK name r sz remotePath tmp (Suc left) lastErr be =
     (let attempt = transferTries - Suc left in
      case rd_seek r attempt of
        Some e \<Rightarrow> (Inl e, be)
      | None \<Rightarrow>
          (case streamToSandbox BK name (rd_data r) (rd_fail r attempt) tmp be of
             (Inl e, be) \<Rightarrow> transfer_loop BK name r sz remotePath tmp left e be
           | (Inr _, be) \<Rightarrow>
               (case remoteSize BK name tmp be of
                  (Inl e, be) \<Rightarrow> transfer_loop BK name r sz remotePath tmp left e be
                | (Inr got, be) \<Rightarrow>
                    if got = sz then
                      (case execChecked BK name [''mv'', ''-f'', tmp, remotePath] be of
                         (Inl e, be) \<Rightarrow> (Inl e, be)
                       | (Inr _, be) \<Rightarrow> (Inr (), be))
                    else transfer_loop BK name r sz remotePath tmp left
                           (Errf ''verification failed: wrote %d of %d bytes'' [format_int got, format_int sz]) be)))"

definition upload_tmp :: "string \<Rightarrow> string" where
  "upload_tmp remotePath = path_Join [path_Dir remotePath, ''.sbxup-'' @ path_Base remotePath @ ''.part'']"

definition copyReaderToSandbox ::
  "'be Backend \<Rightarrow> string \<Rightarrow> Reader \<Rightarrow> int \<Rightarrow> string \<Rightarrow> 'be \<Rightarrow> unit res \<times> 'be" where
  "copyReaderToSandbox BK name r sz remotePath be =
     (let dir = path_Dir remotePath in
      case execChecked BK name [''mkdir'', ''-p'', dir] be of
        (Inl e, be) \<Rightarrow> (Inl (Wrapf ''create destination dir %s: %w'' [dir] e), be)
      | (Inr _, be) \<Rightarrow>
          (let tmp = upload_tmp remotePath;
               (out, be) = transfer_loop BK name r sz remotePath tmp transferTries (Errf ''<nil>'' []) be
           in (out, snd (be_Exec BK be name [''rm'', ''-f'', tmp] no_opts))))"

text \<open>The source opens and stats the staged file; \<open>opened\<close> is the error of either, or the file as a reader.\<close>

definition copyFileToSandbox ::
  "'be Backend \<Rightarrow> string \<Rightarrow> Reader res \<Rightarrow> string \<Rightarrow> 'be \<Rightarrow> unit res \<times> 'be" where
  "copyFileToSandbox BK name opened remotePath be =
     (case opened of
        Inl e \<Rightarrow> (Inl e, be)
      | Inr r \<Rightarrow> copyReaderToSandbox BK name r (int (length (rd_data r))) remotePath be)"

section \<open>Downloading\<close>

fun read_loop ::
  "'be Backend \<Rightarrow> string \<Rightarrow> string \<Rightarrow> nat \<Rightarrow> int \<Rightarrow> nat \<Rightarrow> go_error \<Rightarrow> 'be \<Rightarrow> string res \<times> 'be" where
  "read_loop BK name remotePath block want 0 lastErr be = (Inl lastErr, be)"
| "read_loop BK name remotePath block want (Suc left) lastErr be =
     (case execChecked BK name [''sh'', ''-c'', readChunkScript, remotePath, format_int (int block)] be of
        (Inl e, be) \<Rightarrow> read_loop BK name remotePath block want left e be
      | (Inr res, be) \<Rightarrow>
          (case b64_decode (trim_space (er_Stdout res)) of
             None \<Rightarrow> read_loop BK name remotePath block want left (Errf ''illegal base64 data'' []) be
           | Some raw \<Rightarrow>
               if int (length raw) = want then (Inr raw, be)
               else read_loop BK name remotePath block want left
                      (Errf ''short read: %d of %d bytes'' [dec_digits (length raw), format_int want]) be))"

definition readChunkVerified :: "'be Backend \<Rightarrow> string \<Rightarrow> string \<Rightarrow> nat \<Rightarrow> int \<Rightarrow> 'be \<Rightarrow> string res \<times> 'be" where
  "readChunkVerified BK name remotePath block want be =
     read_loop BK name remotePath block want transferTries (Errf ''<nil>'' []) be"

lemma read_loop_length: "read_loop BK name p block want n e be = (Inr raw, be') \<Longrightarrow> int (length raw) = want"
  by (induction n arbitrary: e be) (auto split: prod.splits sum.splits option.splits if_splits)

text \<open>
  The block loop.  \<open>werr\<close> is the error of writing a block to the local file, \<open>acc\<close> what the file
  holds.  It ends because a verified block is never empty.
\<close>

function download_loop ::
  "'be Backend \<Rightarrow> string \<Rightarrow> string \<Rightarrow> (nat \<Rightarrow> go_error option) \<Rightarrow> int \<Rightarrow> nat \<Rightarrow> int \<Rightarrow> string \<Rightarrow> 'be
    \<Rightarrow> unit res \<times> string \<times> 'be" where
  "download_loop BK name remotePath werr want block written acc be =
     (if written < want then
        (let expct = (if want - written < int execChunkRaw then want - written else int execChunkRaw) in
         case readChunkVerified BK name remotePath block expct be of
           (Inl e, be) \<Rightarrow> (Inl (Wrapf ''transfer from %s failed: %w'' [remotePath] e), acc, be)
         | (Inr raw, be) \<Rightarrow>
             (case werr block of
                Some e \<Rightarrow> (Inl e, acc, be)
              | None \<Rightarrow> download_loop BK name remotePath werr want (Suc block) (written + int (length raw)) (acc @ raw) be))
      else if written \<noteq> want then
        (Inl (Errf ''download verification failed: got %d of %d bytes'' [format_int written, format_int want]), acc, be)
      else (Inr (), acc, be))"
  by pat_completeness auto
termination
  by (relation "measure (\<lambda>(BK, name, p, werr, want, block, written, acc, be). nat (want - written))")
    (auto simp: readChunkVerified_def execChunkRaw_def dest!: read_loop_length[OF sym] split: if_splits)

declare download_loop.simps [simp del]

text \<open>The local file is the second component: \<open>None\<close> when it could not be created.\<close>

definition copyFileFromSandbox ::
  "'be Backend \<Rightarrow> string \<Rightarrow> string \<Rightarrow> go_error option \<Rightarrow> (nat \<Rightarrow> go_error option) \<Rightarrow> 'be
    \<Rightarrow> unit res \<times> string option \<times> 'be" where
  "copyFileFromSandbox BK name remotePath createErr werr be =
     (case remoteSize BK name remotePath be of
        (Inl e, be) \<Rightarrow> (Inl e, None, be)
      | (Inr want, be) \<Rightarrow>
          (case createErr of
             Some e \<Rightarrow> (Inl e, None, be)
           | None \<Rightarrow>
               let (out, content, be) = download_loop BK name remotePath werr want 0 0 [] be
               in (out, Some content, be)))"

section \<open>What the commands do\<close>

text \<open>
  \<open>vm_file\<close> gives the content of a regular file of a sandbox, \<open>vm_dir\<close> tells directories.  The laws are
  those of the shell and of coreutils, for a transport that may fail after a command ran: a failed
  call may or may not have had its effect.  A call that reports success may still have appended only
  some of the bytes, in order, or returned only the front of its output.
\<close>

record 'be VM =
  vm_file :: "'be \<Rightarrow> string \<Rightarrow> string \<Rightarrow> string option"
  vm_dir :: "'be \<Rightarrow> string \<Rightarrow> string \<Rightarrow> bool"

definition exec_ok :: "ExecResult res \<Rightarrow> bool" where
  "exec_ok r \<longleftrightarrow> (\<exists>res. r = Inr res \<and> er_ExitCode res = 0)"

definition only :: "'be VM \<Rightarrow> string \<Rightarrow> string set \<Rightarrow> 'be \<Rightarrow> 'be \<Rightarrow> bool" where
  "only V n ps s s' \<longleftrightarrow> (\<forall>m p. (m \<noteq> n \<or> p \<notin> ps) \<longrightarrow> vm_file V s' m p = vm_file V s m p)"

definition mkdir_law :: "'be Backend \<Rightarrow> 'be VM \<Rightarrow> bool" where
  "mkdir_law BK V \<longleftrightarrow>
     (\<forall>s n d r s'. be_Exec BK s n [''mkdir'', ''-p'', d] no_opts = (r, s') \<longrightarrow>
        only V n {} s s' \<and> (\<forall>p. vm_dir V s' n p \<longrightarrow> vm_dir V s n p \<or> prefix p d))"

definition truncate_law :: "'be Backend \<Rightarrow> 'be VM \<Rightarrow> bool" where
  "truncate_law BK V \<longleftrightarrow>
     (\<forall>s n f r s'. be_Exec BK s n [''sh'', ''-c'', truncateScript, f] no_opts = (r, s') \<longrightarrow>
        only V n {f} s s' \<and> vm_dir V s' = vm_dir V s \<and> (exec_ok r \<longrightarrow> vm_file V s' n f = Some []))"

definition append_law :: "'be Backend \<Rightarrow> 'be VM \<Rightarrow> bool" where
  "append_law BK V \<longleftrightarrow>
     (\<forall>s n f raws r s'. be_Exec BK s n ([''sh'', ''-c'', appendChunksScript, f] @ map b64_encode raws) no_opts = (r, s') \<longrightarrow>
        only V n {f} s s' \<and> vm_dir V s' = vm_dir V s
        \<and> (\<forall>c. exec_ok r \<and> vm_file V s n f = Some c \<longrightarrow> (\<exists>x. vm_file V s' n f = Some (c @ x) \<and> subseq x (concat raws))))"

definition stat_law :: "'be Backend \<Rightarrow> 'be VM \<Rightarrow> bool" where
  "stat_law BK V \<longleftrightarrow>
     (\<forall>s n f r s'. be_Exec BK s n [''stat'', ''-c'', ''%s'', f] no_opts = (r, s') \<longrightarrow>
        vm_file V s' = vm_file V s \<and> vm_dir V s' = vm_dir V s
        \<and> (\<forall>c res. r = Inr res \<and> er_ExitCode res = 0 \<and> vm_file V s n f = Some c \<longrightarrow>
             parse_int64 (trim_space (er_Stdout res)) = Some (int (length c))))"

definition mv_law :: "'be Backend \<Rightarrow> 'be VM \<Rightarrow> bool" where
  "mv_law BK V \<longleftrightarrow>
     (\<forall>s n f g r s' c. be_Exec BK s n [''mv'', ''-f'', f, g] no_opts = (r, s') \<and> \<not> vm_dir V s n g \<and> vm_file V s n f = Some c \<longrightarrow>
        only V n {f, g} s s' \<and> (vm_file V s' n g = Some c \<or> (\<not> exec_ok r \<and> vm_file V s' n g = vm_file V s n g)))"

definition rm_law :: "'be Backend \<Rightarrow> 'be VM \<Rightarrow> bool" where
  "rm_law BK V \<longleftrightarrow> (\<forall>s n f r s'. be_Exec BK s n [''rm'', ''-f'', f] no_opts = (r, s') \<longrightarrow> only V n {f} s s')"

definition read_law :: "'be Backend \<Rightarrow> 'be VM \<Rightarrow> bool" where
  "read_law BK V \<longleftrightarrow>
     (\<forall>s n f i r s'. be_Exec BK s n [''sh'', ''-c'', readChunkScript, f, format_int (int i)] no_opts = (r, s') \<longrightarrow>
        vm_file V s' = vm_file V s
        \<and> (\<forall>c res. r = Inr res \<and> er_ExitCode res = 0 \<and> vm_file V s n f = Some c \<longrightarrow>
             (\<exists>k. trim_space (er_Stdout res) = take k (b64_encode (take execChunkRaw (drop (i * execChunkRaw) c))))))"

definition vm_laws :: "'be Backend \<Rightarrow> 'be VM \<Rightarrow> bool" where
  "vm_laws BK V \<longleftrightarrow> mkdir_law BK V \<and> truncate_law BK V \<and> append_law BK V \<and> stat_law BK V \<and> mv_law BK V
     \<and> rm_law BK V \<and> read_law BK V"

section \<open>Lemmas on chunks and base64\<close>

lemma concat_chunks: "0 < n \<Longrightarrow> concat (chunks n s) = s"
  by (induction n s rule: chunks.induct) (subst chunks.simps, simp)

lemma b64_length: "length (b64_encode s) = 4 * ((length s + 2) div 3)"
proof (induction s rule: b64_encode.induct)
  case (4 a b c r)
  have "(length (a # b # c # r) + 2) div 3 = Suc ((length r + 2) div 3)" by simp
  with 4 show ?case by simp
qed simp_all

lemma b64_groups_length: "b64_groups t = Some s \<Longrightarrow> length t mod 4 = 0 \<and> length s \<le> 3 * (length t div 4)"
proof (induction t arbitrary: s rule: b64_groups.induct)
  case (2 w x y z r)
  then show ?case by (fastforce split: option.splits if_splits)
qed auto

text \<open>Base64 that was cut short decodes to fewer bytes, if at all: a length check detects the cut.\<close>

lemma b64_cut:
  assumes "b64_decode (take k (b64_encode s)) = Some t" "length t = length s"
  shows "t = s"
proof (cases "length (b64_encode s) \<le> k")
  case True
  then show ?thesis using assms by simp
next
  case False
  have "filter (\<lambda>c. byte c \<noteq> 10 \<and> byte c \<noteq> 13) (take k (b64_encode s)) = take k (b64_encode s)"
  proof -
    have "byte c \<noteq> 10 \<and> byte c \<noteq> 13" if "c \<in> set (take k (b64_encode s))" for c
      using b64_encode_chars[of s] in_set_takeD[OF that] by blast
    then show ?thesis by (simp add: filter_id_conv)
  qed
  then have "b64_groups (take k (b64_encode s)) = Some t" using assms(1) by (simp add: b64_decode_def)
  from b64_groups_length[OF this] have "k mod 4 = 0" "length t \<le> 3 * (k div 4)" using False by (simp_all add: min_def)
  have "k div 4 < (length s + 2) div 3" using False by (simp add: b64_length less_mult_imp_div_less mult.commute)
  moreover have "3 * ((length s + 2) div 3) \<le> length s + 2" by simp
  ultimately have "length t < length s" using \<open>length t \<le> 3 * (k div 4)\<close> by linarith
  with assms(2) show ?thesis by simp
qed

section \<open>Lemmas on uploading\<close>

lemma only_refl [simp]: "only V n ps s s"
  by (simp add: only_def)

lemma only_trans: "only V n ps s s' \<Longrightarrow> only V n qs s' s'' \<Longrightarrow> ps \<union> qs \<subseteq> rs \<Longrightarrow> only V n rs s s''"
  unfolding only_def by (metis Un_iff subset_iff)

lemma execChecked_cases:
  "execChecked BK n args s = (q, s') \<Longrightarrow> \<exists>r. be_Exec BK s n args no_opts = (r, s')
     \<and> (\<forall>res. q = Inr res \<longrightarrow> r = Inr res \<and> er_ExitCode res = 0) \<and> (\<forall>e. q = Inl e \<longrightarrow> \<not> exec_ok r)"
  by (fastforce simp: execChecked_def exec_ok_def split: prod.splits sum.splits if_splits)

lemma execChecked_ok:
  "execChecked BK n args s = (q, s') \<Longrightarrow> \<exists>r. be_Exec BK s n args no_opts = (r, s') \<and> ((\<exists>res. q = Inr res) \<longrightarrow> exec_ok r)"
  using execChecked_cases[of BK n args s q s'] by (auto simp: exec_ok_def)

lemma flush_laws:
  assumes "append_law BK V" "flush BK n f (map b64_encode raws) s = (q, s')"
  shows "only V n {f} s s' \<and> vm_dir V s' = vm_dir V s
    \<and> (\<forall>c. q = Inr () \<and> vm_file V s n f = Some c \<longrightarrow> (\<exists>x. vm_file V s' n f = Some (c @ x) \<and> subseq x (concat raws)))"
proof (cases "raws = []")
  case True
  with assms(2) show ?thesis by (auto simp: flush_def)
next
  case False
  obtain p where p: "execChecked BK n ([''sh'', ''-c'', appendChunksScript, f] @ map b64_encode raws) s = (p, s')"
    and q: "q = Inr () \<longrightarrow> (\<exists>res. p = Inr res)"
    using assms(2) False
    by (cases "execChecked BK n ([''sh'', ''-c'', appendChunksScript, f] @ map b64_encode raws) s")
      (auto simp: flush_def split: sum.splits)
  obtain r where r: "be_Exec BK s n ([''sh'', ''-c'', appendChunksScript, f] @ map b64_encode raws) no_opts = (r, s')"
    "q = Inr () \<longrightarrow> exec_ok r"
    using execChecked_cases[OF p] q unfolding exec_ok_def by blast
  show ?thesis
    using assms(1)[unfolded append_law_def, rule_format, OF r(1)] r(2) by blast
qed

lemma stream_laws:
  assumes "append_law BK V" "stream_loop BK n f rerr cs (map b64_encode raws) s = (q, s')"
  shows "only V n {f} s s' \<and> vm_dir V s' = vm_dir V s
    \<and> (\<forall>c. q = Inr () \<and> vm_file V s n f = Some c \<longrightarrow>
         rerr = None \<and> (\<exists>x. vm_file V s' n f = Some (c @ x) \<and> subseq x (concat (raws @ cs))))"
  using assms(2)
proof (induction cs arbitrary: raws s)
  case Nil
  show ?case
  proof (cases rerr)
    case None
    with Nil have "flush BK n f (map b64_encode raws) s = (q, s')" by simp
    from flush_laws[OF assms(1) this] None show ?thesis by simp
  qed (use Nil in auto)
next
  case (Cons c cs)
  let ?raws = "raws @ [c]"
  show ?case
  proof (cases "length ?raws = execChunkBatch")
    case False
    with Cons.prems have "stream_loop BK n f rerr cs (map b64_encode ?raws) s = (q, s')" by (simp add: Let_def)
    from Cons.IH[OF this] show ?thesis by simp
  next
    case True
    obtain p s1 where f: "flush BK n f (map b64_encode ?raws) s = (p, s1)" by fastforce
    note l = flush_laws[OF assms(1) f]
    show ?thesis
    proof (cases p)
      case (Inl e)
      with Cons.prems True f l show ?thesis by (auto simp: Let_def)
    next
      case (Inr u)
      with Cons.prems True f have "stream_loop BK n f rerr cs (map b64_encode []) s1 = (q, s')" by (simp add: Let_def)
      note i = Cons.IH[OF this]
      have "only V n {f} s s'" using l i only_trans[of V n "{f}" s s1 "{f}" s' "{f}"] by simp
      moreover have "rerr = None \<and> (\<exists>x. vm_file V s' n f = Some (d @ x) \<and> subseq x (concat (raws @ c # cs)))"
        if qo: "q = Inr ()" and fd: "vm_file V s n f = Some d" for d
      proof -
        obtain x where x: "vm_file V s1 n f = Some (d @ x)" "subseq x (concat ?raws)" using l Inr fd by auto
        with i qo obtain y where y: "rerr = None" "vm_file V s' n f = Some ((d @ x) @ y)" "subseq y (concat cs)" by auto
        have "subseq (x @ y) (concat ?raws @ concat cs)" using x(2) y(3) by (rule list_emb_append_mono)
        with y show ?thesis by (intro conjI exI[of _ "x @ y"]) simp_all
      qed
      ultimately show ?thesis using l i by simp
    qed
  qed
qed

lemma streamToSandbox_laws:
  assumes "vm_laws BK V" "streamToSandbox BK n data fail f s = (q, s')"
  shows "only V n {f} s s' \<and> vm_dir V s' = vm_dir V s
    \<and> (q = Inr () \<longrightarrow> fail = None \<and> (\<exists>x. vm_file V s' n f = Some x \<and> subseq x data))"
proof -
  obtain p s1 where e: "execChecked BK n [''sh'', ''-c'', truncateScript, f] s = (p, s1)" by fastforce
  obtain r where r: "be_Exec BK s n [''sh'', ''-c'', truncateScript, f] no_opts = (r, s1)"
    "(\<exists>res. p = Inr res) \<longrightarrow> exec_ok r"
    using execChecked_ok[OF e] by blast
  have "truncate_law BK V" using assms(1) by (simp add: vm_laws_def)
  from this[unfolded truncate_law_def, rule_format, OF r(1)]
  have t: "only V n {f} s s1 \<and> vm_dir V s1 = vm_dir V s \<and> (exec_ok r \<longrightarrow> vm_file V s1 n f = Some [])" .
  show ?thesis
  proof (cases p)
    case (Inl err)
    with assms(2) e t show ?thesis by (auto simp: streamToSandbox_def)
  next
    case (Inr res)
    let ?cs = "chunks execChunkRaw (case fail of None \<Rightarrow> data | Some (m, _) \<Rightarrow> take m data)"
    have l: "stream_loop BK n f (map_option snd fail) ?cs (map b64_encode []) s1 = (q, s')"
      using assms(2) e Inr by (simp add: streamToSandbox_def)
    have c: "concat ?cs = (case fail of None \<Rightarrow> data | Some (m, _) \<Rightarrow> take m data)"
      by (rule concat_chunks) (simp add: execChunkRaw_def)
    have a: "append_law BK V" using assms(1) by (simp add: vm_laws_def)
    note sl = stream_laws[OF a l]
    have "only V n {f} s s'" using t sl only_trans[of V n "{f}" s s1 "{f}" s' "{f}"] by simp
    moreover have "fail = None \<and> (\<exists>x. vm_file V s' n f = Some x \<and> subseq x data)" if "q = Inr ()"
    proof -
      have "vm_file V s1 n f = Some []" using t r(2) Inr by blast
      with sl that have "map_option snd fail = None" "\<exists>x. vm_file V s' n f = Some x \<and> subseq x (concat ?cs)" by auto
      with c show ?thesis by simp
    qed
    ultimately show ?thesis using t sl by simp
  qed
qed

lemma remoteSize_laws:
  assumes "stat_law BK V" "remoteSize BK n f s = (q, s')"
  shows "vm_file V s' = vm_file V s \<and> vm_dir V s' = vm_dir V s
    \<and> (\<forall>m c. q = Inr m \<and> vm_file V s n f = Some c \<longrightarrow> m = int (length c))"
proof -
  obtain p where e: "execChecked BK n [''stat'', ''-c'', ''%s'', f] s = (p, s')"
    and q: "\<And>m. q = Inr m \<Longrightarrow> \<exists>res. p = Inr res \<and> parse_int64 (trim_space (er_Stdout res)) = Some m"
    using assms(2) by (cases "execChecked BK n [''stat'', ''-c'', ''%s'', f] s")
      (auto simp: remoteSize_def split: sum.splits option.splits)
  obtain r where r: "be_Exec BK s n [''stat'', ''-c'', ''%s'', f] no_opts = (r, s')"
    "\<And>res. p = Inr res \<Longrightarrow> r = Inr res \<and> er_ExitCode res = 0"
    using execChecked_cases[OF e] by blast
  have t: "vm_file V s' = vm_file V s" "vm_dir V s' = vm_dir V s"
    "\<And>c res. r = Inr res \<Longrightarrow> er_ExitCode res = 0 \<Longrightarrow> vm_file V s n f = Some c \<Longrightarrow>
       parse_int64 (trim_space (er_Stdout res)) = Some (int (length c))"
    using assms(1) r(1) unfolding stat_law_def by blast+
  have "m = int (length c)" if "q = Inr m" "vm_file V s n f = Some c" for m c
  proof -
    from q[OF that(1)] obtain res where "p = Inr res" "parse_int64 (trim_space (er_Stdout res)) = Some m" by blast
    with r(2) t(3)[of res c] \<open>vm_file V s n f = Some c\<close> show ?thesis by simp
  qed
  with t show ?thesis by blast
qed

text \<open>The attempts: whatever they do, the destination holds what it held or the whole of the data.\<close>

lemma transfer_laws:
  assumes "vm_laws BK V" "f \<noteq> g" "\<not> vm_dir V s n g" "sz = int (length (rd_data rd))"
    and "transfer_loop BK n rd sz g f left lastErr s = (q, s')"
  shows "only V n {f, g} s s' \<and> (vm_file V s' n g = Some (rd_data rd) \<or> (q \<noteq> Inr () \<and> vm_file V s' n g = vm_file V s n g))"
  using assms(3,5)
proof (induction left arbitrary: lastErr s)
  case (Suc left)
  let ?a = "transferTries - Suc left"
  show ?case
  proof (cases "rd_seek rd ?a")
    case (Some e)
    with Suc.prems show ?thesis by auto
  next
    case None
    obtain a s1 where st: "streamToSandbox BK n (rd_data rd) (rd_fail rd ?a) f s = (a, s1)" by fastforce
    note sl = streamToSandbox_laws[OF assms(1) st]
    have again: ?thesis if "transfer_loop BK n rd sz g f left e s2 = (q, s')" "only V n {f} s s2" "vm_dir V s2 = vm_dir V s" for e s2
    proof -
      have "\<not> vm_dir V s2 n g" using that(3) Suc.prems(1) by simp
      from Suc.IH[OF this that(1)] that(2) assms(2) only_trans[OF that(2), of "{f, g}" s' "{f, g}"]
      show ?thesis by (auto simp: only_def)
    qed
    show ?thesis
    proof (cases a)
      case (Inl e)
      with Suc.prems(2) None st sl again[of e s1] show ?thesis by (simp add: Let_def)
    next
      case (Inr u)
      obtain b s2 where rs: "remoteSize BK n f s1 = (b, s2)" by fastforce
      have "stat_law BK V" using assms(1) by (simp add: vm_laws_def)
      note rl = remoteSize_laws[OF this rs]
      have o: "only V n {f} s s2" using sl rl by (simp add: only_def)
      show ?thesis
      proof (cases "b = Inr sz")
        case False
        then have "\<exists>e. transfer_loop BK n rd sz g f left e s2 = (q, s')"
          using Suc.prems(2) None st Inr rs by (cases b) (auto simp: Let_def)
        with again o rl sl show ?thesis by auto
      next
        case True
        obtain c s3 where mv: "execChecked BK n [''mv'', ''-f'', f, g] s2 = (c, s3)" by fastforce
        have q: "s' = s3" "q = Inr () \<longleftrightarrow> (\<exists>res. c = Inr res)"
          using Suc.prems(2) None st Inr rs True mv by (cases c; auto simp: Let_def)+
        obtain r where r: "be_Exec BK s2 n [''mv'', ''-f'', f, g] no_opts = (r, s3)" "(\<exists>res. c = Inr res) \<longrightarrow> exec_ok r"
          using execChecked_ok[OF mv] by blast
        obtain x where x: "vm_file V s1 n f = Some x" "subseq x (rd_data rd)" using sl Inr by auto
        have "int (length x) = sz" using rl True x(1) by auto
        then have "x = rd_data rd" using x(2) assms(4) by (simp add: subseq_same_length)
        then have d: "vm_file V s2 n f = Some (rd_data rd)" using x rl by simp
        have nd: "\<not> vm_dir V s2 n g" using Suc.prems(1) sl rl by simp
        have mvl: "mv_law BK V" using assms(1) by (simp add: vm_laws_def)
        have m: "only V n {f, g} s2 s3 \<and> (vm_file V s3 n g = Some (rd_data rd) \<or> (\<not> exec_ok r \<and> vm_file V s3 n g = vm_file V s2 n g))"
          using mvl[unfolded mv_law_def, rule_format, OF conjI[OF r(1) conjI[OF nd d]]] .
        have g: "vm_file V s2 n g = vm_file V s n g" using o assms(2) by (simp add: only_def)
        have "only V n {f, g} s s'" using only_trans[OF o, of "{f, g}" s3] m q by simp
        with m g q r(2) show ?thesis by auto
      qed
    qed
  qed
qed auto

section \<open>Destination paths\<close>

definition defaultUploadDir :: string where "defaultUploadDir = ''/home/agent''"

definition resolveUploadDest :: "string \<Rightarrow> string res" where
  "resolveUploadDest rawPath =
     (let p = trim_space rawPath in
      if p = '''' then Inl (Errf ''path is required'' [])
      else if suffix ''/'' p then Inl (Errf ''path must be a file, not a directory'' [])
      else let p = (if \<not> path_IsAbs p then path_Join [defaultUploadDir, p] else p);
               clean = path_Clean p
           in if clean \<noteq> p \<or> sublist ''..'' rawPath then Inl (Errf ''path must not contain '' [''..''])
              else Inr clean)"

definition plain :: "string \<Rightarrow> bool" where
  "plain c \<longleftrightarrow> CHR ''/'' \<notin> set c \<and> c \<noteq> '''' \<and> c \<noteq> ''.'' \<and> c \<noteq> ''..''"

definition rooted :: "string list \<Rightarrow> string" where
  "rooted ps = CHR ''/'' # join_with ''/'' ps"

lemma clean_steps_no_dotdot:
  "''..'' \<notin> set cs \<Longrightarrow> fold (clean_step r) cs st = rev (filter (\<lambda>c. c \<noteq> '''' \<and> c \<noteq> ''.'') cs) @ st"
  by (induction cs arbitrary: st) (auto simp: clean_step.simps)

lemma clean_parts_no_dotdot:
  "''..'' \<notin> set (split_on CHR ''/'' p) \<Longrightarrow> clean_parts p = filter (\<lambda>c. c \<noteq> '''' \<and> c \<noteq> ''.'') (split_on CHR ''/'' p)"
  by (simp add: clean_parts_def clean_steps_no_dotdot)

lemma sublist_join: "w \<in> set ws \<Longrightarrow> sublist w (join_with sep ws)"
proof (induction ws)
  case (Cons v ws)
  show ?case
  proof (cases "w = v")
    case True
    then show ?thesis by (cases "ws = []") (simp_all add: go_simps sublist_appendI[of v "[]", simplified])
  next
    case False
    with Cons have "ws \<noteq> []" "sublist w (join_with sep ws)" by auto
    moreover have "sublist (join_with sep ws) (v @ sep @ join_with sep ws)"
      using sublist_appendI[of "join_with sep ws" "v @ sep" "[]"] by simp
    ultimately show ?thesis using sublist_order.order.trans by (fastforce simp: go_simps)
  qed
qed simp

lemma sublist_split: "w \<in> set (split_on c s) \<Longrightarrow> sublist w s"
  using sublist_join[of w "split_on c s" "[c]"] by (simp add: join_split_on)

lemma sublist_trim_space: "sublist (trim_space s) s"
proof -
  have "suffix (dropWhile is_space s) s" by (rule suffix_dropWhile)
  moreover have "prefix (rev (dropWhile is_space (rev t))) t" for t
    using suffix_dropWhile[of is_space "rev t"] by (simp add: suffix_to_prefix)
  ultimately show ?thesis
    unfolding trim_space_def trim_right_by_def trim_left_by_def
    by (meson prefix_imp_sublist suffix_imp_sublist sublist_order.order.trans)
qed

lemma split_join: "\<forall>c \<in> set ps. plain c \<Longrightarrow> ps \<noteq> [] \<Longrightarrow> split_on CHR ''/'' (join_with ''/'' ps) = ps"
proof (induction ps)
  case (Cons p ps)
  then show ?case by (cases "ps = []") (simp_all add: go_simps plain_def)
qed simp

lemma split_rooted: "\<forall>c \<in> set ps. plain c \<Longrightarrow> filter (\<lambda>c. c \<noteq> '''') (split_on CHR ''/'' (rooted ps)) = ps"
proof (cases "ps = []")
  case False
  assume "\<forall>c \<in> set ps. plain c"
  moreover from this False have "filter (\<lambda>c. c \<noteq> '''') ps = ps" by (simp add: plain_def filter_id_conv)
  moreover have "split_on CHR ''/'' (rooted ps) = [] # split_on CHR ''/'' (join_with ''/'' ps)"
    using split_on_append[of "CHR ''/''" "[]" "join_with ''/'' ps"] by (simp add: rooted_def)
  ultimately show ?thesis using False split_join by simp
qed (simp add: rooted_def)

lemma rooted_inject:
  "\<forall>c \<in> set ps. plain c \<Longrightarrow> \<forall>c \<in> set qs. plain c \<Longrightarrow> rooted ps = rooted qs \<longleftrightarrow> ps = qs"
  by (metis split_rooted)

lemma Clean_of_parts:
  assumes "prefix ''/'' p" "filter (\<lambda>c. c \<noteq> '''') (split_on CHR ''/'' p) = ps" "\<forall>c \<in> set ps. plain c"
  shows "path_Clean p = rooted ps"
proof -
  have c: "\<forall>c \<in> set (split_on CHR ''/'' p). c = '''' \<or> plain c" using assms(2,3) by auto
  then have "''..'' \<notin> set (split_on CHR ''/'' p)" by (auto simp: plain_def)
  moreover have "filter (\<lambda>c. c \<noteq> '''' \<and> c \<noteq> ''.'') (split_on CHR ''/'' p) = ps"
    unfolding assms(2)[symmetric] using c by (intro filter_cong) (auto simp: plain_def)
  ultimately have "clean_parts p = ps" by (simp add: clean_parts_no_dotdot)
  with path_Clean_abs[OF assms(1)] show ?thesis by (simp add: rooted_def)
qed

lemma Clean_rooted: "\<forall>c \<in> set ps. plain c \<Longrightarrow> path_Clean (rooted ps) = rooted ps"
  by (rule Clean_of_parts[OF _ split_rooted]) (auto simp: rooted_def)

lemma split_on_snoc: "split_on c (xs @ [c]) = split_on c xs @ [[]]"
  by (induction xs rule: split_on.induct) (auto split: list.splits)

lemma rooted_snoc: "rooted (qs @ [b]) = (if qs = [] then [] else rooted qs) @ CHR ''/'' # b"
proof -
  have "qs \<noteq> [] \<Longrightarrow> join_with ''/'' (qs @ [b]) = join_with ''/'' qs @ CHR ''/'' # b"
  proof (induction qs)
    case (Cons q qs)
    then show ?case by (cases "qs = []") (simp_all add: go_simps)
  qed simp
  then show ?thesis by (simp add: rooted_def)
qed

lemma Dir_rooted:
  assumes "\<forall>c \<in> set qs. plain c" "plain b"
  shows "path_Dir (rooted (qs @ [b])) = rooted qs"
proof -
  let ?x = "if qs = [] then [] else rooted qs"
  have "last_index_byte CHR ''/'' (rooted (qs @ [b])) = Some (length ?x)"
    using assms(2) unfolding rooted_snoc plain_def by (simp add: last_index_byte_append)
  then have "path_Dir (rooted (qs @ [b])) = path_Clean (?x @ ''/'')" by (simp add: path_Dir_def rooted_snoc)
  moreover have "filter (\<lambda>c. c \<noteq> '''') (split_on CHR ''/'' (?x @ ''/'')) = qs"
    using split_rooted[OF assms(1)] by (simp add: split_on_snoc)
  ultimately show ?thesis using Clean_of_parts[of "?x @ ''/''" qs] assms(1) by (simp add: rooted_def split: if_splits)
qed

lemma Base_rooted:
  assumes "plain b"
  shows "path_Base (rooted (qs @ [b])) = b"
proof -
  let ?x = "if qs = [] then [] else rooted qs"
  have b: "CHR ''/'' \<notin> set b" "b \<noteq> []" using assms by (simp_all add: plain_def)
  have t: "trim_right_by (\<lambda>c. c = CHR ''/'') (rooted (qs @ [b])) = rooted (qs @ [b])"
    using b unfolding rooted_snoc trim_right_by_def
    by (cases "rev b") (auto simp: dropWhile_append rev_swap)
  have "last_index_byte CHR ''/'' (rooted (qs @ [b])) = Some (length ?x)"
    using b unfolding rooted_snoc by (simp add: last_index_byte_append)
  with t b show ?thesis by (simp add: path_Base_def Let_def rooted_snoc)
qed

lemma upload_tmp_rooted:
  assumes "\<forall>c \<in> set qs. plain c" "plain b"
  shows "upload_tmp (rooted (qs @ [b])) = rooted (qs @ [''.sbxup-'' @ b @ ''.part''])"
proof -
  let ?t = "''.sbxup-'' @ b @ ''.part''"
  have t: "plain ?t" using assms(2) by (simp add: plain_def)
  have r: "rooted qs \<noteq> ''''" by (simp add: rooted_def)
  have "upload_tmp (rooted (qs @ [b])) = path_Clean (rooted qs @ CHR ''/'' # ?t)"
    using assms r by (simp add: upload_tmp_def path_Join_def Dir_rooted Base_rooted go_simps)
  moreover have "path_Clean (rooted qs @ CHR ''/'' # ?t) = rooted (qs @ [?t])"
  proof (cases "qs = []")
    case False
    then have "rooted qs @ CHR ''/'' # ?t = rooted (qs @ [?t])" by (simp add: rooted_snoc)
    with Clean_rooted[of "qs @ [?t]"] assms(1) t show ?thesis by simp
  next
    case True
    have "filter (\<lambda>c. c \<noteq> '''') (split_on CHR ''/'' (rooted [] @ CHR ''/'' # ?t)) = [?t]"
      using t by (simp add: rooted_def plain_def go_simps)
    from Clean_of_parts[OF _ this] t True show ?thesis by (simp add: rooted_def)
  qed
  ultimately show ?thesis by simp
qed

text \<open>An accepted destination is an absolute path with at least one component and nothing to clean.\<close>

lemma resolved_dest:
  assumes "resolveUploadDest raw = Inr d"
  shows "\<exists>qs b. d = rooted (qs @ [b]) \<and> (\<forall>c \<in> set qs. plain c) \<and> plain b"
proof -
  define p where "p = (if \<not> path_IsAbs (trim_space raw) then path_Join [defaultUploadDir, trim_space raw] else trim_space raw)"
  have d: "d = p" "path_Clean p = p" "\<not> suffix ''/'' (trim_space raw)" "trim_space raw \<noteq> ''''" "\<not> sublist ''..'' raw"
    using assms by (auto simp: resolveUploadDest_def Let_def p_def split: if_splits)
  have abs: "prefix ''/'' p"
  proof (cases "path_IsAbs (trim_space raw)")
    case False
    then have "p = path_Clean (defaultUploadDir @ ''/'' @ trim_space raw)"
      using d(4) by (simp add: p_def path_Join_def defaultUploadDir_def)
    with path_Clean_abs[of "defaultUploadDir @ ''/'' @ trim_space raw"] show ?thesis by (simp add: defaultUploadDir_def)
  qed (simp add: p_def path_IsAbs_def)
  define ps where "ps = clean_parts p"
  have c: "p = rooted ps" "\<forall>c \<in> set ps. plain c"
    using path_Clean_abs[OF abs] d(2) clean_parts_plain[of _ p] by (auto simp: rooted_def ps_def plain_def)
  have "ps \<noteq> []"
  proof
    assume "ps = []"
    then have e: "p = ''/''" using c by (simp add: rooted_def)
    show False
    proof (cases "path_IsAbs (trim_space raw)")
      case True
      with e d(3) show False by (simp add: p_def)
    next
      case False
      then have q: "p = path_Clean (defaultUploadDir @ ''/'' @ trim_space raw)"
        using d(4) by (simp add: p_def path_Join_def defaultUploadDir_def)
      let ?q = "defaultUploadDir @ ''/'' @ trim_space raw"
      have s: "split_on CHR ''/'' ?q = [] # ''home'' # ''agent'' # split_on CHR ''/'' (trim_space raw)"
        by (simp add: defaultUploadDir_def)
      have "''..'' \<notin> set (split_on CHR ''/'' (trim_space raw))"
        using d(5) sublist_split sublist_trim_space by (meson sublist_order.order.trans)
      then have "clean_parts ?q = ''home'' # ''agent'' # filter (\<lambda>c. c \<noteq> '''' \<and> c \<noteq> ''.'') (split_on CHR ''/'' (trim_space raw))"
        using s by (simp add: clean_parts_no_dotdot)
      with path_Clean_abs[of ?q] q e show False
        by (cases "filter (\<lambda>c. c \<noteq> '''' \<and> c \<noteq> ''.'') (split_on CHR ''/'' (trim_space raw))") (simp_all add: defaultUploadDir_def)
    qed
  qed
  then obtain qs b where "ps = qs @ [b]" by (meson rev_exhaust)
  with c d(1) show ?thesis by auto
qed

lemma dest_facts:
  assumes "resolveUploadDest raw = Inr d"
  shows "upload_tmp d \<noteq> d \<and> \<not> prefix d (path_Dir d)"
proof -
  obtain qs b where d: "d = rooted (qs @ [b])" "\<forall>c \<in> set qs. plain c" "plain b" using resolved_dest[OF assms] by blast
  let ?t = "''.sbxup-'' @ b @ ''.part''"
  have "plain ?t" "?t \<noteq> b" using d(3) by (auto simp: plain_def dest: arg_cong[of _ _ length])
  then have "rooted (qs @ [?t]) \<noteq> rooted (qs @ [b])"
    using rooted_inject[of "qs @ [?t]" "qs @ [b]"] d(2,3) by auto
  moreover have "length (rooted qs) < length d"    using d(3) unfolding d(1) rooted_snoc by (cases "qs = []") (auto simp: plain_def rooted_def[of "[]"])
  ultimately show ?thesis
    using d by (auto simp: upload_tmp_rooted Dir_rooted dest: prefix_length_le)
qed

lemma copyReader_laws:
  assumes "vm_laws BK V" "resolveUploadDest raw = Inr d" "\<not> vm_dir V s n d" "sz = int (length (rd_data rd))"
    and "copyReaderToSandbox BK n rd sz d s = (q, s')"
  shows "only V n {upload_tmp d, d} s s'
    \<and> (vm_file V s' n d = Some (rd_data rd) \<or> (q \<noteq> Inr () \<and> vm_file V s' n d = vm_file V s n d))"
proof -
  note f = dest_facts[OF assms(2)]
  obtain a s1 where mk: "execChecked BK n [''mkdir'', ''-p'', path_Dir d] s = (a, s1)" by fastforce
  obtain r where r: "be_Exec BK s n [''mkdir'', ''-p'', path_Dir d] no_opts = (r, s1)" using execChecked_ok[OF mk] by blast
  have "mkdir_law BK V" using assms(1) by (simp add: vm_laws_def)
  from this[unfolded mkdir_law_def, rule_format, OF r]
  have m: "only V n {} s s1" "\<not> vm_dir V s1 n d" using f assms(3) by auto
  show ?thesis
  proof (cases a)
    case (Inl e)
    with assms(5) mk m show ?thesis by (auto simp: copyReaderToSandbox_def Let_def only_def)
  next
    case (Inr res)
    obtain p s2 where t: "transfer_loop BK n rd sz d (upload_tmp d) transferTries (Errf ''<nil>'' []) s1 = (p, s2)" by fastforce
    obtain r' s3 where rm: "be_Exec BK s2 n [''rm'', ''-f'', upload_tmp d] no_opts = (r', s3)" by fastforce
    have e: "q = p" "s' = s3" using assms(5) mk Inr t rm by (auto simp: copyReaderToSandbox_def Let_def)
    have "upload_tmp d \<noteq> d" using f by simp
    note l = transfer_laws[OF assms(1) this m(2) assms(4) t]
    have "rm_law BK V" using assms(1) by (simp add: vm_laws_def)
    from this[unfolded rm_law_def, rule_format, OF rm] have o: "only V n {upload_tmp d} s2 s3" .
    have "only V n {upload_tmp d, d} s1 s3" using only_trans[OF conjunct1[OF l] o] by simp
    then have "only V n {upload_tmp d, d} s s3" using only_trans[OF m(1), of "{upload_tmp d, d}" s3] by simp
    moreover have "vm_file V s3 n d = vm_file V s2 n d" using o f by (auto simp: only_def)
    moreover have "vm_file V s1 n d = vm_file V s n d" using m(1) by (simp add: only_def)
    ultimately show ?thesis using l e by auto
  qed
qed

section \<open>Lemmas on downloading\<close>

lemma read_loop_laws:
  assumes "read_law BK V" "vm_file V s n p = Some c"
    and "read_loop BK n p i want left e s = (q, s')" "want = int (length (take execChunkRaw (drop (i * execChunkRaw) c)))"
  shows "vm_file V s' = vm_file V s \<and> (\<forall>raw. q = Inr raw \<longrightarrow> raw = take execChunkRaw (drop (i * execChunkRaw) c))"
  using assms(2,3)
proof (induction left arbitrary: e s)
  case (Suc left)
  let ?b = "take execChunkRaw (drop (i * execChunkRaw) c)"
  obtain a s1 where x: "execChecked BK n [''sh'', ''-c'', readChunkScript, p, format_int (int i)] s = (a, s1)" by fastforce
  obtain r where r: "be_Exec BK s n [''sh'', ''-c'', readChunkScript, p, format_int (int i)] no_opts = (r, s1)"
    "\<forall>res. a = Inr res \<longrightarrow> r = Inr res \<and> er_ExitCode res = 0"
    using execChecked_cases[OF x] by blast
  note law = assms(1)[unfolded read_law_def, rule_format, OF r(1)]
  have same: "vm_file V s1 = vm_file V s" and c1: "vm_file V s1 n p = Some c" using law Suc.prems(1) by simp_all
  show ?case
  proof (cases "\<exists>res. a = Inr res \<and> b64_decode (trim_space (er_Stdout res)) = Some ?b")
    case True
    with Suc.prems(2) x assms(4) same show ?thesis by auto
  next
    case False
    have "\<exists>e'. read_loop BK n p i want left e' s1 = (q, s')"
    proof (cases a)
      case (Inl err)
      with Suc.prems(2) x show ?thesis by auto
    next
      case (Inr res)
      obtain k where k: "trim_space (er_Stdout res) = take k (b64_encode ?b)" using law r(2) Inr Suc.prems(1) by blast
      have "int (length raw) \<noteq> want" if "b64_decode (trim_space (er_Stdout res)) = Some raw" for raw
        using b64_cut[of k ?b raw] that k False Inr assms(4) by auto
      with Suc.prems(2) x Inr show ?thesis by (cases "b64_decode (trim_space (er_Stdout res))") auto
    qed
    with Suc.IH[OF c1] same show ?thesis by auto
  qed
qed auto

lemma download_laws:
  assumes "read_law BK V" "vm_file V s n p = Some c" "download_loop BK n p werr want i written acc s = (q, content, s')"
    and "want = int (length c)" "acc = take (i * execChunkRaw) c" "written = int (length acc)"
  shows "vm_file V s' = vm_file V s \<and> (q = Inr () \<longrightarrow> content = c)"
  using assms(2,3,5,6)
proof (induction "nat (want - written)" arbitrary: i written acc s rule: less_induct)
  case less
  let ?b = "take execChunkRaw (drop (i * execChunkRaw) c)"
  show ?case
  proof (cases "written < want")
    case False
    have "acc = c" using False less.prems(3,4) assms(4) by simp
    with less.prems(2) False show ?thesis by (subst (asm) download_loop.simps) (auto split: if_splits)
  next
    case True
    have al: "length acc = i * execChunkRaw" using True less.prems(3,4) assms(4) by (auto simp: min_def split: if_splits)
    let ?w = "if want - written < int execChunkRaw then want - written else int execChunkRaw"
    have "written = int (i * execChunkRaw)" using less.prems(4) al by simp
    moreover have "(if int l - int j < int m then int l - int j else int m) = int (min (l - j) m)" if "int j < int l" for l j m
      using that by auto
    ultimately have w: "?w = int (length ?b)" using True assms(4) unfolding length_take length_drop by blast
    obtain a s1 where r: "readChunkVerified BK n p i ?w s = (a, s1)" by fastforce
    note l = read_loop_laws[OF assms(1) less.prems(1) r[unfolded readChunkVerified_def] w]
    show ?thesis
    proof (cases "\<exists>raw. a = Inr raw \<and> werr i = None")
      case False
      with less.prems(2) True r l show ?thesis
        by (subst (asm) download_loop.simps) (cases a; auto simp: Let_def)
    next
      case wr: True
      then have a: "a = Inr ?b" using l by auto
      have d: "download_loop BK n p werr want (Suc i) (written + int (length ?b)) (acc @ ?b) s1 = (q, content, s')"
        using less.prems(2) True r a wr by (subst (asm) download_loop.simps) (simp add: Let_def)
      have "0 < length ?b" using True assms(4) less.prems(4) al by (simp add: execChunkRaw_def)
      then have m: "nat (want - (written + int (length ?b))) < nat (want - written)" using True by simp
      have c1: "vm_file V s1 n p = Some c" using l less.prems(1) by simp
      have acc: "acc @ ?b = take (Suc i * execChunkRaw) c"
        using less.prems(3) take_add[of "i * execChunkRaw" execChunkRaw c] by (simp add: add.commute)
      have "written + int (length ?b) = int (length (acc @ ?b))" using less.prems(4) by simp
      from less.hyps[OF m c1 d acc this] l show ?thesis by simp
    qed
  qed
qed

lemma copyFileFrom_laws:
  assumes "vm_laws BK V" "vm_file V s n p = Some c" "copyFileFromSandbox BK n p createErr werr s = (q, content, s')"
  shows "vm_file V s' = vm_file V s \<and> (q = Inr () \<longrightarrow> content = Some c)"
proof -
  have laws: "stat_law BK V" "read_law BK V" using assms(1) by (simp_all add: vm_laws_def)
  obtain a s1 where r: "remoteSize BK n p s = (a, s1)" by fastforce
  note l = remoteSize_laws[OF laws(1) r]
  show ?thesis
  proof (cases "\<exists>m. a = Inr m \<and> createErr = None")
    case False
    with assms(3) r l show ?thesis by (cases a; cases createErr; auto simp: copyFileFromSandbox_def)
  next
    case True
    then have a: "a = Inr (int (length c))" and ce: "createErr = None" using l assms(2) by auto
    obtain q' c' s2 where d: "download_loop BK n p werr (int (length c)) 0 0 [] s1 = (q', c', s2)" by (metis prod_cases3)
    have "vm_file V s1 n p = Some c" using l assms(2) by simp
    from download_laws[OF laws(2) this d] have "vm_file V s2 = vm_file V s1 \<and> (q' = Inr () \<longrightarrow> c' = c)" by simp
    with assms(3) r a ce d l show ?thesis by (auto simp: copyFileFromSandbox_def)
  qed
qed

section \<open>A transport without faults\<close>

text \<open>
  Every command succeeds, appends everything and returns its whole output.  Then the first attempt of
  every step is enough.
\<close>

definition runs_ok :: "'be Backend \<Rightarrow> string \<Rightarrow> string list \<Rightarrow> 'be \<Rightarrow> bool" where
  "runs_ok BK n args s \<longleftrightarrow> exec_ok (fst (be_Exec BK s n args no_opts))"

definition vm_reliable :: "'be Backend \<Rightarrow> 'be VM \<Rightarrow> string \<Rightarrow> bool" where
  "vm_reliable BK V n \<longleftrightarrow>
     (\<forall>s d. runs_ok BK n [''mkdir'', ''-p'', d] s) \<and> (\<forall>s f. runs_ok BK n [''sh'', ''-c'', truncateScript, f] s)
     \<and> (\<forall>s f raws c. vm_file V s n f = Some c \<longrightarrow>
          runs_ok BK n ([''sh'', ''-c'', appendChunksScript, f] @ map b64_encode raws) s
          \<and> vm_file V (snd (be_Exec BK s n ([''sh'', ''-c'', appendChunksScript, f] @ map b64_encode raws) no_opts)) n f
              = Some (c @ concat raws))
     \<and> (\<forall>s f c. vm_file V s n f = Some c \<and> int (length c) \<le> max_int64 \<longrightarrow> runs_ok BK n [''stat'', ''-c'', ''%s'', f] s)
     \<and> (\<forall>s f g c. vm_file V s n f = Some c \<longrightarrow> runs_ok BK n [''mv'', ''-f'', f, g] s)
     \<and> (\<forall>s f i c. vm_file V s n f = Some c \<longrightarrow>
          (\<exists>res. fst (be_Exec BK s n [''sh'', ''-c'', readChunkScript, f, format_int (int i)] no_opts) = Inr res
             \<and> er_ExitCode res = 0 \<and> trim_space (er_Stdout res) = b64_encode (take execChunkRaw (drop (i * execChunkRaw) c))))"

lemma runs_ok_execChecked:
  "runs_ok BK n args s \<Longrightarrow> \<exists>res s'. execChecked BK n args s = (Inr res, s') \<and> be_Exec BK s n args no_opts = (Inr res, s')
     \<and> er_ExitCode res = 0"
  by (cases "be_Exec BK s n args no_opts") (auto simp: execChecked_def exec_ok_def runs_ok_def)

lemma reliable_flush:
  assumes "vm_reliable BK V n" "vm_file V s n f = Some c"
  shows "\<exists>s'. flush BK n f (map b64_encode raws) s = (Inr (), s') \<and> vm_file V s' n f = Some (c @ concat raws)"
proof (cases "raws = []")
  case False
  let ?a = "[''sh'', ''-c'', appendChunksScript, f] @ map b64_encode raws"
  have r: "runs_ok BK n ?a s" "vm_file V (snd (be_Exec BK s n ?a no_opts)) n f = Some (c @ concat raws)"
    using assms unfolding vm_reliable_def by blast+
  obtain res s' where x: "execChecked BK n ?a s = (Inr res, s')" "be_Exec BK s n ?a no_opts = (Inr res, s')"
    using runs_ok_execChecked[OF r(1)] by blast
  have "flush BK n f (map b64_encode raws) s = (Inr (), s')" using False x(1) by (simp add: flush_def)
  moreover have "vm_file V s' n f = Some (c @ concat raws)" using r(2) x(2) by simp
  ultimately show ?thesis by blast
qed (use assms in \<open>simp add: flush_def\<close>)

lemma reliable_stream:
  assumes "vm_reliable BK V n" "vm_file V s n f = Some c"
  shows "\<exists>s'. stream_loop BK n f None cs (map b64_encode raws) s = (Inr (), s') \<and> vm_file V s' n f = Some (c @ concat (raws @ cs))"
  using assms(2)
proof (induction cs arbitrary: c raws s)
  case Nil
  with reliable_flush[OF assms(1)] show ?case by simp
next
  case (Cons x cs)
  show ?case
  proof (cases "length (raws @ [x]) = execChunkBatch")
    case False
    with Cons.IH[OF Cons.prems, of "raws @ [x]"] show ?thesis by (simp add: Let_def)
  next
    case True
    obtain s1 where s1: "flush BK n f (map b64_encode (raws @ [x])) s = (Inr (), s1)" "vm_file V s1 n f = Some (c @ concat (raws @ [x]))"
      using reliable_flush[OF assms(1) Cons.prems] by blast
    with True Cons.IH[OF s1(2), of "[]"] show ?thesis by (simp add: Let_def)
  qed
qed

lemma reliable_upload:
  assumes "vm_laws BK V" "vm_reliable BK V n" "resolveUploadDest raw = Inr d" "\<not> vm_dir V s n d"
    and "rd_seek rd 0 = None" "rd_fail rd 0 = None" "int (length (rd_data rd)) \<le> max_int64"
  shows "\<exists>s'. copyReaderToSandbox BK n rd (int (length (rd_data rd))) d s = (Inr (), s')"
proof -
  note rel = assms(2)[unfolded vm_reliable_def]
  let ?f = "upload_tmp d"
  have "runs_ok BK n [''mkdir'', ''-p'', path_Dir d] s" using rel by blast
  from runs_ok_execChecked[OF this] obtain s1 where mk: "\<exists>res. execChecked BK n [''mkdir'', ''-p'', path_Dir d] s = (Inr res, s1)" by blast
  have "runs_ok BK n [''sh'', ''-c'', truncateScript, ?f] s1" using rel by blast
  from runs_ok_execChecked[OF this] obtain res2 s2 where t: "execChecked BK n [''sh'', ''-c'', truncateScript, ?f] s1 = (Inr res2, s2)"
    "be_Exec BK s1 n [''sh'', ''-c'', truncateScript, ?f] no_opts = (Inr res2, s2)" "er_ExitCode res2 = 0" by blast
  have "truncate_law BK V" using assms(1) by (simp add: vm_laws_def)
  from this[unfolded truncate_law_def, rule_format, OF t(2)] t(3) have "vm_file V s2 n ?f = Some []" by (simp add: exec_ok_def)
  from reliable_stream[OF assms(2) this, of "chunks execChunkRaw (rd_data rd)" "[]"] obtain s3 where
    st: "stream_loop BK n ?f None (chunks execChunkRaw (rd_data rd)) [] s2 = (Inr (), s3)" "vm_file V s3 n ?f = Some (rd_data rd)"
    using concat_chunks[of execChunkRaw "rd_data rd"] by (auto simp: execChunkRaw_def)
  have st': "streamToSandbox BK n (rd_data rd) None ?f s1 = (Inr (), s3)" using t(1) st(1) by (simp add: streamToSandbox_def)
  have "runs_ok BK n [''stat'', ''-c'', ''%s'', ?f] s3" using rel st(2) assms(7) by blast
  from runs_ok_execChecked[OF this] obtain res4 s4 where x: "execChecked BK n [''stat'', ''-c'', ''%s'', ?f] s3 = (Inr res4, s4)"
    "be_Exec BK s3 n [''stat'', ''-c'', ''%s'', ?f] no_opts = (Inr res4, s4)" "er_ExitCode res4 = 0" by blast
  have "stat_law BK V" using assms(1) by (simp add: vm_laws_def)
  from this[unfolded stat_law_def, rule_format, OF x(2)] x(3) st(2)
  have sz: "remoteSize BK n ?f s3 = (Inr (int (length (rd_data rd))), s4)" and f4: "vm_file V s4 n ?f = Some (rd_data rd)"
    by (simp_all add: remoteSize_def x(1))
  have "runs_ok BK n [''mv'', ''-f'', ?f, d] s4" using rel f4 by blast
  from runs_ok_execChecked[OF this] obtain s5 where mv: "\<exists>res. execChecked BK n [''mv'', ''-f'', ?f, d] s4 = (Inr res, s5)" by blast
  have "transfer_loop BK n rd (int (length (rd_data rd))) d ?f transferTries e s1 = (Inr (), s5)" for e
    using assms(5,6) st' sz mv by (auto simp: transferTries_def numeral_eq_Suc Let_def)
  with mk show ?thesis by (auto simp: copyReaderToSandbox_def Let_def)
qed

lemma reliable_read:
  assumes "vm_laws BK V" "vm_reliable BK V n" "vm_file V s n p = Some c"
  shows "\<exists>s'. readChunkVerified BK n p i (int (length (take execChunkRaw (drop (i * execChunkRaw) c)))) s
      = (Inr (take execChunkRaw (drop (i * execChunkRaw) c)), s') \<and> vm_file V s' n p = Some c"
proof -
  let ?a = "[''sh'', ''-c'', readChunkScript, p, format_int (int i)]"
  let ?b = "take execChunkRaw (drop (i * execChunkRaw) c)"
  have "\<exists>res. fst (be_Exec BK s n ?a no_opts) = Inr res \<and> er_ExitCode res = 0 \<and> trim_space (er_Stdout res) = b64_encode ?b"
    using assms(2)[unfolded vm_reliable_def] assms(3) by blast
  then obtain res where res: "fst (be_Exec BK s n ?a no_opts) = Inr res" "er_ExitCode res = 0" "trim_space (er_Stdout res) = b64_encode ?b"
    by blast
  define s' where "s' = snd (be_Exec BK s n ?a no_opts)"
  have r: "be_Exec BK s n ?a no_opts = (Inr res, s')" "er_ExitCode res = 0" "trim_space (er_Stdout res) = b64_encode ?b"
    using res by (simp_all add: s'_def prod_eq_iff)
  have "read_law BK V" using assms(1) by (simp add: vm_laws_def)
  from this[unfolded read_law_def, rule_format, OF r(1)] assms(3) have "vm_file V s' n p = Some c" by simp
  moreover have "transferTries \<noteq> 0" by (simp add: transferTries_def)
  then obtain left where tt: "transferTries = Suc left" using not0_implies_Suc by blast
  have "execChecked BK n ?a s = (Inr res, s')" using r by (simp add: execChecked_def)
  then have "readChunkVerified BK n p i (int (length ?b)) s = (Inr ?b, s')"
    using r(3) unfolding readChunkVerified_def tt by simp
  ultimately show ?thesis by blast
qed

lemma reliable_download:
  assumes "vm_laws BK V" "vm_reliable BK V n" "vm_file V s n p = Some c"
  shows "\<exists>s'. download_loop BK n p (\<lambda>_. None) (int (length c)) i (int (length (take (i * execChunkRaw) c))) (take (i * execChunkRaw) c) s
     = (Inr (), c, s')"
  using assms(3)
proof (induction "length c - i * execChunkRaw" arbitrary: i s rule: less_induct)
  case less
  let ?acc = "take (i * execChunkRaw) c" and ?b = "take execChunkRaw (drop (i * execChunkRaw) c)"
  show ?case
  proof (cases "length c \<le> i * execChunkRaw")
    case True
    then show ?thesis by (subst download_loop.simps) simp
  next
    case False
    define j where "j = i * execChunkRaw"
    have w: "(if int (length c) - int (length ?acc) < int execChunkRaw then int (length c) - int (length ?acc) else int execChunkRaw)
        = int (length ?b)" using False unfolding j_def[symmetric] by auto
    obtain s1 where r: "readChunkVerified BK n p i (int (length ?b)) s = (Inr ?b, s1)" "vm_file V s1 n p = Some c"
      using reliable_read[OF assms(1,2) less.prems] by blast
    have a: "?acc @ ?b = take (Suc i * execChunkRaw) c"
      using take_add[of "i * execChunkRaw" execChunkRaw c] by (simp add: add.commute)
    have l: "int (length ?acc) + int (length ?b) = int (length (take (Suc i * execChunkRaw) c))"
      unfolding a[symmetric] by simp
    have "length c - Suc i * execChunkRaw < length c - i * execChunkRaw" using False by (simp add: execChunkRaw_def)
    from less.hyps[OF this r(2)] obtain s' where
      d: "download_loop BK n p (\<lambda>_. None) (int (length c)) (Suc i) (int (length (take (Suc i * execChunkRaw) c)))
            (take (Suc i * execChunkRaw) c) s1 = (Inr (), c, s')" by blast
    have "int (length ?acc) < int (length c)" using False unfolding j_def[symmetric] by simp
    then have "download_loop BK n p (\<lambda>_. None) (int (length c)) i (int (length ?acc)) ?acc s =
        download_loop BK n p (\<lambda>_. None) (int (length c)) (Suc i) (int (length ?acc) + int (length ?b)) (?acc @ ?b) s1"
      unfolding download_loop.simps[of BK n p "\<lambda>_. None" _ i] Let_def w r(1) by (simp only: if_True prod.case sum.case option.case)
    with d show ?thesis unfolding a l by auto
  qed
qed

lemma reliable_copyFrom:
  assumes "vm_laws BK V" "vm_reliable BK V n" "vm_file V s n p = Some c" "int (length c) \<le> max_int64"
  shows "\<exists>s'. copyFileFromSandbox BK n p None (\<lambda>_. None) s = (Inr (), Some c, s')"
proof -
  have "runs_ok BK n [''stat'', ''-c'', ''%s'', p] s" using assms(2,3,4) unfolding vm_reliable_def by blast
  from runs_ok_execChecked[OF this] obtain res s1 where x: "execChecked BK n [''stat'', ''-c'', ''%s'', p] s = (Inr res, s1)"
    "be_Exec BK s n [''stat'', ''-c'', ''%s'', p] no_opts = (Inr res, s1)" "er_ExitCode res = 0" by blast
  have "stat_law BK V" using assms(1) by (simp add: vm_laws_def)
  from this[unfolded stat_law_def, rule_format, OF x(2)] x(3) assms(3)
  have r: "remoteSize BK n p s = (Inr (int (length c)), s1)" and f: "vm_file V s1 n p = Some c"
    by (simp_all add: remoteSize_def x(1))
  from reliable_download[OF assms(1,2) f, of 0] r show ?thesis by (auto simp: copyFileFromSandbox_def)
qed

section \<open>A shell\<close>

text \<open>A faithful sandbox for the commands above: a map of files per sandbox and no faults.\<close>

type_synonym shell = "string \<Rightarrow> string \<Rightarrow> string option"

definition done_with :: "string \<Rightarrow> ExecResult res" where
  "done_with out = Inr \<lparr>er_ExitCode = 0, er_Stdout = out, er_Stderr = ''''\<rparr>"

definition failed :: "ExecResult res" where
  "failed = Inr \<lparr>er_ExitCode = 1, er_Stdout = '''', er_Stderr = ''no such file''\<rparr>"

fun content :: "string option \<Rightarrow> string" where
  "content None = []"
| "content (Some c) = c"

definition shell_sh :: "shell \<Rightarrow> string \<Rightarrow> string \<Rightarrow> string \<Rightarrow> string list \<Rightarrow> ExecResult res \<times> shell" where
  "shell_sh s n script f xs =
     (if script = truncateScript then (done_with '''', s(n := (s n)(f \<mapsto> [])))
      else if script = appendChunksScript
        then (done_with '''', s(n := (s n)(f \<mapsto> content (s n f) @ concat (map (\<lambda>x. content (b64_decode x)) xs))))
      else (case (s n f, xs) of
              (Some c, [i]) \<Rightarrow>
                (case parse_digits 0 i of
                   Some k \<Rightarrow> (done_with (b64_encode (take execChunkRaw (drop (k * execChunkRaw) c))), s)
                 | None \<Rightarrow> (failed, s))
            | _ \<Rightarrow> (failed, s)))"

definition shell_exec :: "shell \<Rightarrow> string \<Rightarrow> string list \<Rightarrow> ExecOpts \<Rightarrow> ExecResult res \<times> shell" where
  "shell_exec s n args opts =
     (case args of
        a # b # c # r \<Rightarrow>
          if a = ''sh'' then (case r of f # xs \<Rightarrow> shell_sh s n c f xs | [] \<Rightarrow> (failed, s))
          else if a = ''rm'' then (done_with '''', s(n := (s n)(c := None)))
          else if a = ''mkdir'' then (done_with '''', s)
          else if a = ''stat'' then
            (case (r, s n (hd r)) of
               ([f], Some x) \<Rightarrow> if int (length x) \<le> max_int64 then (done_with (dec_digits (length x)), s) else (failed, s)
             | _ \<Rightarrow> (failed, s))
          else if a = ''mv'' then
            (case (r, s n c) of
               ([g], Some x) \<Rightarrow> (done_with '''', s(n := (s n)(c := None, g := Some x)))
             | _ \<Rightarrow> (failed, s))
          else (failed, s)
      | _ \<Rightarrow> (failed, s))"

definition shell_backend :: "shell Backend" where
  "shell_backend =
     \<lparr>be_Create = (\<lambda>s _. (Inl ErrNotFound, s)), be_Get = (\<lambda>s _. (Inl ErrNotFound, s)),
      be_List = (\<lambda>s. (Inl ErrNotFound, s)), be_ListTemplates = (\<lambda>s. (Inl ErrNotFound, s)),
      be_ListTemplateInfo = (\<lambda>s. (Inl ErrNotFound, s)),
      be_SaveTemplate = (\<lambda>s _ _. (Inl ErrNotFound, s)),
      be_RemoveTemplate = (\<lambda>s _. (Inl ErrNotFound, s)), be_AdmittedKits = (\<lambda>s. []),
      be_Start = (\<lambda>s _. (Inl ErrNotFound, s)), be_Stop = (\<lambda>s _. (Inl ErrNotFound, s)),
      be_Remove = (\<lambda>s _. (Inl ErrNotFound, s)), be_Exec = shell_exec,
      be_ExecDetached = (\<lambda>s _ _ _. (Inl ErrNotFound, s)),
      be_PollDetached = (\<lambda>s _ _. (Inl ErrNotFound, s)),
      be_PublishPort = (\<lambda>s _ _. (Inl ErrNotFound, s)), be_Ports = (\<lambda>s _. (Inl ErrNotFound, s)),
      be_UnpublishPort = (\<lambda>s _ _. (Inl ErrNotFound, s)), be_CopyTo = (\<lambda>s _ _ _. (Inl ErrNotFound, s)),
      be_CopyFrom = (\<lambda>s _ _ _. (Inl ErrNotFound, s)), be_Stats = (\<lambda>s _. (Inl ErrNotFound, s)),
      be_BlockedEgress = (\<lambda>s. (Inl ErrNotFound, s)), be_AllowedEgress = (\<lambda>s. (Inl ErrNotFound, s)),
      be_PolicyAllow = (\<lambda>s _ _. (Inl ErrNotFound, s)), be_PolicyDeny = (\<lambda>s _ _. (Inl ErrNotFound, s)),
      be_PolicySetDefault = (\<lambda>s _. (Inl ErrNotFound, s)),
      be_PolicyRemoveRule = (\<lambda>s _ _. (Inl ErrNotFound, s)),
      be_PolicyReset = (\<lambda>s. (Inl ErrNotFound, s)), be_PolicyList = (\<lambda>s _. (Inl ErrNotFound, s)),
      be_PolicyProfiles = (\<lambda>s. (Inl ErrNotFound, s)), be_PolicyCheck = (\<lambda>s _ _. (Inl ErrNotFound, s)),
      be_SecretSet = (\<lambda>s _ _. (Inl ErrNotFound, s)), be_SecretList = (\<lambda>s _. (Inl ErrNotFound, s)),
      be_SecretRemove = (\<lambda>s _ _. (Inl ErrNotFound, s)),
      be_SecretRemoveStored = (\<lambda>s _ _. (Inl ErrNotFound, s))\<rparr>"

definition shell_vm :: "shell VM" where
  "shell_vm = \<lparr>vm_file = (\<lambda>s. s), vm_dir = (\<lambda>_ _ _. False)\<rparr>"

lemma trim_space_id: "(\<And>c. c \<in> set s \<Longrightarrow> \<not> is_space c) \<Longrightarrow> trim_space s = s"
proof -
  assume a: "\<And>c. c \<in> set s \<Longrightarrow> \<not> is_space c"
  have d: "dropWhile is_space t = t" if "\<And>c. c \<in> set t \<Longrightarrow> \<not> is_space c" for t using that by (cases t) auto
  show ?thesis unfolding trim_space_def trim_right_by_def trim_left_by_def using d[OF a] d[of "rev s"] a by simp
qed

lemma digits_no_space: "c \<in> set (dec_digits n) \<Longrightarrow> \<not> is_space c"
  using dec_digits_chars[of c n] by (auto simp: is_space_def)

lemma b64_no_space: "c \<in> set (b64_encode s) \<Longrightarrow> \<not> is_space c"
proof -
  have t: "\<forall>n \<in> set [0..<64]. \<not> is_space (b64_char n)" "\<not> is_space CHR ''=''" by code_simp+
  obtain ns m where "\<forall>n \<in> set ns. n < 64" "b64_encode s = map b64_char ns @ replicate m (CHR ''='')"
    using b64_split[of s] by blast
  then show "c \<in> set (b64_encode s) \<Longrightarrow> \<not> is_space c" using t by auto
qed

lemma scripts_differ: "truncateScript \<noteq> appendChunksScript" "readChunkScript \<noteq> truncateScript" "readChunkScript \<noteq> appendChunksScript"
  by (simp_all add: truncateScript_def appendChunksScript_def readChunkScript_def)

lemma parse_dec_int: "int n \<le> max_int64 \<Longrightarrow> parse_int64 (dec_digits n) = Some (int n)"
  using parse_format_int[of "int n"] by (simp add: format_int_def min_int64_def)

lemmas shell_defs = shell_backend_def shell_exec_def shell_sh_def shell_vm_def done_with_def failed_def exec_ok_def only_def
  scripts_differ scripts_differ[symmetric]

lemma shell_laws: "vm_laws shell_backend shell_vm"
proof -
  have "mkdir_law shell_backend shell_vm" by (auto simp: mkdir_law_def shell_defs)
  moreover have "truncate_law shell_backend shell_vm" by (auto simp: truncate_law_def shell_defs)
  moreover have "append_law shell_backend shell_vm"
    by (auto simp: append_law_def shell_defs o_def)
  moreover have "stat_law shell_backend shell_vm"
    by (auto simp: stat_law_def shell_defs trim_space_id digits_no_space parse_dec_int split: option.splits if_splits)
  moreover have "mv_law shell_backend shell_vm" by (auto simp: mv_law_def shell_defs)
  moreover have "rm_law shell_backend shell_vm" by (auto simp: rm_law_def shell_defs)
  moreover have "read_law shell_backend shell_vm"
    by (auto simp: read_law_def shell_defs trim_space_id b64_no_space format_int_def parse_dec_digits
        intro!: take_all[OF order_refl, symmetric] split: option.splits)
  ultimately show ?thesis by (simp add: vm_laws_def)
qed

lemma shell_reliable: "vm_reliable shell_backend shell_vm n"
  unfolding vm_reliable_def runs_ok_def
  by (intro conjI allI impI)
    (auto simp: shell_defs o_def trim_space_id b64_no_space format_int_def parse_dec_digits split: option.splits)

section \<open>The HTTP handlers\<close>

definition defaultMaxUploadBytes :: int where "defaultMaxUploadBytes = 100 * 2 ^ 20"

definition filesSandboxID :: "string \<Rightarrow> string option" where
  "filesSandboxID p =
     (if \<not> prefix ''/v1/sandboxes/'' p \<or> \<not> suffix ''/files'' p then None
      else let i = trim_suffix (trim_prefix p ''/v1/sandboxes/'') ''/files''
           in if i = '''' \<or> CHR ''/'' \<in> set i then None else Some i)"

definition filesMux :: "'s handler \<Rightarrow> 's handler \<Rightarrow> 's handler" where
  "filesMux h next r s = (case filesSandboxID (rq_Path r) of Some _ \<Rightarrow> h r s | None \<Rightarrow> next r s)"

text \<open>
  The staging file on the host: \<open>st_create\<close> is the error of creating it, \<open>st_body\<close> of reading the
  body into it, \<open>st_open\<close> of opening or examining it again, \<open>st_trunc\<close> of re-creating it for a
  download, \<open>st_write\<close> of writing a block.
\<close>

record Staging =
  st_create :: "go_error option"
  st_body :: "go_error option"
  st_open :: "go_error option"
  st_trunc :: "go_error option"
  st_write :: "nat \<Rightarrow> go_error option"

definition auditFile ::
  "('db, 'be) Env \<Rightarrow> bool \<Rightarrow> string \<Rightarrow> string \<Rightarrow> HTTPRequest \<Rightarrow> unit res \<Rightarrow> ('db, 'be) World \<Rightarrow> ('db, 'be) World" where
  "auditFile E audit action target r out w =
     (if \<not> audit then w
      else let actor = (case rq_role r of Some a \<Rightarrow> a | None \<Rightarrow> '''') in
           snd (Log_Record E (audit_entry (if actor = '''' then ''system'' else actor) action target (outcomeOf out)) w))"

definition respond :: "nat \<Rightarrow> (string, string) gomap \<Rightarrow> string \<Rightarrow> Response" where
  "respond code hdr body = \<lparr>rs_Code = code, rs_Header = hdr, rs_Cookies = [], rs_Body = body\<rparr>"

definition handleUpload ::
  "('db, 'be) Env \<Rightarrow> bool \<Rightarrow> int \<Rightarrow> Staging \<Rightarrow> string \<Rightarrow> ('db, 'be) World handler" where
  "handleUpload E audit maxUploadBytes st i r w =
     (case resolveUploadDest (Get (rq_Query r) ''path'') of
        Inl _ \<Rightarrow> http_Error ''bad path'' 400 w
      | Inr dest \<Rightarrow>
          (case Manager_Resolve E i w of
             Inl _ \<Rightarrow> http_Error ''sandbox not found'' 404 w
           | Inr name \<Rightarrow>
               (let limit = (if maxUploadBytes \<le> 0 then defaultMaxUploadBytes else maxUploadBytes) in
                if st_create st \<noteq> None then http_Error ''stage temp file'' 500 w
                else if limit < int (length (rq_Body r)) then http_Error ''file too large'' 413 w
                else if st_body st \<noteq> None then http_Error ''read body'' 500 w
                else let opened = (case st_open st of Some e \<Rightarrow> Inl e | None \<Rightarrow> Inr (bytes_NewReader (rq_Body r)));
                         (out, be) = copyFileToSandbox (en_backend E) name opened dest (w_be w);
                         w = auditFile E audit ''file.upload'' dest r out (w\<lparr>w_be := be\<rparr>)
                     in case out of
                          Inl _ \<Rightarrow> http_Error ''copy failed'' 500 w
                        | Inr _ \<Rightarrow> (respond 204 [] '''', snd (Manager_BumpActivity E i w)))))"

definition handleDownload :: "('db, 'be) Env \<Rightarrow> bool \<Rightarrow> Staging \<Rightarrow> string \<Rightarrow> ('db, 'be) World handler" where
  "handleDownload E audit st i r w =
     (let p = trim_space (Get (rq_Query r) ''path'') in
      if \<not> path_IsAbs p then http_Error ''path must be an absolute container path'' 400 w
      else case Manager_Resolve E i w of
             Inl _ \<Rightarrow> http_Error ''sandbox not found'' 404 w
           | Inr name \<Rightarrow>
               if st_create st \<noteq> None then http_Error ''stage temp file'' 500 w
               else let (out, local, be) = copyFileFromSandbox (en_backend E) name p (st_trunc st) (st_write st) (w_be w);
                        w = auditFile E audit ''file.download'' p r out (w\<lparr>w_be := be\<rparr>)
                    in case out of
                         Inl _ \<Rightarrow> http_Error ''copy failed'' 404 w
                       | Inr _ \<Rightarrow>
                           if st_open st \<noteq> None then http_Error ''open staged file'' 500 w
                           else (respond 200 [(''Content-Type'', ''application/octet-stream''),
                                   (''Content-Disposition'', ''attachment; filename=\"'' @ path_Base p @ ''\"'')]
                                   (content local), w))"

definition FilesHandler :: "('db, 'be) Env \<Rightarrow> bool \<Rightarrow> int \<Rightarrow> Staging \<Rightarrow> ('db, 'be) World handler" where
  "FilesHandler E audit maxUploadBytes st r w =
     (case filesSandboxID (rq_Path r) of
        None \<Rightarrow> http_Error ''404 page not found'' 404 w
      | Some i \<Rightarrow>
          if rq_Method r = ''PUT'' then handleUpload E audit maxUploadBytes st i r w
          else if rq_Method r = ''GET'' then handleDownload E audit st i r w
          else http_Error ''method not allowed'' 405 w)"

lemma Log_Record_be [simp]: "w_be (snd (Log_Record E e w)) = w_be w"
  by (auto simp: Log_Record_def Let_def case_prod_unfold split: sum.splits)

lemma auditFile_be: "w_be (auditFile E a act t r out w) = w_be w"
  by (simp add: auditFile_def Let_def)

lemma BumpActivity_be: "w_be (snd (Manager_BumpActivity E i w)) = w_be w"
  by (auto simp: Manager_BumpActivity_def Manager_mutate_def Manager_save_def Let_def case_prod_unfold split: sum.splits)

section \<open>Properties\<close>

text \<open>
  C7: an upload is atomic.  Whatever the transport loses or fails, in any of the attempts, an upload to an
  accepted destination that is not a directory changes no file but that one and the temporary file
  beside it; the destination then holds either exactly what it held before or the whole content, and
  it holds the whole content when success is reported.  The size check is what makes this true: bytes
  lost on the way never go unnoticed.
\<close>

theorem upload_atomic:
  assumes "vm_laws BK V" and "resolveUploadDest raw = Inr dest" and "\<not> vm_dir V s name dest"
    and "copyReaderToSandbox BK name rd (int (length (rd_data rd))) dest s = (q, s')"
  shows "(\<forall>n p. n \<noteq> name \<or> p \<notin> {upload_tmp dest, dest} \<longrightarrow> vm_file V s' n p = vm_file V s n p)
    \<and> vm_file V s' name dest \<in> {vm_file V s name dest, Some (rd_data rd)}
    \<and> (q = Inr () \<longrightarrow> vm_file V s' name dest = Some (rd_data rd))"
  using copyReader_laws[OF assms(1-3) refl assms(4)] by (auto simp: only_def)

theorem upload_atomic_witness:
  "vm_file shell_vm (snd (copyReaderToSandbox shell_backend ''vm'' (bytes_NewReader ''hi'') 2 ''/tmp/x'' (\<lambda>_ _. None))) ''vm'' ''/tmp/x''
     \<in> {None, Some ''hi''}"
proof -
  let ?c = "copyReaderToSandbox shell_backend ''vm'' (bytes_NewReader ''hi'') (int (length (rd_data (bytes_NewReader ''hi'')))) ''/tmp/x'' (\<lambda>_ _. None)"
  have "resolveUploadDest ''/tmp/x'' = Inr ''/tmp/x''" by code_simp
  moreover have "?c = (fst ?c, snd ?c)" by simp
  moreover have "\<not> vm_dir shell_vm (\<lambda>_ _. None) ''vm'' ''/tmp/x''" by (simp add: shell_vm_def)
  ultimately have "vm_file shell_vm (snd ?c) ''vm'' ''/tmp/x'' \<in> {vm_file shell_vm (\<lambda>_ _. None) ''vm'' ''/tmp/x'', Some (rd_data (bytes_NewReader ''hi''))}"
    using upload_atomic[OF shell_laws] by blast
  then show ?thesis by (simp add: shell_vm_def bytes_NewReader_def)
qed

text \<open>
  C25: a download is exact.  When the transport may cut answers short, a download that reports success has
  produced exactly the content of the file, and none changes any file; it always ends, because every
  verified block makes progress.
\<close>

theorem download_exact:
  assumes "vm_laws BK V" and "vm_file V s name p = Some c"
  shows "\<exists>q local s'. copyFileFromSandbox BK name p createErr werr s = (q, local, s') \<and> vm_file V s' = vm_file V s
    \<and> (q = Inr () \<longrightarrow> local = Some c)"
proof -
  obtain q local s' where d: "copyFileFromSandbox BK name p createErr werr s = (q, local, s')" by (metis prod_cases3)
  from copyFileFrom_laws[OF assms d] d show ?thesis by blast
qed

theorem download_exact_witness:
  "\<exists>q local s'. copyFileFromSandbox shell_backend ''vm'' ''f'' None (\<lambda>_. None) (\<lambda>_. [''f'' \<mapsto> ''abc'']) = (q, local, s')
     \<and> (q = Inr () \<longrightarrow> local = Some ''abc'')"
proof -
  have "vm_file shell_vm (\<lambda>_. [''f'' \<mapsto> ''abc'']) ''vm'' ''f'' = Some ''abc''" by (simp add: shell_vm_def)
  from download_exact[OF shell_laws this] show ?thesis by blast
qed

text \<open>
  C24: transfers succeed on a transport without faults.  An upload to an accepted destination returns
  successfully, and a download of that destination then returns the uploaded content.
\<close>

theorem transfer_roundtrip:
  assumes "vm_laws BK V" and "vm_reliable BK V name" and "resolveUploadDest raw = Inr dest" and "\<not> vm_dir V s name dest"
    and "int (length data) \<le> max_int64"
  shows "\<exists>s' s''. copyReaderToSandbox BK name (bytes_NewReader data) (int (length data)) dest s = (Inr (), s')
    \<and> copyFileFromSandbox BK name dest None (\<lambda>_. None) s' = (Inr (), Some data, s'')"
proof -
  have d: "rd_data (bytes_NewReader data) = data" by (simp add: bytes_NewReader_def)
  obtain s' where u: "copyReaderToSandbox BK name (bytes_NewReader data) (int (length data)) dest s = (Inr (), s')"
    using reliable_upload[OF assms(1-4), of "bytes_NewReader data"] assms(5) by (auto simp: bytes_NewReader_def)
  with copyReader_laws[OF assms(1,3,4), of _ "bytes_NewReader data"] have "vm_file V s' name dest = Some data" by (auto simp: d)
  from reliable_copyFrom[OF assms(1,2) this assms(5)] u show ?thesis by blast
qed

theorem transfer_roundtrip_witness:
  "\<exists>s' s''. copyReaderToSandbox shell_backend ''vm'' (bytes_NewReader ''hi'') (int (length ''hi'')) ''/tmp/x'' (\<lambda>_ _. None) = (Inr (), s')
    \<and> copyFileFromSandbox shell_backend ''vm'' ''/tmp/x'' None (\<lambda>_. None) s' = (Inr (), Some ''hi'', s'')"
proof -
  have r: "resolveUploadDest ''/tmp/x'' = Inr ''/tmp/x''" by code_simp
  have n: "\<not> vm_dir shell_vm (\<lambda>_ _. None) ''vm'' ''/tmp/x''" by (simp add: shell_vm_def)
  have l: "int (length ''hi'') \<le> max_int64" by (simp add: max_int64_def)
  show ?thesis by (rule transfer_roundtrip[OF shell_laws shell_reliable r n l])
qed

text \<open>
  C40: accepted destinations.  A destination that is accepted is an absolute, clean path of a file below the
  root: its components are plain names, none of them a dot or dot-dot; and a relative request stays
  within the default directory.
\<close>

theorem resolveUploadDest_confined:
  assumes "resolveUploadDest raw = Inr dest"
  shows "\<exists>ps. ps \<noteq> [] \<and> dest = CHR ''/'' # join_with ''/'' ps
    \<and> (\<forall>c \<in> set ps. c \<noteq> '''' \<and> c \<noteq> ''.'' \<and> c \<noteq> ''..'' \<and> CHR ''/'' \<notin> set c)
    \<and> (\<not> path_IsAbs (trim_space raw) \<longrightarrow> take 2 ps = [''home'', ''agent''])"
proof -
  obtain qs b where d: "dest = rooted (qs @ [b])" "\<forall>c \<in> set qs. plain c" "plain b" using resolved_dest[OF assms] by blast
  have "take 2 (qs @ [b]) = [''home'', ''agent'']" if "\<not> path_IsAbs (trim_space raw)"
  proof -
    let ?q = "defaultUploadDir @ ''/'' @ trim_space raw"
    have r: "\<not> sublist ''..'' raw" "trim_space raw \<noteq> ''''" "dest = path_Clean ?q"
      using assms that by (auto simp: resolveUploadDest_def Let_def path_Join_def defaultUploadDir_def split: if_splits)
    have "split_on CHR ''/'' ?q = [] # ''home'' # ''agent'' # split_on CHR ''/'' (trim_space raw)"
      by (simp add: defaultUploadDir_def)
    moreover have "''..'' \<notin> set (split_on CHR ''/'' (trim_space raw))"
      using r(1) sublist_split sublist_trim_space by (meson sublist_order.order.trans)
    ultimately have p: "clean_parts ?q = ''home'' # ''agent'' # filter (\<lambda>c. c \<noteq> '''' \<and> c \<noteq> ''.'') (split_on CHR ''/'' (trim_space raw))"
      by (simp add: clean_parts_no_dotdot)
    have "prefix ''/'' ?q" by (simp add: defaultUploadDir_def)
    from path_Clean_abs[OF this] have q: "dest = rooted (clean_parts ?q)" "\<forall>c \<in> set (clean_parts ?q). plain c"
      using r(3) clean_parts_plain[of _ ?q] by (auto simp: rooted_def plain_def)
    have "\<forall>c \<in> set (qs @ [b]). plain c" using d by auto
    from rooted_inject[OF this q(2)] q(1) d(1) have "qs @ [b] = clean_parts ?q" by simp
    from trans[OF this p] show ?thesis by simp
  qed
  with d show ?thesis by (intro exI[of _ "qs @ [b]"]) (auto simp: rooted_def plain_def)
qed

theorem resolveUploadDest_confined_witness:
  "\<exists>ps. ps \<noteq> [] \<and> ''/home/agent/a/b'' = CHR ''/'' # join_with ''/'' ps \<and> take 2 ps = [''home'', ''agent'']"
proof -
  have "resolveUploadDest ''a/b'' = Inr ''/home/agent/a/b''" by code_simp
  moreover have "\<not> path_IsAbs (trim_space ''a/b'')" by code_simp
  ultimately show ?thesis using resolveUploadDest_confined by blast
qed

text \<open>
  A directory is accepted as a destination.  The comment says that bare directories are rejected, since
  moving the temporary file onto a directory would leave it there under the temporary name; a single
  dot, and any directory named without a trailing slash, is accepted.
\<close>

theorem upload_to_directory_accepted:
  "resolveUploadDest ''.'' = Inr defaultUploadDir \<and> resolveUploadDest defaultUploadDir = Inr defaultUploadDir"
  by code_simp

text \<open>
  The upload endpoint.  When the answer to a PUT is 204, the sandbox that the path names holds the
  request's body at the resolved destination, and the body is within the limit; any other answer
  leaves the records alone, and an oversized or misdirected request changes nothing.
\<close>

theorem handleUpload_correct:
  assumes "vm_laws (en_backend E) V" and "filesSandboxID (rq_Path r) = Some i" and "rq_Method r = ''PUT''"
    and "FilesHandler E audit maxBytes st r w = (resp, w')" and "rs_Code resp = 204"
    and "\<And>dest name. resolveUploadDest (Get (rq_Query r) ''path'') = Inr dest \<Longrightarrow> Manager_Resolve E i w = Inr name \<Longrightarrow>
          \<not> vm_dir V (w_be w) name dest"
  shows "\<exists>dest name. resolveUploadDest (Get (rq_Query r) ''path'') = Inr dest \<and> Manager_Resolve E i w = Inr name
    \<and> vm_file V (w_be w') name dest = Some (rq_Body r)
    \<and> int (length (rq_Body r)) \<le> (if maxBytes \<le> 0 then defaultMaxUploadBytes else maxBytes)"
proof -
  obtain dest where d: "resolveUploadDest (Get (rq_Query r) ''path'') = Inr dest"
    using assms(2-5) by (auto simp: FilesHandler_def handleUpload_def http_Error_def split: sum.splits)
  obtain name where n: "Manager_Resolve E i w = Inr name"
    using assms(2-5) d by (auto simp: FilesHandler_def handleUpload_def http_Error_def split: sum.splits)
  let ?op = "case st_open st of Some e \<Rightarrow> Inl e | None \<Rightarrow> Inr (bytes_NewReader (rq_Body r))"
  obtain q be where c: "copyFileToSandbox (en_backend E) name ?op dest (w_be w) = (q, be)" by fastforce
  have h: "int (length (rq_Body r)) \<le> (if maxBytes \<le> 0 then defaultMaxUploadBytes else maxBytes)" "q = Inr ()" "w_be w' = be"
    using assms(2-5) d n c
    by (auto simp: FilesHandler_def handleUpload_def http_Error_def Let_def BumpActivity_be auditFile_be split: sum.splits if_splits)
  have "copyReaderToSandbox (en_backend E) name (bytes_NewReader (rq_Body r)) (int (length (rd_data (bytes_NewReader (rq_Body r))))) dest (w_be w) = (Inr (), be)"
    using c h(2) by (auto simp: copyFileToSandbox_def bytes_NewReader_def split: sum.splits option.splits)
  from copyReader_laws[OF assms(1) d assms(6)[OF d n] refl this] have "vm_file V be name dest = Some (rq_Body r)"
    by (auto simp: bytes_NewReader_def)
  with d n h show ?thesis by auto
qed

definition example_record :: Record where
  "example_record =
     \<lparr>r_ID = ''n1.1'', r_BackendName = ''vm'', r_OwnerNode = ''n1'', r_Spec = CreateSpec_zero, r_Status = ''running'',
      r_Ports = [], r_Labels = [], r_IdempKey = '''', r_CreatedAt = 0, r_UpdatedAt = 0, r_LastActivity = 0, r_LastPublish = 0\<rparr>"

definition shell_env :: "(mem_db, shell) Env" where
  "shell_env = \<lparr>en_bolt = mem_bolt, en_backend = shell_backend, en_clock = int, en_ulid = example_ulid\<rparr>"

definition shell_world :: "(mem_db, shell) World" where
  "shell_world =
     \<lparr>w_node = ''n1'', w_db = (case store_Put mem_bolt mem_open ''sandboxes'' ''n1.1'' (JRecord example_record) of Inr db \<Rightarrow> db | Inl _ \<Rightarrow> mem_open),
      w_be = (\<lambda>_ _. None), w_gen = NewGen ''n1'', w_bus = None, w_owned = None, w_cap = NewCapacity 4 0 0, w_metrics = None, w_tick = 0\<rparr>"

definition no_staging_errors :: Staging where
  "no_staging_errors = \<lparr>st_create = None, st_body = None, st_open = None, st_trunc = None, st_write = (\<lambda>_. None)\<rparr>"

theorem handleUpload_correct_witness:
  "w_be (snd (FilesHandler shell_env False 0 no_staging_errors
       (example_http\<lparr>rq_Method := ''PUT'', rq_Path := ''/v1/sandboxes/n1.1/files'', rq_Query := [(''path'', ''/tmp/x'')],
          rq_Body := ''hi''\<rparr>) shell_world)) ''vm'' ''/tmp/x'' = Some ''hi''"
proof -
  let ?r = "example_http\<lparr>rq_Method := ''PUT'', rq_Path := ''/v1/sandboxes/n1.1/files'', rq_Query := [(''path'', ''/tmp/x'')], rq_Body := ''hi''\<rparr>"
  let ?f = "FilesHandler shell_env False 0 no_staging_errors ?r shell_world"
  have e: "en_backend shell_env = shell_backend" by (simp add: shell_env_def)
  have i: "filesSandboxID (rq_Path ?r) = Some ''n1.1''" "rq_Method ?r = ''PUT''" by code_simp+
  have d: "resolveUploadDest (Get (rq_Query ?r) ''path'') = Inr ''/tmp/x''" by code_simp
  have n: "Manager_Resolve shell_env ''n1.1'' shell_world = Inr ''vm''" by code_simp
  have vd: "\<not> vm_dir shell_vm s m p" for s m p by (simp add: shell_vm_def)
  obtain s' where u: "copyReaderToSandbox shell_backend ''vm'' (bytes_NewReader ''hi'') (int (length (rd_data (bytes_NewReader ''hi'')))) ''/tmp/x'' (w_be shell_world) = (Inr (), s')"
    using reliable_upload[OF shell_laws shell_reliable d vd, of "bytes_NewReader ''hi''"] by (auto simp: bytes_NewReader_def max_int64_def)
  have c: "rs_Code (fst ?f) = 204"
    using i d n u by (simp add: FilesHandler_def handleUpload_def e copyFileToSandbox_def no_staging_errors_def respond_def
        defaultMaxUploadBytes_def auditFile_def)
  have "?f = (fst ?f, snd ?f)" by simp
  from handleUpload_correct[where E = shell_env and V = shell_vm, unfolded e, OF shell_laws i this c vd] d n
  show ?thesis by (auto simp: shell_vm_def)
qed

end
