(* ===== verification/Ops.thy ===== *)
theory Ops
  imports World
begin

text \<open>
  Asynchronous operations and provision idempotency (\<^verbatim>\<open>internal/ops/ops.go\<close>) on the shared
  state.  \<open>operations\<close> and \<open>idem\<close> are the abstract views of the two buckets.  The body of \<open>Run\<close>
  executes in a goroutine; here it is a step from the state it starts in to the state it ends in,
  with the work it is given as a function on the state.
\<close>

definition defaultListLimit :: int where "defaultListLimit = 200"

definition Ops_emit :: "('db, 'be) Env \<Rightarrow> Operation \<Rightarrow> ('db, 'be) World \<Rightarrow> ('db, 'be) World" where
  "Ops_emit E op w =
     publish E (''operation.'' @ o_State op) (o_SandboxID op) (Some [(''op_id'', o_ID op), (''type'', o_Type op)]) w"

definition Ops_put ::
  "('db, 'be) Env \<Rightarrow> Operation \<Rightarrow> ('db, 'be) World \<Rightarrow> Operation res \<times> ('db, 'be) World" where
  "Ops_put E op w =
     (let (t, w') = now E w; op' = op\<lparr>o_UpdatedAt := t\<rparr> in
      case store_Put (en_bolt E) (w_db w') ''operations'' (o_ID op') (JOperation op') of
        Inl e \<Rightarrow> (Inl e, w')
      | Inr db \<Rightarrow> (Inr op', w'\<lparr>w_db := db\<rparr>))"

text \<open>\<open>Inr None\<close> is the nil operation without an error.\<close>

definition Ops_Get :: "('db, 'be) Env \<Rightarrow> string \<Rightarrow> ('db, 'be) World \<Rightarrow> Operation option res" where
  "Ops_Get E opID w =
     (case store_Get (en_bolt E) (w_db w) ''operations'' opID of
        Inl e \<Rightarrow> Inl e
      | Inr None \<Rightarrow> Inr None
      | Inr (Some raw) \<Rightarrow> (case unmarshal_Operation raw of Inl e \<Rightarrow> Inl e | Inr op \<Rightarrow> Inr (Some op)))"

text \<open>The text of a stored idempotency value; JSON text is the id of no operation.\<close>

definition idem_target :: "('db, 'be) Env \<Rightarrow> blob \<Rightarrow> ('db, 'be) World \<Rightarrow> Operation option" where
  "idem_target E raw w =
     (case raw of
        Bytes s \<Rightarrow> (case Ops_Get E s w of Inr (Some op) \<Rightarrow> Some op | _ \<Rightarrow> None)
      | _ \<Rightarrow> None)"

definition Ops_create ::
  "('db, 'be) Env \<Rightarrow> string \<Rightarrow> string \<Rightarrow> ('db, 'be) World \<Rightarrow> (Operation \<times> bool) res \<times> ('db, 'be) World" where
  "Ops_create E opType idempKey w =
     (let (i, w) = new_op_id E w; (t, w) = now E w;
          op = \<lparr>o_ID = i, o_Type = opType, o_State = ''pending'', o_SandboxID = '''', o_Error = None,
                o_IdempKey = idempKey, o_CreatedAt = t, o_UpdatedAt = 0\<rparr>
      in case Ops_put E op w of
           (Inl e, w) \<Rightarrow> (Inl e, w)
         | (Inr op, w) \<Rightarrow>
             if idempKey \<noteq> '''' then
               (case store_Put (en_bolt E) (w_db w) ''idempotency'' idempKey (Bytes (o_ID op)) of
                  Inl e \<Rightarrow> (Inl e, w)
                | Inr db \<Rightarrow> (Inr (op, False), w\<lparr>w_db := db\<rparr>))
             else (Inr (op, False), w))"

definition Ops_Start ::
  "('db, 'be) Env \<Rightarrow> string \<Rightarrow> string \<Rightarrow> ('db, 'be) World \<Rightarrow> (Operation \<times> bool) res \<times> ('db, 'be) World" where
  "Ops_Start E opType idempKey w =
     (if idempKey \<noteq> '''' then
        (case store_Get (en_bolt E) (w_db w) ''idempotency'' idempKey of
           Inl e \<Rightarrow> (Inl e, w)
         | Inr None \<Rightarrow> Ops_create E opType idempKey w
         | Inr (Some raw) \<Rightarrow>
             (case idem_target E raw w of
                Some op \<Rightarrow> (Inr (op, True), w)
              | None \<Rightarrow> Ops_create E opType idempKey w))
      else Ops_create E opType idempKey w)"

definition Ops_ClearIdempotency ::
  "('db, 'be) Env \<Rightarrow> string \<Rightarrow> ('db, 'be) World \<Rightarrow> unit res \<times> ('db, 'be) World" where
  "Ops_ClearIdempotency E key w =
     (if key = '''' then (Inr (), w)
      else case store_Delete (en_bolt E) (w_db w) ''idempotency'' key of
             Inl e \<Rightarrow> (Inl e, w)
           | Inr db \<Rightarrow> (Inr (), w\<lparr>w_db := db\<rparr>))"

text \<open>The result of a put is ignored: the operation keeps its new update time either way.\<close>

definition Ops_put_ignore ::
  "('db, 'be) Env \<Rightarrow> Operation \<Rightarrow> ('db, 'be) World \<Rightarrow> Operation \<times> ('db, 'be) World" where
  "Ops_put_ignore E op w = (op\<lparr>o_UpdatedAt := fst (now E w)\<rparr>, snd (Ops_put E op w))"

definition inc_op :: "Operation \<Rightarrow> ('db, 'be) World \<Rightarrow> ('db, 'be) World" where
  "inc_op op w = w\<lparr>w_metrics := map_option (\<lambda>ms. ms @ [(o_Type op, o_State op)]) (w_metrics w)\<rparr>"

definition Ops_Run ::
  "('db, 'be) Env \<Rightarrow> string \<Rightarrow> (('db, 'be) World \<Rightarrow> string res \<times> ('db, 'be) World) \<Rightarrow> ('db, 'be) World
    \<Rightarrow> ('db, 'be) World" where
  "Ops_Run E opID fn w =
     (case Ops_Get E opID w of
        Inr (Some op) \<Rightarrow>
          (let (op, w) = Ops_put_ignore E (op\<lparr>o_State := ''running''\<rparr>) w;
               w = Ops_emit E op w;
               (res, w) = fn w;
               op = (case res of
                       Inl e \<Rightarrow> op\<lparr>o_State := ''error'', o_Error := Some e\<rparr>
                     | Inr sb \<Rightarrow> op\<lparr>o_State := ''done'', o_SandboxID := sb\<rparr>);
               (op, w) = Ops_put_ignore E op w
           in inc_op op (Ops_emit E op w))
      | _ \<Rightarrow> w)"

definition terminal :: "Operation \<Rightarrow> bool" where
  "terminal op \<longleftrightarrow> o_State op = ''done'' \<or> o_State op = ''error''"

definition interrupted :: "Operation \<Rightarrow> Operation" where
  "interrupted op =
     op\<lparr>o_State := ''error'', o_Error := Some (Errf ''interrupted: node restarted during operation'' [])\<rparr>"

fun sweep :: "('db, 'be) Env \<Rightarrow> Operation list \<Rightarrow> ('db, 'be) World \<Rightarrow> unit res \<times> ('db, 'be) World" where
  "sweep E [] w = (Inr (), w)"
| "sweep E (op # ops) w =
     (case Ops_put E (interrupted op) w of
        (Inl e, w') \<Rightarrow> (Inl e, w')
      | (Inr _, w') \<Rightarrow> sweep E ops w')"

definition all_operations :: "('db, 'be) Env \<Rightarrow> ('db, 'be) World \<Rightarrow> Operation list res" where
  "all_operations E w = store_ForEach (en_bolt E) (w_db w) ''operations'' (\<lambda>(_, v). unmarshal_Operation v)"

definition Ops_RecoverInterrupted ::
  "('db, 'be) Env \<Rightarrow> ('db, 'be) World \<Rightarrow> nat res \<times> ('db, 'be) World" where
  "Ops_RecoverInterrupted E w =
     (case all_operations E w of
        Inl e \<Rightarrow> (Inl e, w)
      | Inr ops \<Rightarrow>
          (let stranded = filter (\<lambda>op. \<not> terminal op) ops in
           case sweep E stranded w of
             (Inl e, w') \<Rightarrow> (Inl e, w')
           | (Inr _, w') \<Rightarrow> (Inr (length stranded), w')))"

text \<open>
  \<^verbatim>\<open>sort.Slice\<close> leaves the order of operations created at the same instant open; here they keep
  the store's order.
\<close>

definition newer :: "Operation \<Rightarrow> Operation \<Rightarrow> bool" where
  "newer a b \<longleftrightarrow> o_CreatedAt a > o_CreatedAt b"

definition Ops_List :: "('db, 'be) Env \<Rightarrow> int \<Rightarrow> ('db, 'be) World \<Rightarrow> Operation list res" where
  "Ops_List E limit w =
     (let limit = (if limit \<le> 0 \<or> limit > defaultListLimit then defaultListLimit else limit) in
      case all_operations E w of
        Inl e \<Rightarrow> Inl e
      | Inr ops \<Rightarrow>
          (let ops = sort_by newer ops in
           Inr (if int (length ops) > limit then take (nat limit) ops else ops)))"

section \<open>The abstract view\<close>

definition operations :: "('db, 'be) Env \<Rightarrow> ('db, 'be) World \<Rightarrow> string \<Rightarrow> Operation option" where
  "operations E w i = (case b_get (en_bolt E) (w_db w) ''operations'' i of Some (JOperation x) \<Rightarrow> Some x | _ \<Rightarrow> None)"

definition idem :: "('db, 'be) Env \<Rightarrow> ('db, 'be) World \<Rightarrow> string \<Rightarrow> string option" where
  "idem E w k = (case b_get (en_bolt E) (w_db w) ''idempotency'' k of Some (Bytes s) \<Rightarrow> Some s | _ \<Rightarrow> None)"

definition ops_inv :: "('db, 'be) Env \<Rightarrow> ('db, 'be) World \<Rightarrow> bool" where
  "ops_inv E w \<longleftrightarrow>
     b_has (en_bolt E) (w_db w) ''operations'' \<and> b_has (en_bolt E) (w_db w) ''idempotency''
   \<and> (\<forall>k v. b_get (en_bolt E) (w_db w) ''operations'' k = Some v \<longrightarrow> (\<exists>x. v = JOperation x \<and> o_ID x = k))
   \<and> (\<forall>k v. b_get (en_bolt E) (w_db w) ''idempotency'' k = Some v \<longrightarrow> (\<exists>s. v = Bytes s))"

lemma operations_get: "ops_inv E w \<Longrightarrow> b_get (en_bolt E) (w_db w) ''operations'' k = map_option JOperation (operations E w k)"
  unfolding operations_def ops_inv_def by (fastforce split: option.splits blob.splits)

lemma idem_get: "ops_inv E w \<Longrightarrow> b_get (en_bolt E) (w_db w) ''idempotency'' k = map_option Bytes (idem E w k)"
  unfolding idem_def ops_inv_def by (fastforce split: option.splits blob.splits)

lemma operations_ID: "ops_inv E w \<Longrightarrow> operations E w k = Some x \<Longrightarrow> o_ID x = k"
  using operations_get[of E w k] by (fastforce simp: ops_inv_def)

lemma Ops_Get_eq: "ops_inv E w \<Longrightarrow> Ops_Get E i w = Inr (operations E w i)"
  using operations_get[of E w i]
  by (auto simp: Ops_Get_def store_Get_def ops_inv_def split: option.splits)

lemma idem_target_eq:
  "ops_inv E w \<Longrightarrow> idem_target E (Bytes s) w = operations E w s"
  by (auto simp: idem_target_def Ops_Get_eq split: option.splits)

lemma ops_cong:
  "w_db w' = w_db w \<Longrightarrow> operations E w' = operations E w"
  "w_db w' = w_db w \<Longrightarrow> idem E w' = idem E w"
  "w_db w' = w_db w \<Longrightarrow> ops_inv E w' = ops_inv E w"
  by (simp_all add: operations_def idem_def ops_inv_def fun_eq_iff)

lemma Ops_emit_db [simp]: "w_db (Ops_emit E op w) = w_db w"
  by (simp add: Ops_emit_def)

lemma inc_op_db [simp]: "w_db (inc_op op w) = w_db w"
  by (simp add: inc_op_def)

text \<open>Starting with a key whose operation is stored returns that operation and changes nothing.\<close>

lemma Ops_Start_existing:
  "ops_inv E w \<Longrightarrow> key \<noteq> '''' \<Longrightarrow> idem E w key = Some s \<Longrightarrow> operations E w s = Some op \<Longrightarrow>
   Ops_Start E t key w = (Inr (op, True), w)"
  using idem_get[of E w key]
  by (simp add: Ops_Start_def store_Get_def ops_inv_def[of E w] idem_target_eq)

locale ops_env =
  fixes E :: "('db, 'be) Env"
  assumes bolt: "bolt_laws (en_bolt E)"

sublocale ops_env \<subseteq> odb: bolt_db "en_bolt E"
  by unfold_locales (rule bolt)

context ops_env
begin

lemma put_cases:
  assumes "ops_inv E w" "Ops_put E op w = (r, w')"
  shows "case r of
     Inl e \<Rightarrow> w_db w' = w_db w
   | Inr op' \<Rightarrow> op' = op\<lparr>o_UpdatedAt := en_clock E (w_tick w)\<rparr>
       \<and> operations E w' = (operations E w)(o_ID op \<mapsto> op') \<and> idem E w' = idem E w \<and> ops_inv E w'"
proof -
  let ?op = "op\<lparr>o_UpdatedAt := en_clock E (w_tick w)\<rparr>"
  show ?thesis
  proof (cases "store_Put (en_bolt E) (w_db w) ''operations'' (o_ID op) (JOperation ?op)")
    case (Inl e)
    with assms(2) show ?thesis by (auto simp: Ops_put_def Let_def now_def)
  next
    case (Inr db')
    with assms(2) have w': "r = Inr ?op" "w' = (snd (now E w))\<lparr>w_db := db'\<rparr>"
      by (auto simp: Ops_put_def Let_def now_def)
    have "b_put (en_bolt E) (w_db w) ''operations'' (o_ID op) (JOperation ?op) = Inr db'"
      using Inr assms(1) by (simp add: store_Put_def ops_inv_def)
    note D = odb.put_D[OF this]
    show ?thesis
      using D assms(1) by (auto simp: w' operations_def idem_def ops_inv_def fun_eq_iff)
  qed
qed

lemma create_cases:
  assumes "ops_inv E w" "Ops_create E t key w = (Inr (op, ex), w')"
  shows "ops_inv E w' \<and> ex = False \<and> o_State op = ''pending'' \<and> o_Type op = t \<and> o_IdempKey op = key
    \<and> o_ID op = g_node (w_gen w) @ CHR ''.'' # en_ulid E (g_next (w_gen w))
    \<and> operations E w' = (operations E w)(o_ID op \<mapsto> op)
    \<and> idem E w' = (if key = '''' then idem E w else (idem E w)(key \<mapsto> o_ID op))"
proof -
  define i where "i = g_node (w_gen w) @ CHR ''.'' # en_ulid E (g_next (w_gen w))"
  obtain w1 where n: "new_op_id E w = (i, w1)" and d1: "w_db w1 = w_db w"
    by (metis i_def new_op_id_sel(1,5) prod.collapse)
  obtain tt w2 where nw: "now E w1 = (tt, w2)" and d2: "w_db w2 = w_db w"
    using d1 by (metis now_sel(1) prod.collapse)
  let ?op = "\<lparr>o_ID = i, o_Type = t, o_State = ''pending'', o_SandboxID = '''', o_Error = None,
                o_IdempKey = key, o_CreatedAt = tt, o_UpdatedAt = 0\<rparr>"
  obtain q w3 where p: "Ops_put E ?op w2 = (q, w3)" by fastforce
  have inv2: "ops_inv E w2" "operations E w2 = operations E w" "idem E w2 = idem E w"
    using assms(1) ops_cong[of w2 w E] d2 by auto
  obtain op' where q: "q = Inr op'"
    using assms(2) n nw p by (auto simp: Ops_create_def Let_def split: sum.splits)
  have pc: "op' = ?op\<lparr>o_UpdatedAt := en_clock E (w_tick w2)\<rparr>" "operations E w3 = (operations E w)(i \<mapsto> op')"
    "idem E w3 = idem E w" "ops_inv E w3"
    using put_cases[OF inv2(1) p] inv2 q by auto
  show ?thesis
  proof (cases "key = ''''")
    case True
    then have "op = op'" "ex = False" "w' = w3"
      using assms(2) n nw p q by (auto simp: Ops_create_def Let_def)
    with pc True show ?thesis by (auto simp: i_def)
  next
    case False
    then obtain db' where pu: "store_Put (en_bolt E) (w_db w3) ''idempotency'' key (Bytes (o_ID op')) = Inr db'"
      and w': "op = op'" "ex = False" "w' = w3\<lparr>w_db := db'\<rparr>"
      using assms(2) n nw p q by (auto simp: Ops_create_def Let_def split: sum.splits)
    have "b_put (en_bolt E) (w_db w3) ''idempotency'' key (Bytes (o_ID op')) = Inr db'"
      using pu pc(4) by (simp add: store_Put_def ops_inv_def)
    note D = odb.put_D[OF this]
    have "operations E w' = operations E w3" "idem E w' = (idem E w3)(key \<mapsto> o_ID op')" "ops_inv E w'"
      using D pc(4) by (auto simp: w' operations_def idem_def ops_inv_def fun_eq_iff)
    with pc False w' show ?thesis by (auto simp: i_def)
  qed
qed

end

section \<open>Recovery and listing\<close>

interpretation newer: weak_order newer
  by unfold_locales (auto simp: newer_def)

context ops_env
begin

lemma all_operations_eq:
  assumes "ops_inv E w"
  shows "\<exists>ops. all_operations E w = Inr ops \<and> set ops = ran (operations E w) \<and> distinct (map o_ID ops)"
proof -
  have dec: "\<exists>x. unmarshal_Operation v = Inr x \<and> o_ID x = k"
    if "b_get (en_bolt E) (w_db w) ''operations'' k = Some v" for k v
    using that assms by (fastforce simp: ops_inv_def)
  have "{x. \<exists>k v. b_get (en_bolt E) (w_db w) ''operations'' k = Some v \<and> unmarshal_Operation v = Inr x}
      = ran (operations E w)"
    using operations_get[OF assms] by (auto simp: ran_def)
  then show ?thesis
    using odb.ForEach_decode[of "w_db w" "''operations''" unmarshal_Operation o_ID, OF _ dec] assms
    by (auto simp: all_operations_def ops_inv_def strict_sorted_iff)
qed

text \<open>\<open>swept x x'\<close>: \<open>x'\<close> is \<open>x\<close> marked as interrupted, with some update time.\<close>

lemma sweep_ok:
  assumes "ops_inv E w" "sweep E ops w = (Inr u, w')" "distinct (map o_ID ops)"
  shows "ops_inv E w' \<and> idem E w' = idem E w
    \<and> (\<forall>k. k \<notin> o_ID ` set ops \<longrightarrow> operations E w' k = operations E w k)
    \<and> (\<forall>x \<in> set ops. \<exists>t. operations E w' (o_ID x) = Some ((interrupted x)\<lparr>o_UpdatedAt := t\<rparr>))"
  using assms
proof (induction ops arbitrary: w)
  case Nil
  then show ?case by simp
next
  case (Cons x xs)
  then obtain y w1 where p: "Ops_put E (interrupted x) w = (Inr y, w1)" and s: "sweep E xs w1 = (Inr u, w')"
    by (auto split: prod.splits sum.splits)
  have id: "o_ID (interrupted x) = o_ID x" by (simp add: interrupted_def)
  have pc: "y = (interrupted x)\<lparr>o_UpdatedAt := en_clock E (w_tick w)\<rparr>"
    "operations E w1 = (operations E w)(o_ID x \<mapsto> y)" "idem E w1 = idem E w" "ops_inv E w1"
    using put_cases[OF Cons.prems(1) p] id by auto
  have "distinct (map o_ID xs)" "o_ID x \<notin> o_ID ` set xs" using Cons.prems(3) by auto
  with Cons.IH[OF pc(4) s] pc show ?case by auto
qed

lemma Recover_ok:
  assumes "ops_inv E w" "Ops_RecoverInterrupted E w = (Inr n, w')"
  shows "ops_inv E w' \<and> idem E w' = idem E w
    \<and> n = card {k. \<exists>x. operations E w k = Some x \<and> \<not> terminal x}
    \<and> (\<forall>k. case operations E w k of
          None \<Rightarrow> operations E w' k = None
        | Some x \<Rightarrow> if terminal x then operations E w' k = Some x
                   else \<exists>t. operations E w' k = Some ((interrupted x)\<lparr>o_UpdatedAt := t\<rparr>))"
proof -
  obtain ops where a: "all_operations E w = Inr ops" "set ops = ran (operations E w)" "distinct (map o_ID ops)"
    using all_operations_eq[OF assms(1)] by blast
  let ?st = "filter (\<lambda>op. \<not> terminal op) ops"
  obtain u where s: "sweep E ?st w = (Inr u, w')" and n: "n = length ?st"
    using assms(2) a(1) by (auto simp: Ops_RecoverInterrupted_def Let_def split: prod.splits sum.splits)
  have d: "distinct (map o_ID ?st)" using a(3) by (simp add: distinct_map_filter)
  have mem: "x \<in> set ops \<longleftrightarrow> operations E w (o_ID x) = Some x" for x
    using a(2) operations_ID[OF assms(1)] by (auto simp: ran_def)
  note sw = sweep_ok[OF assms(1) s d]
  have ids: "o_ID ` set ?st = {k. \<exists>x. operations E w k = Some x \<and> \<not> terminal x}"
  proof
    show "{k. \<exists>x. operations E w k = Some x \<and> \<not> terminal x} \<subseteq> o_ID ` set ?st"
    proof
      fix k assume "k \<in> {k. \<exists>x. operations E w k = Some x \<and> \<not> terminal x}"
      then obtain x where "operations E w k = Some x" "\<not> terminal x" by blast
      then have "x \<in> set ?st" "o_ID x = k" using operations_ID[OF assms(1)] mem by auto
      then show "k \<in> o_ID ` set ?st" by blast
    qed
  qed (use mem in auto)
  have "length ?st = card (o_ID ` set ?st)" using d by (metis distinct_card length_map set_map)
  then have "n = card {k. \<exists>x. operations E w k = Some x \<and> \<not> terminal x}" using n by (simp only: ids)
  moreover have "case operations E w k of None \<Rightarrow> operations E w' k = None
        | Some x \<Rightarrow> if terminal x then operations E w' k = Some x
                   else \<exists>t. operations E w' k = Some ((interrupted x)\<lparr>o_UpdatedAt := t\<rparr>)" for k
  proof (cases "operations E w k")
    case None
    then have "k \<notin> o_ID ` set ?st" by (simp only: ids) simp
    with sw None show ?thesis by simp
  next
    case (Some x)
    then have x: "o_ID x = k" "x \<in> set ops" using operations_ID[OF assms(1)] mem by auto
    show ?thesis
    proof (cases "terminal x")
      case True
      then have "k \<notin> o_ID ` set ?st" using Some by (simp only: ids) simp
      with sw Some True show ?thesis by simp
    next
      case False
      with x have "x \<in> set ?st" by simp
      then have "\<exists>t. operations E w' (o_ID x) = Some ((interrupted x)\<lparr>o_UpdatedAt := t\<rparr>)" using sw by blast
      with Some False show ?thesis by (simp only: x(1)) simp
    qed
  qed
  ultimately show ?thesis using sw by blast
qed

end

section \<open>Properties\<close>

text \<open>
  Starting is idempotent.  Once a start with a non-empty key has succeeded, every later start
  with that key returns the same operation, says that it existed, and changes nothing, until the
  mapping is cleared; a fresh operation is pending and stored under its id.
\<close>

theorem Ops_Start_idempotent:
  assumes "bolt_laws (en_bolt E)" and "ops_inv E w" and "key \<noteq> ''''"
    and "Ops_Start E t key w = (Inr (op, existed), w')"
  shows "Ops_Start E t' key w' = (Inr (op, True), w') \<and> Ops_Get E (o_ID op) w' = Inr (Some op)
    \<and> ops_inv E w' \<and> (existed \<longrightarrow> w' = w) \<and> (\<not> existed \<longrightarrow> o_State op = ''pending'' \<and> o_Type op = t)"
proof (cases "\<exists>s. idem E w key = Some s \<and> operations E w s = Some op \<and> existed \<and> w' = w")
  case True
  then obtain s where s: "idem E w key = Some s" "operations E w s = Some op" "existed" "w' = w" by blast
  with Ops_Start_existing[OF assms(2,3)] operations_ID[OF assms(2) s(2)] assms(2) show ?thesis
    by (simp add: Ops_Get_eq)
next
  case False
  have ix: "store_Get (en_bolt E) (w_db w) ''idempotency'' key = Inr (map_option Bytes (idem E w key))"
    using idem_get[OF assms(2), of key] assms(2) by (simp add: store_Get_def ops_inv_def)
  have "Ops_create E t key w = (Inr (op, existed), w')"
    using assms(3,4) False ix
    by (auto simp: Ops_Start_def idem_target_eq[OF assms(2)] split: option.splits)
  note c = ops_env.create_cases[OF ops_env.intro[OF assms(1)] assms(2) this]
  have i: "idem E w' key = Some (o_ID op)" "operations E w' (o_ID op) = Some op" "ops_inv E w'"
    using c assms(3) by auto
  with Ops_Start_existing[OF i(3) assms(3) i(1,2)] c show ?thesis by (simp add: Ops_Get_eq)
qed

lemma mem_ops_inv: "ops_inv mem_env mem_world"
proof -
  have "b_has mem_bolt mem_open ''operations''" "b_has mem_bolt mem_open ''idempotency''"
    "mem_kvs mem_open ''operations'' = []" "mem_kvs mem_open ''idempotency'' = []" by code_simp+
  then show ?thesis by (simp add: ops_inv_def mem_env_def mem_world_def mem_bolt_def)
qed

lemma mem_bolt_env: "bolt_laws (en_bolt mem_env)"
  by (simp add: mem_env_def mem_bolt_laws)

definition mem_started :: "(Operation \<times> bool) res \<times> (mem_db, Fake) World" where
  "mem_started = Ops_Start mem_env ''provision'' ''key'' mem_world"

lemma mem_started: "\<exists>op w'. mem_started = (Inr (op, False), w') \<and> o_ID op = ''n1.00''"
proof -
  have "map_sum (\<lambda>_. ()) (\<lambda>(op, ex). (o_ID op, ex)) (fst mem_started) = Inr (''n1.00'', False)" by code_simp
  then obtain op where "fst mem_started = Inr (op, False)" "o_ID op = ''n1.00''"
    by (cases "fst mem_started") auto
  then show ?thesis by (metis prod.collapse)
qed

theorem Ops_Start_idempotent_witness:
  "\<exists>op w'. mem_started = (Inr (op, False), w')
     \<and> Ops_Start mem_env ''provision'' ''key'' w' = (Inr (op, True), w')"
proof -
  obtain op w' where m: "mem_started = (Inr (op, False), w')" using mem_started by blast
  with Ops_Start_idempotent[OF mem_bolt_env mem_ops_inv, of "''key''" "''provision''" op False w' "''provision''"]
  show ?thesis by (simp add: mem_started_def)
qed

text \<open>
  Recovery after a restart.  When the sweep succeeds no operation is left pending or running:
  each one that was is now an error saying so, the finished ones are untouched, none appears or
  disappears, the idempotency keys are kept, and the count is the number swept.
\<close>

theorem RecoverInterrupted_correct:
  assumes "bolt_laws (en_bolt E)" and "ops_inv E w" and "Ops_RecoverInterrupted E w = (Inr n, w')"
  shows "(\<forall>k. case operations E w k of
        None \<Rightarrow> operations E w' k = None
      | Some x \<Rightarrow> if terminal x then operations E w' k = Some x
                 else \<exists>t. operations E w' k = Some ((interrupted x)\<lparr>o_UpdatedAt := t\<rparr>))
    \<and> (\<forall>k x. operations E w' k = Some x \<longrightarrow> terminal x)
    \<and> idem E w' = idem E w \<and> n = card {k. \<exists>x. operations E w k = Some x \<and> \<not> terminal x}"
proof -
  note r = ops_env.Recover_ok[OF ops_env.intro[OF assms(1)] assms(2,3)]
  have "terminal x" if "operations E w' k = Some x" for k x
  proof (cases "operations E w k")
    case None
    with r that show ?thesis by (auto dest!: spec[of _ k])
  next
    case (Some y)
    have "if terminal y then operations E w' k = Some y
        else \<exists>t. operations E w' k = Some ((interrupted y)\<lparr>o_UpdatedAt := t\<rparr>)"
      using r Some by (auto dest!: spec[of _ k])
    with that show ?thesis by (cases "terminal y") (auto simp: terminal_def interrupted_def)
  qed
  with r show ?thesis by blast
qed

theorem RecoverInterrupted_correct_witness:
  "\<exists>w'. Ops_RecoverInterrupted mem_env (snd mem_started) = (Inr 1, w')
     \<and> (\<forall>k x. operations mem_env w' k = Some x \<longrightarrow> terminal x)"
proof -
  obtain op w1 where m: "mem_started = (Inr (op, False), w1)" using mem_started by blast
  have "ops_inv mem_env w1"
    using Ops_Start_existing ops_env.create_cases[OF ops_env.intro[OF mem_bolt_env] mem_ops_inv]
      m by (auto simp: mem_started_def Ops_Start_def idem_target_def split: sum.splits option.splits blob.splits)
  moreover have "fst (Ops_RecoverInterrupted mem_env (snd mem_started)) = Inr 1" by code_simp
  then obtain w' where r: "Ops_RecoverInterrupted mem_env w1 = (Inr 1, w')" using m by (metis prod.collapse snd_conv)
  ultimately have "\<forall>k x. operations mem_env w' k = Some x \<longrightarrow> terminal x"
    using RecoverInterrupted_correct[OF mem_bolt_env _ r] by blast
  with r m show ?thesis by (metis snd_conv)
qed

text \<open>
  The operation history is bounded and newest first.  At most 200 operations, and at most the
  limit when one is given, are returned; they are stored ones, in order of decreasing creation time,
  and no operation left out was created after one that is returned.
\<close>

theorem Ops_List_correct:
  assumes "bolt_laws (en_bolt E)" and "ops_inv E w"
  shows "\<exists>out. Ops_List E limit w = Inr out \<and> length out \<le> 200 \<and> (0 < limit \<longrightarrow> int (length out) \<le> limit)
    \<and> set out \<subseteq> ran (operations E w) \<and> sorted_wrt (\<lambda>a b. o_CreatedAt b \<le> o_CreatedAt a) out
    \<and> (\<forall>x \<in> ran (operations E w) - set out. \<forall>y \<in> set out. o_CreatedAt x \<le> o_CreatedAt y)"
proof -
  obtain ops where a: "all_operations E w = Inr ops" "set ops = ran (operations E w)"
    using ops_env.all_operations_eq[OF ops_env.intro[OF assms(1)] assms(2)] by blast
  define lim where "lim = (if limit \<le> 0 \<or> limit > defaultListLimit then defaultListLimit else limit)"
  let ?s = "sort_by newer ops"
  have srt: "sorted_wrt (\<lambda>a b. o_CreatedAt b \<le> o_CreatedAt a) ?s"
    using newer.sorted_sort_by[of ops] by (simp add: newer_def not_less)
  define out where "out = (if int (length ?s) > lim then take (nat lim) ?s else ?s)"
  have l: "Ops_List E limit w = Inr out" using a(1) by (simp add: Ops_List_def lim_def out_def Let_def)
  have b: "0 < lim" "lim \<le> 200" "0 < limit \<longrightarrow> lim \<le> limit" by (auto simp: lim_def defaultListLimit_def)
  have split: "?s = out @ (if int (length ?s) > lim then drop (nat lim) ?s else [])"
    by (simp add: out_def)
  have "length out \<le> 200 \<and> (0 < limit \<longrightarrow> int (length out) \<le> limit)" using b by (auto simp: out_def)
  moreover have "set out \<subseteq> ran (operations E w)" using split a(2) by (metis set_append set_sort_by sup_ge1)
  moreover have "sorted_wrt (\<lambda>a b. o_CreatedAt b \<le> o_CreatedAt a) out"
    using srt split by (metis sorted_wrt_append)
  moreover have "o_CreatedAt x \<le> o_CreatedAt y" if "x \<in> ran (operations E w) - set out" "y \<in> set out" for x y
  proof -
    have "x \<in> set (if int (length ?s) > lim then drop (nat lim) ?s else [])"
      using that(1) a(2) split by (metis DiffD1 DiffD2 Un_iff set_append set_sort_by)
    then show ?thesis using srt split that(2) by (metis sorted_wrt_append)
  qed
  ultimately show ?thesis using l by blast
qed

theorem Ops_List_correct_witness:
  "\<exists>out. Ops_List mem_env 5 mem_world = Inr out \<and> length out \<le> 200"
  using Ops_List_correct[OF mem_bolt_env mem_ops_inv] by blast

end
