(* ===== verification/SandboxService.thy ===== *)
theory SandboxService
  imports Files Ops
begin

text \<open>
  The sandbox service (\<^verbatim>\<open>internal/apiserver/sandboxservice.go\<close>): creation with idempotency keys, the
  lifecycle handlers, publishing to git, the idle reaper and the drain sweep, and agent runs.  The
  state is the node's world with the git host; \<open>None\<close> stands for a call that waits for a workspace
  lock that nobody releases, and for an agent run that never ends.  Timeouts show as errors of the
  backend and of git.
\<close>

text \<open>
  \<open>ss_tmp\<close> is the outcome of creating the host file for a bundle at a given reading of the clock,
  \<open>ss_place\<close> the placement function (\<open>None\<close> for nil).
\<close>

record ('db, 'be, 'g) Svc =
  ss_env :: "('db, 'be) Env"
  ss_git :: "'g GitHost"
  ss_gitWS :: "(string, Spec) gomap"
  ss_audit :: bool
  ss_events :: bool
  ss_idleTimeout :: int
  ss_bundleDir :: string
  ss_tmp :: "nat \<Rightarrow> string res"
  ss_defaultStrategy :: string
  ss_defaultResources :: Resources
  ss_place :: "(Request \<Rightarrow> CreateSandboxRequest \<Rightarrow> ('db, 'be) World \<times> 'g GitState
      \<Rightarrow> (string res \<times> ('db, 'be) World \<times> 'g GitState) option) option"

type_synonym ('db, 'be, 'g) st = "('db, 'be) World \<times> 'g GitState"

section \<open>Views\<close>

definition int32 :: "int \<Rightarrow> int" where
  "int32 i = (i + 2 ^ 31) mod 2 ^ 32 - 2 ^ 31"

definition displayName :: "Record \<Rightarrow> string" where
  "displayName rec =
     (if cs_DisplayName (r_Spec rec) \<noteq> '''' then cs_DisplayName (r_Spec rec)
      else let parts = (if cs_Agent (r_Spec rec) \<noteq> '''' then [cs_Agent (r_Spec rec)] else []);
               parts = (case cs_Workspaces (r_Spec rec) of [] \<Rightarrow> parts | m # _ \<Rightarrow> parts @ [wm_Name m]);
               parts = (case last_index_byte CHR ''.'' (r_ID rec) of
                          None \<Rightarrow> parts
                        | Some i \<Rightarrow>
                            if i + 1 < length (r_ID rec) then
                              (let u = drop (i + 1) (r_ID rec);
                                   u = (if 6 < length u then drop (length u - 6) u else u)
                               in parts @ [to_lower u])
                            else parts)
           in if parts = [] then r_ID rec else join_with ''-'' parts)"

text \<open>Times are kept as instants; \<open>None\<close> is the empty text of a zero time.\<close>

record Sandbox =
  sx_Id :: string
  sx_OwnerNode :: string
  sx_Status :: string
  sx_Ports :: "(int \<times> int) list"
  sx_Labels :: "(string, string) gomap"
  sx_Branch :: string
  sx_LastPublish :: "gotime option"
  sx_Agent :: string
  sx_Name :: string
  sx_Workspaces :: "WorkspaceMount list"
  sx_CreatedAt :: "gotime option"
  sx_Cpus :: int
  sx_MemoryBytes :: int
  sx_DiskGb :: rat
  sx_Kits :: "string list"

definition port_proto :: "PublishedPort \<Rightarrow> int \<times> int" where
  "port_proto p = (int32 (pp_ContainerPort p), int32 (pp_HostPort p))"

definition nonzero :: "gotime \<Rightarrow> gotime option" where
  "nonzero t = (if t = 0 then None else Some t)"

definition toProto :: "Record \<Rightarrow> Sandbox" where
  "toProto rec =
     \<lparr>sx_Id = r_ID rec, sx_OwnerNode = r_OwnerNode rec, sx_Status = r_Status rec, sx_Ports = map port_proto (r_Ports rec),
      sx_Labels = r_Labels rec, sx_Branch = cs_Branch (r_Spec rec), sx_LastPublish = nonzero (r_LastPublish rec),
      sx_Agent = cs_Agent (r_Spec rec), sx_Name = displayName rec, sx_Workspaces = cs_Workspaces (r_Spec rec),
      sx_CreatedAt = nonzero (r_CreatedAt rec), sx_Cpus = int32 (cs_CPUs (r_Spec rec)),
      sx_MemoryBytes = cs_MemoryBytes (r_Spec rec), sx_DiskGb = cs_DiskGB (r_Spec rec), sx_Kits = cs_Kits (r_Spec rec)\<rparr>"

record OpProto =
  op_Id :: string
  op_Type :: string
  op_State :: string
  op_SandboxId :: string
  op_Error :: "go_error option"

definition opProto :: "Operation \<Rightarrow> OpProto" where
  "opProto op = \<lparr>op_Id = o_ID op, op_Type = o_Type op, op_State = o_State op, op_SandboxId = o_SandboxID op, op_Error = o_Error op\<rparr>"

definition idempotencyKey :: "MD \<Rightarrow> string" where
  "idempotencyKey md = first_md md ''idempotency-key''"

definition internal :: "go_error \<Rightarrow> go_error" where
  "internal e = Status Internal ''%s'' [] (Some e)"

section \<open>Records and lifecycle\<close>

definition GetSandbox :: "('db, 'be, 'g) Svc \<Rightarrow> string \<Rightarrow> ('db, 'be) World \<Rightarrow> Sandbox res" where
  "GetSandbox S i w =
     (case Manager_Get (ss_env S) i w of
        Inl e \<Rightarrow> Inl (if e = ErrNotFound then Status NotFound ''sandbox not found'' [] None else internal e)
      | Inr rec \<Rightarrow> Inr (toProto rec))"

definition ListSandboxes :: "('db, 'be, 'g) Svc \<Rightarrow> string \<Rightarrow> ('db, 'be) World \<Rightarrow> Sandbox list res" where
  "ListSandboxes S status w =
     (case Manager_List (ss_env S) w of
        Inl e \<Rightarrow> Inl (internal e)
      | Inr recs \<Rightarrow> Inr (map toProto (filter (\<lambda>rec. status = '''' \<or> r_Status rec = status) recs)))"

definition StartSandbox :: "('db, 'be, 'g) Svc \<Rightarrow> string \<Rightarrow> ('db, 'be) World \<Rightarrow> Sandbox res \<times> ('db, 'be) World" where
  "StartSandbox S i w =
     (case Manager_Start (ss_env S) i w of
        (Inl e, w) \<Rightarrow> (Inl (internal e), w)
      | (Inr _, w) \<Rightarrow> (GetSandbox S i w, w))"

definition KeepAlive :: "('db, 'be, 'g) Svc \<Rightarrow> string \<Rightarrow> ('db, 'be) World \<Rightarrow> Sandbox res \<times> ('db, 'be) World" where
  "KeepAlive S i w =
     (case Manager_BumpActivity (ss_env S) i w of
        (Inl e, w) \<Rightarrow> (Inl (if e = ErrNotFound then Status NotFound ''sandbox not found'' [] None else internal e), w)
      | (Inr _, w) \<Rightarrow> (GetSandbox S i w, w))"

definition record_audit ::
  "('db, 'be, 'g) Svc \<Rightarrow> string \<Rightarrow> string \<Rightarrow> string \<Rightarrow> unit res \<Rightarrow> ('db, 'be) World \<Rightarrow> ('db, 'be) World" where
  "record_audit S actor action target out w =
     (if ss_audit S then snd (Log_Record (ss_env S) (audit_entry actor action target (outcomeOf out)) w) else w)"

definition SaveTemplate ::
  "('db, 'be, 'g) Svc \<Rightarrow> string \<Rightarrow> string \<Rightarrow> string \<Rightarrow> ('db, 'be) World \<Rightarrow> unit res \<times> ('db, 'be) World" where
  "SaveTemplate S actor i tag w =
     (if tag = '''' then (Inl (Status InvalidArgument ''tag is required'' [] None), w)
      else if prefix ''-'' tag then (Inl (Status InvalidArgument ''tag must not start with -'' [] None), w)
      else case Manager_Get (ss_env S) i w of
             Inl e \<Rightarrow>
               (Inl (if errors_is e ErrNotFound then Status NotFound ''sandbox not found'' [] None else internal e), w)
           | Inr rec \<Rightarrow>
               if r_Status rec = ''running''
               then (Inl (Status FailedPrecondition ''stop the sandbox before saving it as a template'' [] None), w)
               else let (out, be) = be_SaveTemplate (en_backend (ss_env S)) (w_be w) (r_BackendName rec) tag;
                        w = record_audit S actor ''template.save'' tag out (w\<lparr>w_be := be\<rparr>)
                    in (case out of Inl e \<Rightarrow> (Inl (status_err e), w) | Inr _ \<Rightarrow> (Inr (), w)))"

section \<open>Commands, files and ports\<close>

text \<open>Answering with the backend's result, with the state the call leaves.\<close>

definition on_backend ::
  "('db, 'be, 'g) Svc \<Rightarrow> ('be \<Rightarrow> 'a res \<times> 'be) \<Rightarrow> ('db, 'be) World \<Rightarrow> 'a res \<times> ('db, 'be) World" where
  "on_backend S f w =
     (let (r, be) = f (w_be w); w = w\<lparr>w_be := be\<rparr> in case r of Inl e \<Rightarrow> (Inl (internal e), w) | Inr x \<Rightarrow> (Inr x, w))"

definition not_found :: "go_error \<Rightarrow> go_error" where
  "not_found e = Status NotFound ''%s'' [] (Some e)"

definition Exec ::
  "('db, 'be, 'g) Svc \<Rightarrow> string \<Rightarrow> string list \<Rightarrow> ExecOpts \<Rightarrow> ('db, 'be) World \<Rightarrow> ExecResult res \<times> ('db, 'be) World" where
  "Exec S i cmd opts w =
     (case Manager_Resolve (ss_env S) i w of
        Inl e \<Rightarrow> (Inl (not_found e), w)
      | Inr name \<Rightarrow>
          (case on_backend S (\<lambda>be. be_Exec (en_backend (ss_env S)) be name cmd opts) (snd (Manager_BumpActivity (ss_env S) i w)) of
             (Inl e, w) \<Rightarrow> (Inl e, w)
           | (Inr res, w) \<Rightarrow> (Inr (res\<lparr>er_ExitCode := int32 (er_ExitCode res)\<rparr>), w)))"

definition PublishPort :: "('db, 'be, 'g) Svc \<Rightarrow> string \<Rightarrow> int \<Rightarrow> ('db, 'be) World \<Rightarrow> (int \<times> int) res \<times> ('db, 'be) World" where
  "PublishPort S i port w =
     (case Manager_Resolve (ss_env S) i w of
        Inl e \<Rightarrow> (Inl (not_found e), w)
      | Inr name \<Rightarrow>
          (case on_backend S (\<lambda>be. be_PublishPort (en_backend (ss_env S)) be name port) w of
             (Inl e, w) \<Rightarrow> (Inl e, w)
           | (Inr p, w) \<Rightarrow> (Inr (port_proto p), w)))"

definition UnpublishPort :: "('db, 'be, 'g) Svc \<Rightarrow> string \<Rightarrow> int \<Rightarrow> ('db, 'be) World \<Rightarrow> unit res \<times> ('db, 'be) World" where
  "UnpublishPort S i port w =
     (case Manager_Resolve (ss_env S) i w of
        Inl e \<Rightarrow> (Inl (not_found e), w)
      | Inr name \<Rightarrow> on_backend S (\<lambda>be. be_UnpublishPort (en_backend (ss_env S)) be name port) w)"

definition ListPorts :: "('db, 'be, 'g) Svc \<Rightarrow> string \<Rightarrow> ('db, 'be) World \<Rightarrow> (int \<times> int) list res \<times> ('db, 'be) World" where
  "ListPorts S i w =
     (case Manager_Resolve (ss_env S) i w of
        Inl e \<Rightarrow> (Inl (not_found e), w)
      | Inr name \<Rightarrow>
          (case on_backend S (\<lambda>be. be_Ports (en_backend (ss_env S)) be name) w of
             (Inl e, w) \<Rightarrow> (Inl e, w)
           | (Inr ps, w) \<Rightarrow> (Inr (map port_proto ps), w)))"

record FileWrite =
  fw_Path :: string
  fw_Content :: string
  fw_Mode :: nat

text \<open>The octal text of a mode, \<^verbatim>\<open>fmt.Sprintf("%o", mode)\<close>.\<close>

fun octal :: "nat \<Rightarrow> string" where
  "octal n = (if n < 8 then [digit_char n] else octal (n div 8) @ [digit_char (n mod 8)])"

declare octal.simps [simp del]

definition auditWrite :: "('db, 'be, 'g) Svc \<Rightarrow> string \<Rightarrow> string \<Rightarrow> unit res \<Rightarrow> ('db, 'be) World \<Rightarrow> ('db, 'be) World" where
  "auditWrite S actor target out w = record_audit S (if actor = '''' then ''system'' else actor) ''file.write'' target out w"

definition write_one ::
  "'be Backend \<Rightarrow> string \<Rightarrow> FileWrite \<Rightarrow> string \<Rightarrow> 'be \<Rightarrow> unit res \<times> 'be" where
  "write_one BK name fw dest be =
     (case copyReaderToSandbox BK name (bytes_NewReader (fw_Content fw)) (int (length (fw_Content fw))) dest be of
        (Inl e, be) \<Rightarrow> (Inl e, be)
      | (Inr _, be) \<Rightarrow>
          if fw_Mode fw \<noteq> 0 then
            (case execChecked BK name [''chmod'', octal (fw_Mode fw), dest] be of
               (Inl e, be) \<Rightarrow> (Inl e, be)
             | (Inr _, be) \<Rightarrow> (Inr (), be))
          else (Inr (), be))"

fun write_files ::
  "('db, 'be, 'g) Svc \<Rightarrow> string \<Rightarrow> string \<Rightarrow> FileWrite list \<Rightarrow> ('db, 'be) World \<Rightarrow> unit res \<times> ('db, 'be) World" where
  "write_files S actor name [] w = (Inr (), w)"
| "write_files S actor name (fw # fws) w =
     (case resolveUploadDest (fw_Path fw) of
        Inl e \<Rightarrow> (Inl (Status InvalidArgument ''%s: %v'' [fw_Path fw] (Some e)), w)
      | Inr dest \<Rightarrow>
          (let (out, be) = write_one (en_backend (ss_env S)) name fw dest (w_be w);
               w = auditWrite S actor dest out (w\<lparr>w_be := be\<rparr>)
           in case out of
                Inl e \<Rightarrow> (Inl (Status Internal ''write %s: %v'' [dest] (Some e)), w)
              | Inr _ \<Rightarrow> write_files S actor name fws w))"

definition WriteFiles ::
  "('db, 'be, 'g) Svc \<Rightarrow> string \<Rightarrow> string \<Rightarrow> FileWrite list \<Rightarrow> ('db, 'be) World \<Rightarrow> int res \<times> ('db, 'be) World" where
  "WriteFiles S actor i fws w =
     (case Manager_Resolve (ss_env S) i w of
        Inl e \<Rightarrow> (Inl (not_found e), w)
      | Inr name \<Rightarrow>
          (case write_files S actor name fws w of
             (Inl e, w) \<Rightarrow> (Inl e, w)
           | (Inr _, w) \<Rightarrow> (Inr (int32 (int (length fws))), snd (Manager_BumpActivity (ss_env S) i w))))"

section \<open>Publishing\<close>

definition gitTarget :: "('db, 'be, 'g) Svc \<Rightarrow> string \<Rightarrow> ('db, 'be) World \<Rightarrow> (Record \<times> Spec) res" where
  "gitTarget S i w =
     (case Manager_Get (ss_env S) i w of
        Inl e \<Rightarrow> Inl (if e = ErrNotFound then Status NotFound ''sandbox not found'' [] None else internal e)
      | Inr rec \<Rightarrow>
          (case cs_Workspaces (r_Spec rec) of
             [m] \<Rightarrow> (case map_of (ss_gitWS S) (wm_Name m) of
                       None \<Rightarrow> Inl (Status FailedPrecondition ''workspace is not git-backed'' [] None)
                     | Some ws \<Rightarrow> Inr (rec, ws))
           | _ \<Rightarrow> Inl (Status FailedPrecondition ''sandbox is not clone-mode'' [] None)))"

definition exec_in :: "('db, 'be, 'g) Svc \<Rightarrow> string \<Rightarrow> string list \<Rightarrow> ('db, 'be) World \<Rightarrow> ExecResult res \<times> ('db, 'be) World" where
  "exec_in S name args w =
     (let (r, be) = be_Exec (en_backend (ss_env S)) (w_be w) name args no_opts in (r, w\<lparr>w_be := be\<rparr>))"

definition agentHeadBranch :: "('db, 'be, 'g) Svc \<Rightarrow> string \<Rightarrow> ('db, 'be) World \<Rightarrow> string res \<times> ('db, 'be) World" where
  "agentHeadBranch S name w =
     (case exec_in S name [''git'', ''rev-parse'', ''--abbrev-ref'', ''HEAD''] w of
        (Inl e, w) \<Rightarrow> (Inl e, w)
      | (Inr res, w) \<Rightarrow>
          if er_ExitCode res \<noteq> 0 then (Inl (Errf ''git rev-parse: %s'' [trim_space (er_Stderr res)]), w)
          else let b = trim_space (er_Stdout res) in
               if b = '''' \<or> b = ''HEAD'' then (Inl (Errf ''sandbox is in detached HEAD; specify a branch to publish'' []), w)
               else (Inr b, w))"

text \<open>The clean-up removes the bundle in the sandbox; removing the host file is not observable here.\<close>

definition bundle_cleanup :: "('db, 'be, 'g) Svc \<Rightarrow> string \<Rightarrow> string \<Rightarrow> ('db, 'be) World \<Rightarrow> ('db, 'be) World" where
  "bundle_cleanup S name containerPath w = snd (exec_in S name [''rm'', ''-f'', containerPath] w)"

definition container_path :: "('db, 'be, 'g) Svc \<Rightarrow> string \<Rightarrow> string" where
  "container_path S hostPath =
     path_Join [if ss_bundleDir S = '''' then ''/tmp'' else ss_bundleDir S, ''in-'' @ path_Base hostPath]"

definition bundleBranches ::
  "('db, 'be, 'g) Svc \<Rightarrow> string \<Rightarrow> string list \<Rightarrow> ('db, 'be) World \<Rightarrow> string res \<times> ('db, 'be) World" where
  "bundleBranches S name branches w =
     (case ss_tmp S (w_tick w) of
        Inl e \<Rightarrow> (Inl (Status Internal ''bundle: stage file: %v'' [] (Some e)), w)
      | Inr hostPath \<Rightarrow>
          (let containerPath = container_path S hostPath in
           case exec_in S name ([''git'', ''bundle'', ''create'', containerPath] @ branches) w of
             (Inl e, w) \<Rightarrow> (Inl (Status Internal ''bundle: %v'' [] (Some e)), bundle_cleanup S name containerPath w)
           | (Inr res, w) \<Rightarrow>
               if er_ExitCode res \<noteq> 0
               then (Inl (Status Internal ''bundle: git exit %d: %s'' [format_int (er_ExitCode res), trim_space (er_Stderr res)] None),
                     bundle_cleanup S name containerPath w)
               else case be_CopyFrom (en_backend (ss_env S)) (w_be w) name containerPath hostPath of
                      (Inl e, be) \<Rightarrow> (Inl (Status Internal ''bundle: copy out: %v'' [] (Some e)),
                                       bundle_cleanup S name containerPath (w\<lparr>w_be := be\<rparr>))
                    | (Inr _, be) \<Rightarrow> (Inr hostPath, w\<lparr>w_be := be\<rparr>)))"

definition auditPublish ::
  "('db, 'be, 'g) Svc \<Rightarrow> string \<Rightarrow> string \<Rightarrow> string \<Rightarrow> unit res \<Rightarrow> ('db, 'be) World \<Rightarrow> ('db, 'be) World" where
  "auditPublish S workspace branch actor out w = record_audit S actor ''git.publish'' (workspace @ ''@'' @ branch) out w"

definition svc_emit ::
  "('db, 'be, 'g) Svc \<Rightarrow> string \<Rightarrow> string \<Rightarrow> (string, string) gomap \<Rightarrow> ('db, 'be) World \<Rightarrow> ('db, 'be) World" where
  "svc_emit S eventType i pl w = (if ss_events S then publish (ss_env S) eventType i (Some pl) w else w)"

text \<open>One run of the configured pipeline per branch; the first error is kept and the rest still run.\<close>

fun publish_branches ::
  "('db, 'be, 'g) Svc \<Rightarrow> Spec \<Rightarrow> string \<Rightarrow> string \<Rightarrow> string \<Rightarrow> string list \<Rightarrow> go_error option \<Rightarrow> ('db, 'be, 'g) st
    \<Rightarrow> (go_error option \<times> ('db, 'be, 'g) st) option" where
  "publish_branches S ws i actor bundlePath [] firstErr (w, g) = Some (firstErr, w, g)"
| "publish_branches S ws i actor bundlePath (b # bs) firstErr (w, g) =
     (case Workspace_Publish (ss_git S) ws b bundlePath g of
        None \<Rightarrow> None
      | Some (out, g) \<Rightarrow>
          (let w = auditPublish S (gs_Name ws) b actor out w in
           case out of
             Inl e \<Rightarrow> publish_branches S ws i actor bundlePath bs (case firstErr of None \<Rightarrow> Some e | Some e' \<Rightarrow> Some e')
                        (svc_emit S ''sandbox.publish_failed'' i [(''branch'', b)] w, g)
           | Inr _ \<Rightarrow> publish_branches S ws i actor bundlePath bs firstErr
                        (svc_emit S ''sandbox.published'' i [(''branch'', b)] w, g)))"

definition publish_selected ::
  "('db, 'be, 'g) Svc \<Rightarrow> Record \<Rightarrow> Spec \<Rightarrow> string \<Rightarrow> string \<Rightarrow> string list \<Rightarrow> ('db, 'be, 'g) st
    \<Rightarrow> (unit res \<times> ('db, 'be, 'g) st) option" where
  "publish_selected S rec ws i actor branches st =
     (case st of (w, g) \<Rightarrow>
      case bundleBranches S (r_BackendName rec) branches w of
        (Inl e, w) \<Rightarrow>
          (let w = auditPublish S (gs_Name ws) (hd branches) actor (Inl e) w;
               w = svc_emit S ''sandbox.publish_failed'' i [(''branch'', hd branches)] w
           in Some (Inl (Status Internal ''publish: %v'' [] (Some e)), w, g))
      | (Inr bundlePath, w) \<Rightarrow>
          (case publish_branches S ws i actor bundlePath branches None (w, g) of
             None \<Rightarrow> None
           | Some (firstErr, w, g) \<Rightarrow>
               (let out = (case firstErr of Some e \<Rightarrow> Inl (Status Internal ''publish: %v'' [] (Some e)) | None \<Rightarrow> Inr ());
                    w = (if firstErr = None
                         then (let (t, w) = now (ss_env S) w in snd (Manager_SetLastPublish (ss_env S) i t w)) else w)
                in Some (out, bundle_cleanup S (r_BackendName rec) (container_path S bundlePath) w, g))))"

definition doPublish ::
  "('db, 'be, 'g) Svc \<Rightarrow> string \<Rightarrow> string list \<Rightarrow> string \<Rightarrow> ('db, 'be, 'g) st \<Rightarrow> (unit res \<times> ('db, 'be, 'g) st) option" where
  "doPublish S i reqBranches actor st =
     (case st of (w, g) \<Rightarrow>
      case gitTarget S i w of
        Inl e \<Rightarrow> Some (Inl e, w, g)
      | Inr (rec, ws) \<Rightarrow>
          if \<not> gs_AllowPush ws then Some (Inl (Status FailedPrecondition ''workspace does not allow push'' [] None), w, g)
          else if reqBranches = [] then
            (case agentHeadBranch S (r_BackendName rec) w of
               (Inl e, w) \<Rightarrow> Some (Inl (Status FailedPrecondition ''determine branch: %v'' [] (Some e)), w, g)
             | (Inr b, w) \<Rightarrow> publish_selected S rec ws i actor [b] (w, g))
          else publish_selected S rec ws i actor reqBranches (w, g))"

definition ListBranches :: "('db, 'be, 'g) Svc \<Rightarrow> string \<Rightarrow> ('db, 'be) World \<Rightarrow> string list res \<times> ('db, 'be) World" where
  "ListBranches S i w =
     (case gitTarget S i w of
        Inl e \<Rightarrow> (Inl e, w)
      | Inr (rec, _) \<Rightarrow>
          (case exec_in S (r_BackendName rec) [''git'', ''for-each-ref'', ''--format=%(refname:short)'', ''refs/heads/''] w of
             (Inl e, w) \<Rightarrow> (Inl (Status Internal ''list branches: %v'' [] (Some e)), w)
           | (Inr res, w) \<Rightarrow>
               if er_ExitCode res \<noteq> 0
               then (Inl (Status Internal ''list branches: git exit %d: %s'' [format_int (er_ExitCode res), trim_space (er_Stderr res)] None), w)
               else (Inr (filter (\<lambda>b. b \<noteq> '''') (map trim_space (split_on (CHR 0x0A) (er_Stdout res)))), w)))"

section \<open>Stopping\<close>

definition maybeAutoPublish ::
  "('db, 'be, 'g) Svc \<Rightarrow> string \<Rightarrow> string \<Rightarrow> ('db, 'be, 'g) st \<Rightarrow> ('db, 'be, 'g) st option" where
  "maybeAutoPublish S i callerActor st =
     (case Manager_Get (ss_env S) i (fst st) of
        Inl _ \<Rightarrow> Some st
      | Inr rec \<Rightarrow>
          if length (cs_Workspaces (r_Spec rec)) \<noteq> 1 \<or> \<not> cs_Clone (r_Spec rec) \<or> cs_Branch (r_Spec rec) = '''' then Some st
          else case map_of (ss_gitWS S) (wm_Name (hd (cs_Workspaces (r_Spec rec)))) of
                 None \<Rightarrow> Some st
               | Some ws \<Rightarrow>
                   if \<not> gs_AllowPush ws then Some st
                   else map_option snd (doPublish S i [] (if callerActor = '''' then ''system'' else callerActor) st))"

definition StopSandbox ::
  "('db, 'be, 'g) Svc \<Rightarrow> string \<Rightarrow> string \<Rightarrow> ('db, 'be, 'g) st \<Rightarrow> (Sandbox res \<times> ('db, 'be, 'g) st) option" where
  "StopSandbox S actor i st =
     (case maybeAutoPublish S i actor st of
        None \<Rightarrow> None
      | Some (w, g) \<Rightarrow>
          Some (case Manager_Stop (ss_env S) i w of
                  (Inl e, w) \<Rightarrow> (Inl (internal e), w, g)
                | (Inr _, w) \<Rightarrow> (GetSandbox S i w, w, g)))"

text \<open>Publish, then stop: what the reaper and the drain sweep do to one sandbox.\<close>

definition publish_then_stop ::
  "('db, 'be, 'g) Svc \<Rightarrow> string \<Rightarrow> string \<Rightarrow> ('db, 'be, 'g) st \<Rightarrow> (bool \<times> ('db, 'be, 'g) st) option" where
  "publish_then_stop S actor i st =
     (case maybeAutoPublish S i actor st of
        None \<Rightarrow> None
      | Some (w, g) \<Rightarrow>
          Some (case Manager_Stop (ss_env S) i w of (Inl _, w) \<Rightarrow> (False, w, g) | (Inr _, w) \<Rightarrow> (True, w, g)))"

fun reap_loop ::
  "('db, 'be, 'g) Svc \<Rightarrow> string \<Rightarrow> Record list \<Rightarrow> nat \<Rightarrow> ('db, 'be, 'g) st \<Rightarrow> (nat \<times> ('db, 'be, 'g) st) option" where
  "reap_loop S actor [] n st = Some (n, st)"
| "reap_loop S actor (rec # recs) n st =
     (case publish_then_stop S actor (r_ID rec) st of
        None \<Rightarrow> None
      | Some (stopped, st) \<Rightarrow> reap_loop S actor recs (if stopped then Suc n else n) st)"

text \<open>The reaper's context has no principal, so its actor is the empty role.\<close>

definition ReapIdle ::
  "('db, 'be, 'g) Svc \<Rightarrow> gotime \<Rightarrow> ('db, 'be, 'g) st \<Rightarrow> (nat \<times> ('db, 'be, 'g) st) option" where
  "ReapIdle S t st =
     (case Manager_IdleRunning (ss_env S) t (ss_idleTimeout S) (fst st) of
        Inl _ \<Rightarrow> Some (0, st)
      | Inr idle \<Rightarrow> reap_loop S '''' idle 0 st)"

text \<open>\<open>keepGoing\<close> is asked before each running sandbox: it is given how many were asked for before.\<close>

fun drain_loop ::
  "('db, 'be, 'g) Svc \<Rightarrow> string \<Rightarrow> (nat \<Rightarrow> bool) \<Rightarrow> nat \<Rightarrow> Record list \<Rightarrow> nat \<Rightarrow> ('db, 'be, 'g) st
    \<Rightarrow> (nat \<times> ('db, 'be, 'g) st) option" where
  "drain_loop S actor keepGoing k [] n st = Some (n, st)"
| "drain_loop S actor keepGoing k (rec # recs) n st =
     (if r_Status rec \<noteq> ''running'' then drain_loop S actor keepGoing k recs n st
      else if \<not> keepGoing k then Some (n, st)
      else case publish_then_stop S actor (r_ID rec) st of
             None \<Rightarrow> None
           | Some (stopped, st) \<Rightarrow> drain_loop S actor keepGoing (Suc k) recs (if stopped then Suc n else n) st)"

definition DrainAll ::
  "('db, 'be, 'g) Svc \<Rightarrow> string \<Rightarrow> (nat \<Rightarrow> bool) \<Rightarrow> ('db, 'be, 'g) st \<Rightarrow> (nat \<times> ('db, 'be, 'g) st) option" where
  "DrainAll S actor keepGoing st =
     (case Manager_List (ss_env S) (fst st) of
        Inl _ \<Rightarrow> Some (0, st)
      | Inr recs \<Rightarrow> drain_loop S actor keepGoing 0 recs 0 st)"

section \<open>Operations\<close>

text \<open>
  \<^verbatim>\<open>ops.Manager.Run\<close> for work on the whole state: like \<open>Ops_Run\<close>, with the git host beside the world.
  A handler that starts an operation answers at once; the goroutine is the second half of its result,
  a step that happens later.
\<close>

definition Run_job ::
  "('db, 'be, 'g) Svc \<Rightarrow> string \<Rightarrow> (('db, 'be, 'g) st \<Rightarrow> (string res \<times> ('db, 'be, 'g) st) option)
    \<Rightarrow> ('db, 'be, 'g) st \<Rightarrow> ('db, 'be, 'g) st option" where
  "Run_job S opID fn st =
     (case st of (w, g) \<Rightarrow>
      case Ops_Get (ss_env S) opID w of
        Inr (Some op) \<Rightarrow>
          (let (op, w) = Ops_put_ignore (ss_env S) (op\<lparr>o_State := ''running''\<rparr>) w;
               w = Ops_emit (ss_env S) op w
           in case fn (w, g) of
                None \<Rightarrow> None
              | Some (res, w, g) \<Rightarrow>
                  (let op = (case res of
                               Inl e \<Rightarrow> op\<lparr>o_State := ''error'', o_Error := Some e\<rparr>
                             | Inr sb \<Rightarrow> op\<lparr>o_State := ''done'', o_SandboxID := sb\<rparr>);
                       (op, w) = Ops_put_ignore (ss_env S) op w
                   in Some (inc_op op (Ops_emit (ss_env S) op w), g)))
      | _ \<Rightarrow> Some (w, g))"

type_synonym ('db, 'be, 'g) job = "('db, 'be, 'g) st \<Rightarrow> ('db, 'be, 'g) st option"

text \<open>The work of a creation: placement, or admission on this node when no placement is wired.\<close>

definition create_job ::
  "('db, 'be, 'g) Svc \<Rightarrow> Request \<Rightarrow> CreateSandboxRequest \<Rightarrow> ('db, 'be, 'g) st \<Rightarrow> (string res \<times> ('db, 'be, 'g) st) option" where
  "create_job S req szd st =
     (case ss_place S of
        Some pf \<Rightarrow> pf req szd st
      | None \<Rightarrow>
          (case Manager_AdmitAndCreate (ss_env S) (toSpec szd) (fst st) of
             (Inl e, w) \<Rightarrow> Some (Inl e, w, snd st)
           | (Inr rec, w) \<Rightarrow> Some (Inr (r_ID rec), w, snd st)))"

definition provisionSandboxGone :: "('db, 'be, 'g) Svc \<Rightarrow> Operation \<Rightarrow> ('db, 'be) World \<Rightarrow> bool" where
  "provisionSandboxGone S op w =
     (if o_State op \<noteq> ''done'' \<or> o_SandboxID op = '''' then False
      else case Manager_Get (ss_env S) (o_SandboxID op) w of
             Inl e \<Rightarrow> errors_is e ErrNotFound
           | Inr rec \<Rightarrow> r_Status rec = ''lost'')"

definition start_fresh ::
  "('db, 'be, 'g) Svc \<Rightarrow> string \<Rightarrow> ('db, 'be) World \<Rightarrow> (Operation \<times> bool) res \<times> ('db, 'be) World" where
  "start_fresh S idemKey w =
     (case Ops_Start (ss_env S) ''provision'' idemKey w of
        (Inl e, w) \<Rightarrow> (Inl (internal e), w)
      | (Inr (op, existed), w) \<Rightarrow>
          if existed \<and> provisionSandboxGone S op w then
            (case Ops_ClearIdempotency (ss_env S) idemKey w of
               (Inl e, w) \<Rightarrow> (Inl (internal e), w)
             | (Inr _, w) \<Rightarrow>
                 (case Ops_Start (ss_env S) ''provision'' idemKey w of
                    (Inl e, w) \<Rightarrow> (Inl (internal e), w)
                  | (Inr r, w) \<Rightarrow> (Inr r, w)))
          else (Inr (op, existed), w))"

definition CreateSandbox ::
  "('db, 'be, 'g) Svc \<Rightarrow> MD \<Rightarrow> CreateSandboxRequest \<Rightarrow> ('db, 'be) World
    \<Rightarrow> OpProto res \<times> ('db, 'be) World \<times> ('db, 'be, 'g) job option" where
  "CreateSandbox S md r w =
     (case resolveStrategy (cr_Strategy r) (ss_defaultStrategy S) of
        Inl e \<Rightarrow> (Inl e, w, None)
      | Inr strategy \<Rightarrow>
          (case start_fresh S (idempotencyKey md) w of
             (Inl e, w) \<Rightarrow> (Inl e, w, None)
           | (Inr (op, existed), w) \<Rightarrow>
               if existed then (Inr (opProto op), w, None)
               else let szd = effectiveSpec r (ss_defaultResources S);
                        req = requestFromSpec szd strategy (o_ID op)
                    in (Inr (opProto op), w, Some (Run_job S (o_ID op) (create_job S req szd)))))"

definition DeleteSandbox ::
  "('db, 'be, 'g) Svc \<Rightarrow> string \<Rightarrow> ('db, 'be) World \<Rightarrow> OpProto res \<times> ('db, 'be) World \<times> ('db, 'be, 'g) job option" where
  "DeleteSandbox S i w =
     (case Ops_Start (ss_env S) ''remove'' '''' w of
        (Inl e, w) \<Rightarrow> (Inl (internal e), w, None)
      | (Inr (op, _), w) \<Rightarrow>
          (Inr (opProto op), w,
           Some (Run_job S (o_ID op) (\<lambda>(w, g).
             case Manager_Delete (ss_env S) i w of
               (Inl e, w) \<Rightarrow> Some (Inl e, w, g)
             | (Inr _, w) \<Rightarrow> Some (Inr i, w, g)))))"

definition PublishSandbox ::
  "('db, 'be, 'g) Svc \<Rightarrow> MD \<Rightarrow> string \<Rightarrow> string \<Rightarrow> string list \<Rightarrow> string \<Rightarrow> ('db, 'be) World
    \<Rightarrow> OpProto res \<times> ('db, 'be) World \<times> ('db, 'be, 'g) job option" where
  "PublishSandbox S md act i branches branch w =
     (case Ops_Start (ss_env S) ''git-publish'' (idempotencyKey md) w of
        (Inl e, w) \<Rightarrow> (Inl (internal e), w, None)
      | (Inr (op, _), w) \<Rightarrow>
          (let branches = (if branches = [] \<and> branch \<noteq> '''' then [branch] else branches) in
           (Inr (opProto op), w,
            Some (Run_job S (o_ID op) (\<lambda>st.
              case doPublish S i branches act st of
                None \<Rightarrow> None
              | Some (Inl e, st) \<Rightarrow> Some (Inl e, st)
              | Some (Inr _, st) \<Rightarrow> Some (Inr i, st))))))"

definition ListOperations :: "('db, 'be, 'g) Svc \<Rightarrow> int \<Rightarrow> ('db, 'be) World \<Rightarrow> Operation list res" where
  "ListOperations S limit w =
     (case Ops_List (ss_env S) limit w of Inl e \<Rightarrow> Inl (internal e) | Inr ops \<Rightarrow> Inr ops)"

section \<open>Agent runs\<close>

text \<open>
  Polling until the detached command ends; \<open>None\<close> when it never does.  The pause between two polls
  is not observable: the clock is what each reading gives.
\<close>

partial_function (option) poll_loop ::
  "('db, 'be, 'g) Svc \<Rightarrow> string \<Rightarrow> string \<Rightarrow> string \<Rightarrow> bool \<Rightarrow> gotime \<Rightarrow> ('db, 'be, 'g) st
    \<Rightarrow> (string res \<times> ('db, 'be, 'g) st) option" where
  "poll_loop S name did sbID publishOnSuccess lastTouch st =
     (case be_PollDetached (en_backend (ss_env S)) (w_be (fst st)) name did of
        (Inl e, be) \<Rightarrow> Some (Inl e, (fst st)\<lparr>w_be := be\<rparr>, snd st)
      | (Inr ds, be) \<Rightarrow>
          (let w = (fst st)\<lparr>w_be := be\<rparr> in
           if ds_Done ds then
             (if ds_ExitCode ds \<noteq> 0
              then Some (Inl (Status Internal ''agent run exited %d'' [format_int (ds_ExitCode ds)] None), w, snd st)
              else if publishOnSuccess
              then (case maybeAutoPublish S sbID '''' (w, snd st) of None \<Rightarrow> None | Some st \<Rightarrow> Some (Inr sbID, st))
              else Some (Inr sbID, w, snd st))
           else if 0 < ss_idleTimeout S then
             (let (t, w) = now (ss_env S) w in
              if ss_idleTimeout S div 2 < time_sub t lastTouch then
                (let w = snd (Manager_BumpActivity (ss_env S) sbID w); (t, w) = now (ss_env S) w
                 in poll_loop S name did sbID publishOnSuccess t (w, snd st))
              else poll_loop S name did sbID publishOnSuccess lastTouch (w, snd st))
           else poll_loop S name did sbID publishOnSuccess lastTouch (w, snd st)))"

definition agent_job ::
  "('db, 'be, 'g) Svc \<Rightarrow> string \<Rightarrow> string list \<Rightarrow> ExecOpts \<Rightarrow> string \<Rightarrow> bool \<Rightarrow> ('db, 'be, 'g) st
    \<Rightarrow> (string res \<times> ('db, 'be, 'g) st) option" where
  "agent_job S name cmd opts sbID publishOnSuccess st =
     (let w = snd (Manager_BumpActivity (ss_env S) sbID (fst st)) in
      case be_ExecDetached (en_backend (ss_env S)) (w_be w) name cmd opts of
        (Inl e, be) \<Rightarrow> Some (Inl e, w\<lparr>w_be := be\<rparr>, snd st)
      | (Inr did, be) \<Rightarrow>
          (let (t, w) = now (ss_env S) (w\<lparr>w_be := be\<rparr>) in poll_loop S name did sbID publishOnSuccess t (w, snd st)))"

definition AgentRun ::
  "('db, 'be, 'g) Svc \<Rightarrow> MD \<Rightarrow> string \<Rightarrow> string list \<Rightarrow> ExecOpts \<Rightarrow> bool \<Rightarrow> ('db, 'be) World
    \<Rightarrow> OpProto res \<times> ('db, 'be) World \<times> ('db, 'be, 'g) job option" where
  "AgentRun S md i cmd opts publishOnSuccess w =
     (case Manager_Resolve (ss_env S) i w of
        Inl e \<Rightarrow> (Inl (not_found e), w, None)
      | Inr name \<Rightarrow>
          (case Ops_Start (ss_env S) ''agent-run'' (idempotencyKey md) w of
             (Inl e, w) \<Rightarrow> (Inl (internal e), w, None)
           | (Inr (op, _), w) \<Rightarrow>
               (Inr (opProto op), w, Some (Run_job S (o_ID op) (agent_job S name cmd opts i publishOnSuccess)))))"

end
