(* ===== verification/GoURL.thy ===== *)
theory GoURL
  imports GoLib
begin

text \<open>
  What the source uses of \<^verbatim>\<open>net/url\<close>: the host name and the decoded path of a parsed URL, query and
  path-segment escaping; and JSON values as \<^verbatim>\<open>encoding/json\<close> decodes them into structs (a missing or null
  field leaves the zero value, a value of another type is an error, unknown fields are ignored).
\<close>

section \<open>Escaping\<close>

definition alnum :: "char \<Rightarrow> bool" where
  "alnum c \<longleftrightarrow> (CHR ''A'' \<le> c \<and> c \<le> CHR ''Z'') \<or> (CHR ''a'' \<le> c \<and> c \<le> CHR ''z'') \<or> (CHR ''0'' \<le> c \<and> c \<le> CHR ''9'')"

definition unreserved :: "char \<Rightarrow> bool" where
  "unreserved c \<longleftrightarrow> alnum c \<or> c \<in> set ''-_.~''"

definition hex_char :: "nat \<Rightarrow> char" where
  "hex_char n = ''0123456789ABCDEF'' ! n"

definition unhex :: "char \<Rightarrow> nat option" where
  "unhex c = (let v = (of_char c :: nat) in
     if 48 \<le> v \<and> v \<le> 57 then Some (v - 48) else if 65 \<le> v \<and> v \<le> 70 then Some (v - 55)
     else if 97 \<le> v \<and> v \<le> 102 then Some (v - 87) else None)"

definition percent :: "char \<Rightarrow> string" where
  "percent c = [CHR ''%'', hex_char (byte c div 16), hex_char (byte c mod 16)]"

definition QueryEscape :: "string \<Rightarrow> string" where
  "QueryEscape s = concat (map (\<lambda>c. if unreserved c then [c] else if c = CHR '' '' then ''+'' else percent c) s)"

definition PathEscape :: "string \<Rightarrow> string" where
  "PathEscape s = concat (map (\<lambda>c. if unreserved c \<or> c \<in> set ''$&+=:@'' then [c] else percent c) s)"

text \<open>\<^verbatim>\<open>url.Values.Encode\<close> for values with one string per key: sorted by key.\<close>

definition Values_Encode :: "(string \<times> string) list \<Rightarrow> string" where
  "Values_Encode kvs = join_with ''&'' (map (\<lambda>(k, v). QueryEscape k @ ''='' @ QueryEscape v) (sort_by (\<lambda>a b. fst a < fst b) kvs))"

text \<open>
  Unescaping a path (\<open>host = False\<close>), or a host, in which only bytes outside ASCII and the percent sign may
  be escaped and only some characters may appear.
\<close>

definition host_char :: "char \<Rightarrow> bool" where
  "host_char c \<longleftrightarrow> unreserved c \<or> c \<in> set ''!$&()*+,;=:[]<>\"'' \<or> c = CHR 0x27 \<or> 128 \<le> byte c"

fun unescape :: "bool \<Rightarrow> string \<Rightarrow> string option" where
  "unescape host [] = Some []"
| "unescape host (c # cs) =
     (if c = CHR ''%'' then
        (case cs of
           a # b # rest \<Rightarrow>
             (case (unhex a, unhex b) of
                (Some x, Some y) \<Rightarrow>
                  if host \<and> x < 8 \<and> \<not> (x = 2 \<and> y = 5) then None
                  else map_option (Cons (char_of (16 * x + y))) (unescape host rest)
              | _ \<Rightarrow> None)
         | _ \<Rightarrow> None)
      else if host \<and> \<not> host_char c then None
      else map_option (Cons c) (unescape host cs))"

section \<open>Parsing\<close>

text \<open>The scheme, if the text has one: \<open>Some (scheme, rest)\<close>; \<open>None\<close> is an error.\<close>

fun getScheme :: "string \<Rightarrow> string \<Rightarrow> string \<Rightarrow> (string \<times> string) option" where
  "getScheme raw seen [] = Some ('''', raw)"
| "getScheme raw seen (c # cs) =
     (if (CHR ''a'' \<le> c \<and> c \<le> CHR ''z'') \<or> (CHR ''A'' \<le> c \<and> c \<le> CHR ''Z'') then getScheme raw (seen @ [c]) cs
      else if (CHR ''0'' \<le> c \<and> c \<le> CHR ''9'') \<or> c \<in> set ''+-.'' then
        (if seen = '''' then Some ('''', raw) else getScheme raw (seen @ [c]) cs)
      else if c = CHR '':'' then (if seen = '''' then None else Some (seen, cs))
      else Some ('''', raw))"

definition validOptionalPort :: "string \<Rightarrow> bool" where
  "validOptionalPort p = (case p of [] \<Rightarrow> True | c # cs \<Rightarrow> c = CHR '':'' \<and> list_all (\<lambda>d. digit_val d \<noteq> None) cs)"

definition validUserinfo :: "string \<Rightarrow> bool" where
  "validUserinfo s = list_all (\<lambda>c. alnum c \<or> c \<in> set ''-._:~!$&()*+,;=%@'' \<or> c = CHR 0x27) s"

text \<open>A port is checked after the last colon, or after the closing bracket of an IPv6 literal.\<close>

definition parseHost :: "string \<Rightarrow> string option" where
  "parseHost host =
     (if prefix ''['' host then
        (case last_index_byte CHR '']'' host of
           None \<Rightarrow> None
         | Some i \<Rightarrow> if validOptionalPort (drop (Suc i) host) then unescape True host else None)
      else case last_index_byte CHR '':'' host of
             None \<Rightarrow> unescape True host
           | Some i \<Rightarrow> if validOptionalPort (drop i host) then unescape True host else None)"

definition parseAuthority :: "string \<Rightarrow> string option" where
  "parseAuthority authority =
     (case last_index_byte CHR ''@'' authority of
        None \<Rightarrow> parseHost authority
      | Some i \<Rightarrow>
          (case parseHost (drop (Suc i) authority) of
             None \<Rightarrow> None
           | Some h \<Rightarrow>
               let u = take i authority in
               if validUserinfo u \<and> unescape False u \<noteq> None then Some h else None))"

text \<open>\<^verbatim>\<open>URL.Hostname\<close>.\<close>

definition Hostname :: "string \<Rightarrow> string" where
  "Hostname hostPort =
     (let host = (case last_index_byte CHR '':'' hostPort of
                    None \<Rightarrow> hostPort
                  | Some i \<Rightarrow> if validOptionalPort (drop i hostPort) then take i hostPort else hostPort)
      in if prefix ''['' host \<and> suffix '']'' host then take (length host - 2) (drop 1 host) else host)"

text \<open>\<^verbatim>\<open>url.Parse\<close>: host (with port) and decoded path, or \<open>None\<close> for an error.\<close>

definition url_Parse :: "string \<Rightarrow> (string \<times> string) option" where
  "url_Parse raw =
     (let (u, frag) = (case cut_byte CHR ''#'' raw of None \<Rightarrow> (raw, '''') | Some p \<Rightarrow> p) in
      if list_ex (\<lambda>c. byte c < 32 \<or> byte c = 127) u \<or> unescape False frag = None then None
      else if u = ''*'' then Some ('''', u)
      else case getScheme u '''' u of
        None \<Rightarrow> None
      | Some (scheme, rest) \<Rightarrow>
          let rest = (case cut_byte CHR ''?'' rest of None \<Rightarrow> rest | Some p \<Rightarrow> fst p) in
          if \<not> prefix ''/'' rest then
            (if scheme \<noteq> '''' then Some ('''', '''')
             else if CHR '':'' \<in> set (hd (split_on CHR ''/'' rest)) then None
             else map_option (Pair '''') (unescape False rest))
          else if (scheme \<noteq> '''' \<or> \<not> prefix ''///'' rest) \<and> prefix ''//'' rest then
            (let a = drop 2 rest;
                 (authority, path) = (case index_byte CHR ''/'' a of None \<Rightarrow> (a, '''') | Some i \<Rightarrow> (take i a, drop i a))
             in case parseAuthority authority of
                  None \<Rightarrow> None
                | Some h \<Rightarrow> map_option (Pair h) (unescape False path))
          else map_option (Pair '''') (unescape False rest))"

section \<open>JSON values\<close>

datatype json = JNull | JBool bool | JNum int | JStr string | JArr "json list" | JObj "(string \<times> json) list"

text \<open>Decoding a value into a Go type: \<open>None\<close> is a mismatch; the given value is the zero of the type.\<close>

fun jstr :: "json \<Rightarrow> string option" where
  "jstr JNull = Some ''''"
| "jstr (JStr s) = Some s"
| "jstr _ = None"

fun jint :: "json \<Rightarrow> int option" where
  "jint JNull = Some 0"
| "jint (JNum i) = (if min_int64 \<le> i \<and> i \<le> max_int64 then Some i else None)"
| "jint _ = None"

fun jbool :: "json \<Rightarrow> bool option" where
  "jbool JNull = Some False"
| "jbool (JBool b) = Some b"
| "jbool _ = None"

fun jlist :: "(json \<Rightarrow> 'a option) \<Rightarrow> json \<Rightarrow> 'a list option" where
  "jlist f JNull = Some []"
| "jlist f (JArr xs) = those (map f xs)"
| "jlist f _ = None"

fun jfield :: "string \<Rightarrow> (json \<Rightarrow> 'a option) \<Rightarrow> json \<Rightarrow> 'a option" where
  "jfield k f (JObj kvs) = f (case map_of kvs k of None \<Rightarrow> JNull | Some v \<Rightarrow> v)"
| "jfield k f JNull = f JNull"
| "jfield k f _ = None"

fun jmap :: "(json \<Rightarrow> 'a option) \<Rightarrow> json \<Rightarrow> (string \<times> 'a) list option" where
  "jmap f JNull = Some []"
| "jmap f (JObj kvs) = those (map (\<lambda>(k, v). map_option (Pair k) (f v)) kvs)"
| "jmap f _ = None"

end
