(* ===== verification/GitProvider.thy ===== *)
theory GitProvider
  imports Git GoURL
begin

text \<open>
  The host-side publish strategies and review access (\<^verbatim>\<open>internal/gitprovider\<close>): which provider a remote belongs
  to, pushing a branch, pull and merge requests over REST, Gerrit changes, and reading and answering
  review threads.  The hosting service, reading a CA file, JSON texts and SHA-1 are parameters, a
  record of functions on the service's state \<open>'f\<close>; git is the host of the workspaces.
\<close>

section \<open>Providers\<close>

datatype Provider = GitHub | GitLab | Gerrit | Plain

fun provider_name :: "Provider \<Rightarrow> string" where
  "provider_name GitHub = ''github''"
| "provider_name GitLab = ''gitlab''"
| "provider_name Gerrit = ''gerrit''"
| "provider_name Plain = ''plain''"

definition splitRemote :: "string \<Rightarrow> string \<times> string" where
  "splitRemote raw =
     (let remote = trim_space raw;
          scp = (case cut_byte CHR ''@'' remote of
                   None \<Rightarrow> ('''', '''')
                 | Some (_, after) \<Rightarrow>
                     (case cut_byte CHR '':'' after of None \<Rightarrow> ('''', '''') | Some (h, p) \<Rightarrow> (h, p)))
      in if sublist ''://'' remote then (case url_Parse remote of Some (h, p) \<Rightarrow> (Hostname h, p) | None \<Rightarrow> scp) else scp)"

definition hostOf :: "string \<Rightarrow> string" where
  "hostOf remote = to_lower (fst (splitRemote remote))"

definition pathOf :: "string \<Rightarrow> string" where
  "pathOf remote = snd (splitRemote remote)"

definition Derive :: "string \<Rightarrow> string \<Rightarrow> Provider" where
  "Derive remoteURL explicit =
     (case find (\<lambda>p. provider_name p = to_lower (trim_space explicit)) [GitHub, GitLab, Gerrit, Plain] of
        Some p \<Rightarrow> p
      | None \<Rightarrow>
          let host = hostOf remoteURL in
          if host = ''github.com'' then GitHub else if sublist ''gitlab'' host then GitLab else Plain)"

fun strategySupport :: "Provider \<Rightarrow> string list" where
  "strategySupport Plain = [''branch'', ''patch'']"
| "strategySupport GitHub = [''branch'', ''patch'', ''pull_request'']"
| "strategySupport GitLab = [''branch'', ''patch'', ''merge_request'']"
| "strategySupport Gerrit = [''branch'', ''patch'', ''gerrit_change'']"

definition Supports :: "Provider \<Rightarrow> string \<Rightarrow> bool" where
  "Supports p strategy \<longleftrightarrow> strategy \<in> set (strategySupport p)"

definition APIBase :: "Provider \<Rightarrow> string \<Rightarrow> string \<Rightarrow> string" where
  "APIBase p remoteURL override =
     (if override \<noteq> '''' then override
      else let host = hostOf remoteURL in
           case p of
             GitHub \<Rightarrow> if host = ''github.com'' then ''https://api.github.com'' else ''https://'' @ host @ ''/api/v3''
           | GitLab \<Rightarrow> ''https://'' @ host @ ''/api/v4''
           | _ \<Rightarrow> '''')"

definition trim_slashes :: "string \<Rightarrow> string" where
  "trim_slashes s = trim_right_by (\<lambda>c. c = CHR ''/'') (trim_left_by (\<lambda>c. c = CHR ''/'') s)"

definition ParseRepo :: "Provider \<Rightarrow> string \<Rightarrow> (string \<times> string) res" where
  "ParseRepo p remoteURL =
     (let path = trim_suffix (trim_slashes (pathOf remoteURL)) ''.git'';
          bad = Errf ''cannot parse owner/repo from remote_url'' []
      in if path = '''' then Inl bad
         else if p = GitLab then Inr ('''', path)
         else case split_on CHR ''/'' path of
                [o', r] \<Rightarrow> if o' = '''' \<or> r = '''' then Inl bad else Inr (o', r)
              | _ \<Rightarrow> Inl bad)"

section \<open>Strategies over git\<close>

record PubResult =
  gr_Ref :: string
  gr_DeliveryURL :: string
  gr_ChangeID :: string
  gr_Patch :: string
  gr_NoChange :: bool

definition PubResult_zero :: PubResult where
  "PubResult_zero = \<lparr>gr_Ref = '''', gr_DeliveryURL = '''', gr_ChangeID = '''', gr_Patch = '''', gr_NoChange = False\<rparr>"

record PubEnv =
  pe_Dir :: string
  pe_RunEnv :: "string list"
  pe_Remote :: string
  pe_RemoteURL :: string
  pe_Cred :: Credential
  pe_APIBase :: string
  pe_Title :: string
  pe_Body :: string
  pe_Actor :: string

definition pe_actor :: "PubEnv \<Rightarrow> string" where
  "pe_actor e = (if pe_Actor e \<noteq> '''' then pe_Actor e else ''system'')"

definition pe_remote :: "PubEnv \<Rightarrow> string" where
  "pe_remote e = (if pe_Remote e \<noteq> '''' then pe_Remote e else ''origin'')"

text \<open>The texts that may be logged leave out the credential, its environment and the patch.\<close>

definition PubResult_String :: "PubResult \<Rightarrow> string" where
  "PubResult_String r =
     ''Result{Ref:'' @ gr_Ref r @ '' DeliveryURL:'' @ gr_DeliveryURL r @ '' ChangeID:'' @ gr_ChangeID r @ ''}''"

definition PubEnv_String :: "PubEnv \<Rightarrow> string" where
  "PubEnv_String e =
     ''Env{Dir:'' @ pe_Dir e @ '' Remote:'' @ pe_Remote e @ '' RemoteURL:'' @ pe_RemoteURL e @ '' APIBase:'' @ pe_APIBase e
       @ '' Actor:'' @ pe_Actor e @ ''}''"

lemma PubEnv_String_redacted: "PubEnv_String (e\<lparr>pe_RunEnv := env, pe_Cred := c\<rparr>) = PubEnv_String e"
  by (simp add: PubEnv_String_def)

text \<open>One git command of the strategies' own runner: its output, or the runner's error.\<close>

definition git_step :: "'g GitHost \<Rightarrow> string \<Rightarrow> string list \<Rightarrow> string list \<Rightarrow> 'g \<Rightarrow> string res \<times> 'g" where
  "git_step X dir env argv g =
     (case Runner_Run X [''git''] dir env [argv] g of
        ((_, Inl e), g) \<Rightarrow> (Inl e, g)
      | ((rs, Inr _), g) \<Rightarrow> (Inr (st_Output (last rs)), g))"

fun up_to_date :: "bool \<Rightarrow> string list \<Rightarrow> bool" where
  "up_to_date sawRef [] = sawRef"
| "up_to_date sawRef (line # ls) =
     (if line = '''' \<or> prefix ''To '' line \<or> line = ''Done'' then up_to_date sawRef ls
      else if prefix ''='' line then up_to_date True ls
      else False)"

definition pushUpToDate :: "string \<Rightarrow> bool" where
  "pushUpToDate out = up_to_date False (split_on (CHR 0x0A) out)"

definition Branch :: "'g GitHost \<Rightarrow> PubEnv \<Rightarrow> string \<Rightarrow> string \<Rightarrow> 'g \<Rightarrow> PubResult res \<times> 'g" where
  "Branch X e source target g =
     (if source = '''' then (Inl (Errf ''empty source branch'' []), g)
      else let dest = (if target = '''' then source else target) in
           case git_step X (pe_Dir e) (pe_RunEnv e) [''git'', ''push'', ''--porcelain'', pe_remote e, source @ '':'' @ dest] g of
             (Inl e, g) \<Rightarrow> (Inl e, g)
           | (Inr out, g) \<Rightarrow> (Inr (PubResult_zero\<lparr>gr_Ref := ''refs/heads/'' @ dest, gr_NoChange := pushUpToDate out\<rparr>), g))"

definition Patch :: "'g GitHost \<Rightarrow> PubEnv \<Rightarrow> string \<Rightarrow> string \<Rightarrow> 'g \<Rightarrow> PubResult res \<times> 'g" where
  "Patch X e source target g =
     (let rng = (if target \<noteq> '''' then target @ ''..'' @ source else source @ ''~1..'' @ source) in
      case git_step X (pe_Dir e) (pe_RunEnv e) [''git'', ''format-patch'', rng, ''--stdout''] g of
        (Inl e, g) \<Rightarrow> (Inl e, g)
      | (Inr out, g) \<Rightarrow> (Inr (PubResult_zero\<lparr>gr_Patch := out\<rparr>), g))"

definition tipSubject :: "'g GitHost \<Rightarrow> string \<Rightarrow> string \<Rightarrow> 'g \<Rightarrow> string \<times> 'g" where
  "tipSubject X dir ref g =
     (case git_step X dir [] [''git'', ''log'', ''-1'', ''--format=%s'', ref] g of
        (Inl _, g) \<Rightarrow> (ref, g)
      | (Inr out, g) \<Rightarrow> (if trim_space out \<noteq> '''' then trim_space out else ref, g))"

section \<open>REST\<close>

record HttpReq =
  hq_Method :: string
  hq_URL :: string
  hq_Header :: "(string \<times> string) list"
  hq_Body :: "json option"

datatype HttpResult = TransportErr go_error | HttpResp nat string

text \<open>\<open>fg_ca\<close> reads a CA file: an error, or whether it holds a certificate.  \<open>fg_json\<close> parses a JSON text.\<close>

record 'f Forge =
  fg_do :: "HttpReq \<Rightarrow> 'f \<Rightarrow> HttpResult \<times> 'f"
  fg_json :: "string \<Rightarrow> json option"
  fg_ca :: "string \<Rightarrow> bool res"
  fg_sha1hex :: "string \<Rightarrow> string"

definition newRESTClient :: "'f Forge \<Rightarrow> Credential \<Rightarrow> unit res" where
  "newRESTClient F cred =
     (if cr_Token cred = '''' then Inl (Status FailedPrecondition ''REST strategy requires an HTTPS token credential'' [] None)
      else if cr_CAPath cred \<noteq> '''' then
        (case fg_ca F (cr_CAPath cred) of
           Inl e \<Rightarrow> Inl (Status Internal ''read ca_path: %v'' [] (Some e))
         | Inr False \<Rightarrow> Inl (Status Internal ''ca_path: no certificates found'' [] None)
         | Inr True \<Rightarrow> Inr ())
      else Inr ())"

definition statusToCode :: "nat \<Rightarrow> code" where
  "statusToCode httpStatus =
     (if httpStatus = 401 \<or> httpStatus = 403 then PermissionDenied
      else if httpStatus = 404 then FailedPrecondition
      else if httpStatus = 422 then InvalidArgument
      else if 500 \<le> httpStatus then Unavailable
      else Internal)"

definition forgeMessage :: "'f Forge \<Rightarrow> string \<Rightarrow> string" where
  "forgeMessage F data =
     (case Option.bind (fg_json F data) (\<lambda>j. Option.bind (jfield ''message'' jstr j) (\<lambda>m. map_option (Pair m) (jfield ''error'' jstr j))) of
        Some (m, er) \<Rightarrow> if m \<noteq> '''' then m else if er \<noteq> '''' then er else take 200 data
      | None \<Rightarrow> take 200 data)"

definition body_limit :: nat where "body_limit = 2 ^ 20"

text \<open>
  The answer to a request: \<open>Inr None\<close> when there is nothing to decode.  \<open>decode = None\<close> stands for a nil \<^verbatim>\<open>out\<close>.
\<close>

definition answer ::
  "'f Forge \<Rightarrow> string \<Rightarrow> (string \<Rightarrow> string) \<Rightarrow> (json \<Rightarrow> 'a option) option \<Rightarrow> HttpResult \<Rightarrow> 'a option res" where
  "answer F who strip decode r =
     (case r of
        TransportErr e \<Rightarrow> Inl (Status Unavailable ''%s request failed: %v'' [who] (Some e))
      | HttpResp st body \<Rightarrow>
          let data = take body_limit body in
          if st < 200 \<or> 300 \<le> st
          then Inl (Status (statusToCode st) ''%s HTTP %d: %s'' [who, format_int (int st), forgeMessage F data] None)
          else case decode of
                 None \<Rightarrow> Inr None
               | Some dec \<Rightarrow>
                   let data = strip data in
                   if data = '''' then Inr None
                   else case Option.bind (fg_json F data) dec of
                          None \<Rightarrow> Inl (Status Internal ''decode %s response'' [who] None)
                        | Some v \<Rightarrow> Inr (Some v))"

definition auth_header :: "Provider \<Rightarrow> string \<Rightarrow> (string \<times> string) list" where
  "auth_header p token =
     (case p of
        GitHub \<Rightarrow> [(''Authorization'', ''Bearer '' @ token), (''Accept'', ''application/vnd.github+json'')]
      | GitLab \<Rightarrow> [(''PRIVATE-TOKEN'', token)]
      | _ \<Rightarrow> [])"

definition content_type :: "json option \<Rightarrow> (string \<times> string) list" where
  "content_type body = (if body = None then [] else [(''Content-Type'', ''application/json'')])"

definition rest_do ::
  "'f Forge \<Rightarrow> Provider \<Rightarrow> Credential \<Rightarrow> string \<Rightarrow> string \<Rightarrow> json option \<Rightarrow> (json \<Rightarrow> 'a option) option \<Rightarrow> 'f
    \<Rightarrow> 'a option res \<times> 'f" where
  "rest_do F p cred method reqURL body decode f =
     (if url_Parse reqURL = None then (Inl (Status Internal ''build %s request'' [provider_name p] None), f)
      else let (r, f) = fg_do F \<lparr>hq_Method = method, hq_URL = reqURL,
                                  hq_Header = auth_header p (cr_Token cred) @ content_type body, hq_Body = body\<rparr> f
           in (answer F (provider_name p) (\<lambda>d. d) decode r, f))"

record forgeItem =
  fi_Number :: int
  fi_IID :: int
  fi_HTMLURL :: string
  fi_WebURL :: string

definition forgeItem_zero :: forgeItem where
  "forgeItem_zero = \<lparr>fi_Number = 0, fi_IID = 0, fi_HTMLURL = '''', fi_WebURL = ''''\<rparr>"

definition fi_id :: "forgeItem \<Rightarrow> int" where
  "fi_id i = (if fi_IID i \<noteq> 0 then fi_IID i else fi_Number i)"

definition fi_url :: "forgeItem \<Rightarrow> string" where
  "fi_url i = (if fi_WebURL i \<noteq> '''' then fi_WebURL i else fi_HTMLURL i)"

definition decode_item :: "json \<Rightarrow> forgeItem option" where
  "decode_item j =
     (case (jfield ''number'' jint j, jfield ''iid'' jint j, jfield ''html_url'' jstr j, jfield ''web_url'' jstr j) of
        (Some n, Some i, Some h, Some w) \<Rightarrow> Some \<lparr>fi_Number = n, fi_IID = i, fi_HTMLURL = h, fi_WebURL = w\<rparr>
      | _ \<Rightarrow> None)"

record forgeRequest =
  fq_resourceURL :: string
  fq_listQuery :: string
  fq_create :: "(string \<times> string) list"
  fq_updateMethod :: string
  fq_bodyField :: string

definition jstrings :: "(string \<times> string) list \<Rightarrow> json" where
  "jstrings kvs = JObj (map (\<lambda>(k, v). (k, JStr v)) kvs)"

definition createOrUpdate ::
  "'g GitHost \<Rightarrow> 'f Forge \<Rightarrow> Provider \<Rightarrow> PubEnv \<Rightarrow> string \<Rightarrow> forgeRequest \<Rightarrow> 'g \<Rightarrow> 'f \<Rightarrow> PubResult res \<times> 'g \<times> 'f" where
  "createOrUpdate X F p e source req g f =
     (let ref = ''refs/heads/'' @ source;
          ok = (\<lambda>it. PubResult_zero\<lparr>gr_Ref := ref, gr_DeliveryURL := fi_url (case it of None \<Rightarrow> forgeItem_zero | Some i \<Rightarrow> i)\<rparr>)
      in case rest_do F p (pe_Cred e) ''GET'' (fq_resourceURL req @ ''?'' @ fq_listQuery req) None (Some (jlist decode_item)) f of
           (Inl er, f) \<Rightarrow> (Inl er, g, f)
         | (Inr found, f) \<Rightarrow>
             (case (case found of None \<Rightarrow> [] | Some is \<Rightarrow> is) of
                it # _ \<Rightarrow>
                  (let patch = (if pe_Title e \<noteq> '''' then [(''title'', pe_Title e)] else [])
                             @ (if pe_Body e \<noteq> '''' then [(fq_bodyField req, pe_Body e)] else [])
                   in if patch = [] then (Inr (ok (Some it)), g, f)
                      else case rest_do F p (pe_Cred e) (fq_updateMethod req) (fq_resourceURL req @ ''/'' @ format_int (fi_id it))
                                  (Some (jstrings patch)) (Some decode_item) f of
                             (Inl er, f) \<Rightarrow> (Inl er, g, f)
                           | (Inr out, f) \<Rightarrow> (Inr (ok out), g, f))
              | [] \<Rightarrow>
                  (let (title, g) = (if pe_Title e = '''' then tipSubject X (pe_Dir e) source g else (pe_Title e, g));
                       body = fq_create req @ [(''title'', title)] @ (if pe_Body e \<noteq> '''' then [(fq_bodyField req, pe_Body e)] else [])
                   in case rest_do F p (pe_Cred e) ''POST'' (fq_resourceURL req) (Some (jstrings body)) (Some decode_item) f of
                        (Inl er, f) \<Rightarrow> (Inl er, g, f)
                      | (Inr out, f) \<Rightarrow> (Inr (ok out), g, f))))"

definition pull_request_shape :: "PubEnv \<Rightarrow> string \<Rightarrow> string \<Rightarrow> string \<Rightarrow> string \<Rightarrow> forgeRequest" where
  "pull_request_shape e owner repo source target =
     \<lparr>fq_resourceURL = pe_APIBase e @ ''/repos/'' @ owner @ ''/'' @ repo @ ''/pulls'',
      fq_listQuery = Values_Encode [(''head'', owner @ '':'' @ source), (''base'', target), (''state'', ''open'')],
      fq_create = [(''head'', source), (''base'', target)], fq_updateMethod = ''PATCH'', fq_bodyField = ''body''\<rparr>"

definition PullRequest ::
  "'g GitHost \<Rightarrow> 'f Forge \<Rightarrow> PubEnv \<Rightarrow> string \<Rightarrow> string \<Rightarrow> 'g \<Rightarrow> 'f \<Rightarrow> PubResult res \<times> 'g \<times> 'f" where
  "PullRequest X F e source target g f =
     (case ParseRepo GitHub (pe_RemoteURL e) of
        Inl er \<Rightarrow> (Inl (Status InvalidArgument ''%s'' [] (Some er)), g, f)
      | Inr (owner, repo) \<Rightarrow>
          if target = '''' then (Inl (Status InvalidArgument ''pull_request requires a target branch'' [] None), g, f)
          else case Branch X e source source g of
                 (Inl er, g) \<Rightarrow> (Inl er, g, f)
               | (Inr _, g) \<Rightarrow>
                   (case newRESTClient F (pe_Cred e) of
                      Inl er \<Rightarrow> (Inl er, g, f)
                    | Inr _ \<Rightarrow> createOrUpdate X F GitHub e source (pull_request_shape e owner repo source target) g f))"

definition merge_request_shape :: "PubEnv \<Rightarrow> string \<Rightarrow> string \<Rightarrow> string \<Rightarrow> forgeRequest" where
  "merge_request_shape e project source target =
     \<lparr>fq_resourceURL = pe_APIBase e @ ''/projects/'' @ PathEscape project @ ''/merge_requests'',
      fq_listQuery = Values_Encode [(''source_branch'', source), (''target_branch'', target), (''state'', ''opened'')],
      fq_create = [(''source_branch'', source), (''target_branch'', target)], fq_updateMethod = ''PUT'',
      fq_bodyField = ''description''\<rparr>"

definition MergeRequest ::
  "'g GitHost \<Rightarrow> 'f Forge \<Rightarrow> PubEnv \<Rightarrow> string \<Rightarrow> string \<Rightarrow> 'g \<Rightarrow> 'f \<Rightarrow> PubResult res \<times> 'g \<times> 'f" where
  "MergeRequest X F e source target g f =
     (case ParseRepo GitLab (pe_RemoteURL e) of
        Inl er \<Rightarrow> (Inl (Status InvalidArgument ''%s'' [] (Some er)), g, f)
      | Inr (_, project) \<Rightarrow>
          if target = '''' then (Inl (Status InvalidArgument ''merge_request requires a target branch'' [] None), g, f)
          else case Branch X e source source g of
                 (Inl er, g) \<Rightarrow> (Inl er, g, f)
               | (Inr _, g) \<Rightarrow>
                   (case newRESTClient F (pe_Cred e) of
                      Inl er \<Rightarrow> (Inl er, g, f)
                    | Inr _ \<Rightarrow> createOrUpdate X F GitLab e source (merge_request_shape e project source target) g f))"

section \<open>Gerrit changes\<close>

definition gerritIdentityEmail :: string where "gerritIdentityEmail = ''noreply@sbx-swarm.local''"

text \<open>The white space of regular expressions.\<close>

definition re_space :: "char \<Rightarrow> bool" where
  "re_space c \<longleftrightarrow> (of_char c :: nat) \<in> {9, 10, 12, 13, 32}"

text \<open>
  The trailer \<^verbatim>\<open>^Change-Id: (I[0-9a-fA-F]+)\s*$\<close> of the first line that has it.
\<close>

definition change_id_of_line :: "string \<Rightarrow> string option" where
  "change_id_of_line line =
     (if prefix ''Change-Id: I'' line then
        (let rest = drop 12 line; h = takeWhile (\<lambda>c. unhex c \<noteq> None) rest; tail = drop (length h) rest
         in if h \<noteq> '''' \<and> list_all re_space tail then Some (CHR ''I'' # h) else None)
      else None)"

definition find_change_id :: "string \<Rightarrow> string" where
  "find_change_id out = (case List.map_filter change_id_of_line (split_on (CHR 0x0A) out) of [] \<Rightarrow> '''' | i # _ \<Rightarrow> i)"

definition existingChangeID :: "'g GitHost \<Rightarrow> string \<Rightarrow> string \<Rightarrow> string \<Rightarrow> 'g \<Rightarrow> string \<times> 'g" where
  "existingChangeID X dir target source g =
     (case git_step X dir [] [''git'', ''log'', ''--format=%B'', target @ ''..'' @ source] g of
        (Inl _, g) \<Rightarrow> ('''', g)
      | (Inr out, g) \<Rightarrow> (find_change_id out, g))"

definition gerritChangeID :: "'f Forge \<Rightarrow> string \<Rightarrow> string \<Rightarrow> string \<Rightarrow> string" where
  "gerritChangeID F remoteURL source target =
     CHR ''I'' # fg_sha1hex F (remoteURL @ [CHR 0x00] @ source @ [CHR 0x00] @ target)"

text \<open>The leftmost \<^verbatim>\<open>https?://\S+\<close> of a line.\<close>

fun find_url :: "string \<Rightarrow> string" where
  "find_url [] = ''''"
| "find_url (c # cs) =
     (let s = c # cs; w = takeWhile (\<lambda>c. \<not> re_space c) s in
      if (prefix ''http://'' s \<and> 7 < length w) \<or> (prefix ''https://'' s \<and> 8 < length w) then w else find_url cs)"

definition parseGerritURL :: "string \<Rightarrow> string" where
  "parseGerritURL out =
     (case filter (\<lambda>u. u \<noteq> '''') (map find_url (filter (sublist ''remote:'') (split_on (CHR 0x0A) out))) of
        [] \<Rightarrow> '''' | u # _ \<Rightarrow> u)"

definition GerritChange ::
  "'g GitHost \<Rightarrow> 'f Forge \<Rightarrow> PubEnv \<Rightarrow> string \<Rightarrow> string \<Rightarrow> 'g \<Rightarrow> PubResult res \<times> 'g" where
  "GerritChange X F e source target g =
     (if target = '''' then (Inl (Status InvalidArgument ''gerrit_change requires a target branch'' [] None), g)
      else
        let (found, g) = existingChangeID X (pe_Dir e) target source g;
            changeID = (if found = '''' then gerritChangeID F (pe_RemoteURL e) source target else found);
            (subject, g) = (if pe_Title e = '''' then tipSubject X (pe_Dir e) source g else (pe_Title e, g));
            nl = [CHR 0x0A, CHR 0x0A];
            msg = subject @ (if pe_Body e \<noteq> '''' then nl @ pe_Body e else '''') @ nl @ ''Change-Id: '' @ changeID;
            env = pe_RunEnv e @ [''GIT_AUTHOR_NAME='' @ pe_actor e, ''GIT_AUTHOR_EMAIL='' @ gerritIdentityEmail,
                    ''GIT_COMMITTER_NAME='' @ pe_actor e, ''GIT_COMMITTER_EMAIL='' @ gerritIdentityEmail]
        in case git_step X (pe_Dir e) env [''git'', ''commit-tree'', source @ ''^{tree}'', ''-p'', target, ''-m'', msg] g of
             (Inl er, g) \<Rightarrow> (Inl er, g)
           | (Inr made, g) \<Rightarrow>
               (case git_step X (pe_Dir e) env [''git'', ''push'', pe_remote e, trim_space made @ '':refs/for/'' @ target] g of
                  (Inl er, g) \<Rightarrow> (Inl er, g)
                | (Inr out, g) \<Rightarrow>
                    (Inr (PubResult_zero\<lparr>gr_Ref := ''refs/for/'' @ target, gr_ChangeID := changeID,
                            gr_DeliveryURL := parseGerritURL out, gr_NoChange := sublist ''no new changes'' out\<rparr>), g)))"

section \<open>Reviews\<close>

record Comment =
  cm_ID :: string
  cm_Author :: string
  cm_Body :: string

record Thread =
  th_ID :: string
  th_File :: string
  th_Line :: int
  th_Comments :: "Comment list"

record ReviewData =
  rv_Head :: string
  rv_Threads :: "Thread list"
  rv_RequestedChanges :: "string list"

record Reply =
  rp_ThreadID :: string
  rp_Body :: string
  rp_Resolve :: bool

record ReviewHead =
  rh_LocalBranch :: string
  rh_FetchRef :: string

definition decode_head :: "json \<Rightarrow> (string \<times> string) option" where
  "decode_head =
     jfield ''head'' (\<lambda>h. case (jfield ''ref'' jstr h, jfield ''repo'' (jfield ''full_name'' jstr) h) of
       (Some r, Some n) \<Rightarrow> Some (r, n) | _ \<Rightarrow> None)"

definition githubReviewHead :: "'f Forge \<Rightarrow> PubEnv \<Rightarrow> string \<Rightarrow> 'f \<Rightarrow> ReviewHead res \<times> 'f" where
  "githubReviewHead F e reviewID f =
     (case ParseRepo GitHub (pe_RemoteURL e) of
        Inl er \<Rightarrow> (Inl (Status InvalidArgument ''%s'' [] (Some er)), f)
      | Inr (owner, repo) \<Rightarrow>
          (case newRESTClient F (pe_Cred e) of
             Inl er \<Rightarrow> (Inl er, f)
           | Inr _ \<Rightarrow>
               (case rest_do F GitHub (pe_Cred e) ''GET'' (pe_APIBase e @ ''/repos/'' @ owner @ ''/'' @ repo @ ''/pulls/'' @ reviewID)
                       None (Some decode_head) f of
                  (Inl er, f) \<Rightarrow> (Inl er, f)
                | (Inr pr, f) \<Rightarrow>
                    let (ref, fullName) = (case pr of None \<Rightarrow> ('''', '''') | Some p \<Rightarrow> p) in
                    if ref = '''' then (Inl (Status FailedPrecondition ''pr %s has no head branch'' [reviewID] None), f)
                    else if to_lower fullName \<noteq> to_lower (owner @ ''/'' @ repo)
                    then (Inl (Status FailedPrecondition ''pr %s head is on a fork (%s); push-in-place needs a same-repo PR''
                                [reviewID, fullName] None), f)
                    else (Inr \<lparr>rh_LocalBranch = ref, rh_FetchRef = ''''\<rparr>, f))))"

text \<open>GraphQL: errors come in the body of a successful answer.\<close>

definition githubGraphQLURL :: "string \<Rightarrow> string" where
  "githubGraphQLURL apiBase =
     (if suffix ''/api/v3'' apiBase then trim_suffix apiBase ''/api/v3'' @ ''/api/graphql''
      else trim_right_by (\<lambda>c. c = CHR ''/'') apiBase @ ''/graphql'')"

definition decode_graphql :: "json \<Rightarrow> (json \<times> string list) option" where
  "decode_graphql j =
     (case (jfield ''data'' Some j, jfield ''errors'' (jlist (jfield ''message'' jstr)) j) of
        (Some d, Some es) \<Rightarrow> Some (d, es) | _ \<Rightarrow> None)"

definition graphql ::
  "'f Forge \<Rightarrow> Credential \<Rightarrow> string \<Rightarrow> string \<Rightarrow> (string \<times> json) list \<Rightarrow> (json \<Rightarrow> 'a option) option \<Rightarrow> 'f \<Rightarrow> 'a option res \<times> 'f" where
  "graphql F cred url query vars decode f =
     (case rest_do F GitHub cred ''POST'' url (Some (JObj [(''query'', JStr query), (''variables'', JObj vars)])) (Some decode_graphql) f of
        (Inl er, f) \<Rightarrow> (Inl er, f)
      | (Inr None, f) \<Rightarrow> (Inr None, f)
      | (Inr (Some (d, es)), f) \<Rightarrow>
          (case es of
             m # _ \<Rightarrow> (Inl (Status Internal ''github graphql: %s'' [m] None), f)
           | [] \<Rightarrow>
               (case decode of
                  None \<Rightarrow> (Inr None, f)
                | Some dec \<Rightarrow>
                    (case dec d of
                       None \<Rightarrow> (Inl (Status Internal ''decode github graphql data'' [] None), f)
                     | Some v \<Rightarrow> (Inr (Some v), f)))))"

definition githubReadQuery :: string where
  "githubReadQuery = ''query($o:String!,$n:String!,$num:Int!){repository(owner:$o,name:$n){pullRequest(number:$num){headRefOid reviewThreads(first:100){nodes{id isResolved path line comments(first:100){nodes{id author{login} body}}}} reviews(first:100,states:[CHANGES_REQUESTED]){nodes{body}}}}}''"

definition githubReplyMutation :: string where
  "githubReplyMutation = ''mutation($t:ID!,$b:String!){addPullRequestReviewThreadReply(input:{pullRequestReviewThreadId:$t,body:$b}){comment{id}}}''"

definition githubResolveMutation :: string where
  "githubResolveMutation = ''mutation($t:ID!){resolveReviewThread(input:{threadId:$t}){thread{id}}}''"

definition decode_comment :: "json \<Rightarrow> Comment option" where
  "decode_comment j =
     (case (jfield ''id'' jstr j, jfield ''author'' (jfield ''login'' jstr) j, jfield ''body'' jstr j) of
        (Some i, Some a, Some b) \<Rightarrow> Some \<lparr>cm_ID = i, cm_Author = a, cm_Body = b\<rparr> | _ \<Rightarrow> None)"

definition decode_thread :: "json \<Rightarrow> (bool \<times> Thread) option" where
  "decode_thread j =
     (case (jfield ''isResolved'' jbool j, jfield ''id'' jstr j, jfield ''path'' jstr j, jfield ''line'' jint j,
            jfield ''comments'' (jfield ''nodes'' (jlist decode_comment)) j) of
        (Some r, Some i, Some p, Some l, Some cs) \<Rightarrow> Some (r, \<lparr>th_ID = i, th_File = p, th_Line = l, th_Comments = cs\<rparr>)
      | _ \<Rightarrow> None)"

definition decode_pr :: "json \<Rightarrow> (string \<times> (bool \<times> Thread) list \<times> string list) option" where
  "decode_pr = jfield ''repository'' (jfield ''pullRequest'' (\<lambda>p.
     case (jfield ''headRefOid'' jstr p, jfield ''reviewThreads'' (jfield ''nodes'' (jlist decode_thread)) p,
           jfield ''reviews'' (jfield ''nodes'' (jlist (jfield ''body'' jstr))) p) of
       (Some h, Some ts, Some bs) \<Rightarrow> Some (h, ts, bs) | _ \<Rightarrow> None))"

definition githubReadReview :: "'f Forge \<Rightarrow> PubEnv \<Rightarrow> string \<Rightarrow> 'f \<Rightarrow> ReviewData res \<times> 'f" where
  "githubReadReview F e reviewID f =
     (case ParseRepo GitHub (pe_RemoteURL e) of
        Inl er \<Rightarrow> (Inl (Status InvalidArgument ''%s'' [] (Some er)), f)
      | Inr (owner, repo) \<Rightarrow>
          (case parse_int64 (trim_space reviewID) of
             None \<Rightarrow> (Inl (Status InvalidArgument ''github review id must be a PR number, got %q'' [reviewID] None), f)
           | Some num \<Rightarrow>
               (case newRESTClient F (pe_Cred e) of
                  Inl er \<Rightarrow> (Inl er, f)
                | Inr _ \<Rightarrow>
                    (case graphql F (pe_Cred e) (githubGraphQLURL (pe_APIBase e)) githubReadQuery
                            [(''o'', JStr owner), (''n'', JStr repo), (''num'', JNum num)] (Some decode_pr) f of
                       (Inl er, f) \<Rightarrow> (Inl er, f)
                     | (Inr r, f) \<Rightarrow>
                         let (h, ts, bs) = (case r of None \<Rightarrow> ('''', [], []) | Some p \<Rightarrow> p) in
                         (Inr \<lparr>rv_Head = h, rv_Threads = map snd (filter (\<lambda>t. \<not> fst t) ts),
                               rv_RequestedChanges = filter (\<lambda>b. b \<noteq> '''') (map trim_space bs)\<rparr>, f)))))"

text \<open>The replies in order; what was created before a failure is returned with the error.\<close>

fun github_replies ::
  "'f Forge \<Rightarrow> Credential \<Rightarrow> string \<Rightarrow> Reply list \<Rightarrow> string list \<Rightarrow> 'f \<Rightarrow> (string list \<times> unit res) \<times> 'f" where
  "github_replies F cred url [] made f = ((made, Inr ()), f)"
| "github_replies F cred url (r # rs) made f =
     (let (posted, f) =
            (if rp_Body r \<noteq> '''' then
               graphql F cred url githubReplyMutation [(''t'', JStr (rp_ThreadID r)), (''b'', JStr (rp_Body r))]
                 (Some (jfield ''addPullRequestReviewThreadReply'' (jfield ''comment'' (jfield ''id'' jstr)))) f
             else (Inr None, f))
      in case posted of
           Inl er \<Rightarrow> ((made, Inl er), f)
         | Inr i \<Rightarrow>
             (let made = (case i of Some c \<Rightarrow> if c \<noteq> '''' then made @ [c] else made | None \<Rightarrow> made);
                  (resolved, f) =
                    (if rp_Resolve r
                     then graphql F cred url githubResolveMutation [(''t'', JStr (rp_ThreadID r))] (None :: (json \<Rightarrow> string option) option) f
                     else (Inr None, f))
              in case resolved of
                   Inl er \<Rightarrow> ((made, Inl er), f)
                 | Inr _ \<Rightarrow> github_replies F cred url rs made f))"

definition githubResolveThreads :: "'f Forge \<Rightarrow> PubEnv \<Rightarrow> Reply list \<Rightarrow> 'f \<Rightarrow> (string list \<times> unit res) \<times> 'f" where
  "githubResolveThreads F e replies f =
     (case newRESTClient F (pe_Cred e) of
        Inl er \<Rightarrow> (([], Inl er), f)
      | Inr _ \<Rightarrow> github_replies F (pe_Cred e) (githubGraphQLURL (pe_APIBase e)) replies [] f)"

section \<open>Gerrit reviews\<close>

definition gerritPatchsetLevel :: string where "gerritPatchsetLevel = ''/PATCHSET_LEVEL''"

record gerritComment =
  gc_ID :: string
  gc_InReplyTo :: string
  gc_Line :: int
  gc_Message :: string
  gc_Unresolved :: bool
  gc_Updated :: string
  gc_Username :: string
  gc_Name :: string

definition gc_author :: "gerritComment \<Rightarrow> string" where
  "gc_author c = (if gc_Username c \<noteq> '''' then gc_Username c else gc_Name c)"

definition decode_gerrit :: "json \<Rightarrow> gerritComment option" where
  "decode_gerrit j =
     (case (jfield ''id'' jstr j, jfield ''in_reply_to'' jstr j, jfield ''line'' jint j, jfield ''message'' jstr j,
            jfield ''unresolved'' jbool j, jfield ''updated'' jstr j, jfield ''author'' (jfield ''username'' jstr) j,
            jfield ''author'' (jfield ''name'' jstr) j) of
        (Some i, Some r, Some l, Some m, Some u, Some t, Some un, Some n) \<Rightarrow>
          Some \<lparr>gc_ID = i, gc_InReplyTo = r, gc_Line = l, gc_Message = m, gc_Unresolved = u, gc_Updated = t,
                gc_Username = un, gc_Name = n\<rparr>
      | _ \<Rightarrow> None)"

definition stripXSSI :: "string \<Rightarrow> string" where
  "stripXSSI b =
     (if prefix ([CHR '')'', CHR '']'', CHR ''}'', CHR 0x27]) b
      then (case index_byte (CHR 0x0A) b of Some i \<Rightarrow> drop (Suc i) b | None \<Rightarrow> b) else b)"

text \<open>\<^verbatim>\<open>strings.Index(remote, "://")\<close> and what follows it.\<close>

fun after_scheme :: "string \<Rightarrow> string option" where
  "after_scheme [] = None"
| "after_scheme (c # cs) = (if prefix ''://'' (c # cs) then Some (drop 3 (c # cs)) else after_scheme cs)"

definition userFromRemote :: "string \<Rightarrow> string" where
  "userFromRemote raw =
     (let remote = trim_space raw; remote = (case after_scheme remote of None \<Rightarrow> remote | Some r \<Rightarrow> r) in
      case index_byte CHR ''@'' remote of None \<Rightarrow> '''' | Some i \<Rightarrow> take i remote)"

record gerritClient =
  gk_base :: string
  gk_user :: string
  gk_pass :: string

definition newGerritClient :: "PubEnv \<Rightarrow> gerritClient res" where
  "newGerritClient e =
     (if pe_APIBase e = ''''
      then Inl (Status FailedPrecondition ''gerrit review requires the workspace api_base_url (its HTTP endpoint)'' [] None)
      else if cr_Token (pe_Cred e) = ''''
      then Inl (Status FailedPrecondition ''gerrit review requires an HTTP password token credential'' [] None)
      else let user = userFromRemote (pe_RemoteURL e) in
           if user = '''' then Inl (Status FailedPrecondition ''gerrit review: cannot derive username from remote_url'' [] None)
           else Inr \<lparr>gk_base = trim_right_by (\<lambda>c. c = CHR ''/'') (pe_APIBase e), gk_user = user, gk_pass = cr_Token (pe_Cred e)\<rparr>)"

definition gerrit_do ::
  "'f Forge \<Rightarrow> gerritClient \<Rightarrow> string \<Rightarrow> string \<Rightarrow> json option \<Rightarrow> (json \<Rightarrow> 'a option) option \<Rightarrow> 'f \<Rightarrow> 'a option res \<times> 'f" where
  "gerrit_do F c method path body decode f =
     (let u = gk_base c @ ''/a'' @ path in
      if url_Parse u = None then (Inl (Status Internal ''build gerrit request'' [] None), f)
      else let (r, f) = fg_do F \<lparr>hq_Method = method, hq_URL = u,
                          hq_Header = [(''Authorization'', ''Basic '' @ b64_encode (gk_user c @ '':'' @ gk_pass c)),
                                       (''Accept'', ''application/json'')] @ content_type body,
                          hq_Body = body\<rparr> f
           in (answer F ''gerrit'' stripXSSI decode r, f))"

record gerritThread =
  gt_rootID :: string
  gt_path :: string
  gt_line :: int
  gt_latestID :: string
  gt_comments :: "gerritComment list"

text \<open>Walking up the replies; a comment seen before ends the walk, so a cycle does too.\<close>

function root_walk :: "(string, gerritComment) gomap \<Rightarrow> string list \<Rightarrow> gerritComment \<Rightarrow> string" where
  "root_walk byID seen c =
     (if gc_InReplyTo c \<noteq> '''' \<and> gc_ID c \<notin> set seen then
        (case map_of byID (gc_InReplyTo c) of
           None \<Rightarrow> gc_ID c
         | Some parent \<Rightarrow> root_walk byID (gc_ID c # seen) parent)
      else gc_ID c)"
  by pat_completeness auto
termination
proof (relation "measure (\<lambda>(byID, seen, c). card (insert (gc_ID c) (gc_ID ` snd ` set byID) - set seen))")
  fix byID seen and c parent :: gerritComment
  assume a: "gc_InReplyTo c \<noteq> '''' \<and> gc_ID c \<notin> set seen" and p: "map_of byID (gc_InReplyTo c) = Some (parent :: gerritComment)"
  let ?K = "gc_ID ` snd ` set byID"
  have "gc_ID parent \<in> ?K" using map_of_SomeD[OF p] by force
  then have "insert (gc_ID parent) ?K - set (gc_ID c # seen) \<subset> insert (gc_ID c) ?K - set seen" using a by auto
  then show "((byID, gc_ID c # seen, parent), byID, seen, c)
      \<in> measure (\<lambda>(byID, seen, c). card (insert (gc_ID c) (gc_ID ` snd ` set byID) - set seen))"
    by (simp add: psubset_card_mono)
qed simp

declare root_walk.simps [simp del]

definition gerritRoot :: "gerritComment \<Rightarrow> (string, gerritComment) gomap \<Rightarrow> string" where
  "gerritRoot c byID = root_walk byID [] c"

definition by_id :: "gerritComment list \<Rightarrow> (string, gerritComment) gomap" where
  "by_id comments = fold (\<lambda>c m. AList.update (gc_ID c) c m) comments []"

definition group_by_root :: "(string, gerritComment) gomap \<Rightarrow> gerritComment list \<Rightarrow> (string, gerritComment list) gomap" where
  "group_by_root byID comments =
     fold (\<lambda>c m. let r = gerritRoot c byID in
            AList.update r ((case map_of m r of None \<Rightarrow> [] | Some cs \<Rightarrow> cs) @ [c]) m) comments []"

definition path_threads :: "string \<Rightarrow> gerritComment list \<Rightarrow> gerritThread list" where
  "path_threads path comments =
     (let byID = by_id comments in
      List.map_filter (\<lambda>(root, group).
        let group = sort_by (\<lambda>a b. gc_Updated a < gc_Updated b) group; latest = last group in
        if \<not> gc_Unresolved latest then None
        else Some \<lparr>gt_rootID = root, gt_path = path, gt_line = (case map_of byID root of None \<Rightarrow> 0 | Some c \<Rightarrow> gc_Line c),
                   gt_latestID = gc_ID latest, gt_comments = group\<rparr>)
        (group_by_root byID comments))"

text \<open>
  The groups of a path come in the order of a Go map; the final sort by root id makes the order of the
  result independent of it (up to equal root ids on different paths).
\<close>

definition gerritThreads :: "(string, gerritComment list) gomap \<Rightarrow> gerritThread list" where
  "gerritThreads byPath =
     sort_by (\<lambda>a b. gt_rootID a < gt_rootID b)
       (concat (map (\<lambda>p. path_threads p (case map_of byPath p of None \<Rightarrow> [] | Some cs \<Rightarrow> cs)) (sort_by (<) (map fst byPath))))"

definition comments_url :: "string \<Rightarrow> string" where
  "comments_url changeID = ''/changes/'' @ changeID @ ''/comments''"

definition gerritReadReview :: "'f Forge \<Rightarrow> PubEnv \<Rightarrow> string \<Rightarrow> 'f \<Rightarrow> ReviewData res \<times> 'f" where
  "gerritReadReview F e changeID f =
     (case newGerritClient e of
        Inl er \<Rightarrow> (Inl er, f)
      | Inr c \<Rightarrow>
          (case gerrit_do F c ''GET'' (comments_url changeID) None (Some (jmap (jlist decode_gerrit))) f of
             (Inl er, f) \<Rightarrow> (Inl er, f)
           | (Inr byPath, f) \<Rightarrow>
               (let (ch, f) = gerrit_do F c ''GET'' (''/changes/'' @ changeID @ ''?o=CURRENT_REVISION'') None
                                (Some (jfield ''current_revision'' jstr)) f;
                    hd' = (case ch of Inr (Some h) \<Rightarrow> h | _ \<Rightarrow> '''')
                in (Inr \<lparr>rv_Head = hd', rv_Threads =
                      map (\<lambda>t. \<lparr>th_ID = gt_rootID t, th_File = (if gt_path t = gerritPatchsetLevel then '''' else gt_path t),
                                 th_Line = gt_line t,
                                 th_Comments = map (\<lambda>c. \<lparr>cm_ID = gc_ID c, cm_Author = gc_author c, cm_Body = gc_Message c\<rparr>) (gt_comments t)\<rparr>)
                        (gerritThreads (case byPath of None \<Rightarrow> [] | Some m \<Rightarrow> m)),
                      rv_RequestedChanges = []\<rparr>, f))))"

definition decode_change :: "json \<Rightarrow> (string \<times> (string, string) gomap) option" where
  "decode_change j =
     (case (jfield ''current_revision'' jstr j, jfield ''revisions'' (jmap (jfield ''ref'' jstr)) j) of
        (Some c, Some m) \<Rightarrow> Some (c, m) | _ \<Rightarrow> None)"

definition gerritReviewHead :: "'f Forge \<Rightarrow> PubEnv \<Rightarrow> string \<Rightarrow> 'f \<Rightarrow> ReviewHead res \<times> 'f" where
  "gerritReviewHead F e changeID f =
     (case newGerritClient e of
        Inl er \<Rightarrow> (Inl er, f)
      | Inr c \<Rightarrow>
          (case gerrit_do F c ''GET'' (''/changes/'' @ changeID @ ''?o=CURRENT_REVISION'') None (Some decode_change) f of
             (Inl er, f) \<Rightarrow> (Inl er, f)
           | (Inr ch, f) \<Rightarrow>
               let (cur, revs) = (case ch of None \<Rightarrow> ('''', []) | Some p \<Rightarrow> p);
                   ref = (case map_of revs cur of None \<Rightarrow> '''' | Some r \<Rightarrow> r)
               in if ref = '''' then (Inl (Status FailedPrecondition ''gerrit change %s has no current patchset ref'' [changeID] None), f)
                  else (Inr \<lparr>rh_LocalBranch = ''review/'' @ changeID, rh_FetchRef = ref\<rparr>, f)))"

record gerritCommentInput =
  gi_InReplyTo :: string
  gi_Line :: int
  gi_Message :: string
  gi_Unresolved :: bool

fun gerrit_inputs ::
  "(string, gerritThread) gomap \<Rightarrow> Reply list \<Rightarrow> (string, gerritCommentInput list) gomap \<Rightarrow> (string, gerritCommentInput list) gomap res" where
  "gerrit_inputs threads [] m = Inr m"
| "gerrit_inputs threads (r # rs) m =
     (if rp_Body r = '''' then gerrit_inputs threads rs m
      else case map_of threads (rp_ThreadID r) of
             None \<Rightarrow> Inl (Status NotFound ''gerrit thread %q not found (already resolved?)'' [rp_ThreadID r] None)
           | Some t \<Rightarrow>
               let ci = \<lparr>gi_InReplyTo = gt_latestID t, gi_Line = (if gt_path t = gerritPatchsetLevel then 0 else gt_line t),
                         gi_Message = rp_Body r, gi_Unresolved = (\<not> rp_Resolve r)\<rparr>
               in gerrit_inputs threads rs
                    (AList.update (gt_path t) ((case map_of m (gt_path t) of None \<Rightarrow> [] | Some cs \<Rightarrow> cs) @ [ci]) m))"

definition json_input :: "gerritCommentInput \<Rightarrow> json" where
  "json_input ci =
     JObj ((if gi_InReplyTo ci \<noteq> '''' then [(''in_reply_to'', JStr (gi_InReplyTo ci))] else [])
         @ (if gi_Line ci \<noteq> 0 then [(''line'', JNum (gi_Line ci))] else [])
         @ [(''message'', JStr (gi_Message ci)), (''unresolved'', JBool (gi_Unresolved ci))])"

definition gerritCommentIDs :: "(string, gerritComment list) gomap \<Rightarrow> string list" where
  "gerritCommentIDs byPath = remdups (concat (map (\<lambda>(_, cs). map gc_ID cs) byPath))"

definition gerritResolveThreads :: "'f Forge \<Rightarrow> PubEnv \<Rightarrow> string \<Rightarrow> Reply list \<Rightarrow> 'f \<Rightarrow> (string list \<times> unit res) \<times> 'f" where
  "gerritResolveThreads F e changeID replies f =
     (case newGerritClient e of
        Inl er \<Rightarrow> (([], Inl er), f)
      | Inr c \<Rightarrow>
          (case gerrit_do F c ''GET'' (comments_url changeID) None (Some (jmap (jlist decode_gerrit))) f of
             (Inl er, f) \<Rightarrow> (([], Inl er), f)
           | (Inr got, f) \<Rightarrow>
               (let byPath = (case got of None \<Rightarrow> [] | Some m \<Rightarrow> m);
                    threads = fold (\<lambda>t m. AList.update (gt_rootID t) t m) (gerritThreads byPath) []
                in case gerrit_inputs threads replies [] of
                     Inl er \<Rightarrow> (([], Inl er), f)
                   | Inr comments \<Rightarrow>
                       if comments = [] then (([], Inr ()), f)
                       else case gerrit_do F c ''POST'' (''/changes/'' @ changeID @ ''/revisions/current/review'')
                                   (Some (JObj [(''comments'', JObj (map (\<lambda>(p, cs). (p, JArr (map json_input cs))) comments))]))
                                   (None :: (json \<Rightarrow> string option) option) f of
                              (Inl er, f) \<Rightarrow> (([], Inl er), f)
                            | (Inr _, f) \<Rightarrow>
                                (case gerrit_do F c ''GET'' (comments_url changeID) None (Some (jmap (jlist decode_gerrit))) f of
                                   (Inl _, f) \<Rightarrow> (([], Inr ()), f)
                                 | (Inr later, f) \<Rightarrow>
                                     ((sort_by (<) (filter (\<lambda>i. i \<notin> set (gerritCommentIDs byPath))
                                          (gerritCommentIDs (case later of None \<Rightarrow> [] | Some m \<Rightarrow> m))), Inr ()), f)))))"

section \<open>By provider\<close>

definition ResolveReviewHead :: "'f Forge \<Rightarrow> PubEnv \<Rightarrow> Provider \<Rightarrow> string \<Rightarrow> 'f \<Rightarrow> ReviewHead res \<times> 'f" where
  "ResolveReviewHead F e prov reviewID f =
     (case prov of
        GitHub \<Rightarrow> githubReviewHead F e reviewID f
      | Gerrit \<Rightarrow> gerritReviewHead F e reviewID f
      | _ \<Rightarrow> (Inl (Status Unimplemented ''review-head checkout not supported for provider %q'' [provider_name prov] None), f))"

definition ReadReview :: "'f Forge \<Rightarrow> PubEnv \<Rightarrow> Provider \<Rightarrow> string \<Rightarrow> 'f \<Rightarrow> ReviewData res \<times> 'f" where
  "ReadReview F e prov reviewID f =
     (case prov of
        GitHub \<Rightarrow> githubReadReview F e reviewID f
      | Gerrit \<Rightarrow> gerritReadReview F e reviewID f
      | _ \<Rightarrow> (Inl (Status Unimplemented ''review read not supported for provider %q'' [provider_name prov] None), f))"

definition ResolveThreads :: "'f Forge \<Rightarrow> PubEnv \<Rightarrow> Provider \<Rightarrow> string \<Rightarrow> Reply list \<Rightarrow> 'f \<Rightarrow> (string list \<times> unit res) \<times> 'f" where
  "ResolveThreads F e prov reviewID replies f =
     (case prov of
        GitHub \<Rightarrow> githubResolveThreads F e replies f
      | Gerrit \<Rightarrow> gerritResolveThreads F e reviewID replies f
      | _ \<Rightarrow> (([], Inl (Status Unimplemented ''review resolve not supported for provider %q'' [provider_name prov] None)), f))"

end
