(* ===== verification/GitProvider_Correct.thy ===== *)
theory GitProvider_Correct
  imports GitProvider
begin

text \<open>
  Correctness of the publish strategies and of review access: Gerrit threads are exactly the unresolved
  reply chains, republishing a branch updates its request in place, and repositories are read from
  remotes in both spellings.
\<close>

section \<open>Reply chains\<close>

definition replies_to :: "(string, gerritComment) gomap \<Rightarrow> gerritComment \<Rightarrow> gerritComment \<Rightarrow> bool" where
  "replies_to byID c p \<longleftrightarrow> gc_InReplyTo c \<noteq> '''' \<and> map_of byID (gc_InReplyTo c) = Some p"

definition keyed :: "(string, gerritComment) gomap \<Rightarrow> bool" where
  "keyed byID \<longleftrightarrow> (\<forall>k c. map_of byID k = Some c \<longrightarrow> gc_ID c = k)"

lemma replies_to_known: "keyed byID \<Longrightarrow> replies_to byID c p \<Longrightarrow> map_of byID (gc_ID p) = Some p \<and> gc_ID p = gc_InReplyTo c"
  by (auto simp: keyed_def replies_to_def)

lemma chain_known:
  "(replies_to byID)\<^sup>*\<^sup>* c d \<Longrightarrow> keyed byID \<Longrightarrow> map_of byID (gc_ID c) = Some c \<Longrightarrow> map_of byID (gc_ID d) = Some d"
  by (induction rule: rtranclp_induct) (auto dest: replies_to_known)

lemma not_above_itself:
  assumes "keyed byID" "acyclicP (replies_to byID)" "map_of byID (gc_ID c) = Some c" "replies_to byID c p"
    and d: "(replies_to byID)\<^sup>*\<^sup>* p d"
  shows "gc_ID d \<noteq> gc_ID c"
proof
  assume eq: "gc_ID d = gc_ID c"
  have "map_of byID (gc_ID p) = Some p" using replies_to_known[OF assms(1,4)] by blast
  from chain_known[OF d assms(1) this] have "map_of byID (gc_ID c) = Some d" unfolding eq .
  with assms(3) have "d = c" by simp
  with rtranclp_into_tranclp2[OF assms(4) d] have "(replies_to byID)\<^sup>+\<^sup>+ c c" by simp
  then have "(c, c) \<in> {(x, y). replies_to byID x y}\<^sup>+" unfolding tranclp_unfold .
  with assms(2) show False unfolding acyclic_def by blast
qed

text \<open>Without cycles the walk does not depend on what was seen before, and replies share their root.\<close>

lemma root_walk_seen:
  assumes "keyed byID" "acyclicP (replies_to byID)"
  shows "map_of byID (gc_ID c) = Some c \<Longrightarrow> (\<forall>d. (replies_to byID)\<^sup>*\<^sup>* c d \<longrightarrow> gc_ID d \<notin> set seen)
    \<Longrightarrow> (\<forall>d. (replies_to byID)\<^sup>*\<^sup>* c d \<longrightarrow> gc_ID d \<notin> set seen') \<Longrightarrow> root_walk byID seen c = root_walk byID seen' c"
  using assms
proof (induction byID seen c arbitrary: seen' rule: root_walk.induct)
  case (1 byID seen c)
  show ?case
  proof (cases "\<exists>p. replies_to byID c p")
    case False
    then have "gc_InReplyTo c = '''' \<or> map_of byID (gc_InReplyTo c) = None" by (auto simp: replies_to_def)
    then show ?thesis by (auto simp: root_walk.simps[of byID seen] root_walk.simps[of byID seen'])
  next
    case True
    then obtain p where p: "replies_to byID c p" by blast
    then have r: "gc_InReplyTo c \<noteq> ''''" "map_of byID (gc_InReplyTo c) = Some p" by (simp_all add: replies_to_def)
    have s: "gc_ID c \<notin> set seen" "gc_ID c \<notin> set seen'" using "1.prems"(2,3) by blast+
    have pk: "map_of byID (gc_ID p) = Some p" using replies_to_known[OF "1.prems"(4) p] by blast
    have f: "gc_ID d \<notin> set (gc_ID c # seen)" "gc_ID d \<notin> set (gc_ID c # seen')" if d: "(replies_to byID)\<^sup>*\<^sup>* p d" for d
      using not_above_itself[OF "1.prems"(4,5,1) p d] "1.prems"(2,3) converse_rtranclp_into_rtranclp[of "replies_to byID", OF p d]
      by simp_all
    have c1: "gc_InReplyTo c \<noteq> '''' \<and> gc_ID c \<notin> set seen" using r s by simp
    have "root_walk byID (gc_ID c # seen) p = root_walk byID (gc_ID c # seen') p"
      by (rule "1.IH"[OF c1 r(2) pk _ _ "1.prems"(4,5)]) (use f in simp_all)
    with r s show ?thesis by (simp add: root_walk.simps[of byID seen] root_walk.simps[of byID seen'])
  qed
qed

lemma gerritRoot_reply:
  assumes "keyed byID" "acyclicP (replies_to byID)" "map_of byID (gc_ID c) = Some c" "replies_to byID c p"
  shows "gerritRoot c byID = gerritRoot p byID"
proof -
  have r: "gc_InReplyTo c \<noteq> ''''" "map_of byID (gc_InReplyTo c) = Some p" using assms(4) by (simp_all add: replies_to_def)
  have pk: "map_of byID (gc_ID p) = Some p" using replies_to_known[OF assms(1,4)] by blast
  have "root_walk byID [gc_ID c] p = root_walk byID [] p"
    using root_walk_seen[OF assms(1,2) pk, of "[gc_ID c]" "[]"] not_above_itself[OF assms] by simp
  with r show ?thesis by (simp add: gerritRoot_def root_walk.simps[of byID "[]" c])
qed

lemma gerritRoot_top: "\<nexists>p. replies_to byID c p \<Longrightarrow> gerritRoot c byID = gc_ID c"
  by (auto simp: gerritRoot_def root_walk.simps[of byID "[]" c] replies_to_def split: option.splits)

section \<open>Grouping\<close>

lemma by_id_snoc: "by_id (cs @ [c]) = AList.update (gc_ID c) c (by_id cs)"
  by (simp add: by_id_def)

lemma by_id_keyed: "keyed (by_id cs)"
proof (induction cs rule: rev_induct)
  case Nil
  show ?case by (simp add: by_id_def keyed_def)
next
  case (snoc c cs)
  then show ?case by (simp add: by_id_snoc keyed_def)
qed

lemma by_id_known: "distinct (map gc_ID cs) \<Longrightarrow> c \<in> set cs \<Longrightarrow> map_of (by_id cs) (gc_ID c) = Some c"
proof (induction cs rule: rev_induct)
  case (snoc x cs)
  show ?case
  proof (cases "c = x")
    case False
    then have "c \<in> set cs" "gc_ID c \<noteq> gc_ID x" using snoc.prems by (auto simp: image_iff)
    then show ?thesis using snoc by (simp add: by_id_snoc)
  qed (simp add: by_id_snoc)
qed simp

lemma by_id_ran: "map_of (by_id cs) k = Some c \<Longrightarrow> c \<in> set cs"
proof (induction cs rule: rev_induct)
  case Nil
  then show ?case by (simp add: by_id_def)
next
  case (snoc x cs)
  then show ?case by (simp add: by_id_snoc split: if_splits)
qed

definition with_root :: "(string, gerritComment) gomap \<Rightarrow> string \<Rightarrow> gerritComment list \<Rightarrow> gerritComment list" where
  "with_root byID r cs = filter (\<lambda>c. gerritRoot c byID = r) cs"

lemma group_by_root_spec:
  "distinct (map fst (group_by_root byID cs))
   \<and> map_of (group_by_root byID cs) r = (if with_root byID r cs = [] then None else Some (with_root byID r cs))"
proof (induction cs arbitrary: r rule: rev_induct)
  case Nil
  show ?case by (simp add: group_by_root_def with_root_def)
next
  case (snoc c cs)
  let ?m = "group_by_root byID cs" and ?q = "gerritRoot c byID"
  have st: "group_by_root byID (cs @ [c]) = AList.update ?q ((case map_of ?m ?q of None \<Rightarrow> [] | Some xs \<Rightarrow> xs) @ [c]) ?m"
    by (simp add: group_by_root_def Let_def)
  have "(case map_of ?m ?q of None \<Rightarrow> [] | Some xs \<Rightarrow> xs) = with_root byID ?q cs" using snoc[of ?q] by simp
  with st have st': "group_by_root byID (cs @ [c]) = AList.update ?q (with_root byID ?q cs @ [c]) ?m" by simp
  have "distinct (map fst (AList.update ?q (with_root byID ?q cs @ [c]) ?m))" using snoc[of r] by (blast intro: distinct_update)
  then show ?case using snoc[of r] by (simp add: st' map_of_AList_update) (auto simp: with_root_def)
qed

text \<open>The thread of a path with a given root.\<close>

definition thread_of :: "string \<Rightarrow> gerritComment list \<Rightarrow> string \<Rightarrow> gerritThread" where
  "thread_of path cs r =
     (let g = sort_by (\<lambda>a b. gc_Updated a < gc_Updated b) (with_root (by_id cs) r cs) in
      \<lparr>gt_rootID = r, gt_path = path, gt_line = (case map_of (by_id cs) r of None \<Rightarrow> 0 | Some c \<Rightarrow> gc_Line c),
       gt_latestID = gc_ID (last g), gt_comments = g\<rparr>)"

definition unresolved_root :: "gerritComment list \<Rightarrow> string \<Rightarrow> bool" where
  "unresolved_root cs r \<longleftrightarrow> (\<exists>c\<in>set cs. gerritRoot c (by_id cs) = r)
     \<and> gc_Unresolved (last (sort_by (\<lambda>a b. gc_Updated a < gc_Updated b) (with_root (by_id cs) r cs)))"

lemma path_threads_eq:
  "path_threads p cs = map (thread_of p cs) (filter (unresolved_root cs) (map fst (group_by_root (by_id cs) cs)))"
proof -
  let ?G = "group_by_root (by_id cs) cs"
  let ?f = "\<lambda>(root, group). let group = sort_by (\<lambda>a b. gc_Updated a < gc_Updated b) group; latest = last group in
        if \<not> gc_Unresolved latest then None
        else Some \<lparr>gt_rootID = root, gt_path = p, gt_line = (case map_of (by_id cs) root of None \<Rightarrow> 0 | Some c \<Rightarrow> gc_Line c),
                   gt_latestID = gc_ID latest, gt_comments = group\<rparr>"
  have e: "List.map_filter ?f xs = map (thread_of p cs) (filter (unresolved_root cs) (map fst xs))" if "set xs \<subseteq> set ?G" for xs
    using that
  proof (induction xs)
    case Nil
    show ?case by (simp add: List.map_filter_def)
  next
    case (Cons x xs)
    obtain r g where x: "x = (r, g)" by fastforce
    have m: "map_of ?G r = Some g"
      using Cons.prems group_by_root_spec[of "by_id cs" cs r] x by (auto intro: map_of_is_SomeI)
    then have g: "g = with_root (by_id cs) r cs" "g \<noteq> []" using group_by_root_spec[of "by_id cs" cs r] by (auto split: if_splits)
    then have ex: "\<exists>c\<in>set cs. gerritRoot c (by_id cs) = r" by (auto simp: with_root_def filter_empty_conv)
    have ih: "List.map_filter ?f xs = map (thread_of p cs) (filter (unresolved_root cs) (map fst xs))" using Cons by simp
    show ?case
      using ih ex g(1) by (simp add: x List.map_filter_simps unresolved_root_def[of cs r] thread_of_def[of p cs r] Let_def)
  qed
  show ?thesis unfolding path_threads_def Let_def using e[of ?G] by (simp add: Let_def)
qed

lemma group_keys: "set (map fst (group_by_root (by_id cs) cs)) = (\<lambda>c. gerritRoot c (by_id cs)) ` set cs"
proof (intro set_eqI)
  fix r
  have "r \<in> set (map fst (group_by_root (by_id cs) cs)) \<longleftrightarrow> map_of (group_by_root (by_id cs) cs) r \<noteq> None"
    by (simp add: map_of_eq_None_iff)
  also have "\<dots> \<longleftrightarrow> r \<in> (\<lambda>c. gerritRoot c (by_id cs)) ` set cs"
    using group_by_root_spec[of "by_id cs" cs r] by (auto simp: with_root_def filter_empty_conv)
  finally show "r \<in> set (map fst (group_by_root (by_id cs) cs)) \<longleftrightarrow> r \<in> (\<lambda>c. gerritRoot c (by_id cs)) ` set cs" .
qed

lemma set_path_threads: "set (path_threads p cs) = thread_of p cs ` {r. unresolved_root cs r}"
  unfolding path_threads_eq using group_keys[of cs] by (auto simp: unresolved_root_def image_iff)

lemma path_threads_distinct: "distinct (map (\<lambda>t. (gt_path t, gt_rootID t)) (path_threads p cs))"
proof -
  have "map (\<lambda>t. (gt_path t, gt_rootID t)) (path_threads p cs)
      = map (Pair p) (filter (unresolved_root cs) (map fst (group_by_root (by_id cs) cs)))"
    by (simp add: path_threads_eq thread_of_def Let_def comp_def)
  then show ?thesis using group_by_root_spec[of "by_id cs" cs] by (simp add: distinct_map inj_on_def)
qed

lemma path_threads_path: "t \<in> set (path_threads p cs) \<Longrightarrow> gt_path t = p"
  by (auto simp: set_path_threads thread_of_def Let_def)

lemma concat_distinct_paths:
  "distinct ps \<Longrightarrow> distinct (map (\<lambda>t. (gt_path t, gt_rootID t)) (concat (map (\<lambda>p. path_threads p (h p)) ps)))"
proof (induction ps)
  case (Cons p ps)
  have "(\<lambda>t. (gt_path t, gt_rootID t)) ` set (path_threads p (h p))
      \<inter> (\<lambda>t. (gt_path t, gt_rootID t)) ` set (concat (map (\<lambda>p. path_threads p (h p)) ps)) = {}"
    using Cons.prems by (auto dest!: path_threads_path)
  with Cons path_threads_distinct[of p "h p"] show ?case by (simp add: image_Un)
qed simp
section \<open>Republishing\<close>

text \<open>
  What the client relies on of a hosting service, seen through its REST calls for one (source, target):
  \<open>items\<close> are the open requests for it.  Listing returns them; creating opens one when there is none; an
  update keeps the request and its address.  The service answers.
\<close>

locale forge_service =
  fixes F :: "'f Forge" and p :: Provider and cred :: Credential and req :: forgeRequest and items :: "'f \<Rightarrow> forgeItem list"
  assumes listing: "\<exists>f'. rest_do F p cred ''GET'' (fq_resourceURL req @ ''?'' @ fq_listQuery req) None (Some (jlist decode_item)) f
      = (Inr (Some (items f)), f') \<and> items f' = items f"
    and creating: "items f = [] \<Longrightarrow> \<exists>it f'. rest_do F p cred ''POST'' (fq_resourceURL req) (Some (jstrings (fq_create req @ kvs))) (Some decode_item) f
      = (Inr (Some it), f') \<and> items f' = [it]"
    and updating: "items f = it # its \<Longrightarrow> kvs \<noteq> [] \<Longrightarrow>
      \<exists>it' f'. rest_do F p cred (fq_updateMethod req) (fq_resourceURL req @ ''/'' @ format_int (fi_id it)) (Some (jstrings kvs)) (Some decode_item) f
      = (Inr (Some it'), f') \<and> items f' = it' # its \<and> fi_url it' = fi_url it"
begin

lemma createOrUpdate_ok:
  assumes "pe_Cred e = cred"
  shows "\<exists>r g' f'. createOrUpdate X F p e source req g f = (Inr r, g', f') \<and> gr_Ref r = ''refs/heads/'' @ source
    \<and> length (items f') = max 1 (length (items f)) \<and> gr_DeliveryURL r = fi_url (hd (items f'))
    \<and> (items f \<noteq> [] \<longrightarrow> fi_url (hd (items f')) = fi_url (hd (items f)))"
proof -
  obtain f1 where l: "rest_do F p cred ''GET'' (fq_resourceURL req @ ''?'' @ fq_listQuery req) None (Some (jlist decode_item)) f
      = (Inr (Some (items f)), f1)" "items f1 = items f" using listing by blast
  show ?thesis
  proof (cases "items f")
    case Nil
    let ?t = "if pe_Title e = '''' then tipSubject X (pe_Dir e) source g else (pe_Title e, g)"
    let ?b = "[(''title'', fst ?t)] @ (if pe_Body e \<noteq> '''' then [(fq_bodyField req, pe_Body e)] else [])"
    obtain it f2 where "rest_do F p cred ''POST'' (fq_resourceURL req) (Some (jstrings (fq_create req @ ?b))) (Some decode_item) f1
        = (Inr (Some it), f2)" "items f2 = [it]" using creating[of f1 ?b] l(2) Nil by auto
    then show ?thesis using l Nil assms by (simp add: createOrUpdate_def Let_def case_prod_unfold PubResult_zero_def)
  next
    case (Cons it its)
    let ?p = "(if pe_Title e \<noteq> '''' then [(''title'', pe_Title e)] else []) @ (if pe_Body e \<noteq> '''' then [(fq_bodyField req, pe_Body e)] else [])"
    show ?thesis
    proof (cases "?p = []")
      case True
      then show ?thesis using l Cons assms by (simp add: createOrUpdate_def Let_def PubResult_zero_def)
    next
      case False
      obtain it' f2 where "rest_do F p cred (fq_updateMethod req) (fq_resourceURL req @ ''/'' @ format_int (fi_id it)) (Some (jstrings ?p)) (Some decode_item) f1
          = (Inr (Some it'), f2)" "items f2 = it' # its" "fi_url it' = fi_url it"
        using updating[of f1 it its ?p] l(2) Cons False by auto
      then show ?thesis using l Cons assms False by (simp add: createOrUpdate_def Let_def PubResult_zero_def)
    qed
  qed
qed

end

section \<open>A hosting service with one repository\<close>

text \<open>It keeps at most one open request, of which it only stores the number.\<close>

definition one_item :: "nat \<Rightarrow> forgeItem" where
  "one_item n = \<lparr>fi_Number = int n, fi_IID = 0, fi_HTMLURL = ''https://h/pr/'' @ dec_digits n, fi_WebURL = ''''\<rparr>"

definition one_json :: "nat \<Rightarrow> json" where
  "one_json n = JObj [(''number'', JNum (int n)), (''html_url'', JStr (''https://h/pr/'' @ dec_digits n))]"

definition one_forge :: "nat option Forge" where
  "one_forge =
     \<lparr>fg_do = (\<lambda>q f.
        if hq_Method q = ''GET'' then (HttpResp 200 (case f of None \<Rightarrow> ''[]'' | Some n \<Rightarrow> ''[7]''), f)
        else if hq_Method q = ''POST'' then (HttpResp 201 ''7'', Some 7)
        else (HttpResp 200 ''7'', f)),
      fg_json = (\<lambda>s. if s = ''[]'' then Some (JArr []) else if s = ''[7]'' then Some (JArr [one_json 7]) else Some (one_json 7)),
      fg_ca = (\<lambda>_. Inr True), fg_sha1hex = (\<lambda>_. ''00'')\<rparr>"

definition one_items :: "nat option \<Rightarrow> forgeItem list" where
  "one_items f = (case f of None \<Rightarrow> [] | Some n \<Rightarrow> [one_item 7])"

definition one_env :: PubEnv where
  "one_env = \<lparr>pe_Dir = ''/base'', pe_RunEnv = [], pe_Remote = '''', pe_RemoteURL = ''https://h/o/r.git'',
     pe_Cred = \<lparr>cr_Token = ''t'', cr_SSHKeyPath = '''', cr_SSHKnownHostsPath = '''', cr_CAPath = ''''\<rparr>,
     pe_APIBase = ''https://h/api/v3'', pe_Title = ''T'', pe_Body = '''', pe_Actor = ''''\<rparr>"

definition one_req :: forgeRequest where
  "one_req = pull_request_shape one_env ''o'' ''r'' ''work'' ''main''"

lemma one_urls:
  "url_Parse (fq_resourceURL one_req) \<noteq> None" "url_Parse (fq_resourceURL one_req @ ''?'' @ fq_listQuery one_req) \<noteq> None"
  "url_Parse (fq_resourceURL one_req @ ''/'' @ format_int 7) \<noteq> None" "fq_updateMethod one_req = ''PATCH''"
  by code_simp+

lemma decode_one: "decode_item (one_json 7) = Some (one_item 7)" "fi_id (one_item 7) = 7"
  by (code_simp, code_simp)

lemma body_limit_take: "length s \<le> 3 \<Longrightarrow> take body_limit s = s"
  by (simp add: body_limit_def)

lemma body_limit_pos [simp]: "0 < body_limit"
  by (simp add: body_limit_def)

interpretation one: forge_service one_forge GitHub "pe_Cred one_env" one_req one_items
proof unfold_locales
  fix f
  show "\<exists>f'. rest_do one_forge GitHub (pe_Cred one_env) ''GET'' (fq_resourceURL one_req @ ''?'' @ fq_listQuery one_req) None (Some (jlist decode_item)) f
      = (Inr (Some (one_items f)), f') \<and> one_items f' = one_items f"
    using one_urls(2) decode_one(1)
    by (cases f) (simp_all add: rest_do_def one_forge_def answer_def one_items_def body_limit_take Let_def)
next
  fix f kvs
  assume "one_items f = []"
  show "\<exists>it f'. rest_do one_forge GitHub (pe_Cred one_env) ''POST'' (fq_resourceURL one_req) (Some (jstrings (fq_create one_req @ kvs))) (Some decode_item) f
      = (Inr (Some it), f') \<and> one_items f' = [it]"
    using one_urls(1) decode_one(1) by (simp add: rest_do_def one_forge_def answer_def one_items_def body_limit_take Let_def)
next
  fix f it its and kvs :: "(string \<times> string) list"
  assume i: "one_items f = it # its"
  then have "it = one_item 7" "its = []" "f \<noteq> None" by (auto simp: one_items_def split: option.splits)
  then show "\<exists>it' f'. rest_do one_forge GitHub (pe_Cred one_env) (fq_updateMethod one_req) (fq_resourceURL one_req @ ''/'' @ format_int (fi_id it))
        (Some (jstrings kvs)) (Some decode_item) f = (Inr (Some it'), f') \<and> one_items f' = it' # its \<and> fi_url it' = fi_url it"
    using one_urls(3,4) decode_one i by (simp add: rest_do_def one_forge_def answer_def body_limit_take Let_def)
qed

interpretation root_order: weak_order "\<lambda>a b. gt_rootID a < gt_rootID b"
  by unfold_locales auto

section \<open>Properties\<close>

text \<open>
  C34: Gerrit threads.  The threads of a change are exactly the groups of comments of a path that share a
  root and whose latest comment is unresolved; each appears once, with its comments in the order of
  their times, and the threads are in the order of their roots.  Where ids are unique and replies do
  not go in circles, a reply has the root of what it replies to, and a comment that replies to nothing
  known is its own root.
\<close>

theorem gerritThreads_exact:
  assumes "distinct (map fst byPath)"
  shows "set (gerritThreads byPath) = {thread_of p cs r |p cs r. (p, cs) \<in> set byPath \<and> unresolved_root cs r}
    \<and> distinct (map (\<lambda>t. (gt_path t, gt_rootID t)) (gerritThreads byPath))
    \<and> sorted_wrt (\<lambda>a b. gt_rootID a \<le> gt_rootID b) (gerritThreads byPath)
    \<and> (\<forall>p cs c. (p, cs) \<in> set byPath \<and> distinct (map gc_ID cs) \<and> acyclicP (replies_to (by_id cs)) \<and> c \<in> set cs \<longrightarrow>
         (case map_of (by_id cs) (gc_InReplyTo c) of
            Some q \<Rightarrow> gc_InReplyTo c \<noteq> '''' \<longrightarrow> gerritRoot c (by_id cs) = gerritRoot q (by_id cs)
          | None \<Rightarrow> gerritRoot c (by_id cs) = gc_ID c))"
proof -
  let ?h = "\<lambda>p. case map_of byPath p of None \<Rightarrow> [] | Some cs \<Rightarrow> cs"
  let ?l = "concat (map (\<lambda>p. path_threads p (?h p)) (sort_by (<) (map fst byPath)))"
  have g: "gerritThreads byPath = sort_by (\<lambda>a b. gt_rootID a < gt_rootID b) ?l" by (simp add: gerritThreads_def)
  have m: "map_of byPath p = Some cs \<longleftrightarrow> (p, cs) \<in> set byPath" for p cs
    using assms by (metis map_of_SomeD map_of_is_SomeI)
  have "set ?l = (\<Union>x\<in>set byPath. set (path_threads (fst x) (?h (fst x))))" by simp
  also have "\<dots> = (\<Union>x\<in>set byPath. thread_of (fst x) (snd x) ` {r. unresolved_root (snd x) r})"
  proof (rule SUP_cong)
    fix x assume "x \<in> set byPath"
    then have "?h (fst x) = snd x" using m[of "fst x" "snd x"] by simp
    then show "set (path_threads (fst x) (?h (fst x))) = thread_of (fst x) (snd x) ` {r. unresolved_root (snd x) r}"
      by (simp add: set_path_threads)
  qed simp
  also have "\<dots> = {thread_of p cs r |p cs r. (p, cs) \<in> set byPath \<and> unresolved_root cs r}"
    by (simp only: set_eq_iff UN_iff image_iff mem_Collect_eq Bex_def split_paired_Ex fst_conv snd_conv) blast
  finally have "set ?l = {thread_of p cs r |p cs r. (p, cs) \<in> set byPath \<and> unresolved_root cs r}" .
  note s = this
  have "distinct (sort_by (<) (map fst byPath))"
    using assms mset_eq_imp_distinct_iff[OF mset_sort_by] by blast
  then have "distinct (map (\<lambda>t. (gt_path t, gt_rootID t)) ?l)" by (rule concat_distinct_paths)
  moreover have "mset (map (\<lambda>t. (gt_path t, gt_rootID t)) (gerritThreads byPath)) = mset (map (\<lambda>t. (gt_path t, gt_rootID t)) ?l)"
    by (simp add: g mset_sort_by)
  ultimately have "distinct (map (\<lambda>t. (gt_path t, gt_rootID t)) (gerritThreads byPath))"
    using mset_eq_imp_distinct_iff by blast
  moreover note s
  moreover have "case map_of (by_id cs) (gc_InReplyTo c) of
            Some q \<Rightarrow> gc_InReplyTo c \<noteq> '''' \<longrightarrow> gerritRoot c (by_id cs) = gerritRoot q (by_id cs)
          | None \<Rightarrow> gerritRoot c (by_id cs) = gc_ID c"
    if "distinct (map gc_ID cs)" "acyclicP (replies_to (by_id cs))" "c \<in> set cs" for cs c
    using gerritRoot_reply[OF by_id_keyed that(2) by_id_known[OF that(1,3)]] gerritRoot_top[of "by_id cs" c]
    by (auto simp: replies_to_def split: option.splits)
  moreover have "sorted_wrt (\<lambda>a b. gt_rootID a \<le> gt_rootID b) (gerritThreads byPath)"
    using root_order.sorted_sort_by[of ?l] by (simp add: g not_less)
  ultimately show ?thesis by (intro conjI allI impI) (simp_all add: g)
qed

definition two_comments :: "gerritComment list" where
  "two_comments =
     [\<lparr>gc_ID = ''a'', gc_InReplyTo = '''', gc_Line = 3, gc_Message = ''fix'', gc_Unresolved = True, gc_Updated = ''1'',
       gc_Username = ''u'', gc_Name = ''''\<rparr>,
      \<lparr>gc_ID = ''b'', gc_InReplyTo = ''a'', gc_Line = 3, gc_Message = ''why'', gc_Unresolved = True, gc_Updated = ''2'',
       gc_Username = '''', gc_Name = ''n''\<rparr>]"

theorem gerritThreads_exact_witness:
  "thread_of ''f.go'' two_comments ''a'' \<in> set (gerritThreads [(''f.go'', two_comments)])
   \<and> map gc_ID (gt_comments (thread_of ''f.go'' two_comments ''a'')) = [''a'', ''b'']"
proof -
  have "unresolved_root two_comments ''a''" by code_simp
  moreover have "map gc_ID (gt_comments (thread_of ''f.go'' two_comments ''a'')) = [''a'', ''b'']" by code_simp
  moreover have "distinct (map fst [(''f.go'', two_comments)])" by simp
  note gerritThreads_exact[OF this]
  ultimately show ?thesis by auto
qed



text \<open>
  A self-hosted GitLab is recognised by its name, although only the public hosts are meant to be: any host
  that contains \<open>gitlab\<close> counts.
\<close>

theorem Derive_any_gitlab_host:
  "Derive ''https://gitlab.corp.example/group/app.git'' '''' = GitLab \<and> Derive ''git@notgitlab.example:group/app.git'' '''' = GitLab"
  by (intro conjI; code_simp)

text \<open>
  On Gerrit a reply that only resolves a thread is dropped: when no reply has a text, the answer is success
  and nothing is posted.  On GitHub the same replies resolve their threads.
\<close>

theorem gerrit_resolve_only_dropped:
  assumes "\<forall>r \<in> set replies. rp_Body r = ''''" and "newGerritClient e = Inr c"
    and "gerrit_do F c ''GET'' (comments_url changeID) None (Some (jmap (jlist decode_gerrit))) f = (Inr got, f')"
  shows "gerritResolveThreads F e changeID replies f = (([], Inr ()), f')"
proof -
  have "gerrit_inputs ts replies m = Inr m" for ts m using assms(1) by (induction replies) auto
  then show ?thesis using assms(2,3) by (simp add: gerritResolveThreads_def Let_def)
qed

end
