(* ===== verification/PublishWork.thy ===== *)
theory PublishWork
  imports SandboxService_Correct GitProvider_Correct
begin

text \<open>
  The synchronous publish of a sandbox's work and the review handlers (\<^verbatim>\<open>internal/apiserver/publish_work.go\<close>,
  \<^verbatim>\<open>review.go\<close>, and the review head of \<^verbatim>\<open>provision_git.go\<close>): a composition of the sandbox service, the
  workspace locks and the hosting service.  The state is the node's world, the git host with its locks
  and the hosting service; \<open>None\<close> stands for waiting for a lock that nobody releases.
\<close>

section \<open>Publishing work\<close>

record PublishWorkRequest =
  pw_Id :: string
  pw_Strategy :: string
  pw_Target :: string
  pw_Title :: string
  pw_Body :: string

definition sourceBranch :: "('db, 'be, 'g) Svc \<Rightarrow> Record \<Rightarrow> ('db, 'be) World \<Rightarrow> string res \<times> ('db, 'be) World" where
  "sourceBranch S rec w =
     (case agentHeadBranch S (r_BackendName rec) w of
        (Inr b, w) \<Rightarrow> if b \<noteq> '''' then (Inr b, w)
                      else if cs_Branch (r_Spec rec) \<noteq> '''' then (Inr (cs_Branch (r_Spec rec)), w)
                      else (Inl (Status FailedPrecondition ''no source branch: detached HEAD and no recorded branch'' [] None), w)
      | (Inl _, w) \<Rightarrow>
          if cs_Branch (r_Spec rec) \<noteq> '''' then (Inr (cs_Branch (r_Spec rec)), w)
          else (Inl (Status FailedPrecondition ''no source branch: detached HEAD and no recorded branch'' [] None), w))"

text \<open>The dispatch on the strategy; \<open>None\<close> is the default branch.\<close>

definition run_strategy ::
  "'g GitHost \<Rightarrow> 'f Forge \<Rightarrow> PubEnv \<Rightarrow> string \<Rightarrow> string \<Rightarrow> string \<Rightarrow> 'g \<Rightarrow> 'f \<Rightarrow> (PubResult res \<times> 'g \<times> 'f) option" where
  "run_strategy X F e strategy source target g f =
     (if strategy = ''branch'' then Some (let (r, g) = Branch X e source target g in (r, g, f))
      else if strategy = ''patch'' then Some (let (r, g) = Patch X e source target g in (r, g, f))
      else if strategy = ''pull_request'' then Some (PullRequest X F e source target g f)
      else if strategy = ''merge_request'' then Some (MergeRequest X F e source target g f)
      else if strategy = ''gerrit_change'' then Some (let (r, g) = GerritChange X F e source target g in (r, g, f))
      else None)"

definition publish_error :: "go_error \<Rightarrow> go_error" where
  "publish_error e =
     (case e of
        Status _ _ _ _ \<Rightarrow> e
      | _ \<Rightarrow> (case as_status e of
                Some c \<Rightarrow> Status c ''%s'' [] (Some e)
              | None \<Rightarrow> Status Internal ''publish-work: %v'' [] (Some e)))"

definition publish_env :: "Spec \<Rightarrow> Provider \<Rightarrow> string list \<Rightarrow> string \<Rightarrow> PublishWorkRequest \<Rightarrow> PubEnv" where
  "publish_env ws prov env actor r =
     \<lparr>pe_Dir = gs_Base ws, pe_RunEnv = env, pe_Remote = RemoteName ws, pe_RemoteURL = gs_RemoteURL ws, pe_Cred = gs_Cred ws,
      pe_APIBase = APIBase prov (gs_RemoteURL ws) (gs_APIBaseURL ws), pe_Title = pw_Title r, pe_Body = pw_Body r, pe_Actor = actor\<rparr>"

text \<open>What happens while the workspace lock is held, up to its release.\<close>

definition publish_locked ::
  "('db, 'be, 'g) Svc \<Rightarrow> 'f Forge \<Rightarrow> Spec \<Rightarrow> Provider \<Rightarrow> string list \<Rightarrow> string \<Rightarrow> PublishWorkRequest \<Rightarrow> string
    \<Rightarrow> ('db, 'be) World \<Rightarrow> 'g GitState \<Rightarrow> 'f \<Rightarrow> PubResult res \<times> ('db, 'be) World \<times> 'g GitState \<times> 'f" where
  "publish_locked S F ws prov env role r source w g f =
     (let actor = (if role = '''' then ''system'' else role);
          pl = [(''branch'', source), (''strategy'', pw_Strategy r)]
      in case run_strategy (ss_git S) F (publish_env ws prov env actor r) (pw_Strategy r) source (pw_Target r) (gi_host g) f of
           None \<Rightarrow> (Inl (Status Unimplemented ''strategy %q not yet implemented'' [pw_Strategy r] None), w, Unlock ws g, f)
         | Some (out, h, f) \<Rightarrow>
             (let w = auditPublish S (gs_Name ws) source actor (case out of Inl e \<Rightarrow> Inl e | Inr _ \<Rightarrow> Inr ()) w;
                  g = Unlock ws (g\<lparr>gi_host := h\<rparr>)
              in case out of
                   Inl e \<Rightarrow> (Inl (publish_error e), svc_emit S ''sandbox.publish_failed'' (pw_Id r) pl w, g, f)
                 | Inr res \<Rightarrow> (Inr res, svc_emit S ''sandbox.published'' (pw_Id r) pl w, g, f)))"

text \<open>The middle part: base, bundle, credential, fetch under the lock, strategy, clean-up.\<close>

definition publish_source ::
  "('db, 'be, 'g) Svc \<Rightarrow> 'f Forge \<Rightarrow> Record \<Rightarrow> Spec \<Rightarrow> Provider \<Rightarrow> string \<Rightarrow> PublishWorkRequest \<Rightarrow> string
    \<Rightarrow> ('db, 'be) World \<times> 'g GitState \<times> 'f \<Rightarrow> (PubResult res \<times> ('db, 'be) World \<times> 'g GitState \<times> 'f) option" where
  "publish_source S F rec ws prov role r source st =
     (case st of (w, g, f) \<Rightarrow>
      case EnsureBase (ss_git S) ws g of
        None \<Rightarrow> None
      | Some (Inl e, g) \<Rightarrow> Some (Inl (Status Internal ''publish-work ensure base: %v'' [] (Some e)), w, g, f)
      | Some (Inr _, g) \<Rightarrow>
          (case bundleBranches S (r_BackendName rec) [source] w of
             (Inl e, w) \<Rightarrow> Some (Inl (Status Internal ''publish-work bundle: %v'' [] (Some e)), w, g, f)
           | (Inr bundlePath, w) \<Rightarrow>
               (let cleanup = bundle_cleanup S (r_BackendName rec) (container_path S bundlePath) in
                case Credential_Env (gs_Cred ws) (gs_RemoteURL ws) of
                  Inl e \<Rightarrow> Some (Inl (Status Internal ''publish-work credential: %v'' [] (Some e)), cleanup w, g, f)
                | Inr env \<Rightarrow>
                    (case FetchFromBundle (ss_git S) ws source bundlePath g of
                       None \<Rightarrow> None
                     | Some (Inl e, g) \<Rightarrow> Some (Inl (Status Internal ''publish-work fetch: %v'' [] (Some e)), cleanup w, g, f)
                     | Some (Inr _, g) \<Rightarrow>
                         (let (out, w, g, f) = publish_locked S F ws prov env role r source w g f in Some (out, cleanup w, g, f))))))"

definition PublishWork ::
  "('db, 'be, 'g) Svc \<Rightarrow> 'f Forge \<Rightarrow> string \<Rightarrow> PublishWorkRequest \<Rightarrow> ('db, 'be) World \<times> 'g GitState \<times> 'f
    \<Rightarrow> (PubResult res \<times> ('db, 'be) World \<times> 'g GitState \<times> 'f) option" where
  "PublishWork S F role r st =
     (case st of (w, g, f) \<Rightarrow>
      case gitTarget S (pw_Id r) w of
        Inl e \<Rightarrow> Some (Inl e, st)
      | Inr (rec, ws) \<Rightarrow>
          let prov = Derive (gs_RemoteURL ws) (gs_Provider ws); strategy = pw_Strategy r in
          if \<not> Supports prov strategy
          then Some (Inl (Status InvalidArgument ''%s on %s: unsupported (set provider explicitly if self-hosted)''
                       [strategy, provider_name prov] None), st)
          else if strategy \<noteq> ''patch'' \<and> \<not> gs_AllowPush ws
          then Some (Inl (Status FailedPrecondition ''workspace does not allow push'' [] None), st)
          else if (strategy = ''pull_request'' \<or> strategy = ''merge_request'') \<and> cr_Token (gs_Cred ws) = ''''
          then Some (Inl (Status FailedPrecondition ''REST strategy requires an HTTPS token credential'' [] None), st)
          else case (if strategy = ''pull_request'' \<or> strategy = ''merge_request'' then ParseRepo prov (gs_RemoteURL ws) else Inr ('''', '''')) of
                 Inl e \<Rightarrow> Some (Inl (Status InvalidArgument ''%s'' [] (Some e)), st)
               | Inr _ \<Rightarrow>
                   (case sourceBranch S rec w of
                      (Inl e, w) \<Rightarrow> Some (Inl e, w, g, f)
                    | (Inr source, w) \<Rightarrow> publish_source S F rec ws prov role r source (w, g, f)))"

section \<open>Reviews\<close>

definition review_env :: "Spec \<Rightarrow> Provider \<times> PubEnv" where
  "review_env ws =
     (let prov = Derive (gs_RemoteURL ws) (gs_Provider ws) in
      (prov, \<lparr>pe_Dir = '''', pe_RunEnv = [], pe_Remote = '''', pe_RemoteURL = gs_RemoteURL ws, pe_Cred = gs_Cred ws,
              pe_APIBase = APIBase prov (gs_RemoteURL ws) (gs_APIBaseURL ws), pe_Title = '''', pe_Body = '''', pe_Actor = ''''\<rparr>))"

definition reviewEnv :: "('db, 'be, 'g) Svc \<Rightarrow> string \<Rightarrow> string \<Rightarrow> (Provider \<times> PubEnv) res" where
  "reviewEnv S workspace i =
     (if workspace = '''' \<or> i = '''' then Inl (Status InvalidArgument ''review_ref requires workspace and id'' [] None)
      else case map_of (ss_gitWS S) workspace of
             None \<Rightarrow> Inl (Status FailedPrecondition ''workspace %q is not git-backed'' [workspace] None)
           | Some ws \<Rightarrow> Inr (review_env ws))"

definition toReviewProto :: "ReviewData \<Rightarrow> ReviewData" where
  "toReviewProto rv = rv\<lparr>rv_Threads := map (\<lambda>t. t\<lparr>th_Line := int32 (th_Line t)\<rparr>) (rv_Threads rv)\<rparr>"

definition Svc_ReadReview :: "('db, 'be, 'g) Svc \<Rightarrow> 'f Forge \<Rightarrow> string \<Rightarrow> string \<Rightarrow> 'f \<Rightarrow> ReviewData res \<times> 'f" where
  "Svc_ReadReview S F workspace i f =
     (case reviewEnv S workspace i of
        Inl e \<Rightarrow> (Inl e, f)
      | Inr (prov, env) \<Rightarrow>
          (case ReadReview F env prov i f of (Inl e, f) \<Rightarrow> (Inl e, f) | (Inr rv, f) \<Rightarrow> (Inr (toReviewProto rv), f)))"

definition Svc_ResolveThreads ::
  "('db, 'be, 'g) Svc \<Rightarrow> 'f Forge \<Rightarrow> string \<Rightarrow> string \<Rightarrow> Reply list \<Rightarrow> 'f \<Rightarrow> string list res \<times> 'f" where
  "Svc_ResolveThreads S F workspace i replies f =
     (case reviewEnv S workspace i of
        Inl e \<Rightarrow> (Inl e, f)
      | Inr (prov, env) \<Rightarrow>
          (case ResolveThreads F env prov i replies f of
             ((_, Inl e), f) \<Rightarrow> (Inl e, f)
           | ((ids, Inr _), f) \<Rightarrow> (Inr ids, f)))"

text \<open>The review head of a clone, the parameter \<open>dp_review\<close> of provisioning, as the hosting service answers it.\<close>

definition review_head :: "'f Forge \<Rightarrow> 'f \<Rightarrow> Spec \<Rightarrow> string \<Rightarrow> (string \<times> string) res" where
  "review_head F f gw reviewID =
     (case ResolveReviewHead F (snd (review_env gw)) (fst (review_env gw)) reviewID f of
        (Inl e, _) \<Rightarrow> Inl e
      | (Inr h, _) \<Rightarrow> Inr (rh_FetchRef h, rh_LocalBranch h))"

section \<open>Lemmas\<close>

context service_env
begin

lemma sourceBranch_quiet:
  "mgr_inv E w \<Longrightarrow> binv (w_be w) \<Longrightarrow> quiet E binv w (snd (sourceBranch S rec w))"
  using head_quiet[of w "r_BackendName rec"] by (auto simp: sourceBranch_def split: prod.splits sum.splits)

lemma publish_locked_ok:
  assumes "mgr_inv E w" "binv (w_be w)" "gi_locked g = [gs_Name ws]"
    and "publish_locked S F ws prov env role r source w g f = (out, w', g', f')"
  shows "quiet E binv w w' \<and> gi_locked g' = []"
proof (cases "run_strategy (ss_git S) F (publish_env ws prov env (if role = '''' then ''system'' else role) r)
    (pw_Strategy r) source (pw_Target r) (gi_host g) f")
  case None
  then show ?thesis using assms quiet_refl by (auto simp: publish_locked_def Let_def Unlock_def)
next
  case (Some p)
  obtain o' h f1 where p: "p = (o', h, f1)" by (metis prod_cases3)
  let ?a = "auditPublish S (gs_Name ws) source (if role = '''' then ''system'' else role) (case o' of Inl e \<Rightarrow> Inl e | Inr _ \<Rightarrow> Inr ()) w"
  have a: "quiet E binv w ?a" unfolding auditPublish_def by (rule audit_quiet[OF assms(1,2)])
  then have ai: "mgr_inv E ?a" "binv (w_be ?a)" by (simp_all add: quiet_def)
  have e: "quiet E binv w (svc_emit S ev i pl ?a)" for ev i pl by (rule quiet_trans[OF a emit_quiet[OF ai]])
  have "\<exists>ev. w' = svc_emit S ev (pw_Id r) [(''branch'', source), (''strategy'', pw_Strategy r)] ?a"
    using assms(4) Some p by (cases o') (auto simp: publish_locked_def Let_def)
  moreover have "g' = Unlock ws (g\<lparr>gi_host := h\<rparr>)" using assms(4) Some p by (cases o') (auto simp: publish_locked_def Let_def)
  ultimately show ?thesis using e assms(3) by (auto simp: Unlock_def)
qed

lemma publish_source_ok:
  assumes "mgr_inv E w" "binv (w_be w)" "gi_locked g = []"
  shows "\<exists>out w' g' f'. publish_source S F rec ws prov role r source (w, g, f) = Some (out, w', g', f') \<and> quiet E binv w w' \<and> gi_locked g' = []"
proof -
  have nl: "gs_Name ws \<notin> set (gi_locked g)" using assms(3) by simp
  obtain q g1 where b: "EnsureBase (ss_git S) ws g = Some (q, g1)" "gi_locked g1 = []"
    using EnsureBase_locks[OF nl, of "ss_git S"] assms(3) by auto
  note refl' = quiet_refl[OF assms(1,2)]
  show ?thesis
  proof (cases q)
    case (Inl e)
    with b refl' show ?thesis by (simp add: publish_source_def)
  next
    case q: (Inr u)
    obtain p v where bu: "bundleBranches S (r_BackendName rec) [source] w = (p, v)" by fastforce
    have v: "quiet E binv w v" using bundle_quiet[OF assms(1,2), of "r_BackendName rec" "[source]"] bu by simp
    have cl: "quiet E binv w (bundle_cleanup S n c x)" if "quiet E binv w x" for n c x
    proof -
      have "mgr_inv E x" "binv (w_be x)" using that by (simp_all add: quiet_def)
      from quiet_trans[OF that exec_in_quiet[OF this]] show ?thesis by (simp add: bundle_cleanup_def)
    qed
    show ?thesis
    proof (cases p)
      case (Inl e)
      with b q bu v show ?thesis by (simp add: publish_source_def)
    next
      case (Inr path)
      obtain env where env: "Credential_Env (gs_Cred ws) (gs_RemoteURL ws) = Inr env"
        by (cases "Credential_Env (gs_Cred ws) (gs_RemoteURL ws)") (simp_all add: Credential_Env_def Let_def)
      have nl1: "gs_Name ws \<notin> set (gi_locked g1)" using b by simp
      obtain z g2 where ft: "FetchFromBundle (ss_git S) ws source path g1 = Some (z, g2)"
        "gi_locked g2 = (if z = Inr () then gs_Name ws # gi_locked g1 else gi_locked g1)"
        using FetchFromBundle_locks[OF nl1] by blast
      show ?thesis
      proof (cases z)
        case (Inl e)
        with b q bu v env ft Inr cl[OF v] show ?thesis by (simp add: publish_source_def Let_def)
      next
        case z: (Inr u)
        obtain out v2 g3 f3 where pl: "publish_locked S F ws prov env role r source v g2 f = (out, v2, g3, f3)"
          by (metis prod_cases4)
        have vi: "mgr_inv E v" "binv (w_be v)" using v by (simp_all add: quiet_def)
        have "quiet E binv v v2 \<and> gi_locked g3 = []"
          by (rule publish_locked_ok[OF vi _ pl]) (use ft z b in simp)
        with b q bu env ft Inr z pl cl[OF quiet_trans[OF v]] show ?thesis by (simp add: publish_source_def Let_def)
      qed
    qed
  qed
qed

lemma PublishWork_ok:
  assumes "mgr_inv E w" "binv (w_be w)" "gi_locked g = []"
  shows "\<exists>out w' g' f'. PublishWork S F role r (w, g, f) = Some (out, w', g', f') \<and> quiet E binv w w' \<and> gi_locked g' = []"
proof -
  have same: ?thesis if "PublishWork S F role r (w, g, f) = Some (e, w, g, f)" for e
    using that quiet_refl[OF assms(1,2)] assms(3) by blast
  show ?thesis
  proof (cases "\<exists>e. PublishWork S F role r (w, g, f) = Some (e, w, g, f)")
    case True
    with same show ?thesis by blast
  next
    case False
    then obtain rec ws where t: "gitTarget S (pw_Id r) w = Inr (rec, ws)"
      by (cases "gitTarget S (pw_Id r) w") (auto simp: PublishWork_def)
    obtain q v where s: "sourceBranch S rec w = (q, v)" by fastforce
    have v: "quiet E binv w v" using sourceBranch_quiet[OF assms(1,2), of rec] s by simp
    then have vi: "mgr_inv E v" "binv (w_be v)" by (simp_all add: quiet_def)
    let ?prov = "Derive (gs_RemoteURL ws) (gs_Provider ws)"
    have "PublishWork S F role r (w, g, f)
        = (case q of Inl e \<Rightarrow> Some (Inl e, v, g, f) | Inr source \<Rightarrow> publish_source S F rec ws ?prov role r source (v, g, f))"
      using False t s by (auto simp: PublishWork_def Let_def split: if_splits sum.splits)
    note eq = this
    show ?thesis
    proof (cases q)
      case (Inl e)
      with eq v assms(3) show ?thesis by simp
    next
      case (Inr source)
      obtain out w' g' f' where "publish_source S F rec ws ?prov role r source (v, g, f) = Some (out, w', g', f')"
        "quiet E binv v w'" "gi_locked g' = []"
        using publish_source_ok[OF vi assms(3), of F rec ws ?prov role r source f] by blast
      with eq Inr quiet_trans[OF v] show ?thesis by simp
    qed
  qed
qed

end

section \<open>Properties\<close>

text \<open>
  C26: Publishing work.  A publish always returns when the workspaces are free, leaves them free, and leaves
  every record alone up to the time of its last publish.  It succeeds only for a sandbox with one
  git-backed workspace, with a strategy that the workspace's provider supports, and, unless it only
  makes a patch, on a workspace that allows pushing; when one of these does not hold nothing at all
  happens, neither to git nor to the hosting service nor to the node.
\<close>

theorem PublishWork_correct:
  assumes "service_env S binv status" and "mgr_inv (ss_env S) w" and "binv (w_be w)" and "gi_locked g = []"
  shows "\<exists>out w' g' f'. PublishWork S F role r (w, g, f) = Some (out, w', g', f') \<and> quiet (ss_env S) binv w w' \<and> gi_locked g' = []
    \<and> (if \<exists>rec ws. gitTarget S (pw_Id r) w = Inr (rec, ws) \<and> Supports (Derive (gs_RemoteURL ws) (gs_Provider ws)) (pw_Strategy r)
            \<and> (pw_Strategy r = ''patch'' \<or> gs_AllowPush ws)
       then True else (\<exists>e. out = Inl e) \<and> w' = w \<and> g' = g \<and> f' = f)"
proof -
  obtain out w' g' f' where p: "PublishWork S F role r (w, g, f) = Some (out, w', g', f')" "quiet (ss_env S) binv w w'" "gi_locked g' = []"
    using service_env.PublishWork_ok[OF assms, of F role r f] by blast
  have "(\<exists>e. out = Inl e) \<and> w' = w \<and> g' = g \<and> f' = f"
    if "\<not> (\<exists>rec ws. gitTarget S (pw_Id r) w = Inr (rec, ws) \<and> Supports (Derive (gs_RemoteURL ws) (gs_Provider ws)) (pw_Strategy r)
            \<and> (pw_Strategy r = ''patch'' \<or> gs_AllowPush ws))"
  proof (cases "gitTarget S (pw_Id r) w")
    case (Inl e)
    with p(1) show ?thesis by (auto simp: PublishWork_def)
  next
    case (Inr q)
    obtain rec ws where q: "q = (rec, ws)" by fastforce
    have "\<not> Supports (Derive (gs_RemoteURL ws) (gs_Provider ws)) (pw_Strategy r) \<or> (pw_Strategy r \<noteq> ''patch'' \<and> \<not> gs_AllowPush ws)"
      using that Inr q by blast
    with p(1) Inr q show ?thesis
      by (cases "Supports (Derive (gs_RemoteURL ws) (gs_Provider ws)) (pw_Strategy r)") (auto simp: PublishWork_def Let_def)
  qed
  with p show ?thesis by (intro exI[of _ out] exI[of _ w'] exI[of _ g'] exI[of _ f']) simp
qed

theorem PublishWork_correct_witness:
  "\<exists>e. PublishWork example_svc one_forge ''admin'' \<lparr>pw_Id = ''n1.00'', pw_Strategy = ''branch'', pw_Target = '''', pw_Title = '''', pw_Body = ''''\<rparr>
      (mem_world1, free_git, None) = Some (Inl e, mem_world1, free_git, None)"
proof -
  let ?r = "\<lparr>pw_Id = ''n1.00'', pw_Strategy = ''branch'', pw_Target = '''', pw_Title = '''', pw_Body = ''''\<rparr>"
  have i: "mgr_inv (ss_env example_svc) mem_world1" "fake_inv (w_be mem_world1)" "gi_locked free_git = []"
    using mem_world1_ok by (simp_all add: node_ok_def example_svc_def free_git_def)
  have "case gitTarget example_svc ''n1.00'' mem_world1 of Inl _ \<Rightarrow> True | Inr _ \<Rightarrow> False" by code_simp
  then obtain e where "gitTarget example_svc ''n1.00'' mem_world1 = Inl e" by (cases "gitTarget example_svc ''n1.00'' mem_world1") auto
  with PublishWork_correct[OF mem_service_env i, of one_forge "''admin''" ?r None] show ?thesis by auto
qed

text \<open>
  What the sandbox prints as its branch reaches git on the host unchecked.  The pipelines of a workspace
  refuse a branch that starts with a dash, because git would take it for an option; the branch strategy
  does not check the name, and the sandbox decides what it is.
\<close>

theorem unchecked_source_reaches_git:
  assumes "be_Exec (en_backend (ss_env S)) (w_be w) (r_BackendName rec) [''git'', ''rev-parse'', ''--abbrev-ref'', ''HEAD''] no_opts
      = (Inr \<lparr>er_ExitCode = 0, er_Stdout = ''--receive-pack=x'', er_Stderr = ''''\<rparr>, be)"
  shows "sourceBranch S rec w = (Inr ''--receive-pack=x'', w\<lparr>w_be := be\<rparr>)
    \<and> (\<exists>e. validateRef ''branch'' ''--receive-pack=x'' = Inl e)
    \<and> snd (Branch X e ''--receive-pack=x'' '''' g)
        = snd (gx_run X (pe_Dir e) (pe_RunEnv e) [''git'', ''push'', ''--porcelain'', pe_remote e, ''--receive-pack=x:--receive-pack=x''] g)"
proof -
  have "trim_space ''--receive-pack=x'' = ''--receive-pack=x''" by code_simp
  then have "sourceBranch S rec w = (Inr ''--receive-pack=x'', w\<lparr>w_be := be\<rparr>)"
    using assms by (simp add: sourceBranch_def agentHeadBranch_def exec_in_def Let_def)
  moreover have "\<exists>e. validateRef ''branch'' ''--receive-pack=x'' = Inl e" by (simp add: validateRef_def)
  moreover have "snd (Branch X e ''--receive-pack=x'' '''' g)
        = snd (gx_run X (pe_Dir e) (pe_RunEnv e) [''git'', ''push'', ''--porcelain'', pe_remote e, ''--receive-pack=x:--receive-pack=x''] g)"
    by (auto simp: Branch_def git_step_def Let_def split: prod.splits option.splits)
  ultimately show ?thesis by blast
qed

end
