(* ===== verification/Peer.thy ===== *)
theory Peer
  imports Auth
begin

text \<open>
  The TLS certificates of a node and the pinning of its peers (\<^verbatim>\<open>internal/tlsutil/tlsutil.go\<close>), and the pool of
  connections to peers with their per-call credentials (\<^verbatim>\<open>internal/peer/client.go\<close>, \<^verbatim>\<open>nodekey_creds.go\<close>).
  X.509, PEM and the gRPC client constructor are parameters; files are a map from paths to contents.
\<close>

section \<open>Certificates\<close>

text \<open>
  A public key as \<^verbatim>\<open>x509.ParseCertificate\<close> gives it: Ed25519, another kind that has an \<^verbatim>\<open>Equal\<close> method, or a kind
  that has none.
\<close>

datatype PublicKey = Ed25519Key string | EqualKey string | PlainKey string

record Certificate =
  ct_Certificate :: "string list"
  ct_PrivateKey :: string

record X509 =
  x_create_node :: "string \<Rightarrow> string \<Rightarrow> string res"
  x_parse :: "string \<Rightarrow> PublicKey res"
  x_gen_ec :: "string res"
  x_create_ec :: "string \<Rightarrow> string res"
  x_marshal_ec :: "string \<Rightarrow> string res"
  x_pem :: "string \<Rightarrow> string \<Rightarrow> string"
  x_key_pair :: "string \<Rightarrow> string \<Rightarrow> Certificate res"

definition GenerateForKey :: "Crypto \<Rightarrow> X509 \<Rightarrow> string \<Rightarrow> Certificate res" where
  "GenerateForKey C X priv =
     (case x_create_node X (cr_public C priv) priv of
        Inl e \<Rightarrow> Inl (Wrapf ''create node cert: %w'' [] e)
      | Inr der \<Rightarrow> Inr \<lparr>ct_Certificate = [der], ct_PrivateKey = priv\<rparr>)"

definition LeafPublicKey :: "X509 \<Rightarrow> Certificate \<Rightarrow> string res" where
  "LeafPublicKey X cert =
     (case ct_Certificate cert of
        [] \<Rightarrow> Inl (Errf ''tlsutil: empty certificate'' [])
      | der # _ \<Rightarrow>
          (case x_parse X der of
             Inl e \<Rightarrow> Inl (Wrapf ''tlsutil: parse leaf: %w'' [] e)
           | Inr (Ed25519Key pub) \<Rightarrow> Inr pub
           | Inr _ \<Rightarrow> Inl (Errf ''tlsutil: leaf is not Ed25519'' [])))"

definition PinnedVerify :: "X509 \<Rightarrow> PublicKey \<Rightarrow> string list \<Rightarrow> unit res" where
  "PinnedVerify X expected rawCerts =
     (case rawCerts of
        [] \<Rightarrow> Inl (Errf ''tlsutil: peer presented no certificate'' [])
      | der # _ \<Rightarrow>
          (case x_parse X der of
             Inl e \<Rightarrow> Inl (Wrapf ''tlsutil: parse peer leaf: %w'' [] e)
           | Inr (PlainKey _) \<Rightarrow> Inl (Errf ''tlsutil: peer certificate pin mismatch'' [])
           | Inr k \<Rightarrow> if k = expected then Inr () else Inl (Errf ''tlsutil: peer certificate pin mismatch'' [])))"

text \<open>
  Files: \<open>wr p\<close> is the failure of writing \<open>p\<close> with the number of bytes that reached it.  \<^verbatim>\<open>tls.LoadX509KeyPair\<close> reads
  the certificate before the key.
\<close>

definition LoadX509KeyPair :: "X509 \<Rightarrow> string \<Rightarrow> string \<Rightarrow> (string \<rightharpoonup> string) \<Rightarrow> Certificate res" where
  "LoadX509KeyPair X certFile keyFile fs =
     (case fs certFile of
        None \<Rightarrow> Inl (Errf ''open %s: no such file or directory'' [certFile])
      | Some c \<Rightarrow>
          (case fs keyFile of
             None \<Rightarrow> Inl (Errf ''open %s: no such file or directory'' [keyFile])
           | Some k \<Rightarrow> x_key_pair X c k))"

definition write_file ::
  "(string \<Rightarrow> (go_error \<times> nat) option) \<Rightarrow> string \<Rightarrow> string \<Rightarrow> (string \<rightharpoonup> string) \<Rightarrow> unit res \<times> (string \<rightharpoonup> string)" where
  "write_file wr p b fs = (case wr p of None \<Rightarrow> (Inr (), fs(p \<mapsto> b)) | Some (e, n) \<Rightarrow> (Inl e, fs(p \<mapsto> take n b)))"

definition LoadOrGenerate ::
  "X509 \<Rightarrow> go_error option \<Rightarrow> (string \<Rightarrow> (go_error \<times> nat) option) \<Rightarrow> string \<Rightarrow> string \<Rightarrow> string \<Rightarrow> (string \<rightharpoonup> string)
    \<Rightarrow> Certificate res \<times> (string \<rightharpoonup> string)" where
  "LoadOrGenerate X mkdir wr certFile keyFile dir fs =
     (if certFile \<noteq> '''' \<and> keyFile \<noteq> '''' then (LoadX509KeyPair X certFile keyFile fs, fs)
      else
        let certPath = path_Join [dir, ''tls.crt'']; keyPath = path_Join [dir, ''tls.key'']
        in if fs certPath \<noteq> None then (LoadX509KeyPair X certPath keyPath fs, fs)
           else case x_gen_ec X of
             Inl e \<Rightarrow> (Inl (Wrapf ''generate key: %w'' [] e), fs)
           | Inr key \<Rightarrow>
               (case x_create_ec X key of
                  Inl e \<Rightarrow> (Inl (Wrapf ''create cert: %w'' [] e), fs)
                | Inr der \<Rightarrow>
                    let certPEM = x_pem X ''CERTIFICATE'' der
                    in case x_marshal_ec X key of
                         Inl e \<Rightarrow> (Inl (Wrapf ''marshal key: %w'' [] e), fs)
                       | Inr keyDER \<Rightarrow>
                           let keyPEM = x_pem X ''EC PRIVATE KEY'' keyDER
                           in case mkdir of
                                Some e \<Rightarrow> (Inl e, fs)
                              | None \<Rightarrow>
                                  (case write_file wr certPath certPEM fs of
                                     (Inl e, fs) \<Rightarrow> (Inl e, fs)
                                   | (Inr _, fs) \<Rightarrow>
                                       (case write_file wr keyPath keyPEM fs of
                                          (Inl e, fs) \<Rightarrow> (Inl e, fs)
                                        | (Inr _, fs) \<Rightarrow> (x_key_pair X certPEM keyPEM, fs)))))"

text \<open>The node's certificate as \<^verbatim>\<open>node.New\<close> chooses it: the operator's files, or the node key's own.\<close>

definition node_cert :: "Crypto \<Rightarrow> X509 \<Rightarrow> string \<Rightarrow> string \<Rightarrow> string \<Rightarrow> (string \<rightharpoonup> string) \<Rightarrow> Certificate res" where
  "node_cert C X certFile keyFile priv fs =
     (case (if certFile \<noteq> '''' \<and> keyFile \<noteq> '''' then LoadX509KeyPair X certFile keyFile fs else GenerateForKey C X priv) of
        Inl e \<Rightarrow> Inl (Wrapf ''tls: %w'' [] e)
      | Inr c \<Rightarrow> Inr c)"

text \<open>What the code relies on: parsing a certificate gives back the Ed25519 key it was created for.\<close>

definition x509_law :: "X509 \<Rightarrow> bool" where
  "x509_law X \<longleftrightarrow> (\<forall>pub priv der. x_create_node X pub priv = Inr der \<longrightarrow> x_parse X der = Inr (Ed25519Key pub))"

section \<open>Connections\<close>

record nodeKeyCreds =
  nk_callerID :: string
  nk_priv :: string
  nk_targetID :: string

definition GetRequestMetadata :: "Crypto \<Rightarrow> gotime \<Rightarrow> nodeKeyCreds \<Rightarrow> MD" where
  "GetRequestMetadata C t c = [(MetadataKey, [nodekey_Sign C (nk_priv c) (nk_callerID c) (nk_targetID c) t])]"

definition RequireTransportSecurity :: "nodeKeyCreds \<Rightarrow> bool" where
  "RequireTransportSecurity c = True"

text \<open>
  A client connection, by the options it is dialled with: the target, whether a custom dialer is set, the
  transport credentials (a pin, or the pool's static ones, or none), and the per-call credentials.
\<close>

datatype Transport = PinnedTLS PublicKey | StaticCreds | NoCreds

record ClientConn =
  cc_target :: string
  cc_dialer :: bool
  cc_transport :: Transport
  cc_creds :: "nodeKeyCreds option"

record Pool =
  po_conns :: "(string, ClientConn) gomap"
  po_dialer :: bool
  po_creds :: bool
  po_callerID :: string
  po_priv :: "string option"

definition NewPool :: "(Pool \<Rightarrow> Pool) list \<Rightarrow> Pool" where
  "NewPool opts = foldl (\<lambda>p f. f p) \<lparr>po_conns = [], po_dialer = False, po_creds = False, po_callerID = '''', po_priv = None\<rparr> opts"

definition WithContextDialer :: "Pool \<Rightarrow> Pool" where
  "WithContextDialer p = p\<lparr>po_dialer := True\<rparr>"

definition WithCreds :: "Pool \<Rightarrow> Pool" where
  "WithCreds p = p\<lparr>po_creds := True\<rparr>"

definition WithNodeKey :: "string \<Rightarrow> string \<Rightarrow> Pool \<Rightarrow> Pool" where
  "WithNodeKey callerID priv p = p\<lparr>po_callerID := callerID, po_priv := Some priv\<rparr>"

text \<open>
  \<open>pins\<close> is what the pin resolver answers at the time of the call, \<open>None\<close> when no resolver is set.
  \<open>newClient\<close> is \<^verbatim>\<open>grpc.NewClient\<close>, which checks the options and does not connect yet.
\<close>

definition Pool_dial ::
  "(string \<Rightarrow> string option) option \<Rightarrow> Pool \<Rightarrow> string \<Rightarrow> string \<Rightarrow> ClientConn res" where
  "Pool_dial pins p addr targetNodeID =
     (let target = (if po_dialer p then ''passthrough:///'' @ addr else addr);
          base = \<lparr>cc_target = target, cc_dialer = po_dialer p, cc_transport = NoCreds, cc_creds = None\<rparr>
      in case (pins, po_priv p) of
           (Some resolver, Some priv) \<Rightarrow>
             (case resolver targetNodeID of
                None \<Rightarrow> Inl (Errf ''peer: no pin known for node %s (fail-closed)'' [targetNodeID])
              | Some pin \<Rightarrow>
                  Inr (base\<lparr>cc_transport := PinnedTLS (Ed25519Key pin),
                    cc_creds := Some \<lparr>nk_callerID = po_callerID p, nk_priv = priv, nk_targetID = targetNodeID\<rparr>\<rparr>))
         | _ \<Rightarrow> Inr (if po_creds p then base\<lparr>cc_transport := StaticCreds\<rparr> else base))"

definition Pool_Conn ::
  "(ClientConn \<Rightarrow> unit res) \<Rightarrow> (string \<Rightarrow> string option) option \<Rightarrow> string \<Rightarrow> string \<Rightarrow> Pool \<Rightarrow> ClientConn res \<times> Pool" where
  "Pool_Conn newClient pins addr targetNodeID p =
     (case map_of (po_conns p) addr of
        Some c \<Rightarrow> (Inr c, p)
      | None \<Rightarrow>
          (case Pool_dial pins p addr targetNodeID of
             Inl e \<Rightarrow> (Inl e, p)
           | Inr c \<Rightarrow>
               (case newClient c of
                  Inl e \<Rightarrow> (Inl e, p)
                | Inr _ \<Rightarrow> (Inr c, p\<lparr>po_conns := AList.update addr c (po_conns p)\<rparr>))))"

definition Pool_Close :: "Pool \<Rightarrow> ClientConn list \<times> Pool" where
  "Pool_Close p = (map snd (po_conns p), p\<lparr>po_conns := []\<rparr>)"

section \<open>Lemmas\<close>

lemma PinnedVerify_iff:
  "PinnedVerify X (Ed25519Key pub) raw = Inr () \<longleftrightarrow> (\<exists>der rest. raw = der # rest \<and> x_parse X der = Inr (Ed25519Key pub))"
  by (auto simp: PinnedVerify_def split: list.splits sum.splits PublicKey.splits)

lemma GenerateForKey_pinned:
  assumes "x509_law X" "GenerateForKey C X priv = Inr cert"
  shows "PinnedVerify X (Ed25519Key pub) (ct_Certificate cert) = Inr () \<longleftrightarrow> pub = cr_public C priv"
    and "LeafPublicKey X cert = Inr (cr_public C priv)"
  using assms by (auto simp: GenerateForKey_def x509_law_def PinnedVerify_iff LeafPublicKey_def split: sum.splits)

text \<open>A node that passes validation as a member of a cluster serves the certificate of its own key.\<close>

lemma clustered_node_cert:
  assumes "Config_Validate cfg = Inr ()" "cf_ClusterSecret cfg \<noteq> ''''"
    and "node_cert C X (cf_TLSCertFile cfg) (cf_TLSKeyFile cfg) priv fs = Inr cert"
  shows "GenerateForKey C X priv = Inr cert"
proof -
  have "cf_TLSCertFile cfg = ''''"
    using assms(1,2) unfolding Config_Validate_def by (simp split: if_splits sum.splits)
  with assms(3) show ?thesis by (simp add: node_cert_def split: sum.splits)
qed

lemma node_token_authenticates:
  assumes "ed25519_laws C" "au_PubKeyFor d = Some pk" "pk caller = Some (cr_public C seed)"
    and "caller = DeriveNodeID C (cr_public C seed)" "CHR ''.'' \<notin> set (au_LocalNodeID d)"
    and "min_int64 \<le> unix t" "unix t \<le> max_int64" "\<bar>time_sub t' (unix t * second)\<bar> \<le> au_Skew d"
    and "\<forall>deny. au_Denied d = Some deny \<longrightarrow> \<not> deny caller"
  shows "authenticate C d t' (GetRequestMetadata C t \<lparr>nk_callerID = caller, nk_priv = seed, nk_targetID = au_LocalNodeID d\<rparr>)
    = Inr \<lparr>pr_userRole = '''', pr_node = True\<rparr>"
proof -
  have "nodekey_Verify C (nodekey_Sign C seed caller (au_LocalNodeID d) t) (au_LocalNodeID d) pk t' (au_Skew d) (au_Denied d) = Inr caller"
    using nodekey_Verify_Sign[where pubkeyFor = pk, OF assms(1,3,4,5,6,7)] assms(8,9) by simp
  moreover have "nodekey_Sign C seed caller (au_LocalNodeID d) t \<noteq> ''''" by (simp add: nodekey_Sign_def)
  ultimately show ?thesis
    using assms(2)
    by (simp add: authenticate_def authz_role_def key_role_def node_caller_def first_md_def GetRequestMetadata_def MetadataKey_def Let_def)
qed

section \<open>The channel between two nodes\<close>

text \<open>
  C11: The channel to a peer is mutually authenticated.  For a peer whose configuration passed validation
  in a cluster, a new connection is pinned to the peer's gossiped key: the handshake accepts the
  certificate the peer serves, and no certificate of any other key; and each call carries a token that
  the peer accepts as this node's, as long as it is fresh and this node is not revoked.
\<close>

theorem peer_channel_authentic:
  assumes "ed25519_laws C" and "x509_law X"
    and "Config_Validate cfg = Inr ()" and "cf_ClusterSecret cfg \<noteq> ''''"
    and "node_cert C X (cf_TLSCertFile cfg) (cf_TLSKeyFile cfg) peerKey fs = Inr cert"
    and "pins (au_LocalNodeID d) = Some (cr_public C peerKey)"
    and "p = NewPool [WithNodeKey self key]" and "self = DeriveNodeID C (cr_public C key)"
    and "Pool_Conn newClient (Some pins) addr (au_LocalNodeID d) p = (Inr c, p')"
    and "au_PubKeyFor d = Some pk" and "pk self = Some (cr_public C key)" and "CHR ''.'' \<notin> set (au_LocalNodeID d)"
    and "min_int64 \<le> unix t" and "unix t \<le> max_int64" and "\<bar>time_sub t' (unix t * second)\<bar> \<le> au_Skew d"
    and "\<forall>deny. au_Denied d = Some deny \<longrightarrow> \<not> deny self"
  shows "\<exists>pin cr. cc_transport c = PinnedTLS pin \<and> cc_creds c = Some cr
    \<and> PinnedVerify X pin (ct_Certificate cert) = Inr ()
    \<and> (\<forall>der rest. PinnedVerify X pin (der # rest) = Inr () \<longleftrightarrow> x_parse X der = Inr (Ed25519Key (cr_public C peerKey)))
    \<and> authenticate C d t' (GetRequestMetadata C t cr) = Inr \<lparr>pr_userRole = '''', pr_node = True\<rparr>"
proof -
  let ?cr = "\<lparr>nk_callerID = self, nk_priv = key, nk_targetID = au_LocalNodeID d\<rparr>"
  have c: "cc_transport c = PinnedTLS (Ed25519Key (cr_public C peerKey))" "cc_creds c = Some ?cr"
    using assms(6,7,9) by (auto simp: Pool_Conn_def Pool_dial_def NewPool_def WithNodeKey_def Let_def split: sum.splits)
  have "GenerateForKey C X peerKey = Inr cert" by (rule clustered_node_cert[OF assms(3,4,5)])
  then have "PinnedVerify X (Ed25519Key (cr_public C peerKey)) (ct_Certificate cert) = Inr ()"
    by (simp add: GenerateForKey_pinned[OF assms(2)])
  with c node_token_authenticates[OF assms(1,10,11,8,12-16)] show ?thesis by (auto simp: PinnedVerify_iff)
qed

definition example_x509 :: X509 where
  "example_x509 =
     \<lparr>x_create_node = (\<lambda>pub priv. Inr pub), x_parse = (\<lambda>der. Inr (Ed25519Key der)), x_gen_ec = Inr ''ec'',
      x_create_ec = (\<lambda>k. Inr (''cert:'' @ k)), x_marshal_ec = (\<lambda>k. Inr (''key:'' @ k)), x_pem = (\<lambda>ty b. b),
      x_key_pair = (\<lambda>c k. Inr \<lparr>ct_Certificate = [c], ct_PrivateKey = k\<rparr>)\<rparr>"

lemma example_x509_law: "x509_law example_x509"
  by (simp add: x509_law_def example_x509_def)

theorem peer_channel_authentic_witness:
  "\<exists>c p' pin cr. Pool_Conn (\<lambda>_. Inr ()) (Some (\<lambda>_. Some (cr_public example_crypto ''b''))) ''10.0.0.2:8443'' ''me''
       (NewPool [WithNodeKey (DeriveNodeID example_crypto (cr_public example_crypto ''a'')) ''a'']) = (Inr c, p')
     \<and> cc_transport c = PinnedTLS pin \<and> cc_creds c = Some cr
     \<and> PinnedVerify example_x509 pin [cr_public example_crypto ''b''] = Inr ()
     \<and> authenticate example_crypto (example_deps_auth\<lparr>au_PubKeyFor := Some (\<lambda>_. Some (cr_public example_crypto ''a''))\<rparr>) second
         (GetRequestMetadata example_crypto 0 cr) = Inr \<lparr>pr_userRole = '''', pr_node = True\<rparr>"
proof -
  let ?self = "DeriveNodeID example_crypto (cr_public example_crypto ''a'')"
  let ?d = "example_deps_auth\<lparr>au_PubKeyFor := Some (\<lambda>_. Some (cr_public example_crypto ''a''))\<rparr>"
  let ?cfg = "(Config_Default ''h'')\<lparr>cf_ClusterSecret := ''s''\<rparr>"
  have d: "au_LocalNodeID ?d = ''me''" "au_Skew ?d = 30 * second" "au_Denied ?d = None"
    by (simp_all add: example_deps_auth_def newAuthenticator_def)
  have cfg: "Config_Validate ?cfg = Inr ()" "cf_ClusterSecret ?cfg \<noteq> ''''" by code_simp+
  have cert: "node_cert example_crypto example_x509 (cf_TLSCertFile ?cfg) (cf_TLSKeyFile ?cfg) ''b'' (\<lambda>_. None)
      = Inr \<lparr>ct_Certificate = [cr_public example_crypto ''b''], ct_PrivateKey = ''b''\<rparr>"
    by (simp add: node_cert_def GenerateForKey_def example_x509_def Config_Default_def)
  have u: "unix 0 = 0" by (simp add: unix_def)
  have r: "min_int64 \<le> unix 0" "unix 0 \<le> max_int64" "\<bar>time_sub second (unix 0 * second)\<bar> \<le> au_Skew ?d"
    by (simp_all add: u d(2) time_sub_def second_def min_int64_def max_int64_def)
  obtain c p' where cp: "Pool_Conn (\<lambda>_. Inr ()) (Some (\<lambda>_. Some (cr_public example_crypto ''b''))) ''10.0.0.2:8443'' (au_LocalNodeID ?d)
       (NewPool [WithNodeKey ?self ''a'']) = (Inr c, p')"
    by (simp add: Pool_Conn_def Pool_dial_def NewPool_def WithNodeKey_def Let_def)
  from peer_channel_authentic[where pins = "\<lambda>_. Some (cr_public example_crypto ''b'')" and pk = "\<lambda>_. Some (cr_public example_crypto ''a'')",
      OF example_crypto_laws example_x509_law cfg cert _ refl refl cp _ _ _ r] d
  obtain pin cr where "cc_transport c = PinnedTLS pin" "cc_creds c = Some cr"
     "PinnedVerify example_x509 pin [cr_public example_crypto ''b''] = Inr ()"
     "authenticate example_crypto ?d second (GetRequestMetadata example_crypto 0 cr) = Inr \<lparr>pr_userRole = '''', pr_node = True\<rparr>"
    by auto
  with cp d(1) show ?thesis by auto
qed

section \<open>The pool over time\<close>

text \<open>What happens to a pool: connections are asked for, with what the resolver knows then, or all are closed.\<close>

datatype pool_op = AskConn "string \<Rightarrow> string option" string string | CloseAll

fun pool_step :: "(ClientConn \<Rightarrow> unit res) \<Rightarrow> pool_op \<Rightarrow> Pool \<Rightarrow> Pool" where
  "pool_step newClient (AskConn pins addr n) p = snd (Pool_Conn newClient (Some pins) addr n p)"
| "pool_step newClient CloseAll p = snd (Pool_Close p)"

definition pool_pinned :: "pool_op list \<Rightarrow> string \<Rightarrow> string \<Rightarrow> Pool \<Rightarrow> bool" where
  "pool_pinned ops self key p \<longleftrightarrow> po_callerID p = self \<and> po_priv p = Some key \<and>
     (\<forall>addr c. map_of (po_conns p) addr = Some c \<longrightarrow> (\<exists>pins n pin. AskConn pins addr n \<in> set ops \<and> pins n = Some pin
        \<and> cc_transport c = PinnedTLS (Ed25519Key pin) \<and> cc_creds c = Some \<lparr>nk_callerID = self, nk_priv = key, nk_targetID = n\<rparr>))"

definition pool_after :: "(ClientConn \<Rightarrow> unit res) \<Rightarrow> string \<Rightarrow> string \<Rightarrow> pool_op list \<Rightarrow> Pool" where
  "pool_after newClient self key ops = foldl (\<lambda>p x. pool_step newClient x p) (NewPool [WithNodeKey self key]) ops"

lemma Pool_Conn_cases:
  assumes "Pool_Conn newClient (Some pins) addr n p = (r, p')" "po_priv p = Some key"
  shows "p' = p \<or> (\<exists>pin c. pins n = Some pin \<and> r = Inr c \<and> p' = p\<lparr>po_conns := AList.update addr c (po_conns p)\<rparr>
      \<and> cc_transport c = PinnedTLS (Ed25519Key pin)
      \<and> cc_creds c = Some \<lparr>nk_callerID = po_callerID p, nk_priv = key, nk_targetID = n\<rparr>)"
  using assms by (auto simp: Pool_Conn_def Pool_dial_def Let_def split: option.splits sum.splits)

lemma pool_pinned_step:
  assumes "pool_pinned ops self key p"
  shows "pool_pinned (ops @ [x]) self key (pool_step newClient x p)"
proof (cases x)
  case CloseAll
  then show ?thesis using assms by (simp add: pool_pinned_def Pool_Close_def)
next
  case (AskConn pins addr n)
  obtain r p' where e: "Pool_Conn newClient (Some pins) addr n p = (r, p')" by fastforce
  have old: "pool_pinned (ops @ [x]) self key p" using assms unfolding pool_pinned_def by fastforce
  from Pool_Conn_cases[OF e] assms consider "p' = p"
    | pin c where "pins n = Some pin" "p' = p\<lparr>po_conns := AList.update addr c (po_conns p)\<rparr>"
        "cc_transport c = PinnedTLS (Ed25519Key pin)" "cc_creds c = Some \<lparr>nk_callerID = self, nk_priv = key, nk_targetID = n\<rparr>"
    by (auto simp: pool_pinned_def)
  then show ?thesis
  proof cases
    case 1
    then show ?thesis using old e AskConn by simp
  next
    case 2
    then show ?thesis using assms e AskConn unfolding pool_pinned_def by (auto simp: update_conv')
  qed
qed

lemma pool_after_pinned: "pool_pinned ops self key (pool_after newClient self key ops)"
proof (induction ops rule: rev_induct)
  case Nil
  then show ?case by (simp add: pool_after_def pool_pinned_def NewPool_def WithNodeKey_def)
next
  case (snoc x xs)
  then show ?case using pool_pinned_step[of xs self key _ x newClient] by (simp add: pool_after_def)
qed



text \<open>
  Connections are looked up by address alone.  When a node takes over the address of another, it gets
  the connection of the other: pinned to the other's key, so that the handshake refuses the node that is
  there, and with tokens for the other as audience.
\<close>

theorem pool_keeps_first_node_of_address:
  assumes "po_priv p = Some key" and "map_of (po_conns p) addr = None"
    and "Pool_Conn newClient (Some pins) addr n p = (Inr c, p')"
    and "pins n = Some pin" and "x_parse X der = Inr (Ed25519Key pin')" and "pin' \<noteq> pin"
  shows "Pool_Conn newClient (Some pins') addr m p' = (Inr c, p')
    \<and> cc_creds c = Some \<lparr>nk_callerID = po_callerID p, nk_priv = key, nk_targetID = n\<rparr>
    \<and> (\<exists>k. cc_transport c = PinnedTLS k \<and> PinnedVerify X k (der # chain) \<noteq> Inr ())"
proof -
  have d: "Pool_dial (Some pins) p addr n = Inr c" and p': "p' = p\<lparr>po_conns := AList.update addr c (po_conns p)\<rparr>"
    using assms(2,3) by (simp_all add: Pool_Conn_def split: sum.splits)
  have "map_of (po_conns p') addr = Some c" by (simp add: p' update_conv')
  moreover have "cc_transport c = PinnedTLS (Ed25519Key pin)"
    "cc_creds c = Some \<lparr>nk_callerID = po_callerID p, nk_priv = key, nk_targetID = n\<rparr>"
    using d assms(1,4) by (auto simp: Pool_dial_def Let_def)
  ultimately show ?thesis using assms(5,6) by (simp add: Pool_Conn_def PinnedVerify_iff)
qed

theorem pool_keeps_first_node_of_address_witness:
  "\<exists>c p'. Pool_Conn (\<lambda>_. Inr ()) (Some (\<lambda>_. Some ''k1'')) ''a'' ''n1'' (NewPool [WithNodeKey ''me'' ''k'']) = (Inr c, p')
    \<and> Pool_Conn (\<lambda>_. Inr ()) (Some (\<lambda>_. Some ''k2'')) ''a'' ''n2'' p' = (Inr c, p')"
proof -
  obtain c p' where e: "Pool_Conn (\<lambda>_. Inr ()) (Some (\<lambda>_. Some ''k1'')) ''a'' ''n1'' (NewPool [WithNodeKey ''me'' ''k'']) = (Inr c, p')"
    by (simp add: Pool_Conn_def Pool_dial_def NewPool_def WithNodeKey_def Let_def)
  have p: "po_priv (NewPool [WithNodeKey ''me'' ''k'']) = Some ''k''" "map_of (po_conns (NewPool [WithNodeKey ''me'' ''k''])) ''a'' = None"
    by (simp_all add: NewPool_def WithNodeKey_def)
  from pool_keeps_first_node_of_address[where pin' = "''k2''" and X = example_x509 and der = "''k2''" and pins' = "\<lambda>_. Some ''k2''" and m = "''n2''",
      OF p e] e
  show ?thesis by (auto simp: example_x509_def)
qed

section \<open>The console's certificate\<close>

text \<open>
  The generated certificate is kept: after a successful generation, later starts find and load it and
  leave the files alone.
\<close>

theorem LoadOrGenerate_stable:
  assumes "LoadOrGenerate X mkdir wr certFile keyFile dir fs = (Inr cert, fs')"
    and "path_Join [dir, ''tls.crt''] \<noteq> path_Join [dir, ''tls.key'']"
  shows "LoadOrGenerate X mkdir' wr' certFile keyFile dir fs' = (Inr cert, fs')
    \<and> (\<forall>p. p \<noteq> path_Join [dir, ''tls.crt''] \<and> p \<noteq> path_Join [dir, ''tls.key''] \<longrightarrow> fs' p = fs p)"
proof (cases "certFile \<noteq> '''' \<and> keyFile \<noteq> ''''")
  case True
  with assms(1) show ?thesis by (auto simp: LoadOrGenerate_def)
next
  case explicit: False
  let ?c = "path_Join [dir, ''tls.crt'']" and ?k = "path_Join [dir, ''tls.key'']"
  have load: "LoadOrGenerate X mk wr certFile keyFile dir fs = (LoadX509KeyPair X ?c ?k fs, fs)" if "fs ?c \<noteq> None" for mk wr fs
    using explicit that by (simp only: LoadOrGenerate_def Let_def if_False) simp
  show ?thesis
  proof (cases "fs ?c")
    case (Some x)
    then show ?thesis using assms(1) load[of fs] by auto
  next
    case None
    obtain key der kder where k: "x_gen_ec X = Inr key" "x_create_ec X key = Inr der" "x_marshal_ec X key = Inr kder" "mkdir = None"
      using assms(1) explicit None by (auto simp: LoadOrGenerate_def Let_def split: sum.splits option.splits)
    let ?cp = "x_pem X ''CERTIFICATE'' der" and ?kp = "x_pem X ''EC PRIVATE KEY'' kder"
    have g: "LoadOrGenerate X mkdir wr certFile keyFile dir fs =
        (case write_file wr ?c ?cp fs of (Inl e, fs) \<Rightarrow> (Inl e, fs)
         | (Inr _, fs) \<Rightarrow> (case write_file wr ?k ?kp fs of (Inl e, fs) \<Rightarrow> (Inl e, fs) | (Inr _, fs) \<Rightarrow> (x_key_pair X ?cp ?kp, fs)))"
      unfolding LoadOrGenerate_def if_not_P[OF explicit] Let_def using None k by simp
    have w: "wr ?c = None" "wr ?k = None" using assms(1) unfolding g by (auto simp: write_file_def split: option.splits prod.splits)
    then have r: "x_key_pair X ?cp ?kp = Inr cert" "fs' = fs(?c \<mapsto> ?cp, ?k \<mapsto> ?kp)" using assms(1) unfolding g by (simp_all add: write_file_def)
    then have "fs' ?c = Some ?cp" "fs' ?k = Some ?kp" using assms(2) by simp_all
    with load[of fs'] r show ?thesis by (simp add: LoadX509KeyPair_def)
  qed
qed

theorem LoadOrGenerate_stable_witness:
  "fst (LoadOrGenerate example_x509 None (\<lambda>_. None) '''' '''' ''d''
      (snd (LoadOrGenerate example_x509 None (\<lambda>_. None) '''' '''' ''d'' (\<lambda>_. None))))
   = fst (LoadOrGenerate example_x509 None (\<lambda>_. None) '''' '''' ''d'' (\<lambda>_. None))"
proof -
  have d: "path_Join [''d'', ''tls.crt''] \<noteq> path_Join [''d'', ''tls.key'']" by code_simp
  obtain cert fs' where e: "LoadOrGenerate example_x509 None (\<lambda>_. None) '''' '''' ''d'' (\<lambda>_. None) = (Inr cert, fs')"
    by (simp add: LoadOrGenerate_def write_file_def example_x509_def Let_def)
  from LoadOrGenerate_stable[OF e d, of None "\<lambda>_. None"] e show ?thesis by simp
qed

text \<open>
  A start that fails between the two writes cannot be repeated: the certificate is there without its
  key, and every later start fails to load the pair instead of generating it again.
\<close>

theorem LoadOrGenerate_half_written:
  assumes "fs (path_Join [dir, ''tls.crt'']) = None" and "fs (path_Join [dir, ''tls.key'']) = None"
    and "path_Join [dir, ''tls.crt''] \<noteq> path_Join [dir, ''tls.key'']"
    and "x_gen_ec X = Inr key" and "x_create_ec X key = Inr der" and "x_marshal_ec X key = Inr kder"
    and "wr (path_Join [dir, ''tls.crt'']) = Some (e, n)"
  shows "\<exists>fs'. LoadOrGenerate X None wr '''' '''' dir fs = (Inl e, fs')
    \<and> LoadOrGenerate X mkdir' wr' '''' '''' dir fs' = (Inl (Errf ''open %s: no such file or directory'' [path_Join [dir, ''tls.key'']]), fs')"
  using assms by (auto simp: LoadOrGenerate_def LoadX509KeyPair_def write_file_def Let_def)

theorem LoadOrGenerate_half_written_witness:
  "\<exists>fs'. LoadOrGenerate example_x509 None (\<lambda>_. Some (ErrNotFound, 3)) '''' '''' ''d'' (\<lambda>_. None) = (Inl ErrNotFound, fs')
    \<and> fst (LoadOrGenerate example_x509 None (\<lambda>_. None) '''' '''' ''d'' fs')
      = Inl (Errf ''open %s: no such file or directory'' [path_Join [''d'', ''tls.key'']])"
proof -
  have d: "path_Join [''d'', ''tls.crt''] \<noteq> path_Join [''d'', ''tls.key'']" by code_simp
  show ?thesis
    using LoadOrGenerate_half_written[where X = example_x509 and fs = "\<lambda>_. None" and dir = "''d''" and wr = "\<lambda>_. Some (ErrNotFound, 3)"
        and e = ErrNotFound and n = 3 and key = "''ec''" and der = "''cert:ec''" and kder = "''key:ec''" and mkdir' = None
        and wr' = "\<lambda>_. None", OF _ _ d]
    by (auto simp: example_x509_def)
qed

end
