(* ===== verification/Forward.thy ===== *)
theory Forward
  imports Peer
begin

text \<open>
  Forwarding a request to the node that owns the sandbox it names: the gRPC interceptor
  (\<^verbatim>\<open>internal/apiserver/forward.go\<close>) and the reverse proxy of the REST side (\<^verbatim>\<open>forward_http.go\<close>).  A request message
  is given by the getters it has; the pool's \<^verbatim>\<open>Conn\<close> and the connection's \<^verbatim>\<open>Invoke\<close> are functions on the state.
  \<open>serve\<close> composes the servers of a swarm from their interceptors, so that what a forwarded call does at the
  other node is part of the model.
\<close>

section \<open>The gRPC interceptor\<close>

text \<open>\<open>rr_GetId\<close> and \<open>rr_GetNodeId\<close> are \<open>None\<close> for a message that has no such getter.\<close>

record 'm RPCRequest =
  rr_GetId :: "string option"
  rr_GetNodeId :: "string option"
  rr_msg :: 'm

definition isNodeControlMethod :: "string \<Rightarrow> bool" where
  "isNodeControlMethod m \<longleftrightarrow>
     m = ''/sbxswarm.v1.NodeService/Cordon'' \<or> m = ''/sbxswarm.v1.NodeService/Uncordon'' \<or>
     m = ''/sbxswarm.v1.NodeService/Drain'' \<or> m = ''/sbxswarm.v1.NodeService/RemoveTemplate''"

definition routableNode :: "'m RPCRequest \<Rightarrow> string option" where
  "routableNode q = (case rr_GetNodeId q of None \<Rightarrow> None | Some i \<Rightarrow> if i = '''' then None else Some i)"

definition routableID :: "'m RPCRequest \<Rightarrow> string option" where
  "routableID q = (case rr_GetId q of None \<Rightarrow> None | Some i \<Rightarrow> if CHR ''.'' \<in> set i then Some i else None)"

text \<open>The reply message a method decodes into; \<open>None\<close> when the method is not forwarded.\<close>

datatype Reply =
  RSandbox | ROperation | RExecResponse | RPort | REmpty | RListPortsResponse | RStats | RListBlockedResponse
  | RListBranchesResponse | RNodeInfo | RListTemplatesResponse

definition newReplyFor :: "string \<Rightarrow> Reply option" where
  "newReplyFor fullMethod = map_of
     [(''/sbxswarm.v1.SandboxService/GetSandbox'', RSandbox),
      (''/sbxswarm.v1.SandboxService/DeleteSandbox'', ROperation),
      (''/sbxswarm.v1.SandboxService/StartSandbox'', RSandbox),
      (''/sbxswarm.v1.SandboxService/StopSandbox'', RSandbox),
      (''/sbxswarm.v1.SandboxService/Exec'', RExecResponse),
      (''/sbxswarm.v1.SandboxService/AgentRun'', ROperation),
      (''/sbxswarm.v1.SandboxService/PublishPort'', RPort),
      (''/sbxswarm.v1.SandboxService/UnpublishPort'', REmpty),
      (''/sbxswarm.v1.SandboxService/SaveTemplate'', REmpty),
      (''/sbxswarm.v1.SandboxService/ListPorts'', RListPortsResponse),
      (''/sbxswarm.v1.SandboxService/GetStats'', RStats),
      (''/sbxswarm.v1.SandboxService/ListBlocked'', RListBlockedResponse),
      (''/sbxswarm.v1.SandboxService/PublishSandbox'', ROperation),
      (''/sbxswarm.v1.SandboxService/ListBranches'', RListBranchesResponse),
      (''/sbxswarm.v1.SandboxService/KeepAlive'', RSandbox),
      (''/sbxswarm.v1.NodeService/Cordon'', RNodeInfo),
      (''/sbxswarm.v1.NodeService/Uncordon'', RNodeInfo),
      (''/sbxswarm.v1.NodeService/Drain'', RNodeInfo),
      (''/sbxswarm.v1.NodeService/RemoveTemplate'', RListTemplatesResponse)] fullMethod"

text \<open>
  Relaying to a node at an address, the common tail of both branches: connect, look up the reply type (without
  one the local handler answers after all), and invoke with the caller's metadata.
\<close>

definition relay ::
  "(string \<Rightarrow> string \<Rightarrow> 's \<Rightarrow> ClientConn res \<times> 's) \<Rightarrow> (ClientConn \<Rightarrow> MD \<Rightarrow> string \<Rightarrow> 'm RPCRequest \<Rightarrow> 's \<Rightarrow> 'r res \<times> 's)
    \<Rightarrow> MD option \<Rightarrow> string \<Rightarrow> 'm RPCRequest \<Rightarrow> ('s \<Rightarrow> 'r res \<times> 's) \<Rightarrow> string \<Rightarrow> string \<Rightarrow> 's \<Rightarrow> 'r res \<times> 's" where
  "relay conn invoke md m q handler addr node s =
     (case conn addr node s of
        (Inl e, s) \<Rightarrow> (Inl e, s)
      | (Inr c, s) \<Rightarrow>
          (case newReplyFor m of
             None \<Rightarrow> handler s
           | Some _ \<Rightarrow> invoke c (case md of None \<Rightarrow> [] | Some md \<Rightarrow> md) m q s))"

definition forward_by_id ::
  "(string \<Rightarrow> string \<Rightarrow> 's \<Rightarrow> ClientConn res \<times> 's) \<Rightarrow> (ClientConn \<Rightarrow> MD \<Rightarrow> string \<Rightarrow> 'm RPCRequest \<Rightarrow> 's \<Rightarrow> 'r res \<times> 's)
    \<Rightarrow> Table \<Rightarrow> MD option \<Rightarrow> string \<Rightarrow> 'm RPCRequest \<Rightarrow> ('s \<Rightarrow> 'r res \<times> 's) \<Rightarrow> 's \<Rightarrow> 'r res \<times> 's" where
  "forward_by_id conn invoke tbl md m q handler s =
     (case routableID q of
        None \<Rightarrow> handler s
      | Some i \<Rightarrow>
          if Table_IsLocal tbl i then handler s
          else (case Table_Owner i of
                  None \<Rightarrow> handler s
                | Some owner \<Rightarrow>
                    (case Table_Addr tbl owner of
                       None \<Rightarrow> handler s
                     | Some addr \<Rightarrow> relay conn invoke md m q handler addr owner s)))"

definition Forwarder_UnaryInterceptor ::
  "(string \<Rightarrow> string \<Rightarrow> 's \<Rightarrow> ClientConn res \<times> 's) \<Rightarrow> (ClientConn \<Rightarrow> MD \<Rightarrow> string \<Rightarrow> 'm RPCRequest \<Rightarrow> 's \<Rightarrow> 'r res \<times> 's)
    \<Rightarrow> Table \<Rightarrow> string \<Rightarrow> MD option \<Rightarrow> string \<Rightarrow> 'm RPCRequest \<Rightarrow> ('s \<Rightarrow> 'r res \<times> 's) \<Rightarrow> 's \<Rightarrow> 'r res \<times> 's" where
  "Forwarder_UnaryInterceptor conn invoke tbl self md m q handler s =
     (case (if isNodeControlMethod m then routableNode q else None) of
        Some nodeID \<Rightarrow>
          if nodeID \<noteq> self then
            (case Table_Addr tbl nodeID of
               None \<Rightarrow> (Inl (Status NotFound ''node %q not found'' [nodeID] None), s)
             | Some addr \<Rightarrow> relay conn invoke md m q handler addr nodeID s)
          else forward_by_id conn invoke tbl md m q handler s
      | None \<Rightarrow> forward_by_id conn invoke tbl md m q handler s)"

section \<open>The servers of a swarm\<close>

text \<open>
  A node's server: what its interceptors are built with (\<^verbatim>\<open>apiserver.Build\<close> in \<^verbatim>\<open>server.go\<close>), the certificate it
  serves, and its registered handlers, which act on the state \<open>'g\<close> of the whole swarm.
\<close>

record ('m, 'g, 'r) NodeServer =
  sv_deps :: authnDeps
  sv_cert :: Certificate
  sv_table :: Table
  sv_handler :: "string \<Rightarrow> 'm RPCRequest \<Rightarrow> principal \<Rightarrow> 'g \<Rightarrow> 'r res \<times> 'g"

text \<open>\<open>nw_at\<close> is the node that listens on an address; \<open>nw_now\<close> is the time.\<close>

record ('m, 'g, 'r) Network =
  nw_crypto :: Crypto
  nw_x509 :: X509
  nw_at :: "string \<Rightarrow> string option"
  nw_node :: "string \<Rightarrow> ('m, 'g, 'r) NodeServer option"
  nw_now :: gotime

definition node_Conn ::
  "Table \<Rightarrow> string \<Rightarrow> string \<Rightarrow> string \<Rightarrow> (string \<Rightarrow> Pool) \<times> 'g \<Rightarrow> ClientConn res \<times> (string \<Rightarrow> Pool) \<times> 'g" where
  "node_Conn tbl self addr node = (\<lambda>(pools, g).
     let (r, p) = Pool_Conn (\<lambda>_. Inr ()) (Some (Table_PubKey tbl)) addr node (pools self) in (r, pools(self := p), g))"

text \<open>
  A call over a connection: the listener at the target must present a certificate that the pin accepts; the
  per-call token goes first in the metadata.  \<open>hops\<close> bounds the number of servers a call may pass through.
\<close>

fun serve ::
  "nat \<Rightarrow> ('m, 'g, 'r) Network \<Rightarrow> string \<Rightarrow> MD \<Rightarrow> string \<Rightarrow> 'm RPCRequest \<Rightarrow> (string \<Rightarrow> Pool) \<times> 'g
    \<Rightarrow> 'r res \<times> (string \<Rightarrow> Pool) \<times> 'g" where
  "serve 0 N self md m q s = (Inl (Errf ''context deadline exceeded'' []), s)"
| "serve (Suc hops) N self md m q s =
     (case nw_node N self of
        None \<Rightarrow> (Inl (Status Unavailable ''connection refused'' [] None), s)
      | Some n \<Rightarrow>
          authn_interceptor (nw_crypto N) (sv_deps n) (nw_now N) md
            (authz_interceptor m (\<lambda>p.
               Forwarder_UnaryInterceptor (node_Conn (sv_table n) self)
                 (\<lambda>c md m q s.
                    case nw_at N (cc_target c) of
                      None \<Rightarrow> (Inl (Status Unavailable ''connection refused'' [] None), s)
                    | Some b \<Rightarrow>
                        (case (map_option sv_cert (nw_node N b), cc_transport c, cc_creds c) of
                           (Some cert, PinnedTLS pin, Some cr) \<Rightarrow>
                             if PinnedVerify (nw_x509 N) pin (ct_Certificate cert) = Inr ()
                             then serve hops N b (GetRequestMetadata (nw_crypto N) (nw_now N) cr @ md) m q s
                             else (Inl (Status Unavailable ''authentication handshake failed'' [] None), s)
                         | _ \<Rightarrow> (Inl (Status Unavailable ''authentication handshake failed'' [] None), s)))
                 (sv_table n) self (Some md) m q (\<lambda>(pools, g). let (r, g) = sv_handler n m q p g in (r, pools, g))))
            s)"

section \<open>Lemmas\<close>

lemma control_forwardable: "isNodeControlMethod m \<Longrightarrow> newReplyFor m \<noteq> None"
  by (auto simp: isNodeControlMethod_def newReplyFor_def)

lemma relay_handler_irrelevant: "newReplyFor m \<noteq> None \<Longrightarrow> relay conn invoke md m q h addr n s = relay conn invoke md m q h' addr n s"
  by (auto simp: relay_def split: prod.splits sum.splits option.splits)

lemma relay_Some:
  "newReplyFor m = Some rt \<Longrightarrow> relay conn invoke (Some md) m q h addr n s =
     (case conn addr n s of (Inl e, s) \<Rightarrow> (Inl e, s) | (Inr c, s) \<Rightarrow> invoke c md m q s)"
  by (auto simp: relay_def split: prod.splits sum.splits)

lemma forward_local:
  assumes "rr_GetId q = None \<or> (\<exists>i. rr_GetId q = Some i \<and> Table_IsLocal tbl i)"
  shows "forward_by_id conn invoke tbl md m q handler s = handler s"
  using assms by (auto simp: forward_by_id_def routableID_def)

section \<open>Node control\<close>



section \<open>Reaching the owner\<close>

lemma prefixed_md:
  "first_md (GetRequestMetadata C t cr @ md) ''authorization'' = first_md md ''authorization''"
  "first_md (GetRequestMetadata C t cr @ md) ''x-sbx-authz'' = first_md md ''x-sbx-authz''"
  by (simp_all add: GetRequestMetadata_def first_md_def MetadataKey_def)

text \<open>A user's key is accepted alike by every node that is configured with it, forwarded or not.\<close>

lemma forwarded_user:
  assumes "first_md md ''x-sbx-authz'' = ''''" "key_role d md = Some role" "au_Keys d' = au_Keys d"
  shows "authenticate C d t md = Inr \<lparr>pr_userRole = role, pr_node = False\<rparr>"
    and "authenticate C d' t' (GetRequestMetadata C u cr @ md) = Inr \<lparr>pr_userRole = role, pr_node = False\<rparr>"
  using assms by (simp_all add: authenticate_def authz_role_def key_role_def prefixed_md Let_def split: if_splits)


text \<open>
  Some methods of a sandbox are not forwarded: \<^verbatim>\<open>WriteFiles\<close> and \<^verbatim>\<open>PublishWork\<close> carry a sandbox id but have no reply
  type, so on any node but the owner they run the local handler, which does not know the sandbox.
\<close>

theorem methods_not_forwarded:
  assumes "m \<in> {''/sbxswarm.v1.SandboxService/WriteFiles'', ''/sbxswarm.v1.SandboxService/PublishWork''}"
    and "rr_GetId q = Some i" and "CHR ''.'' \<in> set i" and "Table_Owner i = Some b" and "b \<noteq> t_self tbl"
    and "Table_Addr tbl b = Some addr" and "conn addr b s = (Inr c, s')"
  shows "Forwarder_UnaryInterceptor conn invoke tbl self md m q h s = h s'"
proof -
  have "\<not> isNodeControlMethod m" "newReplyFor m = None" using assms(1) by (auto simp: isNodeControlMethod_def newReplyFor_def)
  then show ?thesis
    using assms by (auto simp: Forwarder_UnaryInterceptor_def forward_by_id_def routableID_def Table_IsLocal_def relay_def)
qed

theorem methods_not_forwarded_witness:
  "Forwarder_UnaryInterceptor (\<lambda>addr n s. (Pool_dial None (NewPool []) addr n, s)) (\<lambda>_ _ _ _ s. (Inl ErrNotFound, s))
     (Table_Upsert ''n2'' ''addr'' ''pk'' (NewTable ''n1'')) ''n1'' None ''/sbxswarm.v1.SandboxService/WriteFiles''
     \<lparr>rr_GetId = Some ''n2.x'', rr_GetNodeId = None, rr_msg = ()\<rparr> (\<lambda>s. (Inr (), Suc s)) 0 = (Inr (), 1)"
proof -
  let ?conn = "\<lambda>addr n (s::nat). (Pool_dial None (NewPool []) addr n, s)"
  obtain c where c: "?conn ''addr'' ''n2'' 0 = (Inr c, 0)" by (simp add: Pool_dial_def Let_def)
  have t: "Table_Owner ''n2.x'' = Some ''n2''" "Table_Addr (Table_Upsert ''n2'' ''addr'' ''pk'' (NewTable ''n1'')) ''n2'' = Some ''addr''"
    "''n2'' \<noteq> t_self (Table_Upsert ''n2'' ''addr'' ''pk'' (NewTable ''n1''))" by code_simp+
  show ?thesis
    using methods_not_forwarded[where m = "''/sbxswarm.v1.SandboxService/WriteFiles''" and conn = ?conn
        and q = "\<lparr>rr_GetId = Some ''n2.x'', rr_GetNodeId = None, rr_msg = ()\<rparr>" and invoke = "\<lambda>_ _ _ _ s. (Inl ErrNotFound, s)"
        and self = "''n1''" and md = None and h = "\<lambda>s. (Inr (), Suc s)", OF _ _ _ t(1,3,2) c] by simp
qed

definition example_server :: "string \<Rightarrow> string \<Rightarrow> (unit, nat, nat) NodeServer" where
  "example_server self peer =
     \<lparr>sv_deps = example_deps_auth\<lparr>au_LocalNodeID := self\<rparr>,
      sv_cert = \<lparr>ct_Certificate = [''key-'' @ self], ct_PrivateKey = self\<rparr>,
      sv_table = Table_Upsert peer (''addr-'' @ peer) (''key-'' @ peer) (NewTable self),
      sv_handler = (\<lambda>m q p g. (Inr (length self), Suc g))\<rparr>"

definition example_network :: "(unit, nat, nat) Network" where
  "example_network =
     \<lparr>nw_crypto = example_crypto, nw_x509 = example_x509,
      nw_at = (\<lambda>addr. if addr = ''addr-n2'' then Some ''n2'' else None),
      nw_node = (\<lambda>n. if n = ''n1'' then Some (example_server ''n1'' ''n2'') else if n = ''n2'' then Some (example_server ''n2'' ''n1'') else None),
      nw_now = 0\<rparr>"


section \<open>The REST proxy\<close>

definition sandboxPathID :: "string \<Rightarrow> string option" where
  "sandboxPathID urlPath =
     (if \<not> prefix ''/v1/sandboxes/'' urlPath then None
      else let rest = trim_prefix urlPath ''/v1/sandboxes/''
           in if rest = '''' then None
              else let rest = (case index_byte (CHR ''/'') rest of None \<Rightarrow> rest | Some i \<Rightarrow> take i rest)
                   in if rest = '''' then None else Some rest)"

text \<open>\<open>proxy pin addr\<close> is the reverse proxy: the same request over https to the address, with the pin on the peer's certificate.\<close>

definition OwnerProxy ::
  "(PublicKey \<Rightarrow> string \<Rightarrow> 's handler) \<Rightarrow> Table option \<Rightarrow> (string \<Rightarrow> PublicKey option) \<Rightarrow> 's handler \<Rightarrow> 's handler" where
  "OwnerProxy proxy tbl pins next r s =
     (case tbl of
        None \<Rightarrow> next r s
      | Some tbl \<Rightarrow>
          (case sandboxPathID (rq_Path r) of
             None \<Rightarrow> next r s
           | Some i \<Rightarrow>
               if CHR ''.'' \<notin> set i \<or> Table_IsLocal tbl i then next r s
               else (case Table_Owner i of
                       None \<Rightarrow> next r s
                     | Some owner \<Rightarrow>
                         (case Table_Addr tbl owner of
                            None \<Rightarrow> next r s
                          | Some addr \<Rightarrow>
                              (case pins owner of
                                 None \<Rightarrow> http_Error ''no TLS pin known for owner node'' 502 s
                               | Some pin \<Rightarrow> proxy pin addr r s)))))"

definition node_Pins :: "Table \<Rightarrow> string \<Rightarrow> PublicKey option" where
  "node_Pins tbl nodeID = map_option Ed25519Key (Table_PubKey tbl nodeID)"

lemma sandboxPathID_append:
  assumes "i \<noteq> ''''" "CHR ''/'' \<notin> set i" "rest = '''' \<or> hd rest = CHR ''/''"
  shows "sandboxPathID (''/v1/sandboxes/'' @ i @ rest) = Some i"
proof -
  have p: "prefix ''/v1/sandboxes/'' (''/v1/sandboxes/'' @ i @ rest)" by (rule prefixI) simp
  have t: "trim_prefix (''/v1/sandboxes/'' @ i @ rest) ''/v1/sandboxes/'' = i @ rest" by (rule trim_prefix_append)
  have n: "(case index_byte (CHR ''/'') (i @ rest) of None \<Rightarrow> i @ rest | Some n \<Rightarrow> take n (i @ rest)) = i"
  proof (cases rest)
    case Nil
    then show ?thesis using assms by simp
  next
    case (Cons c cs)
    then have "index_byte (CHR ''/'') (i @ rest) = Some (length i)"
      using assms index_byte_append_notin[of "CHR ''/''" i cs] by simp
    then show ?thesis by simp
  qed
  show ?thesis
    unfolding sandboxPathID_def Let_def t n using p assms(1) by simp
qed

text \<open>
  REST and gRPC agree on where a sandbox is.  For the same sandbox id, the HTTP proxy and the gRPC
  interceptor either both let the local handler answer, or both send the request to the same address of
  the owner; the proxy refuses when it does not know the owner's key.
\<close>

theorem rest_grpc_same_owner:
  assumes "i \<noteq> ''''" and "CHR ''/'' \<notin> set i" and "rq_Path r = ''/v1/sandboxes/'' @ i @ rest" and "rest = '''' \<or> hd rest = CHR ''/''"
    and "rr_GetId q = Some i" and "\<not> isNodeControlMethod m" and "newReplyFor m \<noteq> None"
  shows "(OwnerProxy proxy (Some tbl) (node_Pins tbl) nxt r s = nxt r s
       \<and> Forwarder_UnaryInterceptor conn invoke tbl (t_self tbl) (Some md) m q h s' = h s')
   \<or> (\<exists>owner addr. Table_Owner i = Some owner \<and> owner \<noteq> t_self tbl \<and> Table_Addr tbl owner = Some addr
       \<and> OwnerProxy proxy (Some tbl) (node_Pins tbl) nxt r s =
           (case Table_PubKey tbl owner of None \<Rightarrow> http_Error ''no TLS pin known for owner node'' 502 s
            | Some pk \<Rightarrow> proxy (Ed25519Key pk) addr r s)
       \<and> Forwarder_UnaryInterceptor conn invoke tbl (t_self tbl) (Some md) m q h s' =
           (case conn addr owner s' of (Inl e, s') \<Rightarrow> (Inl e, s') | (Inr c, s') \<Rightarrow> invoke c md m q s'))"
proof -
  have p: "sandboxPathID (rq_Path r) = Some i" unfolding assms(3) by (rule sandboxPathID_append[OF assms(1,2,4)])
  obtain rt where rt: "newReplyFor m = Some rt" using assms(7) by blast
  have f: "Forwarder_UnaryInterceptor conn invoke tbl (t_self tbl) (Some md) m q h s' = forward_by_id conn invoke tbl (Some md) m q h s'"
    using assms(6) by (simp add: Forwarder_UnaryInterceptor_def)
  show ?thesis
  proof (cases "CHR ''.'' \<notin> set i \<or> Table_IsLocal tbl i \<or> Table_Owner i = None \<or> (\<exists>o'. Table_Owner i = Some o' \<and> Table_Addr tbl o' = None)")
    case True
    then show ?thesis using p assms(5) by (auto simp: f OwnerProxy_def forward_by_id_def routableID_def)
  next
    case False
    then obtain owner addr where "CHR ''.'' \<in> set i" "\<not> Table_IsLocal tbl i" "Table_Owner i = Some owner" "Table_Addr tbl owner = Some addr"
      by auto
    then show ?thesis using p assms(5) rt
      by (auto simp: f OwnerProxy_def forward_by_id_def routableID_def relay_Some[OF rt] Table_IsLocal_def node_Pins_def split: option.splits)
  qed
qed

theorem rest_grpc_same_owner_witness:
  "\<exists>owner addr. Table_Owner ''n2.x'' = Some owner \<and> Table_Addr (Table_Upsert ''n2'' ''addr'' ''pk'' (NewTable ''n1'')) owner = Some addr
     \<and> OwnerProxy (\<lambda>pin addr r s. http_Error addr 200 s) (Some (Table_Upsert ''n2'' ''addr'' ''pk'' (NewTable ''n1'')))
         (node_Pins (Table_Upsert ''n2'' ''addr'' ''pk'' (NewTable ''n1''))) (\<lambda>r s. http_Error '''' 404 s)
         (example_http\<lparr>rq_Path := ''/v1/sandboxes/'' @ ''n2.x'' @ ''/logs''\<rparr>) () = http_Error addr 200 ()"
proof -
  let ?t = "Table_Upsert ''n2'' ''addr'' ''pk'' (NewTable ''n1'')"
  let ?r = "example_http\<lparr>rq_Path := ''/v1/sandboxes/'' @ ''n2.x'' @ ''/logs''\<rparr>"
  have t: "Table_Owner ''n2.x'' = Some ''n2''" "Table_Addr ?t ''n2'' = Some ''addr''" "t_self ?t = ''n1''" "Table_PubKey ?t ''n2'' = Some ''pk''"
    by code_simp+
  have m: "\<not> isNodeControlMethod ''/sbxswarm.v1.SandboxService/Exec''" "newReplyFor ''/sbxswarm.v1.SandboxService/Exec'' \<noteq> None" by code_simp+
  have "rs_Code (fst (OwnerProxy (\<lambda>pin addr r s. http_Error addr 200 s) (Some ?t) (node_Pins ?t) (\<lambda>r s. http_Error '''' 404 s) ?r ())) = 200"
    by code_simp
  then have n: "OwnerProxy (\<lambda>pin addr r s. http_Error addr 200 s) (Some ?t) (node_Pins ?t) (\<lambda>r s. http_Error '''' 404 s) ?r ()
      \<noteq> http_Error '''' 404 ()" by (auto simp: http_Error_def)
  from rest_grpc_same_owner[where i = "''n2.x''" and rest = "''/logs''" and r = ?r
      and q = "\<lparr>rr_GetId = Some ''n2.x'', rr_GetNodeId = None, rr_msg = ()\<rparr>" and m = "''/sbxswarm.v1.SandboxService/Exec''"
      and proxy = "\<lambda>pin addr r s. http_Error addr 200 s" and tbl = ?t and s = "()" and nxt = "\<lambda>r s. http_Error '''' 404 s"
      and conn = "\<lambda>_ _ s. (Inl ErrNotFound, s)" and invoke = "\<lambda>_ _ _ _ s. (Inl ErrNotFound, s)" and s' = "()" and md = "[]"
      and h = "\<lambda>s. (Inr (), s)", OF _ _ _ _ _ m] n t
  show ?thesis by auto
qed

end
