(* ===== verification/Streams.thy ===== *)
theory Streams
  imports Forward Events
begin

text \<open>
  Streaming events to clients: \<^verbatim>\<open>internal/apiserver/sse.go\<close> and the event service of \<^verbatim>\<open>watchevents.go\<close>.  What the client
  receives is the text of the frames; the encoding of a payload is a parameter.  The live phase is given by
  the events that the handler's channel yields before the request's context ends.
\<close>

definition nl :: string where "nl = [CHR 0x0A]"

section \<open>Frames\<close>

definition writeSSE :: "(payload \<Rightarrow> string) \<Rightarrow> Event \<Rightarrow> string" where
  "writeSSE json e = ''id: '' @ ev_ID e @ nl @ ''event: '' @ ev_Type e @ nl @ ''data: '' @ json (ev_Payload e) @ nl @ nl"

definition sse_headers :: "(string, string) gomap" where
  "sse_headers = [(''Content-Type'', ''text/event-stream''), (''Cache-Control'', ''no-cache''), (''Connection'', ''keep-alive'')]"

text \<open>\<open>flusher\<close>: whether the connection can be flushed.  The bus while the stream is open carries the subscription.\<close>

definition SSEHandler ::
  "(payload \<Rightarrow> string) \<Rightarrow> bool \<Rightarrow> HTTPRequest \<Rightarrow> Bus \<Rightarrow> (Response \<times> (int \<times> Bus) option)" where
  "SSEHandler json flusher r b =
     (if \<not> flusher then (fst (http_Error ''streaming unsupported'' 500 ()), None)
      else let (backfill, i, b') = SSEHandler_open (Get (rq_Query r) ''sandbox'') (Get (rq_Query r) ''types'')
                                     (Get (rq_Header r) ''Last-Event-ID'') b
           in (\<lparr>rs_Code = 200, rs_Header = sse_headers, rs_Cookies = [], rs_Body = concat (map (writeSSE json) backfill)\<rparr>, Some (i, b')))"

text \<open>The live phase appends one frame for each event received.\<close>

definition sse_live :: "(payload \<Rightarrow> string) \<Rightarrow> Event list \<Rightarrow> Response \<Rightarrow> Response" where
  "sse_live json es resp = resp\<lparr>rs_Body := rs_Body resp @ concat (map (writeSSE json) es)\<rparr>"

section \<open>The event service\<close>

record EventMsg =
  em_Id :: string
  em_Seq :: "64 word"
  em_Type :: string
  em_NodeId :: string
  em_SandboxId :: string
  em_Payload :: payload

definition toEventMsg :: "Event \<Rightarrow> EventMsg" where
  "toEventMsg e =
     \<lparr>em_Id = ev_ID e, em_Seq = ev_Seq e, em_Type = ev_Type e, em_NodeId = ev_NodeID e, em_SandboxId = ev_SandboxID e,
      em_Payload = ev_Payload e\<rparr>"

record WatchRequest =
  wr_Types :: "string list"
  wr_Sandbox :: string
  wr_SinceSeq :: "64 word"

text \<open>\<open>send\<close> is the stream's \<^verbatim>\<open>Send\<close>: the loop stops at its first error.\<close>

fun send_all :: "(EventMsg \<Rightarrow> unit res) \<Rightarrow> Event list \<Rightarrow> EventMsg list \<times> unit res" where
  "send_all send [] = ([], Inr ())"
| "send_all send (e # es) =
     (case send (toEventMsg e) of
        Inl err \<Rightarrow> ([], Inl err)
      | Inr _ \<Rightarrow> let (out, r) = send_all send es in (toEventMsg e # out, r))"

definition WatchEvents ::
  "(EventMsg \<Rightarrow> unit res) \<Rightarrow> WatchRequest \<Rightarrow> Event list \<Rightarrow> Bus \<Rightarrow> (EventMsg list \<times> unit res) \<times> Bus" where
  "WatchEvents send req live b =
     (let filt = \<lparr>fl_Types = wr_Types req, fl_SandboxID = wr_Sandbox req\<rparr>
      in case send_all send (Bus_Replay filt (wr_SinceSeq req) b) of
           (out, Inl e) \<Rightarrow> ((out, Inl e), b)
         | (out, Inr _) \<Rightarrow>
             let (i, b) = Bus_Subscribe filt b; (out', r) = send_all send live
             in ((out @ out', r), Bus_cancel i b))"

section \<open>Merging the streams of the peers\<close>

definition fromEventMsg :: "EventMsg \<Rightarrow> Event" where
  "fromEventMsg m =
     \<lparr>ev_ID = em_Id m, ev_Seq = em_Seq m, ev_TS = 0, ev_Type = em_Type m, ev_NodeID = em_NodeId m, ev_SandboxID = em_SandboxId m,
      ev_Payload = em_Payload m\<rparr>"

text \<open>
  The peers a stream is opened to, with the request sent: \<open>open_ok\<close> is whether the call could be started.  Peers without
  an address or a connection are skipped.
\<close>

fun peer_streams ::
  "(ClientConn \<Rightarrow> unit res) \<Rightarrow> (ClientConn \<Rightarrow> bool) \<Rightarrow> Table \<Rightarrow> WatchRequest \<Rightarrow> string list \<Rightarrow> Pool
    \<Rightarrow> (string \<times> WatchRequest) list \<times> Pool" where
  "peer_streams newClient open_ok tbl req [] p = ([], p)"
| "peer_streams newClient open_ok tbl req (n # ns) p =
     (case Table_Addr tbl n of
        None \<Rightarrow> peer_streams newClient open_ok tbl req ns p
      | Some addr \<Rightarrow>
          (case Pool_Conn newClient (Some (Table_PubKey tbl)) addr n p of
             (Inl _, p) \<Rightarrow> peer_streams newClient open_ok tbl req ns p
           | (Inr c, p) \<Rightarrow>
               let (rest, p) = peer_streams newClient open_ok tbl req ns p
               in (if open_ok c then (n, req) # rest else rest, p)))"

text \<open>
  The whole handler: backfill from the local buffer, subscribe, open the peers' streams; the live phase writes what the
  merger lets through of \<open>arrivals\<close>, the events of all sources in the order in which they reach it.
\<close>

definition SSEHandlerWithPeers ::
  "(payload \<Rightarrow> string) \<Rightarrow> bool \<Rightarrow> (ClientConn \<Rightarrow> unit res) \<Rightarrow> (ClientConn \<Rightarrow> bool) \<Rightarrow> Table \<Rightarrow> HTTPRequest \<Rightarrow> Event list \<Rightarrow> Pool \<Rightarrow> Bus
    \<Rightarrow> Response \<times> (string \<times> WatchRequest) list \<times> Pool \<times> Bus" where
  "SSEHandlerWithPeers json flusher newClient open_ok tbl r arrivals p b =
     (case SSEHandler json flusher r b of
        (resp, None) \<Rightarrow> (resp, [], p, b)
      | (resp, Some (i, b)) \<Rightarrow>
          let filt = sse_filter (Get (rq_Query r) ''sandbox'') (Get (rq_Query r) ''types'');
              req = \<lparr>wr_Types = fl_Types filt, wr_Sandbox = fl_SandboxID filt,
                     wr_SinceSeq = parseSinceSeq (Get (rq_Header r) ''Last-Event-ID'')\<rparr>;
              (watched, p) = peer_streams newClient open_ok tbl req (Table_Peers tbl) p
          in (sse_live json (fst (Merger_Consume [] arrivals)) resp, watched, p, Bus_cancel i b))"

section \<open>What a client reads\<close>

text \<open>
  The reader of an event stream (the parsing rules of the HTML standard for lines ended by a line feed): a field is the
  text up to the colon, one space after it is dropped, an empty line dispatches what was collected if there is data.
\<close>

record sse_state =
  se_id :: string
  se_event :: string
  se_data :: "string option"
  se_out :: "(string \<times> string \<times> string) list"

definition sse_field :: "string \<Rightarrow> string \<Rightarrow> sse_state \<Rightarrow> sse_state" where
  "sse_field name val s =
     (if name = ''id'' then s\<lparr>se_id := val\<rparr>
      else if name = ''event'' then s\<lparr>se_event := val\<rparr>
      else if name = ''data'' then s\<lparr>se_data := Some (case se_data s of None \<Rightarrow> val | Some d \<Rightarrow> d @ nl @ val)\<rparr>
      else s)"

definition sse_line :: "string \<Rightarrow> sse_state \<Rightarrow> sse_state" where
  "sse_line line s =
     (if line = '''' then
        (case se_data s of
           None \<Rightarrow> s\<lparr>se_event := ''''\<rparr>
         | Some d \<Rightarrow> s\<lparr>se_event := '''', se_data := None, se_out := se_out s @ [(se_id s, se_event s, d)]\<rparr>)
      else case cut_byte (CHR '':'') line of
             None \<Rightarrow> sse_field line '''' s
           | Some (name, val) \<Rightarrow> sse_field name (trim_prefix val '' '') s)"

definition sse_read :: "string \<Rightarrow> (string \<times> string \<times> string) list" where
  "sse_read text =
     se_out (fold sse_line (butlast (split_on (CHR 0x0A) text)) \<lparr>se_id = '''', se_event = '''', se_data = None, se_out = []\<rparr>)"

section \<open>Lemmas\<close>

abbreviation line_ok :: "string \<Rightarrow> bool" where
  "line_ok s \<equiv> CHR 0x0A \<notin> set s"

abbreviation shown :: "(payload \<Rightarrow> string) \<Rightarrow> Event \<Rightarrow> string \<times> string \<times> string" where
  "shown json e \<equiv> (ev_ID e, ev_Type e, json (ev_Payload e))"

definition frame_ok :: "(payload \<Rightarrow> string) \<Rightarrow> Event \<Rightarrow> bool" where
  "frame_ok json e \<longleftrightarrow> line_ok (ev_ID e) \<and> line_ok (ev_Type e) \<and> line_ok (json (ev_Payload e))"

lemma sse_line_field:
  "sse_line (''id: '' @ v) s = s\<lparr>se_id := v\<rparr>" "sse_line (''event: '' @ v) s = s\<lparr>se_event := v\<rparr>"
  "sse_line (''data: '' @ v) s = s\<lparr>se_data := Some (case se_data s of None \<Rightarrow> v | Some d \<Rightarrow> d @ nl @ v)\<rparr>"
  by (simp_all add: sse_line_def sse_field_def cut_byte_def trim_prefix_def split: option.splits)

lemma dec_digits_line: "line_ok (dec_digits n)"
proof
  assume "CHR 0x0A \<in> set (dec_digits n)"
  then obtain d where d: "d < 10" "digit_char d = CHR 0x0A" using dec_digits_chars by fastforce
  have "of_char (digit_char d) = (10::nat)" unfolding d(2) by simp
  then show False using of_char_digit[OF d(1)] by simp
qed

lemma peer_streams_req: "peer_streams newClient open_ok tbl req ns p = (xs, p') \<Longrightarrow> (n, r) \<in> set xs \<Longrightarrow> r = req"
  by (induction newClient open_ok tbl req ns p arbitrary: xs p' rule: peer_streams.induct)
    (auto simp: Let_def split: option.splits prod.splits sum.splits if_splits)

lemma split_frame:
  assumes "frame_ok json e"
  shows "split_on (CHR 0x0A) (writeSSE json e @ rest) =
    (''id: '' @ ev_ID e) # (''event: '' @ ev_Type e) # (''data: '' @ json (ev_Payload e)) # '''' # split_on (CHR 0x0A) rest"
proof -
  have ok: "line_ok (''id: '' @ ev_ID e)" "line_ok (''event: '' @ ev_Type e)" "line_ok (''data: '' @ json (ev_Payload e))"
    using assms by (simp_all add: frame_ok_def)
  have "writeSSE json e @ rest = (''id: '' @ ev_ID e) @ CHR 0x0A # (''event: '' @ ev_Type e) @ CHR 0x0A
      # (''data: '' @ json (ev_Payload e)) @ CHR 0x0A # '''' @ CHR 0x0A # rest" by (simp add: writeSSE_def nl_def)
  then show ?thesis by (simp only: split_on_append[OF ok(1)] split_on_append[OF ok(2)] split_on_append[OF ok(3)]) simp
qed

lemma sse_fold_frames:
  assumes "list_all (frame_ok json) es" "se_data s = None"
  shows "se_out (fold sse_line (butlast (split_on (CHR 0x0A) (concat (map (writeSSE json) es)))) s) = se_out s @ map (shown json) es"
  using assms
proof (induction es arbitrary: s)
  case Nil
  then show ?case by simp
next
  case (Cons e es)
  let ?s = "\<lparr>se_id = ev_ID e, se_event = '''', se_data = None, se_out = se_out s @ [shown json e]\<rparr>"
  have "fold sse_line [''id: '' @ ev_ID e, ''event: '' @ ev_Type e, ''data: '' @ json (ev_Payload e), ''''] s = ?s"
    using Cons.prems(2)
    by (simp only: fold_simps sse_line_field o_apply id_apply) (simp add: sse_line_def)
  then have "fold sse_line (butlast (split_on (CHR 0x0A) (concat (map (writeSSE json) (e # es))))) s
      = fold sse_line (butlast (split_on (CHR 0x0A) (concat (map (writeSSE json) es)))) ?s"
    using Cons.prems(1) by (simp add: split_frame)
  with Cons.IH[of ?s] Cons.prems(1) show ?case by simp
qed

lemma sse_roundtrip: "list_all (frame_ok json) es \<Longrightarrow> sse_read (concat (map (writeSSE json) es)) = map (shown json) es"
  by (simp add: sse_read_def sse_fold_frames)

section \<open>Properties\<close>


definition example_hist :: "Event list" where
  "example_hist = (let (e1, b1) = Bus_Publish 1 ''a'' '''' None (NewBus ''n'' 8) in [e1, fst (Bus_Publish 2 ''b'' '''' None b1)])"

lemma example_bus_run: "bus_run example_bus example_hist"
proof -
  let ?b1 = "snd (Bus_Publish 1 ''a'' '''' None (NewBus ''n'' 8))"
  let ?e1 = "fst (Bus_Publish 1 ''a'' '''' None (NewBus ''n'' 8))"
  have "bus_run ?b1 ([] @ [?e1])" by (rule bus_publish[OF bus_new]) simp
  then have "bus_run example_bus (([] @ [?e1]) @ [fst (Bus_Publish 2 ''b'' '''' None ?b1)])"
    unfolding example_bus_def by (rule bus_publish) simp
  then show ?thesis by (simp add: example_hist_def case_prod_beta)
qed

lemma example_hist_len: "length example_hist = 2"
  by (simp add: example_hist_def case_prod_beta)


text \<open>
  What happens between the two steps of opening a stream is lost.  The handlers replay first and subscribe afterwards: an event
  published in between is in neither, also if it matches the filter.
\<close>

theorem sse_open_gap:
  assumes "bus_run b hs" and "Suc (length hs) < 2 ^ 64" and "Bus_Publish t ty sb pl b = (e, b1)" and "Bus_Subscribe f b1 = (i, b2)"
  shows "e \<notin> set (Bus_Replay f since b) \<and> fst (Bus_recv i b2) = None"
proof -
  have inv: "bus_inv b hs" "bus_inv b1 (hs @ [e])" using bus_run_inv[OF assms(1)] bus_inv_publish[OF _ assms(3)] by blast+
  then have h: "hist_ok (bu_nodeID b1) (hs @ [e])" and r: "set (bu_ring b) \<subseteq> set hs"
    by (auto simp: bus_inv_def dest: in_set_dropD)
  have "e \<notin> set hs"
  proof
    assume "e \<in> set hs"
    then obtain j where j: "j < length hs" "hs ! j = e" by (auto simp: in_set_conv_nth)
    have "of_nat (Suc j) = (of_nat (Suc (length hs)) :: 64 word)"
      using hist_ok_nth[OF h, of j] hist_ok_nth[OF h, of "length hs"] j by (simp add: nth_append del: of_nat_Suc)
    then have "unat (of_nat (Suc j) :: 64 word) = unat (of_nat (Suc (length hs)) :: 64 word)" by (rule arg_cong)
    then show False using j(1) assms(2) by (simp add: unat_of_nat del: of_nat_Suc)
  qed
  moreover have "fst (Bus_recv i b2) = None" using assms(4) by (auto simp: Bus_Subscribe_def Bus_recv_def update_conv')
  ultimately show ?thesis using r by (auto simp: Bus_Replay_def)
qed

theorem sse_open_gap_witness:
  "fst (Bus_Publish 3 ''c'' '''' None example_bus)
     \<notin> set (Bus_Replay \<lparr>fl_Types = [], fl_SandboxID = ''''\<rparr> 0 example_bus)"
  using sse_open_gap[OF example_bus_run, where f = "\<lparr>fl_Types = [], fl_SandboxID = ''''\<rparr>" and t = 3 and ty = "''c''" and sb = "''''"
      and pl = None and since = 0, OF _ prod.collapse[symmetric] prod.collapse[symmetric]]
  by (simp add: example_hist_len)

text \<open>
  One cursor stands for all nodes.  The decision record calls for a cursor with one mark for each source; the handler takes the
  sequence number of whatever event came last, and uses it for the local buffer and for every peer: resuming from an event
  of another node that has published more, the client gets nothing from this node's buffer.
\<close>

theorem sse_cursor_of_another_node:
  assumes "bus_run b hs" and "length hs < 2 ^ 64" and "length hs \<le> unat q"
    and "Get (rq_Header r) ''Last-Event-ID'' = event_id other q"
  shows "\<exists>resp sub b'. SSEHandler json True r b = (resp, Some (sub, b')) \<and> rs_Body resp = ''''
    \<and> (\<forall>newClient open_ok tbl arrivals p n req.
         (n, req) \<in> set (fst (snd (SSEHandlerWithPeers json True newClient open_ok tbl r arrivals p b))) \<longrightarrow> wr_SinceSeq req = q)"
proof -
  let ?f = "sse_filter (Get (rq_Query r) ''sandbox'') (Get (rq_Query r) ''types'')"
  have inv: "bus_inv b hs" using bus_run_inv[OF assms(1)] .
  have "\<not> q < ev_Seq e" if e: "e \<in> set (bu_ring b)" for e
  proof -
    have "e \<in> set hs" using e inv by (auto simp: bus_inv_def dest: in_set_dropD)
    then obtain j where j: "j < length hs" "hs ! j = e" by (auto simp: in_set_conv_nth)
    then have "ev_Seq e = of_nat (Suc j)" using hist_ok_nth[of "bu_nodeID b" hs j] inv by (auto simp: bus_inv_def)
    then show ?thesis using j(1) assms(2,3) by (simp add: word_less_nat_alt unat_of_nat del: of_nat_Suc)
  qed
  then have rep: "Bus_Replay ?f q b = []" by (auto simp: Bus_Replay_def filter_empty_conv)
  have "wr_SinceSeq req = q" if "(n, req) \<in> set (fst (snd (SSEHandlerWithPeers json True newClient open_ok tbl r arrivals p b)))"
    for newClient open_ok tbl arrivals p n req
    using that assms(4) by (auto simp: SSEHandlerWithPeers_def SSEHandler_def Let_def split: prod.splits dest: peer_streams_req)
  with rep show ?thesis
    by (auto simp: SSEHandler_def SSEHandler_open_def WatchEvents_open_def assms(4) Bus_Subscribe_def Let_def)
qed

theorem sse_cursor_of_another_node_witness:
  "\<exists>resp sub b'. SSEHandler (\<lambda>_. ''{}'') True (example_http\<lparr>rq_Header := [(''Last-Event-ID'', event_id ''m'' 500)]\<rparr>) example_bus
       = (resp, Some (sub, b')) \<and> rs_Body resp = ''''"
  using sse_cursor_of_another_node[OF example_bus_run, where q = 500 and other = "''m''" and json = "\<lambda>_. ''{}''"
      and r = "example_http\<lparr>rq_Header := [(''Last-Event-ID'', event_id ''m'' 500)]\<rparr>"]
  by (auto simp: example_hist_len Get_def)

end
