(* ===== verification/Observe.thy ===== *)
theory Observe
  imports SandboxService_Correct Streams
begin

text \<open>
  Observability: the collectors of egress denials and of usage (\<^verbatim>\<open>internal/obsd\<close>), the RPCs and the streams that
  read them (\<^verbatim>\<open>internal/apiserver/observe.go\<close>, \<^verbatim>\<open>observe_sse.go\<close>), and the web terminal (\<^verbatim>\<open>terminal.go\<close>).  Rendering times and
  numbers as text, and the WebSocket handshake, are parameters.  A stream is given by what arrives before the request's
  context ends.
\<close>

section \<open>The egress log\<close>

record BlockedPair =
  bp_Host :: string
  bp_SandboxID :: string
  bp_FirstSeen :: gotime
  bp_LastSeen :: gotime
  bp_Count :: int

record NetLogCollector =
  nl_pairs :: "(string, BlockedPair) gomap"
  nl_allowed :: "(string, BlockedPair) gomap"

definition NewNetLogCollector :: NetLogCollector where
  "NewNetLogCollector = \<lparr>nl_pairs = [], nl_allowed = []\<rparr>"

definition merge_one :: "gotime \<Rightarrow> string \<times> string \<times> int \<Rightarrow> (string, BlockedPair) gomap \<Rightarrow> (string, BlockedPair) gomap" where
  "merge_one t = (\<lambda>(host, sbID, n) dst.
     let key = host @ ''|'' @ sbID
     in case map_of dst key of
          Some p \<Rightarrow> AList.update key (p\<lparr>bp_LastSeen := t, bp_Count := n\<rparr>) dst
        | None \<Rightarrow> AList.update key \<lparr>bp_Host = host, bp_SandboxID = sbID, bp_FirstSeen = t, bp_LastSeen = t, bp_Count = n\<rparr> dst)"

definition attributed :: "(string \<Rightarrow> string option) \<Rightarrow> BlockedHost \<Rightarrow> string \<times> string \<times> int" where
  "attributed resolve b =
     (bh_Host b, (case resolve (bh_VMName b) of Some sb \<Rightarrow> sb | None \<Rightarrow> bh_VMName b), bh_Count b)"

definition NetLog_merge ::
  "(string \<Rightarrow> string option) \<Rightarrow> (string, BlockedPair) gomap \<Rightarrow> BlockedHost list \<Rightarrow> gotime \<Rightarrow> (string, BlockedPair) gomap" where
  "NetLog_merge resolve dst cur t = fold (\<lambda>b. merge_one t (attributed resolve b)) cur dst"

definition NetLog_PollOnce ::
  "('db, 'be) Env \<Rightarrow> gotime \<Rightarrow> NetLogCollector \<times> ('db, 'be) World \<Rightarrow> unit res \<times> NetLogCollector \<times> ('db, 'be) World" where
  "NetLog_PollOnce E t = (\<lambda>(c, w).
     case be_BlockedEgress (en_backend E) (w_be w) of
       (Inl e, b) \<Rightarrow> (Inl e, c, w\<lparr>w_be := b\<rparr>)
     | (Inr bs, b) \<Rightarrow>
         let w = w\<lparr>w_be := b\<rparr>
         in (case be_AllowedEgress (en_backend E) (w_be w) of
              (Inl e, b) \<Rightarrow> (Inl e, c, w\<lparr>w_be := b\<rparr>)
            | (Inr as, b) \<Rightarrow>
                let w = w\<lparr>w_be := b\<rparr>; resolve = (\<lambda>vm. Manager_ResolveVMToID E vm w)
                in (Inr (), c\<lparr>nl_pairs := NetLog_merge resolve (nl_pairs c) bs t,
                              nl_allowed := NetLog_merge resolve (nl_allowed c) as t\<rparr>, w)))"

definition forSandbox :: "(string, BlockedPair) gomap \<Rightarrow> string \<Rightarrow> BlockedPair list" where
  "forSandbox m sandboxID = filter (\<lambda>p. bp_SandboxID p = sandboxID) (map snd m)"

definition ForSandbox :: "NetLogCollector \<Rightarrow> string \<Rightarrow> BlockedPair list" where
  "ForSandbox c = forSandbox (nl_pairs c)"

definition AllowedForSandbox :: "NetLogCollector \<Rightarrow> string \<Rightarrow> BlockedPair list" where
  "AllowedForSandbox c = forSandbox (nl_allowed c)"

definition DistinctCount :: "NetLogCollector \<Rightarrow> nat" where
  "DistinctCount c = length (nl_pairs c)"

definition AllowedDistinctCount :: "NetLogCollector \<Rightarrow> nat" where
  "AllowedDistinctCount c = length (nl_allowed c)"

section \<open>Usage\<close>

record ProvisionLimit =
  li_CPU :: rat
  li_MemKB :: rat

definition DefaultProvisionLimit :: "nat \<Rightarrow> ProvisionLimit" where
  "DefaultProvisionLimit numCPU = \<lparr>li_CPU = of_nat numCPU, li_MemKB = 16 * 1024 * 1024\<rparr>"

record Util =
  ut_CPU :: rat
  ut_Mem :: rat

record StatsCollector =
  sc_limit :: ProvisionLimit
  sc_latest :: "(string, Usage) gomap"
  sc_util :: Util

definition NewStatsCollector :: "ProvisionLimit \<Rightarrow> StatsCollector" where
  "NewStatsCollector limit = \<lparr>sc_limit = limit, sc_latest = [], sc_util = \<lparr>ut_CPU = 0, ut_Mem = 0\<rparr>\<rparr>"

definition safeDiv :: "rat \<Rightarrow> rat \<Rightarrow> rat" where
  "safeDiv a b = (if b = 0 then 0 else a / b)"

text \<open>The probes of one poll, whichever order the worker goroutines run them in; a failed probe is skipped.\<close>

fun poll_usage ::
  "('db, 'be) Env \<Rightarrow> string list \<Rightarrow> (string, Usage) gomap \<Rightarrow> ('db, 'be) World \<Rightarrow> (string, Usage) gomap \<times> ('db, 'be) World" where
  "poll_usage E [] got w = (got, w)"
| "poll_usage E (name # names) got w =
     (case be_Stats (en_backend E) (w_be w) name of
        (Inl _, b) \<Rightarrow> poll_usage E names got (w\<lparr>w_be := b\<rparr>)
      | (Inr u, b) \<Rightarrow> poll_usage E names (AList.update name u got) (w\<lparr>w_be := b\<rparr>))"

definition usage_util :: "ProvisionLimit \<Rightarrow> (string, Usage) gomap \<Rightarrow> Util" where
  "usage_util limit got =
     (let sumCPU = sum_list (map (\<lambda>(_, u). us_CPUPercent u / 100 * of_int (us_Cores u)) got);
          sumMem = sum_list (map (\<lambda>(_, u). of_int (us_MemUsedKB u)) got)
      in \<lparr>ut_CPU = safeDiv sumCPU (li_CPU limit), ut_Mem = safeDiv sumMem (li_MemKB limit)\<rparr>)"

text \<open>\<^verbatim>\<open>namesList\<close> of \<^verbatim>\<open>node.go\<close>, the listing the collector is built with.\<close>

definition namesList :: "('db, 'be) Env \<Rightarrow> ('db, 'be) World \<Rightarrow> string list res" where
  "namesList E w =
     (case Manager_List E w of
        Inl e \<Rightarrow> Inl e
      | Inr recs \<Rightarrow> Inr (map r_BackendName (filter (\<lambda>r. r_Status r = ''running'') recs)))"

definition Stats_PollOnce ::
  "('db, 'be) Env \<Rightarrow> StatsCollector \<times> ('db, 'be) World \<Rightarrow> unit res \<times> StatsCollector \<times> ('db, 'be) World" where
  "Stats_PollOnce E = (\<lambda>(c, w).
     case namesList E w of
       Inl e \<Rightarrow> (Inl e, c, w)
     | Inr names \<Rightarrow>
         let (got, w) = poll_usage E names [] w
         in (Inr (), c\<lparr>sc_latest := got, sc_util := usage_util (sc_limit c) got\<rparr>, w))"

definition Stats_Latest :: "StatsCollector \<Rightarrow> string \<Rightarrow> Usage option" where
  "Stats_Latest c name = map_of (sc_latest c) name"

definition ActualUtil :: "StatsCollector \<Rightarrow> Util" where
  "ActualUtil c = sc_util c"

section \<open>The RPCs\<close>

text \<open>\<^verbatim>\<open>ObserveDeps\<close>: the collectors that are wired.  The backend and the manager are those of the node when \<open>ob_live\<close> is set.\<close>

record ObserveDeps =
  ob_Stats :: "StatsCollector option"
  ob_NetLog :: "NetLogCollector option"
  ob_live :: bool

definition observeStreamReady :: "ObserveDeps \<Rightarrow> bool" where
  "observeStreamReady o' \<longleftrightarrow> ob_live o' \<and> ob_Stats o' \<noteq> None"

record Stats =
  st_Cores :: int
  st_CpuPercent :: rat
  st_MemTotalKb :: int
  st_MemUsedKb :: int

definition GetStats :: "('db, 'be) Env \<Rightarrow> ObserveDeps \<Rightarrow> string \<Rightarrow> ('db, 'be) World \<Rightarrow> Stats res" where
  "GetStats E o' i w =
     (case ob_Stats o' of
        None \<Rightarrow> Inl (Status Unimplemented ''observe not configured'' [] None)
      | Some c \<Rightarrow>
          (case Manager_Resolve E i w of
             Inl e \<Rightarrow> Inl (Status NotFound ''%v'' [] (Some e))
           | Inr name \<Rightarrow>
               (case Stats_Latest c name of
                  None \<Rightarrow> Inr \<lparr>st_Cores = 0, st_CpuPercent = 0, st_MemTotalKb = 0, st_MemUsedKb = 0\<rparr>
                | Some u \<Rightarrow> Inr \<lparr>st_Cores = int32 (us_Cores u), st_CpuPercent = us_CPUPercent u,
                                  st_MemTotalKb = us_MemTotalKB u, st_MemUsedKb = us_MemUsedKB u\<rparr>)))"

record Blocked =
  bl_Host :: string
  bl_FirstSeen :: string
  bl_LastSeen :: string
  bl_Count :: int

record ListBlockedResponse =
  lb_Blocked :: "Blocked list"
  lb_Allowed :: "Blocked list"
  lb_DistinctCount :: int
  lb_AllowedDistinctCount :: int

definition blocked_proto :: "(gotime \<Rightarrow> string) \<Rightarrow> BlockedPair \<Rightarrow> Blocked" where
  "blocked_proto rfc3339 p =
     \<lparr>bl_Host = bp_Host p, bl_FirstSeen = rfc3339 (bp_FirstSeen p), bl_LastSeen = rfc3339 (bp_LastSeen p), bl_Count = int32 (bp_Count p)\<rparr>"

definition ListBlocked :: "(gotime \<Rightarrow> string) \<Rightarrow> ObserveDeps \<Rightarrow> string \<Rightarrow> ListBlockedResponse res" where
  "ListBlocked rfc3339 o' i =
     (case ob_NetLog o' of
        None \<Rightarrow> Inl (Status Unimplemented ''observe not configured'' [] None)
      | Some c \<Rightarrow>
          Inr \<lparr>lb_Blocked = map (blocked_proto rfc3339) (ForSandbox c i), lb_Allowed = map (blocked_proto rfc3339) (AllowedForSandbox c i),
               lb_DistinctCount = int32 (int (DistinctCount c)), lb_AllowedDistinctCount = int32 (int (AllowedDistinctCount c))\<rparr>)"

definition liveOrCachedUsage ::
  "('db, 'be) Env \<Rightarrow> ObserveDeps \<Rightarrow> string \<Rightarrow> ('db, 'be) World \<Rightarrow> Usage option \<times> ('db, 'be) World" where
  "liveOrCachedUsage E o' name w =
     (let cached = (case ob_Stats o' of None \<Rightarrow> None | Some c \<Rightarrow> Stats_Latest c name)
      in if ob_live o' then
           (case be_Stats (en_backend E) (w_be w) name of
              (Inr u, b) \<Rightarrow> (Some u, w\<lparr>w_be := b\<rparr>)
            | (Inl _, b) \<Rightarrow> (cached, w\<lparr>w_be := b\<rparr>))
         else (cached, w))"

section \<open>Streams of logs and usage\<close>

definition pathID :: "string \<Rightarrow> string \<Rightarrow> string option" where
  "pathID urlPath suf =
     (if \<not> prefix ''/v1/sandboxes/'' urlPath \<or> \<not> suffix (''/'' @ suf) urlPath then None
      else let i = trim_suffix (trim_prefix urlPath ''/v1/sandboxes/'') (''/'' @ suf)
           in if i = '''' \<or> CHR ''/'' \<in> set i then None else Some i)"

record LogLine =
  ll_Line :: string
  ll_Err :: bool

definition log_frame :: "string \<Rightarrow> string" where
  "log_frame line = ''event: log'' @ nl @ ''data: '' @ line @ nl @ nl"

text \<open>\<open>logs\<close> is \<^verbatim>\<open>Backend.Logs\<close>: an error, or the lines that arrive on the channel until it closes or the request ends.\<close>

definition LogsSSEHandler ::
  "('db, 'be) Env \<Rightarrow> bool \<Rightarrow> (go_error \<Rightarrow> string) \<Rightarrow> ('be \<Rightarrow> string \<Rightarrow> string \<Rightarrow> LogLine list res \<times> 'be)
    \<Rightarrow> ('db, 'be) World handler" where
  "LogsSSEHandler E flusher errText logs r w =
     (case pathID (rq_Path r) ''logs'' of
        None \<Rightarrow> http_Error ''404 page not found'' 404 w
      | Some i \<Rightarrow>
          if \<not> flusher then http_Error ''streaming unsupported'' 500 w
          else (case Manager_Resolve E i w of
                  Inl _ \<Rightarrow> http_Error ''sandbox not found'' 404 w
                | Inr name \<Rightarrow>
                    (case logs (w_be w) name (Get (rq_Query r) ''path'') of
                       (Inl e, b) \<Rightarrow> http_Error (errText e) 500 (w\<lparr>w_be := b\<rparr>)
                     | (Inr ls, b) \<Rightarrow>
                         (\<lparr>rs_Code = 200, rs_Header = sse_headers, rs_Cookies = [],
                           rs_Body = concat (map (log_frame \<circ> ll_Line) (takeWhile (\<lambda>l. \<not> ll_Err l) ls))\<rparr>, w\<lparr>w_be := b\<rparr>))))"

text \<open>One frame at once and one per tick; \<open>marshal\<close> is the JSON text of a usage.\<close>

fun stats_frames ::
  "('db, 'be) Env \<Rightarrow> ObserveDeps \<Rightarrow> (Usage \<Rightarrow> string) \<Rightarrow> string \<Rightarrow> nat \<Rightarrow> ('db, 'be) World \<Rightarrow> string \<times> ('db, 'be) World" where
  "stats_frames E o' marshal name 0 w = ('''', w)"
| "stats_frames E o' marshal name (Suc n) w =
     (let (u, w) = liveOrCachedUsage E o' name w; (out, w) = stats_frames E o' marshal name n w
      in (case u of None \<Rightarrow> out | Some u \<Rightarrow> ''event: stats'' @ nl @ ''data: '' @ marshal u @ nl @ nl @ out, w))"

definition StatsSSEHandler ::
  "('db, 'be) Env \<Rightarrow> ObserveDeps \<Rightarrow> bool \<Rightarrow> (Usage \<Rightarrow> string) \<Rightarrow> nat \<Rightarrow> ('db, 'be) World handler" where
  "StatsSSEHandler E o' flusher marshal ticks r w =
     (case pathID (rq_Path r) ''stats'' of
        None \<Rightarrow> http_Error ''404 page not found'' 404 w
      | Some i \<Rightarrow>
          if \<not> flusher then http_Error ''streaming unsupported'' 500 w
          else (case Manager_Resolve E i w of
                  Inl _ \<Rightarrow> http_Error ''sandbox not found'' 404 w
                | Inr name \<Rightarrow>
                    let (body, w) = stats_frames E o' marshal name (Suc ticks) w
                    in (\<lparr>rs_Code = 200, rs_Header = sse_headers, rs_Cookies = [], rs_Body = body\<rparr>, w)))"

definition wantsEventStream :: "HTTPRequest \<Rightarrow> bool" where
  "wantsEventStream r = sublist ''text/event-stream'' (Get (rq_Header r) ''Accept'')"

definition observeStreamMux :: "'s handler \<Rightarrow> 's handler \<Rightarrow> 's handler \<Rightarrow> 's handler" where
  "observeStreamMux logs stats fallback r s =
     (if pathID (rq_Path r) ''logs'' \<noteq> None then logs r s
      else if pathID (rq_Path r) ''stats'' \<noteq> None \<and> wantsEventStream r then stats r s
      else fallback r s)"

section \<open>The terminal\<close>

definition terminalSandboxID :: "string \<Rightarrow> string option" where
  "terminalSandboxID p =
     (if \<not> prefix ''/v1/sandboxes/'' p \<or> \<not> suffix ''/terminal'' p then None
      else let i = trim_suffix (trim_prefix p ''/v1/sandboxes/'') ''/terminal''
           in if i = '''' \<or> CHR ''/'' \<in> set i then None else Some i)"

definition terminalMux :: "'s handler \<Rightarrow> 's handler \<Rightarrow> 's handler" where
  "terminalMux term next r s =
     (case terminalSandboxID (rq_Path r) of
        Some i \<Rightarrow> if i \<noteq> '''' then term r s else next r s
      | None \<Rightarrow> next r s)"

datatype ws_message = MessageText string | MessageBinary string

record resizeMsg =
  rm_Type :: string
  rm_Cols :: int
  rm_Rows :: int

text \<open>A session: writing to its input may fail; \<open>unmarshal\<close> decodes a control frame.\<close>

record 't Session =
  se_Write :: "'t \<Rightarrow> string \<Rightarrow> bool \<times> 't"
  se_Resize :: "'t \<Rightarrow> int \<Rightarrow> int \<Rightarrow> 't"

fun bridge_in :: "(string \<Rightarrow> resizeMsg option) \<Rightarrow> 't Session \<Rightarrow> ws_message list \<Rightarrow> 't \<Rightarrow> 't" where
  "bridge_in unmarshal S [] t = t"
| "bridge_in unmarshal S (MessageText d # ms) t =
     bridge_in unmarshal S ms
       (case unmarshal d of
          Some m \<Rightarrow> if rm_Type m = ''resize'' then se_Resize S t (rm_Cols m) (rm_Rows m) else t
        | None \<Rightarrow> t)"
| "bridge_in unmarshal S (MessageBinary d # ms) t =
     (let (ok, t) = se_Write S t d in if ok then bridge_in unmarshal S ms t else t)"

text \<open>The other direction: the chunks read from the session's output until it ends or the socket cannot be written to.\<close>

fun bridge_out :: "(string \<Rightarrow> bool) \<Rightarrow> string list \<Rightarrow> ws_message list" where
  "bridge_out writable [] = []"
| "bridge_out writable (d # ds) =
     (if d = '''' then bridge_out writable ds
      else if writable d then MessageBinary d # bridge_out writable ds
      else [])"

definition shell_command :: "string list" where
  "shell_command = [''/bin/sh'', ''-c'', ''if command -v bash >/dev/null 2>&1; then exec bash; else exec /bin/sh; fi'']"

text \<open>
  The handler: \<open>accept\<close> is the WebSocket handshake (\<open>Some\<close> response when it is refused), \<open>execI\<close> is
  \<^verbatim>\<open>Backend.ExecInteractive\<close>.  The result is a response, or the session that was bridged.
\<close>

definition TerminalHandler ::
  "('db, 'be) Env \<Rightarrow> (HTTPRequest \<Rightarrow> Response option) \<Rightarrow> ('be \<Rightarrow> string \<Rightarrow> string list \<Rightarrow> 't res \<times> 'be)
    \<Rightarrow> HTTPRequest \<Rightarrow> ('db, 'be) World \<Rightarrow> (Response + 't option) \<times> ('db, 'be) World" where
  "TerminalHandler E accept execI r w =
     (case terminalSandboxID (rq_Path r) of
        None \<Rightarrow> (Inl (fst (http_Error ''404 page not found'' 404 ())), w)
      | Some i \<Rightarrow>
          (case Manager_Resolve E i w of
             Inl _ \<Rightarrow> (Inl (fst (http_Error ''sandbox not found'' 404 ())), w)
           | Inr name \<Rightarrow>
               (case accept r of
                  Some resp \<Rightarrow> (Inl resp, w)
                | None \<Rightarrow>
                    let w = snd (Manager_BumpActivity E i w)
                    in (case execI (w_be w) name shell_command of
                          (Inl _, b) \<Rightarrow> (Inr None, w\<lparr>w_be := b\<rparr>)
                        | (Inr t, b) \<Rightarrow> (Inr (Some t), w\<lparr>w_be := b\<rparr>)))))"

section \<open>Lemmas\<close>

abbreviation pair_key :: "string \<times> string \<times> int \<Rightarrow> string" where
  "pair_key x \<equiv> fst x @ ''|'' @ fst (snd x)"

lemma merge_one_of:
  "map_of (merge_one t x m) k = (if k = pair_key x then
     Some (case map_of m k of
        Some p \<Rightarrow> p\<lparr>bp_LastSeen := t, bp_Count := snd (snd x)\<rparr>
      | None \<Rightarrow> \<lparr>bp_Host = fst x, bp_SandboxID = fst (snd x), bp_FirstSeen = t, bp_LastSeen = t, bp_Count = snd (snd x)\<rparr>)
    else map_of m k)"
  by (auto simp: merge_one_def Let_def update_conv' split: option.splits prod.splits)

lemma merge_one_keys: "distinct (map fst m) \<Longrightarrow> distinct (map fst (merge_one t x m))"
  by (auto simp: merge_one_def Let_def distinct_update split: option.splits prod.splits)

text \<open>The observations of a collector's life: for each poll its time and what it attributed.\<close>

definition merges :: "(gotime \<times> string \<times> string \<times> int) list \<Rightarrow> (string, BlockedPair) gomap" where
  "merges os = fold (\<lambda>(t, x). merge_one t x) os []"

definition pair_of :: "(gotime \<times> string \<times> string \<times> int) list \<Rightarrow> BlockedPair" where
  "pair_of os = \<lparr>bp_Host = fst (snd (hd os)), bp_SandboxID = fst (snd (snd (hd os))), bp_FirstSeen = fst (hd os),
     bp_LastSeen = fst (last os), bp_Count = snd (snd (snd (last os)))\<rparr>"

lemma map_of_merges:
  "map_of (merges os) k =
     (let mine = filter (\<lambda>(t, x). pair_key x = k) os in if mine = [] then None else Some (pair_of mine))"
proof (induction os rule: rev_induct)
  case Nil
  then show ?case by (simp add: merges_def)
next
  case (snoc o' os)
  obtain t x where o': "o' = (t, x)" by (rule prod.exhaust)
  have s: "merges (os @ [o']) = merge_one t x (merges os)" by (simp add: merges_def o')
  show ?case
  proof (cases "pair_key x = k")
    case False
    then have "map_of (merges (os @ [o'])) k = map_of (merges os) k" unfolding s merge_one_of by auto
    moreover have "filter (\<lambda>(t, x). pair_key x = k) (os @ [o']) = filter (\<lambda>(t, x). pair_key x = k) os" using False by (simp add: o')
    ultimately show ?thesis using snoc.IH by simp
  next
    case True
    then have f: "filter (\<lambda>(t, x). pair_key x = k) (os @ [o']) = filter (\<lambda>(t, x). pair_key x = k) os @ [o']" by (simp add: o')
    show ?thesis
      unfolding s merge_one_of using True snoc.IH f by (auto simp: Let_def pair_of_def o')
  qed
qed

lemma merges_distinct: "distinct (map fst (merges os))"
  by (induction os rule: rev_induct) (auto simp: merges_def case_prod_unfold merge_one_keys)

lemma merges_keys: "set (map fst (merges os)) = (\<lambda>(t, x). pair_key x) ` set os"
proof -
  have "k \<in> set (map fst (merges os)) \<longleftrightarrow> (\<exists>o' \<in> set os. pair_key (snd o') = k)" for k
  proof -
    have "k \<in> set (map fst (merges os)) \<longleftrightarrow> map_of (merges os) k \<noteq> None" by (simp add: map_of_eq_None_iff)
    also have "\<dots> \<longleftrightarrow> filter (\<lambda>(t, x). pair_key x = k) os \<noteq> []" by (simp add: map_of_merges Let_def)
    also have "\<dots> \<longleftrightarrow> (\<exists>o' \<in> set os. pair_key (snd o') = k)" by (simp add: filter_empty_conv case_prod_unfold)
    finally show ?thesis .
  qed
  then show ?thesis unfolding set_eq_iff image_iff case_prod_unfold by (metis (no_types, lifting))
qed

lemma pair_key_inj:
  assumes "CHR ''|'' \<notin> set sb" "CHR ''|'' \<notin> set sb'"
  shows "h @ ''|'' @ sb = h' @ ''|'' @ sb' \<longleftrightarrow> h = h' \<and> sb = sb'"
proof
  assume e: "h @ ''|'' @ sb = h' @ ''|'' @ sb'"
  then have "last_index_byte (CHR ''|'') (h @ CHR ''|'' # sb) = last_index_byte (CHR ''|'') (h' @ CHR ''|'' # sb')" by simp
  then have "length h = length h'" using assms by (simp add: last_index_byte_append)
  then show "h = h' \<and> sb = sb'" using e by simp
qed simp

lemma merges_entry:
  assumes "(k, p) \<in> set (merges os)" "\<forall>t h s n. (t, h, s, n) \<in> set os \<longrightarrow> CHR ''|'' \<notin> set s"
  shows "k = bp_Host p @ ''|'' @ bp_SandboxID p \<and> CHR ''|'' \<notin> set (bp_SandboxID p)
    \<and> p = pair_of (filter (\<lambda>(t, h, s, n). h = bp_Host p \<and> s = bp_SandboxID p) os)
    \<and> (\<exists>t n. (t, bp_Host p, bp_SandboxID p, n) \<in> set os)"
proof -
  let ?mine = "filter (\<lambda>(t, x). pair_key x = k) os"
  have "map_of (merges os) k = Some p" using assms(1) merges_distinct by (simp add: map_of_eq_Some_iff)
  then have p: "?mine \<noteq> []" "p = pair_of ?mine" by (auto simp: map_of_merges Let_def split: if_splits)
  obtain t h s n where hd: "hd ?mine = (t, h, s, n)" by (cases "hd ?mine")
  then have "(t, h, s, n) \<in> set ?mine" using hd_in_set[OF p(1)] by (simp only: hd)
  then have o': "(t, h, s, n) \<in> set os" "k = h @ ''|'' @ s" "CHR ''|'' \<notin> set s" using assms(2) by auto
  have hs: "bp_Host p = h" "bp_SandboxID p = s" using p(2) hd by (simp_all add: pair_of_def)
  have "?mine = filter (\<lambda>(t, h', s', n). h' = h \<and> s' = s) os"
  proof (rule filter_cong[OF refl])
    fix x assume x: "x \<in> set os"
    obtain t' h' s' n' where xe: "x = (t', h', s', n')" by (cases x)
    have "CHR ''|'' \<notin> set s'" using x assms(2) unfolding xe by blast
    from pair_key_inj[OF this o'(3), of h' h] show "(case x of (t, y) \<Rightarrow> pair_key y = k) = (case x of (t, h', s', n) \<Rightarrow> h' = h \<and> s' = s)"
      unfolding xe o'(2) by simp
  qed
  then show ?thesis using p(2) o' hs by auto
qed

text \<open>A poll adds the observations it made, if both calls to the backend succeed, and none otherwise.\<close>

definition poll_obs ::
  "bool \<Rightarrow> ('db, 'be) Env \<Rightarrow> gotime \<Rightarrow> ('db, 'be) World \<Rightarrow> (gotime \<times> string \<times> string \<times> int) list" where
  "poll_obs denied E t w =
     (case be_BlockedEgress (en_backend E) (w_be w) of
        (Inr bs, b) \<Rightarrow>
          (case be_AllowedEgress (en_backend E) b of
             (Inr as, b') \<Rightarrow> map (\<lambda>x. (t, attributed (\<lambda>vm. Manager_ResolveVMToID E vm (w\<lparr>w_be := b'\<rparr>)) x)) (if denied then bs else as)
           | _ \<Rightarrow> [])
      | _ \<Rightarrow> [])"

lemma NetLog_merge_merges:
  "NetLog_merge resolve (merges os) cur t = merges (os @ map (\<lambda>x. (t, attributed resolve x)) cur)"
  by (simp add: NetLog_merge_def merges_def fold_map comp_def)

lemma NetLog_PollOnce_obs:
  assumes "nl_pairs c = merges bs" "nl_allowed c = merges as" "NetLog_PollOnce E t (c, w) = (r, c', w')"
  shows "nl_pairs c' = merges (bs @ poll_obs True E t w)" "nl_allowed c' = merges (as @ poll_obs False E t w)"
  using assms by (auto simp: NetLog_PollOnce_def poll_obs_def NetLog_merge_merges Let_def split: prod.splits sum.splits)

fun polls :: "(('db, 'be) Env \<times> gotime \<times> ('db, 'be) World) list \<Rightarrow> NetLogCollector \<Rightarrow> NetLogCollector" where
  "polls [] c = c"
| "polls ((E, t, w) # ps) c = polls ps (fst (snd (NetLog_PollOnce E t (c, w))))"

lemma polls_obs:
  "nl_pairs c = merges bs \<Longrightarrow> nl_allowed c = merges as \<Longrightarrow>
   nl_pairs (polls ps c) = merges (bs @ concat (map (\<lambda>(E, t, w). poll_obs True E t w) ps))
   \<and> nl_allowed (polls ps c) = merges (as @ concat (map (\<lambda>(E, t, w). poll_obs False E t w) ps))"
proof (induction ps arbitrary: c bs as)
  case Nil
  then show ?case by simp
next
  case (Cons p ps)
  obtain E t w where p: "p = (E, t, w)" by (cases p)
  obtain r c' w' where e: "NetLog_PollOnce E t (c, w) = (r, c', w')" by (metis prod_cases3)
  note n = NetLog_PollOnce_obs[OF Cons.prems e]
  from Cons.IH[OF n] e show ?case by (simp add: p)
qed

section \<open>Properties of the collectors\<close>

text \<open>
  The egress log accumulates exactly what was observed.  After any sequence of polls, those that failed
  included, there is one entry for each host and sandbox that some poll reported as denied; it carries the time
  of the first poll that reported it, and the time and the count of the last; the entries listed for a
  sandbox are those of that sandbox, and the distinct count is their number over all sandboxes.
  (Sandbox ids and names contain no vertical bar.)
\<close>

theorem netlog_exact:
  fixes ps :: "(('db, 'be) Env \<times> gotime \<times> ('db, 'be) World) list"
  assumes "os = concat (map (\<lambda>(E, t, w). poll_obs True E t w) ps)" and "c = polls ps NewNetLogCollector"
    and "\<forall>t h s n. (t, h, s, n) \<in> set os \<longrightarrow> CHR ''|'' \<notin> set s"
  shows "(\<forall>h t n. (t, h, sb, n) \<in> set os \<longrightarrow> (\<exists>p \<in> set (ForSandbox c sb). bp_Host p = h))
    \<and> (\<forall>p \<in> set (ForSandbox c sb). p = pair_of (filter (\<lambda>(t, h, s, n). h = bp_Host p \<and> s = sb) os)
         \<and> (\<exists>t n. (t, bp_Host p, sb, n) \<in> set os))
    \<and> distinct (map bp_Host (ForSandbox c sb)) \<and> DistinctCount c = card {(h, s). \<exists>t n. (t, h, s, n) \<in> set os}"
proof -
  have m: "nl_pairs c = merges os" using polls_obs[of NewNetLogCollector "[]" "[]" ps] by (simp add: assms(1,2) NewNetLogCollector_def merges_def)
  note e = merges_entry[OF _ assms(3)]
  have "(\<exists>p \<in> set (ForSandbox c sb). bp_Host p = h)" if o': "(t, h, sb, n) \<in> set os" for h t n
  proof -
    have "h @ ''|'' @ sb \<in> set (map fst (merges os))" unfolding merges_keys using o' by force
    then obtain p where p: "(h @ ''|'' @ sb, p) \<in> set (merges os)" by auto
    from e[OF p] have "h @ ''|'' @ sb = bp_Host p @ ''|'' @ bp_SandboxID p" "CHR ''|'' \<notin> set (bp_SandboxID p)" by auto
    then have "bp_Host p = h" "bp_SandboxID p = sb" using pair_key_inj assms(3) o' by metis+
    with p show ?thesis by (force simp: ForSandbox_def forSandbox_def m)
  qed
  moreover have "p = pair_of (filter (\<lambda>(t, h, s, n). h = bp_Host p \<and> s = sb) os) \<and> (\<exists>t n. (t, bp_Host p, sb, n) \<in> set os)"
    if p: "p \<in> set (ForSandbox c sb)" for p
    using p e by (auto simp: ForSandbox_def forSandbox_def m)
  moreover have "distinct (map bp_Host (ForSandbox c sb))"
  proof -
    have "distinct (map (\<lambda>p. bp_Host p @ ''|'' @ bp_SandboxID p) (map snd (merges os)))"
      using merges_distinct[of os] e by (metis (no_types, lifting) map_cong map_map o_apply prod.collapse)
    then have "distinct (map (\<lambda>p. bp_Host p @ ''|'' @ bp_SandboxID p) (ForSandbox c sb))"
      unfolding ForSandbox_def forSandbox_def m by (rule distinct_map_filter)
    then have "distinct (map ((\<lambda>h. h @ ''|'' @ sb) \<circ> bp_Host) (ForSandbox c sb))"
      by (rule iffD1[OF arg_cong[of _ _ distinct], rotated]) (auto simp: ForSandbox_def forSandbox_def)
    then show ?thesis by (metis distinct_map map_map)
  qed
  moreover have "DistinctCount c = card {(h, s). \<exists>t n. (t, h, s, n) \<in> set os}"
  proof -
    have "length (merges os) = card (set (map fst (merges os)))" using distinct_card[OF merges_distinct[of os]] by simp
    also have "\<dots> = card ((\<lambda>(h, s). h @ ''|'' @ s) ` {(h, s). \<exists>t n. (t, h, s, n) \<in> set os})"
      unfolding merges_keys by (rule arg_cong[of _ _ card]) force
    also have "\<dots> = card {(h, s). \<exists>t n. (t, h, s, n) \<in> set os}"
    proof (rule card_image, rule inj_onI)
      fix x y assume x: "x \<in> {(h, s). \<exists>t n. (t, h, s, n) \<in> set os}" and y: "y \<in> {(h, s). \<exists>t n. (t, h, s, n) \<in> set os}"
        and eq: "(case x of (h, s) \<Rightarrow> h @ ''|'' @ s) = (case y of (h, s) \<Rightarrow> h @ ''|'' @ s)"
      obtain h s h' s' where xy: "x = (h, s)" "y = (h', s')" by (cases x, cases y)
      have "CHR ''|'' \<notin> set s" "CHR ''|'' \<notin> set s'" using x y assms(3) unfolding xy by blast+
      from pair_key_inj[OF this, of h h'] eq show "x = y" unfolding xy by simp
    qed
    finally show ?thesis by (simp add: DistinctCount_def m)
  qed
  ultimately show ?thesis by blast
qed

definition egress_env :: "(mem_db, Fake) Env" where
  "egress_env = mem_env\<lparr>en_backend := (en_backend mem_env)\<lparr>be_BlockedEgress := (\<lambda>b. (Inr [\<lparr>bh_Host = ''h'', bh_VMName = ''vm'', bh_Count = 3\<rparr>], b))\<rparr>\<rparr>"

theorem netlog_exact_witness:
  "let c = polls [(egress_env, 5, mem_world), (egress_env, 9, mem_world)] NewNetLogCollector in
   map bp_Host (ForSandbox c ''vm'') = [''h''] \<and> DistinctCount c = card {(''h'', ''vm'')}"
proof -
  let ?ps = "[(egress_env, 5, mem_world), (egress_env, 9, mem_world)]"
  let ?os = "concat (map (\<lambda>(E, t, w). poll_obs True E t w) ?ps)"
  have os: "?os = [(5, ''h'', ''vm'', 3), (9, ''h'', ''vm'', 3)]" by code_simp
  have f: "map bp_Host (ForSandbox (polls ?ps NewNetLogCollector) ''vm'') = [''h'']" by code_simp
  have "{(h, s). \<exists>t n. (t, h, s, n) \<in> set ?os} = {(''h'', ''vm'')}" unfolding os by auto
  moreover have "\<forall>t h s n. (t, h, s, n) \<in> set ?os \<longrightarrow> CHR ''|'' \<notin> set s" unfolding os by auto
  ultimately show ?thesis using netlog_exact[OF refl refl, of ?ps "''vm''"] f by (simp only: Let_def)
qed

lemma safeDiv_bounds: "0 \<le> a \<Longrightarrow> 0 \<le> b \<Longrightarrow> 0 \<le> safeDiv a b" "0 \<le> a \<Longrightarrow> a \<le> b \<Longrightarrow> safeDiv a b \<le> 1"
  by (auto simp: safeDiv_def divide_le_eq_1)

lemma sum_list_le: "(\<And>x. x \<in> set xs \<Longrightarrow> f x \<le> (g x :: rat)) \<Longrightarrow> sum_list (map f xs) \<le> sum_list (map g xs)"
  by (induction xs) (auto intro: add_mono)

lemma poll_usage_exact:
  assumes "\<And>b n. snd (be_Stats (en_backend E) b n) = b"
  shows "snd (poll_usage E names got w) = w
    \<and> map_of (fst (poll_usage E names got w)) n =
        (if n \<in> set names then (case fst (be_Stats (en_backend E) (w_be w) n) of Inr u \<Rightarrow> Some u | Inl _ \<Rightarrow> map_of got n) else map_of got n)"
proof (induction names arbitrary: got)
  case Nil
  then show ?case by simp
next
  case (Cons m names)
  obtain r b where e: "be_Stats (en_backend E) (w_be w) m = (r, b)" by (rule prod.exhaust)
  then have b: "b = w_be w" using assms[of "w_be w" m] by simp
  show ?case
  proof (cases r)
    case (Inl x)
    with Cons[of got] e b show ?thesis by auto
  next
    case (Inr u)
    with Cons[of "AList.update m u got"] e b show ?thesis by (auto simp: update_conv' split: sum.splits)
  qed
qed

text \<open>
  C36: Utilization is exact and bounded.  After a successful poll the cache holds exactly the running sandboxes whose probe
  succeeded, with what it reported, and nothing of earlier polls.  When every sandbox reports between none and all
  of its cores and no negative memory, the utilization is not negative; and when the cores and the memory reported fit
  the limits, it is at most one.  (Probing does not change the backend.)
\<close>

theorem stats_poll_exact:
  assumes "Stats_PollOnce E (c, w) = (Inr (), c', w')" and "\<forall>b n. snd (be_Stats (en_backend E) b n) = b"
    and "\<forall>(n, u) \<in> set (sc_latest c'). 0 \<le> us_CPUPercent u \<and> us_CPUPercent u \<le> 100 \<and> 0 \<le> us_Cores u \<and> 0 \<le> us_MemUsedKB u"
    and "0 \<le> li_CPU (sc_limit c)" and "0 \<le> li_MemKB (sc_limit c)"
  shows "w' = w \<and> (\<exists>recs. Manager_List E w = Inr recs \<and> (\<forall>n. Stats_Latest c' n =
        (if n \<in> r_BackendName ` {r \<in> set recs. r_Status r = ''running''}
         then (case fst (be_Stats (en_backend E) (w_be w) n) of Inr u \<Rightarrow> Some u | Inl _ \<Rightarrow> None) else None)))
    \<and> 0 \<le> ut_CPU (ActualUtil c') \<and> 0 \<le> ut_Mem (ActualUtil c')
    \<and> (sum_list (map (\<lambda>(n, u). of_int (us_Cores u)) (sc_latest c')) \<le> li_CPU (sc_limit c) \<longrightarrow> ut_CPU (ActualUtil c') \<le> 1)
    \<and> (sum_list (map (\<lambda>(n, u). of_int (us_MemUsedKB u)) (sc_latest c')) \<le> li_MemKB (sc_limit c) \<longrightarrow> ut_Mem (ActualUtil c') \<le> 1)"
proof -
  obtain recs where recs: "Manager_List E w = Inr recs" using assms(1) by (auto simp: Stats_PollOnce_def namesList_def split: sum.splits)
  let ?names = "map r_BackendName (filter (\<lambda>r. r_Status r = ''running'') recs)"
  have st: "snd (be_Stats (en_backend E) b n) = b" for b n using assms(2) by blast
  note p = poll_usage_exact[OF st, of ?names "[]" w]
  have "Stats_PollOnce E (c, w) = (Inr (), c\<lparr>sc_latest := fst (poll_usage E ?names [] w),
      sc_util := usage_util (sc_limit c) (fst (poll_usage E ?names [] w))\<rparr>, snd (poll_usage E ?names [] w))"
    by (simp add: Stats_PollOnce_def namesList_def recs case_prod_beta)
  then have c': "c' = c\<lparr>sc_latest := fst (poll_usage E ?names [] w), sc_util := usage_util (sc_limit c) (fst (poll_usage E ?names [] w))\<rparr>"
    "w' = w" using assms(1) p by auto
  have sel: "sc_latest c' = fst (poll_usage E ?names [] w)" "sc_util c' = usage_util (sc_limit c) (sc_latest c')"
    by (simp_all add: c'(1))
  let ?l = "sc_latest c'"
  have u: "0 \<le> us_CPUPercent v \<and> us_CPUPercent v \<le> 100 \<and> 0 \<le> us_Cores v \<and> 0 \<le> us_MemUsedKB v" if "(n, v) \<in> set ?l" for n v
    using assms(3) that by blast
  have cpu0: "0 \<le> sum_list (map (\<lambda>(n, u). us_CPUPercent u / 100 * of_int (us_Cores u)) ?l)"
    using u by (intro sum_list_nonneg) auto
  have mem0: "0 \<le> sum_list (map (\<lambda>(n, u). (of_int (us_MemUsedKB u) :: rat)) ?l)"
    using u by (intro sum_list_nonneg) auto
  have cpu1: "sum_list (map (\<lambda>(n, u). us_CPUPercent u / 100 * of_int (us_Cores u)) ?l) \<le> sum_list (map (\<lambda>(n, u). of_int (us_Cores u)) ?l)"
  proof (rule sum_list_le)
    fix x assume x: "x \<in> set ?l"
    obtain n v where xe: "x = (n, v)" by (rule prod.exhaust)
    have "us_CPUPercent v / 100 * of_int (us_Cores v) \<le> 1 * (of_int (us_Cores v) :: rat)"
      using u[of n v] x unfolding xe by (intro mult_right_mono) auto
    then show "(case x of (n, u) \<Rightarrow> us_CPUPercent u / 100 * of_int (us_Cores u)) \<le> (case x of (n, u) \<Rightarrow> of_int (us_Cores u))"
      by (simp add: xe)
  qed
  have lat: "Stats_Latest c' n = (if n \<in> r_BackendName ` {r \<in> set recs. r_Status r = ''running''}
         then (case fst (be_Stats (en_backend E) (w_be w) n) of Inr u \<Rightarrow> Some u | Inl _ \<Rightarrow> None) else None)" for n
    using poll_usage_exact[OF st, of ?names "[]" w n] by (auto simp: Stats_Latest_def sel(1) split: sum.splits)
  have util: "ut_CPU (ActualUtil c') = safeDiv (sum_list (map (\<lambda>(n, u). us_CPUPercent u / 100 * of_int (us_Cores u)) ?l)) (li_CPU (sc_limit c))"
    "ut_Mem (ActualUtil c') = safeDiv (sum_list (map (\<lambda>(n, u). of_int (us_MemUsedKB u)) ?l)) (li_MemKB (sc_limit c))"
    by (simp_all add: ActualUtil_def sel(2) usage_util_def Let_def)
  show ?thesis
    using c'(2) recs lat safeDiv_bounds(1)[OF cpu0 assms(4)] safeDiv_bounds(1)[OF mem0 assms(5)] safeDiv_bounds(2)[OF cpu0] safeDiv_bounds(2)[OF mem0]
      cpu1 order_trans[OF cpu1] unfolding util by blast
qed

theorem stats_poll_exact_witness:
  "\<exists>c' w'. Stats_PollOnce mem_env (NewStatsCollector (DefaultProvisionLimit 4), mem_world1) = (Inr (), c', w')
     \<and> 0 \<le> ut_CPU (ActualUtil c') \<and> ut_CPU (ActualUtil c') \<le> 1 \<and> w' = mem_world1"
proof -
  let ?c = "NewStatsCollector (DefaultProvisionLimit 4)"
  obtain c' w' where e: "Stats_PollOnce mem_env (?c, mem_world1) = (Inr (), c', w')"
  proof -
    have "fst (Stats_PollOnce mem_env (?c, mem_world1)) = Inr ()" by code_simp
    then show ?thesis using that by (metis prod.collapse)
  qed
  then have c': "c' = fst (snd (Stats_PollOnce mem_env (?c, mem_world1)))" by simp
  have st: "\<forall>b n. snd (be_Stats (en_backend mem_env) b n) = b" by (auto simp: mem_env_def fake_backend_def Fake_Stats_def Fake_Get_def split: option.splits prod.splits sum.splits)
  have "list_all (\<lambda>(n, u). 0 \<le> us_CPUPercent u \<and> us_CPUPercent u \<le> 100 \<and> 0 \<le> us_Cores u \<and> 0 \<le> us_MemUsedKB u) (sc_latest c')"
    unfolding c' by code_simp
  then have u: "\<forall>(n, u) \<in> set (sc_latest c'). 0 \<le> us_CPUPercent u \<and> us_CPUPercent u \<le> 100 \<and> 0 \<le> us_Cores u \<and> 0 \<le> us_MemUsedKB u"
    by (simp add: list_all_iff)
  have s: "sum_list (map (\<lambda>(n, u). of_int (us_Cores u)) (sc_latest c')) \<le> li_CPU (sc_limit ?c)"
    unfolding c' by code_simp
  have l: "0 \<le> li_CPU (sc_limit ?c)" "0 \<le> li_MemKB (sc_limit ?c)" by (simp_all add: NewStatsCollector_def DefaultProvisionLimit_def)
  from stats_poll_exact[OF e st u l] s e show ?thesis by blast
qed

section \<open>Paths\<close>

lemma split_at_last:
  fixes c :: char
  assumes "q @ c # x = s @ c # y" "c \<notin> set x" "c \<notin> set y"
  shows "x = y"
proof -
  have "last_index_byte c (q @ c # x) = last_index_byte c (s @ c # y)" using assms(1) by simp
  then have "length q = length s" using assms(2,3) by (simp add: last_index_byte_append)
  then show ?thesis using assms(1) by simp
qed

lemma pathID_Some:
  assumes "pathID p suf = Some i" "CHR ''/'' \<notin> set suf"
  shows "i \<noteq> ''''" "CHR ''/'' \<notin> set i" "p = ''/v1/sandboxes/'' @ i @ ''/'' @ suf \<or> (p = ''/v1/sandboxes/'' @ suf \<and> i = suf)"
proof -
  from assms(1) have pre: "prefix ''/v1/sandboxes/'' p" and su: "suffix (''/'' @ suf) p"
    and i: "i = trim_suffix (trim_prefix p ''/v1/sandboxes/'') (''/'' @ suf)" "i \<noteq> ''''" "CHR ''/'' \<notin> set i"
    by (auto simp: pathID_def Let_def split: if_splits)
  obtain rest where p: "p = ''/v1/sandboxes/'' @ rest" using pre by (auto simp: prefix_def)
  then have r: "trim_prefix p ''/v1/sandboxes/'' = rest" by (simp only: trim_prefix_append)
  show "i \<noteq> ''''" "CHR ''/'' \<notin> set i" by fact+
  show "p = ''/v1/sandboxes/'' @ i @ ''/'' @ suf \<or> (p = ''/v1/sandboxes/'' @ suf \<and> i = suf)"
  proof (cases "suffix (''/'' @ suf) rest")
    case True
    then obtain j where "rest = j @ ''/'' @ suf" by (auto simp: suffix_def)
    then show ?thesis using i(1) r p by (simp add: trim_suffix_append[of j "''/'' @ suf", simplified])
  next
    case False
    then have ir: "i = rest" using i(1) r by (simp add: trim_suffix_def)
    from su obtain q where "p = q @ ''/'' @ suf" by (auto simp: suffix_def)
    then have "q @ CHR ''/'' # suf = ''/v1/sandboxes'' @ CHR ''/'' # rest" using p by simp
    then have "suf = rest" by (rule split_at_last[OF _ assms(2) i(3)[unfolded ir]])
    then show ?thesis using ir p by simp
  qed
qed

text \<open>
  The handlers and the proxy read the same sandbox out of a path.  Whenever a path is taken as the logs, the usage, the
  terminal or the files of a sandbox, the id is the one by which the proxy in front of them has decided where the
  sandbox is; so no request for another node's sandbox is served by the local handlers under another id.
\<close>

theorem path_ids_agree:
  assumes "pathID p ''logs'' = Some i \<or> pathID p ''stats'' = Some i \<or> terminalSandboxID p = Some i \<or> filesSandboxID p = Some i"
  shows "sandboxPathID p = Some i"
proof -
  have t: "terminalSandboxID p = pathID p ''terminal''" by (simp add: terminalSandboxID_def pathID_def)
  have f: "filesSandboxID p = pathID p ''files''" by (simp add: filesSandboxID_def pathID_def)
  from assms obtain suf where s: "pathID p suf = Some i" "CHR ''/'' \<notin> set suf" unfolding t f by auto
  note q = pathID_Some[OF s]
  show ?thesis
    using q(3) sandboxPathID_append[OF q(1,2), of "''/'' @ suf"] sandboxPathID_append[OF q(1,2), of "''''"] by auto
qed

theorem path_ids_agree_witness: "sandboxPathID ''/v1/sandboxes/n2.x/terminal'' = Some ''n2.x''"
  using path_ids_agree[of "''/v1/sandboxes/n2.x/terminal''" "''n2.x''"] by code_simp

text \<open>
  The path of a sandbox whose id is the name of a subresource is taken for that subresource: the slash is shared by prefix and suffix,
  against the documented shape.
\<close>

theorem pathID_shared_slash:
  assumes "suf \<noteq> ''''" and "CHR ''/'' \<notin> set suf"
  shows "pathID (''/v1/sandboxes/'' @ suf) suf = Some suf"
proof -
  have "suffix (''/'' @ suf) (''/v1/sandboxes/'' @ suf)" by (rule suffixI[of _ "''/v1/sandboxes''"]) simp
  moreover have "trim_prefix (''/v1/sandboxes/'' @ suf) ''/v1/sandboxes/'' = suf" by (rule trim_prefix_append)
  moreover have "trim_suffix suf (''/'' @ suf) = suf" by (auto simp: trim_suffix_def dest: suffix_length_le)
  moreover have "prefix ''/v1/sandboxes/'' (''/v1/sandboxes/'' @ suf)" by (rule prefixI) simp
  ultimately show ?thesis using assms unfolding pathID_def Let_def by simp
qed

theorem pathID_shared_slash_witness: "pathID ''/v1/sandboxes/logs'' ''logs'' = Some ''logs''"
  using pathID_shared_slash[of "''logs''"] by simp

section \<open>The terminal's bridge\<close>

text \<open>A session that records what it is given.\<close>

datatype term_input = Stdin string | Resize int int

definition recording :: "term_input list Session" where
  "recording = \<lparr>se_Write = (\<lambda>t d. (True, t @ [Stdin d])), se_Resize = (\<lambda>t c r. t @ [Resize c r])\<rparr>"

text \<open>
  The bridge delivers the keystrokes and nothing else.  What reaches the shell's input is the concatenation of the binary
  messages, in order; a text message is never typed into the shell, it resizes the terminal if it is a resize
  request and is dropped otherwise.  In the other direction the socket gets the shell's output, in order.
\<close>

theorem bridge_exact:
  "bridge_in unmarshal recording ms t = t @ concat (map (\<lambda>m. case m of
       MessageBinary d \<Rightarrow> [Stdin d]
     | MessageText d \<Rightarrow> (case unmarshal d of Some r \<Rightarrow> if rm_Type r = ''resize'' then [Resize (rm_Cols r) (rm_Rows r)] else [] | None \<Rightarrow> [])) ms)
   \<and> concat (map (\<lambda>m. case m of MessageBinary d \<Rightarrow> d | MessageText d \<Rightarrow> d) (bridge_out (\<lambda>_. True) ds)) = concat ds"
proof
  show "bridge_in unmarshal recording ms t = t @ concat (map (\<lambda>m. case m of
       MessageBinary d \<Rightarrow> [Stdin d]
     | MessageText d \<Rightarrow> (case unmarshal d of Some r \<Rightarrow> if rm_Type r = ''resize'' then [Resize (rm_Cols r) (rm_Rows r)] else [] | None \<Rightarrow> [])) ms)"
  proof (induction ms arbitrary: t)
    case (Cons m ms)
    then show ?case by (cases m) (auto simp: recording_def split: option.splits)
  qed simp
  show "concat (map (\<lambda>m. case m of MessageBinary d \<Rightarrow> d | MessageText d \<Rightarrow> d) (bridge_out (\<lambda>_. True) ds)) = concat ds"
    by (induction ds) auto
qed

end
