(* ===== verification/Server.thy ===== *)
theory Server
  imports Observe
begin

text \<open>
  The server's surface: the health endpoints (\<^verbatim>\<open>internal/obs/obs.go\<close>), the multiplexer of gRPC and REST (\<^verbatim>\<open>apiserver/mux.go\<close>),
  and the tree of HTTP handlers that \<^verbatim>\<open>apiserver.Build\<close> composes (\<^verbatim>\<open>server.go\<close>).  The leaves of the tree are the handlers of the
  other theories, given as parameters here; what is proved is which of them a request can reach, and with what role.
\<close>

section \<open>Health\<close>

text \<open>\<open>metrics\<close> is the text that the metrics registry renders.\<close>

definition Health_Handler :: "bool \<Rightarrow> string \<Rightarrow> 's handler" where
  "Health_Handler ready metrics r s =
     (let reply = (\<lambda>code body. (\<lparr>rs_Code = code, rs_Header = [], rs_Cookies = [], rs_Body = body\<rparr>, s))
      in if rq_Path r = ''/healthz'' then reply 200 ''ok''
         else if rq_Path r = ''/readyz'' then (if ready then reply 200 ''ready'' else reply 503 ''not ready'')
         else if rq_Path r = ''/metrics'' then reply 200 metrics
         else http_Error ''404 page not found'' 404 s)"

section \<open>The handler tree\<close>

definition Multiplex :: "'s handler \<Rightarrow> 's handler \<Rightarrow> 's handler" where
  "Multiplex grpcH otherH r s =
     (if rq_ProtoMajor r = 2 \<and> prefix ''application/grpc'' (Get (rq_Header r) ''Content-Type'') then grpcH r s else otherH r s)"

text \<open>What is wired: the sandbox service (and whether its collectors are), events, routing with pins, and health with its readiness.\<close>

record Options =
  op_Sandboxes :: bool
  op_streamReady :: bool
  op_Events :: bool
  op_Routing :: "Table option"
  op_Pins :: "(string \<Rightarrow> PublicKey option) option"
  op_Health :: "(bool \<times> string) option"

text \<open>The leaves: the gateway, the stream and file handlers, the terminal, the session exchange, the event stream and the console's files.\<close>

record 's Leaves =
  lv_gw :: "'s handler"
  lv_logs :: "'s handler"
  lv_stats :: "'s handler"
  lv_terminal :: "'s handler"
  lv_files :: "'s handler"
  lv_proxy :: "PublicKey \<Rightarrow> string \<Rightarrow> 's handler"
  lv_session :: "'s handler"
  lv_events :: "'s handler"
  lv_static :: "'s handler"

definition v1_handler :: "Options \<Rightarrow> 's Leaves \<Rightarrow> 's handler" where
  "v1_handler opts L =
     (let v1 = lv_gw L;
          v1 = (if op_Sandboxes opts \<and> op_streamReady opts then observeStreamMux (lv_logs L) (lv_stats L) (lv_gw L) else v1);
          v1 = (if op_Sandboxes opts
                then filesMux (RequireRole ''admin'' (lv_files L)) (terminalMux (RequireRole ''admin'' (lv_terminal L)) v1) else v1)
      in case op_Routing opts of
           None \<Rightarrow> v1
         | Some tbl \<Rightarrow> OwnerProxy (lv_proxy L) (Some tbl) (case op_Pins opts of None \<Rightarrow> (\<lambda>_. None) | Some pins \<Rightarrow> pins) v1)"

text \<open>
  \<^verbatim>\<open>http.ServeMux\<close>: a path that is not clean is redirected to its clean form (not for \<^verbatim>\<open>CONNECT\<close>), a subtree's path without the
  final slash is redirected to it, and otherwise the longest pattern that matches decides.
\<close>

definition cleanPath :: "string \<Rightarrow> string" where
  "cleanPath p =
     (if p = '''' then ''/''
      else let p = (if prefix ''/'' p then p else ''/'' @ p); np = path_Clean p
           in if suffix ''/'' p \<and> np \<noteq> ''/'' then np @ ''/'' else np)"

definition redirect :: "string \<Rightarrow> 's \<Rightarrow> Response \<times> 's" where
  "redirect to s = (\<lparr>rs_Code = 301, rs_Header = [(''Location'', to)], rs_Cookies = [], rs_Body = ''''\<rparr>, s)"

definition Build_rest ::
  "Crypto \<Rightarrow> (string \<Rightarrow> string option) \<Rightarrow> string \<Rightarrow> gotime \<Rightarrow> Options \<Rightarrow> 's Leaves \<Rightarrow> 's handler" where
  "Build_rest C keys key t opts L r s =
     (let p = rq_Path r
      in if rq_Method r \<noteq> ''CONNECT'' \<and> cleanPath p \<noteq> p then redirect (cleanPath p) s
         else if p = ''/v1/auth/session'' then lv_session L r s
         else if p = ''/v1/events'' \<and> op_Events opts then Authenticate C keys key t (lv_events L) r s
         else if prefix ''/v1/'' p then Authenticate C keys key t (v1_handler opts L) r s
         else if p = ''/v1'' then redirect ''/v1/'' s
         else case op_Health opts of
                Some (ready, metrics) \<Rightarrow>
                  if p = ''/healthz'' \<or> p = ''/readyz'' \<or> p = ''/metrics'' then Health_Handler ready metrics r s else lv_static L r s
              | None \<Rightarrow> lv_static L r s)"

definition Build ::
  "Crypto \<Rightarrow> (string \<Rightarrow> string option) \<Rightarrow> string \<Rightarrow> gotime \<Rightarrow> Options \<Rightarrow> 's Leaves \<Rightarrow> 's handler \<Rightarrow> 's handler \<times> 's handler" where
  "Build C keys key t opts L grpcSrv = (Multiplex grpcSrv (Build_rest C keys key t opts L), Build_rest C keys key t opts L)"

section \<open>What a request can reach\<close>

definition credential :: "Crypto \<Rightarrow> (string \<Rightarrow> string option) \<Rightarrow> string \<Rightarrow> gotime \<Rightarrow> HTTPRequest \<Rightarrow> string \<Rightarrow> bool" where
  "credential C keys key t r role \<longleftrightarrow>
     (\<exists>k. Get (rq_Header r) ''Authorization'' = ''Bearer '' @ k \<and> keys k = Some role)
     \<or> (\<exists>e x. map_of (rq_Cookies r) SessionCookie = Some (role @ ''|'' @ x @ ''|'' @ sign C key (role @ ''|'' @ x))
          \<and> parse_int64 x = Some e \<and> t \<le> e * second \<and> (isSafeMethod (rq_Method r) \<or> csrfOK r))"

text \<open>Where the routing table places the sandbox that a path names, if it is another node's.\<close>

definition remote_owner :: "Options \<Rightarrow> string \<Rightarrow> (string \<times> string) option" where
  "remote_owner opts p =
     (case (op_Routing opts, sandboxPathID p) of
        (Some tbl, Some i) \<Rightarrow>
          if CHR ''.'' \<notin> set i \<or> Table_IsLocal tbl i then None
          else (case Table_Owner i of
                  None \<Rightarrow> None
                | Some owner \<Rightarrow> map_option (\<lambda>addr. (owner, addr)) (Table_Addr tbl owner))
      | _ \<Rightarrow> None)"

lemma RequireRole_admin:
  "rq_role r = Some role \<Longrightarrow> RequireRole ''admin'' h r s = (if role = ''admin'' then h r s else http_Error ''forbidden'' 403 s)"
  by (simp add: RequireRole_def)

lemma v1_reach:
  assumes "rq_role r = Some role"
  shows "(case remote_owner opts (rq_Path r) of
       Some (owner, addr) \<Rightarrow>
         (\<exists>pin. (case op_Pins opts of None \<Rightarrow> None | Some pins \<Rightarrow> pins owner) = Some pin \<and> v1_handler opts L r s = lv_proxy L pin addr r s)
         \<or> v1_handler opts L r s = http_Error ''no TLS pin known for owner node'' 502 s
     | None \<Rightarrow>
         v1_handler opts L r s \<in> {lv_gw L r s, lv_logs L r s, lv_stats L r s, http_Error ''forbidden'' 403 s}
         \<or> (role = ''admin'' \<and> v1_handler opts L r s \<in> {lv_files L r s, lv_terminal L r s}))"
proof -
  let ?inner = "if op_Sandboxes opts
      then filesMux (RequireRole ''admin'' (lv_files L)) (terminalMux (RequireRole ''admin'' (lv_terminal L))
             (if op_streamReady opts then observeStreamMux (lv_logs L) (lv_stats L) (lv_gw L) else lv_gw L)) else lv_gw L"
  have "?inner r s \<in> {lv_gw L r s, lv_logs L r s, lv_stats L r s, http_Error ''forbidden'' 403 s}
      \<or> (role = ''admin'' \<and> ?inner r s \<in> {lv_files L r s, lv_terminal L r s})"
    by (auto simp: filesMux_def terminalMux_def observeStreamMux_def RequireRole_admin[OF assms] split: option.splits)
  moreover have "v1_handler opts L r s = (case remote_owner opts (rq_Path r) of
       Some (owner, addr) \<Rightarrow>
         (case (case op_Pins opts of None \<Rightarrow> None | Some pins \<Rightarrow> pins owner) of
            Some pin \<Rightarrow> lv_proxy L pin addr r s | None \<Rightarrow> http_Error ''no TLS pin known for owner node'' 502 s)
     | None \<Rightarrow> ?inner r s)"
    by (auto simp: v1_handler_def Let_def OwnerProxy_def remote_owner_def split: option.splits)
  ultimately show ?thesis by (auto split: option.splits)
qed

lemma redirect_idle: "\<exists>resp. redirect to s = (resp, s)"
  by (simp add: redirect_def)

lemma Health_idle: "\<exists>resp. Health_Handler ready metrics r s = (resp, s)"
  by (simp add: Health_Handler_def http_Error_def Let_def)

lemma Build_rest_cases:
  fixes C keys key t opts L r s
  defines "R \<equiv> Build_rest C keys key t opts L r s"
  obtains (idle) resp where "R = (resp, s)" | (session) "rq_Path r = ''/v1/auth/session''" "R = lv_session L r s"
    | (static) "\<not> prefix ''/v1/'' (rq_Path r)" "R = lv_static L r s"
    | (events) "rq_Path r = ''/v1/events''" "R = Authenticate C keys key t (lv_events L) r s"
    | (v1) "R = Authenticate C keys key t (v1_handler opts L) r s"
proof -
  note R = Build_rest_def[of C keys key t opts L r s, folded R_def, unfolded Let_def]
  show thesis
  proof (cases "rq_Method r \<noteq> ''CONNECT'' \<and> cleanPath (rq_Path r) \<noteq> rq_Path r")
    case True
    then have "R = redirect (cleanPath (rq_Path r)) s" unfolding R by (rule if_P)
    then show thesis using idle redirect_idle by metis
  next
    case a: False
    show thesis
    proof (cases "rq_Path r = ''/v1/auth/session''")
      case True
      have "R = lv_session L r s" unfolding R if_not_P[OF a] if_P[OF True] ..
      with True show thesis by (rule session)
    next
      case b: False
      show thesis
      proof (cases "rq_Path r = ''/v1/events'' \<and> op_Events opts")
        case True
        have "R = Authenticate C keys key t (lv_events L) r s" unfolding R if_not_P[OF a] if_not_P[OF b] if_P[OF True] ..
        with conjunct1[OF True] show thesis by (rule events)
      next
        case c: False
        show thesis
        proof (cases "prefix ''/v1/'' (rq_Path r)")
          case True
          have "R = Authenticate C keys key t (v1_handler opts L) r s"
            unfolding R if_not_P[OF a] if_not_P[OF b] if_not_P[OF c] if_P[OF True] ..
          then show thesis by (rule v1)
        next
          case d: False
          have r: "R = (if rq_Path r = ''/v1'' then redirect ''/v1/'' s
              else case op_Health opts of Some (ready, metrics) \<Rightarrow>
                  if rq_Path r = ''/healthz'' \<or> rq_Path r = ''/readyz'' \<or> rq_Path r = ''/metrics'' then Health_Handler ready metrics r s else lv_static L r s
              | None \<Rightarrow> lv_static L r s)"
            unfolding R if_not_P[OF a] if_not_P[OF b] if_not_P[OF c] if_not_P[OF d] ..
          then consider "R = redirect ''/v1/'' s" | "R = lv_static L r s" | ready metrics where "R = Health_Handler ready metrics r s"
            by (auto split: if_splits option.splits)
          then show thesis
          proof cases
            case 1
            then show thesis using idle by (simp add: redirect_def)
          next
            case 2
            with d show thesis by (rule static)
          next
            case (3 ready metrics)
            obtain resp where "Health_Handler ready metrics r s = (resp, s)" using Health_idle[of ready metrics r s] by (rule exE)
            with 3 show thesis using idle by simp
          qed
        qed
      qed
    qed
  qed
qed

text \<open>
  C9: What an HTTP request can reach.  Every request is answered without any effect (refused, redirected, or a health report), or
  is the session exchange, or asks for a console file outside the API, or carries a valid credential.  With a credential it
  reaches, in the role of that credential, the event stream; or, when the sandbox it names is of a known
  other node, only the proxy to that node, pinned to its key; or else the local handlers, of which the file transfer and
  the terminal run for administrators only.
\<close>

theorem rest_surface_safe:
  "(\<exists>resp. Build_rest C keys key t opts L r s = (resp, s))
   \<or> (rq_Path r = ''/v1/auth/session'' \<and> Build_rest C keys key t opts L r s = lv_session L r s)
   \<or> (\<not> prefix ''/v1/'' (rq_Path r) \<and> Build_rest C keys key t opts L r s = lv_static L r s)
   \<or> (\<exists>role r'. credential C keys key t r role \<and> r' = r\<lparr>rq_role := Some role\<rparr>
        \<and> ((rq_Path r = ''/v1/events'' \<and> Build_rest C keys key t opts L r s = lv_events L r' s)
           \<or> (\<exists>owner addr pin. remote_owner opts (rq_Path r) = Some (owner, addr)
                \<and> (case op_Pins opts of None \<Rightarrow> None | Some pins \<Rightarrow> pins owner) = Some pin
                \<and> Build_rest C keys key t opts L r s = lv_proxy L pin addr r' s)
           \<or> (remote_owner opts (rq_Path r) = None
                \<and> (Build_rest C keys key t opts L r s \<in> {lv_gw L r' s, lv_logs L r' s, lv_stats L r' s}
                   \<or> (role = ''admin'' \<and> Build_rest C keys key t opts L r s \<in> {lv_files L r' s, lv_terminal L r' s})))))"
proof -
  have auth: "(\<exists>resp. Authenticate C keys key t h r s = (resp, s))
      \<or> (\<exists>role. credential C keys key t r role \<and> Authenticate C keys key t h r s = h (r\<lparr>rq_role := Some role\<rparr>) s)" for h
    using Authenticate_sound[of C keys key t h r s] unfolding credential_def http_Error_def by blast
  let ?R = "Build_rest C keys key t opts L r s"
  show ?thesis
  proof (cases rule: Build_rest_cases[of C keys key t opts L r s])
    case v1
    show ?thesis
    proof (cases "\<exists>resp. ?R = (resp, s)")
      case False
      with auth[of "v1_handler opts L"] v1 obtain role where role: "credential C keys key t r role"
        "?R = v1_handler opts L (r\<lparr>rq_role := Some role\<rparr>) s" by auto
      let ?r = "r\<lparr>rq_role := Some role\<rparr>"
      have nb: "?R \<noteq> http_Error msg code s" for msg code using False by (auto simp: http_Error_def)
      have p: "rq_role ?r = Some role" "rq_Path ?r = rq_Path r" by simp_all
      note v = v1_reach[OF p(1), of opts L s, unfolded p(2), folded role(2)]
      have "(\<exists>owner addr pin. remote_owner opts (rq_Path r) = Some (owner, addr)
                \<and> (case op_Pins opts of None \<Rightarrow> None | Some pins \<Rightarrow> pins owner) = Some pin \<and> ?R = lv_proxy L pin addr ?r s)
           \<or> (remote_owner opts (rq_Path r) = None \<and> (?R \<in> {lv_gw L ?r s, lv_logs L ?r s, lv_stats L ?r s}
                   \<or> (role = ''admin'' \<and> ?R \<in> {lv_files L ?r s, lv_terminal L ?r s})))"
        using v nb by (cases "remote_owner opts (rq_Path r)") auto
      with role(1) show ?thesis by blast
    qed blast
  next
    case events
    then show ?thesis using auth[of "lv_events L"] by auto
  qed blast+
qed

end
