(* ===== verification/NodeMain.thy ===== *)
theory NodeMain
  imports Server
begin

text \<open>
  The node's periodic work (\<^verbatim>\<open>internal/node/node.go\<close>): the ticker that polls usage, counts sandboxes for the metrics
  (\<^verbatim>\<open>internal/obs/metrics.go\<close>), takes observed work as activity, reconciles and re-advertises the node's state, with
  its edge-triggered log; the state a node gossips and lists; and starting and stopping it.
\<close>

section \<open>Metrics\<close>

record Metrics =
  mt_sandboxes :: "(string, int) gomap"
  mt_actualUtil :: "(string, rat) gomap"
  mt_ops :: "(string \<times> string, int) gomap"

definition NewMetrics :: Metrics where
  "NewMetrics = \<lparr>mt_sandboxes = [], mt_actualUtil = [], mt_ops = []\<rparr>"

definition SetSandboxes :: "string \<Rightarrow> int \<Rightarrow> Metrics \<Rightarrow> Metrics" where
  "SetSandboxes status n m = m\<lparr>mt_sandboxes := AList.update status n (mt_sandboxes m)\<rparr>"

definition ResetSandboxes :: "Metrics \<Rightarrow> Metrics" where
  "ResetSandboxes m = m\<lparr>mt_sandboxes := []\<rparr>"

definition SetActualUtil :: "rat \<Rightarrow> rat \<Rightarrow> Metrics \<Rightarrow> Metrics" where
  "SetActualUtil cpu mem m = m\<lparr>mt_actualUtil := AList.update ''mem'' mem (AList.update ''cpu'' cpu (mt_actualUtil m))\<rparr>"

definition IncOp :: "string \<Rightarrow> string \<Rightarrow> Metrics \<Rightarrow> Metrics" where
  "IncOp opType state m =
     m\<lparr>mt_ops := AList.update (opType, state) (1 + (case map_of (mt_ops m) (opType, state) of None \<Rightarrow> 0 | Some n \<Rightarrow> n)) (mt_ops m)\<rparr>"

section \<open>Edge-triggered logging\<close>

record edgeLog =
  el_failing :: bool
  el_streak :: nat
  el_lastErr :: string

definition edgeLog_zero :: edgeLog where
  "edgeLog_zero = \<lparr>el_failing = False, el_streak = 0, el_lastErr = ''''\<rparr>"

definition reWarnEvery :: nat where "reWarnEvery = 30"

datatype log_line = LogWarn string string | LogInfo string

text \<open>\<open>txt\<close> is the text of the error.  The result is the new state and the lines logged.\<close>

definition edge_warn :: "string \<Rightarrow> string \<Rightarrow> edgeLog \<Rightarrow> edgeLog \<times> log_line list" where
  "edge_warn msg txt e =
     (let e = e\<lparr>el_streak := Suc (el_streak e)\<rparr>; changed = txt \<noteq> el_lastErr e
      in if \<not> el_failing e \<or> changed \<or> el_streak e mod reWarnEvery = 0
         then (e\<lparr>el_lastErr := txt, el_failing := True\<rparr>, [LogWarn msg txt])
         else (e\<lparr>el_failing := True\<rparr>, []))"

definition edge_recovered :: "string \<Rightarrow> edgeLog \<Rightarrow> edgeLog \<times> log_line list" where
  "edge_recovered msg e = (edgeLog_zero, if el_failing e then [LogInfo msg] else [])"

record tickerEdges =
  te_stats :: edgeLog
  te_list :: edgeLog
  te_reconcile :: edgeLog
  te_templates :: edgeLog

section \<open>The ticker\<close>

text \<open>
  What the closures of \<^verbatim>\<open>New\<close> share: the collector, the metrics, the edges, the cluster (\<open>None\<close> in standalone mode), the shared state of the
  components, and the log so far.
\<close>

record ('db, 'be) NodeRun =
  nr_stats :: StatsCollector
  nr_metrics :: Metrics
  nr_edges :: tickerEdges
  nr_cluster :: "'db Cluster option"
  nr_world :: "('db, 'be) World"
  nr_log :: "log_line list"

definition logged :: "log_line list \<Rightarrow> ('db, 'be) NodeRun \<Rightarrow> ('db, 'be) NodeRun" where
  "logged ls n = n\<lparr>nr_log := nr_log n @ ls\<rparr>"

definition pollStats :: "('db, 'be) Env \<Rightarrow> (go_error \<Rightarrow> string) \<Rightarrow> ('db, 'be) NodeRun \<Rightarrow> ('db, 'be) NodeRun" where
  "pollStats E errText n =
     (let (r, c, w) = Stats_PollOnce E (nr_stats n, nr_world n);
          (e, ls) = (case r of
             Inl err \<Rightarrow> edge_warn ''poll sandbox stats failed'' (errText err) (te_stats (nr_edges n))
           | Inr _ \<Rightarrow> edge_recovered ''poll sandbox stats recovered'' (te_stats (nr_edges n)))
      in logged ls (n\<lparr>nr_stats := c, nr_world := w, nr_edges := (nr_edges n)\<lparr>te_stats := e\<rparr>\<rparr>))"

definition listSandboxRecords ::
  "('db, 'be) Env \<Rightarrow> (go_error \<Rightarrow> string) \<Rightarrow> ('db, 'be) NodeRun \<Rightarrow> Record list option \<times> ('db, 'be) NodeRun" where
  "listSandboxRecords E errText n =
     (case Manager_List E (nr_world n) of
        Inl err \<Rightarrow>
          let (e, ls) = edge_warn ''list sandboxes failed'' (errText err) (te_list (nr_edges n))
          in (None, logged ls (n\<lparr>nr_edges := (nr_edges n)\<lparr>te_list := e\<rparr>\<rparr>))
      | Inr recs \<Rightarrow>
          let (e, ls) = edge_recovered ''list sandboxes recovered'' (te_list (nr_edges n))
          in (Some recs, logged ls (n\<lparr>nr_edges := (nr_edges n)\<lparr>te_list := e\<rparr>\<rparr>)))"

definition reconcileSandboxes :: "('db, 'be) Env \<Rightarrow> (go_error \<Rightarrow> string) \<Rightarrow> ('db, 'be) NodeRun \<Rightarrow> ('db, 'be) NodeRun" where
  "reconcileSandboxes E errText n =
     (let (r, w) = Manager_Reconcile E (nr_world n);
          (e, ls) = (case r of
             Inl err \<Rightarrow> edge_warn ''reconcile failed'' (errText err) (te_reconcile (nr_edges n))
           | Inr _ \<Rightarrow> edge_recovered ''reconcile recovered'' (te_reconcile (nr_edges n)))
      in logged ls (n\<lparr>nr_world := w, nr_edges := (nr_edges n)\<lparr>te_reconcile := e\<rparr>\<rparr>))"

definition refreshLocalState :: "('db, 'be) Env \<Rightarrow> (go_error \<Rightarrow> string) \<Rightarrow> ('db, 'be) NodeRun \<Rightarrow> ('db, 'be) NodeRun" where
  "refreshLocalState E errText n =
     (case nr_cluster n of
        None \<Rightarrow> n
      | Some cl \<Rightarrow>
          let (rc, rm, rd) = Capacity_Snapshot (w_cap (nr_world n)); au = ActualUtil (nr_stats n);
              cl = UpdateLocalLoad rc rm rd (ut_CPU au) (ut_Mem au) cl;
              (r, b) = be_ListTemplates (en_backend E) (w_be (nr_world n));
              n = n\<lparr>nr_world := (nr_world n)\<lparr>w_be := b\<rparr>\<rparr>
          in (case r of
                Inr tmpls \<Rightarrow>
                  let (e, ls) = edge_recovered ''list templates recovered'' (te_templates (nr_edges n))
                  in logged ls (n\<lparr>nr_cluster := Some (UpdateLocalTemplates tmpls cl), nr_edges := (nr_edges n)\<lparr>te_templates := e\<rparr>\<rparr>)
              | Inl err \<Rightarrow>
                  let (e, ls) = edge_warn ''list templates failed, keeping previously advertised list'' (errText err) (te_templates (nr_edges n))
                  in logged ls (n\<lparr>nr_cluster := Some cl, nr_edges := (nr_edges n)\<lparr>te_templates := e\<rparr>\<rparr>)))"

definition cpuActiveThreshold :: rat where "cpuActiveThreshold = 5"

text \<open>The loop over the records: the counts by status, and the activity of the busy ones.\<close>

definition count_status :: "Record list \<Rightarrow> (string, int) gomap" where
  "count_status recs =
     fold (\<lambda>r counts. AList.update (r_Status r) (1 + (case map_of counts (r_Status r) of None \<Rightarrow> 0 | Some n \<Rightarrow> n)) counts) recs []"

definition busy :: "StatsCollector \<Rightarrow> Record \<Rightarrow> bool" where
  "busy c r \<longleftrightarrow> r_Status r = ''running''
     \<and> (case Stats_Latest c (r_BackendName r) of None \<Rightarrow> False | Some u \<Rightarrow> cpuActiveThreshold \<le> us_CPUPercent u)"

definition bump_busy :: "('db, 'be) Env \<Rightarrow> StatsCollector \<Rightarrow> Record list \<Rightarrow> ('db, 'be) World \<Rightarrow> ('db, 'be) World" where
  "bump_busy E c recs w = fold (\<lambda>r w. if busy c r then snd (Manager_BumpActivity E (r_ID r) w) else w) recs w"

definition status_tick :: "('db, 'be) Env \<Rightarrow> (go_error \<Rightarrow> string) \<Rightarrow> bool \<Rightarrow> ('db, 'be) NodeRun \<Rightarrow> ('db, 'be) NodeRun" where
  "status_tick E errText idleEnabled n =
     (let n = pollStats E errText n;
          au = ActualUtil (nr_stats n);
          n = n\<lparr>nr_metrics := SetActualUtil (ut_CPU au) (ut_Mem au) (nr_metrics n)\<rparr>;
          (recs, n) = listSandboxRecords E errText n;
          n = (case recs of
                 None \<Rightarrow> n
               | Some recs \<Rightarrow>
                   n\<lparr>nr_world := (if idleEnabled then bump_busy E (nr_stats n) recs (nr_world n) else nr_world n),
                     nr_metrics := fold (\<lambda>(s, k). SetSandboxes s k) (count_status recs) (ResetSandboxes (nr_metrics n))\<rparr>);
          n = reconcileSandboxes E errText n
      in refreshLocalState E errText n)"

section \<open>What a node says of itself\<close>

definition ownedSandboxIDs :: "('db, 'be) Env \<Rightarrow> ('db, 'be) World \<Rightarrow> string list" where
  "ownedSandboxIDs E w = (case Manager_List E w of Inl _ \<Rightarrow> [] | Inr recs \<Rightarrow> map r_ID recs)"

definition node_capabilities :: "string list" where
  "node_capabilities = [''clone'', ''stats'', ''exec'', ''write-files'']"

text \<open>The initial gossiped state.\<close>

definition local_node_state ::
  "('db, 'be) Env \<Rightarrow> Config \<Rightarrow> Identity \<Rightarrow> SwarmIdentity \<Rightarrow> ('db, 'be) World \<Rightarrow> NodeState" where
  "local_node_state E cfg ident si w =
     (let (lc, lm, ld) = Capacity_Limits (w_cap w); (ac, am, ad) = Capacity_Snapshot (w_cap w)
      in NodeState_zero\<lparr>ns_NodeID := id_NodeID ident, ns_Addr := dialableAddr (cf_ListenAddr cfg), ns_ProtocolVersion := ProtocolVersion,
           ns_Capabilities := node_capabilities, ns_OwnedSandboxIDs := ownedSandboxIDs E w, ns_SwarmID := si_SwarmID si,
           ns_SwarmName := (if cf_SwarmName cfg = '''' then si_SwarmName si else cf_SwarmName cfg),
           ns_NodeName := cf_NodeName cfg, ns_Labels := cf_Labels cfg, ns_LimitCPU := lc, ns_LimitMemKB := lm, ns_LimitDiskGB := ld,
           ns_AllocCPU := ac, ns_AllocMemKB := am, ns_AllocDiskGB := ad, ns_Workspaces := workspaceNames (cf_Workspaces cfg),
           ns_GitWorkspaces := gitWorkspaceNames (cf_Workspaces cfg),
           ns_Templates := (case fst (be_ListTemplates (en_backend E) (w_be w)) of Inl _ \<Rightarrow> [] | Inr ts \<Rightarrow> ts),
           ns_Kits := be_AdmittedKits (en_backend E) (w_be w), ns_PubKey := id_PublicKey ident\<rparr>)"

definition rowFromState :: "NodeState \<Rightarrow> NodeRow" where
  "rowFromState ns =
     \<lparr>nr_NodeID = ns_NodeID ns, nr_NodeName = (if ns_NodeName ns = '''' then ns_NodeID ns else ns_NodeName ns), nr_Cordoned = ns_Cordoned ns,
      nr_Draining = False, nr_Labels = ns_Labels ns, nr_Capabilities = ns_Capabilities ns, nr_Workspaces = ns_Workspaces ns,
      nr_Templates = ns_Templates ns, nr_GitWorkspaces = ns_GitWorkspaces ns, nr_Kits = ns_Kits ns,
      nr_LimitCPU = ns_LimitCPU ns, nr_LimitMemKB = ns_LimitMemKB ns, nr_LimitDiskGB = ns_LimitDiskGB ns,
      nr_AllocCPU = ns_AllocCPU ns, nr_AllocMemKB = ns_AllocMemKB ns, nr_AllocDiskGB = ns_AllocDiskGB ns,
      nr_ActualCPU = ns_ActualCPU ns, nr_ActualMem = ns_ActualMem ns\<rparr>"

definition node_rows ::
  "('db, 'be) Env \<Rightarrow> Config \<Rightarrow> string \<Rightarrow> bool \<Rightarrow> bool \<Rightarrow> ('db, 'be) NodeRun \<Rightarrow> NodeRow list" where
  "node_rows E cfg self draining cordoned n =
     (let w = nr_world n; (lc, lm, ld) = Capacity_Limits (w_cap w); (ac, am, ad) = Capacity_Snapshot (w_cap w);
          tmpls = (case fst (be_ListTemplates (en_backend E) (w_be w)) of Inl _ \<Rightarrow> [] | Inr ts \<Rightarrow> ts);
          (cpu, mem) = (case nr_cluster n of
             Some cl \<Rightarrow> (ns_ActualCPU (cl_local cl), ns_ActualMem (cl_local cl))
           | None \<Rightarrow> (ut_CPU (ActualUtil (nr_stats n)), ut_Mem (ActualUtil (nr_stats n))));
          row = \<lparr>nr_NodeID = self, nr_NodeName = cf_NodeName cfg, nr_Cordoned = cordoned, nr_Draining = draining, nr_Labels = cf_Labels cfg,
             nr_Capabilities = node_capabilities, nr_Workspaces = workspaceNames (cf_Workspaces cfg), nr_Templates = sort tmpls,
             nr_GitWorkspaces = gitWorkspaceNames (cf_Workspaces cfg), nr_Kits = be_AdmittedKits (en_backend E) (w_be w),
             nr_LimitCPU = lc, nr_LimitMemKB = lm, nr_LimitDiskGB = ld, nr_AllocCPU = ac, nr_AllocMemKB = am, nr_AllocDiskGB = ad,
             nr_ActualCPU = cpu, nr_ActualMem = mem\<rparr>
      in row # (case nr_cluster n of None \<Rightarrow> [] | Some cl \<Rightarrow> map rowFromState (PeerStates cl)))"

section \<open>Lemmas\<close>

lemma count_status_of:
  "map_of (count_status recs) s = (let k = length (filter (\<lambda>r. r_Status r = s) recs) in if k = 0 then None else Some (int k))"
proof (induction recs rule: rev_induct)
  case Nil
  then show ?case by (simp add: count_status_def)
next
  case (snoc r recs)
  have "count_status (recs @ [r]) = AList.update (r_Status r)
      (1 + (case map_of (count_status recs) (r_Status r) of None \<Rightarrow> 0 | Some n \<Rightarrow> n)) (count_status recs)" by (simp add: count_status_def)
  then show ?case using snoc.IH by (cases "r_Status r = s") (auto simp: update_conv' Let_def)
qed

lemma count_status_distinct: "distinct (map fst (count_status recs))"
  by (induction recs rule: rev_induct) (auto simp: count_status_def distinct_update)

lemma SetSandboxes_fold:
  "distinct (map fst xs) \<Longrightarrow> map_of (mt_sandboxes (fold (\<lambda>(s, k). SetSandboxes s k) xs m)) s
     = (case map_of xs s of Some k \<Rightarrow> Some k | None \<Rightarrow> map_of (mt_sandboxes m) s)"
proof (induction xs arbitrary: m)
  case (Cons x xs)
  obtain a b where x: "x = (a, b)" by (rule prod.exhaust)
  have n: "map_of xs a = None" using Cons.prems by (simp add: x map_of_eq_None_iff)
  from Cons.IH[of "SetSandboxes a b m"] Cons.prems n show ?case by (auto simp: x SetSandboxes_def update_conv' split: option.splits)
qed simp

lemma metrics_counts:
  "map_of (mt_sandboxes (fold (\<lambda>(s, k). SetSandboxes s k) (count_status recs) (ResetSandboxes m))) s
     = (let k = length (filter (\<lambda>r. r_Status r = s) recs) in if k = 0 then None else Some (int k))"
  by (simp add: SetSandboxes_fold[OF count_status_distinct] count_status_of ResetSandboxes_def Let_def)

lemma Bump_tick: "w_tick w \<le> w_tick (snd (Manager_BumpActivity E i w))"
  by (auto simp: Manager_BumpActivity_def Manager_mutate_def Manager_save_def now_def Let_def split: sum.splits)

lemma time_sub_mono: "a \<le> b \<Longrightarrow> time_sub t b \<le> time_sub t a"
  by (auto simp: time_sub_def)

lemma IdleRunning_members:
  assumes "manager_env E binv status" "node_ok E binv w" "Manager_IdleRunning E t timeout w = Inr out" "x \<in> set out"
  shows "records E w (r_ID x) = Some x \<and> timeout < time_sub t (r_LastActivity x)"
proof -
  have i: "mgr_inv E w" using assms(2) by (simp add: node_ok_def)
  obtain recs where l: "Manager_List E w = Inr recs" "set recs = ran (records E w)"
    using manager_env.Manager_List_eq[OF assms(1) i] by blast
  have "0 < timeout" using assms(3,4) by (auto simp: Manager_IdleRunning_def split: if_splits)
  then have "x \<in> set recs" "timeout < time_sub t (r_LastActivity x)" using assms(3,4) l(1) by (auto simp: Manager_IdleRunning_def)
  with l(2) records_ok[OF i] show ?thesis by (auto simp: ran_def)
qed

text \<open>
  What the ticker relies on beyond the manager's environment: probing and listing templates leave the sandboxes alone, and
  the store accepts writes.
\<close>

locale ticker_env = manager_env +
  assumes stats_frame: "binv s \<Longrightarrow> be_Stats (en_backend E) s n = (ru, s') \<Longrightarrow> binv s' \<and> status s' = status s"
    and templates_frame: "binv s \<Longrightarrow> be_ListTemplates (en_backend E) s = (rt, s') \<Longrightarrow> binv s' \<and> status s' = status s"
    and writable: "b_has (en_bolt E) db ''sandboxes'' \<Longrightarrow> k \<noteq> '''' \<Longrightarrow> \<exists>db'. b_put (en_bolt E) db ''sandboxes'' k v = Inr db'"
begin

lemma poll_usage_frame:
  assumes "binv (w_be w)" "poll_usage E names got w = (g, w')"
  shows "\<exists>s. w' = w\<lparr>w_be := s\<rparr> \<and> binv s \<and> status s = status (w_be w)"
  using assms
proof (induction names arbitrary: got w)
  case Nil
  then show ?case by (intro exI[of _ "w_be w"]) simp
next
  case (Cons m names)
  obtain r b where e: "be_Stats (en_backend E) (w_be w) m = (r, b)" by (rule prod.exhaust)
  note f = stats_frame[OF Cons.prems(1) e]
  have "\<exists>got'. poll_usage E names got' (w\<lparr>w_be := b\<rparr>) = (g, w')" using Cons.prems(2) e by (cases r) auto
  then obtain got' where "poll_usage E names got' (w\<lparr>w_be := b\<rparr>) = (g, w')" ..
  from Cons.IH[OF _ this] f show ?case by auto
qed

lemma Bump_writes:
  assumes "mgr_inv E w" "records E w i = Some x" "i \<noteq> ''''"
  shows "\<exists>t. records E (snd (Manager_BumpActivity E i w)) = (records E w)(i \<mapsto> x\<lparr>r_LastActivity := en_clock E (w_tick w), r_UpdatedAt := t\<rparr>)"
proof -
  obtain r w' where b: "Manager_BumpActivity E i w = (r, w')" by (rule prod.exhaust)
  have h: "b_has (en_bolt E) (w_db w) ''sandboxes''" using assms(1) by (simp add: mgr_inv_def)
  have g: "Manager_Get E i w = Inr x" "Manager_Get E i (snd (now E w)) = Inr x"
    using assms Manager_Get_cong[of "snd (now E w)" w E i] by (simp_all add: Manager_Get_eq)
  have i: "r_ID x \<noteq> ''''" using records_ok[OF assms(1,2)] assms(3) by simp
  have p: "store_Put (en_bolt E) (w_db w) ''sandboxes'' k v = b_put (en_bolt E) (w_db w) ''sandboxes'' k v" for k v
    using h by (simp add: store_Put_def)
  obtain db' where "store_Put (en_bolt E) (w_db w) ''sandboxes'' (r_ID x)
      (JRecord (x\<lparr>r_LastActivity := en_clock E (w_tick w), r_UpdatedAt := en_clock E (Suc (w_tick w))\<rparr>)) = Inr db'"
    unfolding p using writable[OF h i] by blast
  then have "r = Inr ()"
    using b g by (simp add: Manager_BumpActivity_def Manager_mutate_def Manager_save_def now_def Let_def split: sum.splits)
  with Bump_cases[OF assms(1) b] assms(2) have "\<exists>t. records E w' = (records E w)(i \<mapsto> x\<lparr>r_LastActivity := en_clock E (w_tick w), r_UpdatedAt := t\<rparr>)"
    by (simp only: sum.case) (metis option.inject)
  then show ?thesis by (simp only: b snd_conv)
qed

lemma bump_busy_ok:
  assumes "mgr_inv E w" "distinct (map r_ID recs)" "\<forall>r \<in> set recs. records E w (r_ID r) = Some r \<and> r_ID r \<noteq> ''''"
  shows "mgr_inv E (bump_busy E c recs w) \<and> w_be (bump_busy E c recs w) = w_be w \<and> w_node (bump_busy E c recs w) = w_node w
    \<and> w_cap (bump_busy E c recs w) = w_cap w \<and> dom (records E (bump_busy E c recs w)) = dom (records E w)
    \<and> (\<forall>i. i \<notin> r_ID ` set recs \<longrightarrow> records E (bump_busy E c recs w) i = records E w i)
    \<and> (\<forall>r \<in> set recs. \<exists>x'. records E (bump_busy E c recs w) (r_ID r) = Some x' \<and> r_Status x' = r_Status r
         \<and> (if busy c r then \<exists>m \<ge> w_tick w. r_LastActivity x' = en_clock E m else x' = r))"
  using assms
proof (induction recs arbitrary: w)
  case Nil
  then show ?case by (simp add: bump_busy_def)
next
  case (Cons r recs)
  show ?case
  proof (cases "busy c r")
    case False
    then have e: "bump_busy E c (r # recs) w = bump_busy E c recs w" by (simp add: bump_busy_def)
    have d: "r_ID r \<notin> r_ID ` set recs" using Cons.prems(2) by auto
    from Cons.IH[of w] Cons.prems d False show ?thesis unfolding e by (auto simp: ball_Un)
  next
    case True
    define v where "v = snd (Manager_BumpActivity E (r_ID r) w)"
    have e: "bump_busy E c (r # recs) w = bump_busy E c recs v" using True by (simp add: bump_busy_def v_def)
    have d: "r_ID r \<notin> r_ID ` set recs" "distinct (map r_ID recs)" using Cons.prems(2) by auto
    have rr: "records E w (r_ID r) = Some r" "r_ID r \<noteq> ''''" using Cons.prems(3) by simp_all
    obtain t where rec: "records E v = (records E w)(r_ID r \<mapsto> r\<lparr>r_LastActivity := en_clock E (w_tick w), r_UpdatedAt := t\<rparr>)"
      using Bump_writes[OF Cons.prems(1) rr] unfolding v_def by blast
    obtain q where b: "Manager_BumpActivity E (r_ID r) w = (q, v)" unfolding v_def by (metis prod.collapse)
    have v: "mgr_inv E v" "w_be v = w_be w" "w_node v = w_node w" "w_cap v = w_cap w"
      using Bump_cases[OF Cons.prems(1) b] by auto
    have tk: "w_tick w \<le> w_tick v" unfolding v_def by (rule Bump_tick)
    have other: "records E v (r_ID s) = records E w (r_ID s)" if "s \<in> set recs" for s
    proof -
      have "r_ID s \<noteq> r_ID r" using that d(1) by (metis image_eqI)
      then show ?thesis by (simp only: rec fun_upd_apply if_False)
    qed
    have "\<forall>s \<in> set recs. records E v (r_ID s) = Some s \<and> r_ID s \<noteq> ''''" using Cons.prems(3) by (simp add: other)
    note ih = Cons.IH[OF v(1) d(2) this]
    have ihr: "records E (bump_busy E c recs v) i = records E v i" if "i \<notin> r_ID ` set recs" for i using ih that by blast
    have mine: "records E (bump_busy E c recs v) (r_ID r) = Some (r\<lparr>r_LastActivity := en_clock E (w_tick w), r_UpdatedAt := t\<rparr>)"
      using ihr[OF d(1)] by (simp only: rec fun_upd_same)
    have dm: "dom (records E v) = dom (records E w)" unfolding rec using rr(1) by auto
    have theirs: "\<exists>x'. records E (bump_busy E c recs v) (r_ID s) = Some x' \<and> r_Status x' = r_Status s
         \<and> (if busy c s then \<exists>m \<ge> w_tick w. r_LastActivity x' = en_clock E m else x' = s)" if ms: "s \<in> set recs" for s
    proof -
      note ihs = ih[THEN conjunct2, THEN conjunct2, THEN conjunct2, THEN conjunct2, THEN conjunct2, THEN conjunct2]
      obtain x' where x': "records E (bump_busy E c recs v) (r_ID s) = Some x'" "r_Status x' = r_Status s"
        "if busy c s then \<exists>m \<ge> w_tick v. r_LastActivity x' = en_clock E m else x' = s" using bspec[OF ihs ms] by (elim exE conjE)
      have "if busy c s then \<exists>m \<ge> w_tick w. r_LastActivity x' = en_clock E m else x' = s"
        using x'(3) tk by (cases "busy c s") (simp_all, meson order_trans)
      with x'(1,2) show ?thesis by blast
    qed
    have "records E (bump_busy E c recs v) i = records E w i" if "i \<notin> r_ID ` set (r # recs)" for i
    proof -
      have n: "i \<notin> r_ID ` set recs" "i \<noteq> r_ID r" using that by auto
      show ?thesis unfolding ihr[OF n(1)] rec using n(2) by (simp only: fun_upd_apply if_False)
    qed
    moreover have "mgr_inv E (bump_busy E c recs v)" "w_be (bump_busy E c recs v) = w_be w" "w_node (bump_busy E c recs v) = w_node w"
      "w_cap (bump_busy E c recs v) = w_cap w" "dom (records E (bump_busy E c recs v)) = dom (records E w)"
      using ih v dm by auto
    moreover have "\<exists>x'. records E (bump_busy E c recs v) (r_ID s) = Some x' \<and> r_Status x' = r_Status s
         \<and> (if busy c s then \<exists>m \<ge> w_tick w. r_LastActivity x' = en_clock E m else x' = s)" if ms: "s \<in> set (r # recs)" for s
    proof (cases "s \<in> set recs")
      case False
      then have sr: "s = r" using ms by simp
      show ?thesis unfolding sr using mine True by (intro exI[of _ "r\<lparr>r_LastActivity := en_clock E (w_tick w), r_UpdatedAt := t\<rparr>"]) auto
    qed (rule theirs)
    ultimately show ?thesis unfolding e by (intro conjI ballI allI impI) (assumption | simp)+
  qed
qed

end

context ticker_env
begin

lemma pollStats_ok:
  assumes "node_ok E binv (nr_world n)"
  shows "\<exists>s. nr_world (pollStats E errText n) = (nr_world n)\<lparr>w_be := s\<rparr> \<and> binv s \<and> status s = status (w_be (nr_world n))"
proof -
  let ?w = "nr_world n"
  have i: "mgr_inv E ?w" "binv (w_be ?w)" using assms by (simp_all add: node_ok_def)
  obtain recs where "Manager_List E ?w = Inr recs" using Manager_List_eq[OF i(1)] by blast
  then obtain names where nl: "namesList E ?w = Inr names" by (simp add: namesList_def)
  obtain got w' where p: "poll_usage E names [] ?w = (got, w')" by (rule prod.exhaust)
  have "nr_world (pollStats E errText n) = w'" using nl p by (simp add: pollStats_def Stats_PollOnce_def logged_def Let_def case_prod_beta)
  with poll_usage_frame[OF i(2) p] show ?thesis by simp
qed

text \<open>One tick, up to the reconciliation.\<close>

lemma tick_records:
  fixes n :: "('a, 'b) NodeRun" and errText
  defines "n1 \<equiv> pollStats E errText n"
  assumes "node_ok E binv (nr_world n)" "records E (nr_world n) '''' = None" "Manager_List E (nr_world n) = Inr recs"
  defines "w2 \<equiv> bump_busy E (nr_stats n1) recs (nr_world n1)"
  shows "node_ok E binv w2 \<and> dom (records E w2) = dom (records E (nr_world n))
    \<and> (\<forall>r \<in> set recs. \<exists>x'. records E w2 (r_ID r) = Some x' \<and> r_Status x' = r_Status r
         \<and> (if busy (nr_stats n1) r then \<exists>m \<ge> w_tick (nr_world n). r_LastActivity x' = en_clock E m else x' = r))"
proof -
  let ?w = "nr_world n"
  have i: "mgr_inv E ?w" "binv (w_be ?w)" "cap_inv (w_cap ?w)" using assms(2) by (simp_all add: node_ok_def)
  obtain s where s: "nr_world n1 = ?w\<lparr>w_be := s\<rparr>" "binv s" using pollStats_ok[OF assms(2), of errText] unfolding n1_def by blast
  have i1: "mgr_inv E (nr_world n1)" "records E (nr_world n1) = records E ?w"
    using i(1) mgr_inv_cong[of "nr_world n1" ?w E] records_cong[of "nr_world n1" ?w E] by (simp_all add: s)
  have l: "set recs = ran (records E ?w)" "sorted_wrt (<) (map r_ID recs)" using Manager_List_eq[OF i(1)] assms(4) by auto
  have rec: "records E ?w (r_ID r) = Some r" if "r \<in> set recs" for r using that l(1) records_ok[OF i(1)] by (force simp: ran_def)
  have "\<forall>r \<in> set recs. records E (nr_world n1) (r_ID r) = Some r \<and> r_ID r \<noteq> ''''" using rec assms(3) by (metis i1(2) option.distinct(1))
  moreover have "distinct (map r_ID recs)" using l(2) by (simp add: strict_sorted_iff)
  ultimately have b: "mgr_inv E w2 \<and> w_be w2 = w_be (nr_world n1) \<and> w_node w2 = w_node (nr_world n1) \<and> w_cap w2 = w_cap (nr_world n1)
    \<and> dom (records E w2) = dom (records E (nr_world n1))
    \<and> (\<forall>i. i \<notin> r_ID ` set recs \<longrightarrow> records E w2 i = records E (nr_world n1) i)
    \<and> (\<forall>r \<in> set recs. \<exists>x'. records E w2 (r_ID r) = Some x' \<and> r_Status x' = r_Status r
         \<and> (if busy (nr_stats n1) r then \<exists>m \<ge> w_tick (nr_world n1). r_LastActivity x' = en_clock E m else x' = r))"
    unfolding w2_def by (rule bump_busy_ok[OF i1(1), rotated])
  have t: "w_tick (nr_world n1) = w_tick ?w" "w_cap (nr_world n1) = w_cap ?w" "w_be (nr_world n1) = s" by (simp_all add: s)
  note b = b[unfolded t i1(2)]
  have "node_ok E binv w2" using b s(2) i(3) unfolding node_ok_def by (elim conjE) (intro conjI, assumption, simp_all only:)
  with b show ?thesis by (elim conjE) (intro conjI, assumption+)
qed

lemma refresh_world:
  assumes "node_ok E binv (nr_world n)"
  shows "w_db (nr_world (refreshLocalState E errText n)) = w_db (nr_world n) \<and> node_ok E binv (nr_world (refreshLocalState E errText n))
    \<and> nr_metrics (refreshLocalState E errText n) = nr_metrics n \<and> nr_stats (refreshLocalState E errText n) = nr_stats n
    \<and> te_reconcile (nr_edges (refreshLocalState E errText n)) = te_reconcile (nr_edges n)"
proof (cases "nr_cluster n")
  case None
  with assms show ?thesis by (simp add: refreshLocalState_def)
next
  case (Some cl)
  obtain r b where t: "be_ListTemplates (en_backend E) (w_be (nr_world n)) = (r, b)" by (rule prod.exhaust)
  have "binv b" using templates_frame[OF _ t] assms by (simp add: node_ok_def)
  moreover have "mgr_inv E ((nr_world n)\<lparr>w_be := b\<rparr>)" using assms mgr_inv_cong[of "(nr_world n)\<lparr>w_be := b\<rparr>" "nr_world n" E] by (simp add: node_ok_def)
  ultimately have "node_ok E binv ((nr_world n)\<lparr>w_be := b\<rparr>)" using assms by (simp add: node_ok_def)
  then show ?thesis using Some t by (cases r) (simp_all add: refreshLocalState_def logged_def Let_def case_prod_beta)
qed

lemma reconcile_world:
  assumes "node_ok E binv (nr_world n)"
  shows "node_ok E binv (nr_world (reconcileSandboxes E errText n)) \<and> nr_metrics (reconcileSandboxes E errText n) = nr_metrics n
    \<and> nr_stats (reconcileSandboxes E errText n) = nr_stats n
    \<and> (\<not> el_failing (te_reconcile (nr_edges (reconcileSandboxes E errText n))) \<longrightarrow>
        (\<forall>k x. records E (nr_world n) k = Some x \<longrightarrow> (\<exists>x'. records E (nr_world (reconcileSandboxes E errText n)) k = Some x'
           \<and> r_LastActivity x' = r_LastActivity x)))"
proof -
  obtain r w' where e: "Manager_Reconcile E (nr_world n) = (r, w')" by (rule prod.exhaust)
  have i: "mgr_inv E (nr_world n)" "binv (w_be (nr_world n))" "cap_inv (w_cap (nr_world n))" using assms by (simp_all add: node_ok_def)
  note c = Reconcile_cases[OF i(1,2) e]
  have w: "nr_world (reconcileSandboxes E errText n) = w'" by (simp add: reconcileSandboxes_def logged_def e Let_def case_prod_beta)
  have f: "el_failing (te_reconcile (nr_edges (reconcileSandboxes E errText n))) \<longleftrightarrow> r \<noteq> Inr ()"
    by (cases r) (simp_all add: reconcileSandboxes_def logged_def e Let_def case_prod_beta edge_warn_def edge_recovered_def edgeLog_zero_def)
  have "\<exists>x'. records E w' k = Some x' \<and> r_LastActivity x' = r_LastActivity x" if r: "r = Inr ()" and x: "records E (nr_world n) k = Some x" for k x
  proof -
    obtain x' where x': "records E w' k = Some x'"
      "if r_Status x \<noteq> ''lost'' \<and> status (w_be (nr_world n)) k = None then \<exists>t. x' = x\<lparr>r_Status := ''lost'', r_UpdatedAt := t\<rparr> else x' = x"
      using c r x by blast
    then have "r_LastActivity x' = r_LastActivity x" by (auto split: if_splits)
    with x'(1) show ?thesis by blast
  qed
  moreover have "node_ok E binv w'" using c i(3) by (simp add: node_ok_def)
  moreover have "nr_metrics (reconcileSandboxes E errText n) = nr_metrics n" "nr_stats (reconcileSandboxes E errText n) = nr_stats n"
    by (simp_all add: reconcileSandboxes_def logged_def Let_def case_prod_beta)
  ultimately show ?thesis unfolding w f by blast
qed

end

context ticker_env
begin

lemma tick_ok:
  fixes n :: "('a, 'b) NodeRun" and errText
  assumes "node_ok E binv (nr_world n)" "records E (nr_world n) '''' = None"
  defines "n' \<equiv> status_tick E errText True n"
  shows "\<exists>recs. node_ok E binv (nr_world n') \<and> Manager_List E (nr_world n) = Inr recs
    \<and> (\<forall>s. map_of (mt_sandboxes (nr_metrics n')) s
          = (let k = length (filter (\<lambda>r. r_Status r = s) recs) in if k = 0 then None else Some (int k)))
    \<and> (\<not> el_failing (te_reconcile (nr_edges n')) \<longrightarrow> (\<forall>r \<in> set recs. \<exists>x'. records E (nr_world n') (r_ID r) = Some x'
         \<and> (if busy (nr_stats n') r then \<exists>m \<ge> w_tick (nr_world n). r_LastActivity x' = en_clock E m
            else r_LastActivity x' = r_LastActivity r)))"
proof -
  let ?w = "nr_world n"
  have i: "mgr_inv E ?w" using assms(1) by (simp add: node_ok_def)
  obtain recs where l: "Manager_List E ?w = Inr recs" using Manager_List_eq[OF i] by blast
  define n1 where "n1 = pollStats E errText n"
  define w2 where "w2 = bump_busy E (nr_stats n1) recs (nr_world n1)"
  note t = tick_records[OF assms(1,2) l, of errText, folded n1_def, folded w2_def]
  obtain s where "nr_world n1 = ?w\<lparr>w_be := s\<rparr>" using pollStats_ok[OF assms(1), of errText] unfolding n1_def by blast
  then have l1: "Manager_List E (nr_world n1) = Inr recs" using l Manager_List_cong[of "nr_world n1" ?w E] by simp
  define n2 where "n2 = n1\<lparr>nr_metrics := SetActualUtil (ut_CPU (ActualUtil (nr_stats n1))) (ut_Mem (ActualUtil (nr_stats n1))) (nr_metrics n1)\<rparr>"
  define n3 where "n3 = snd (listSandboxRecords E errText n2)"
  have ls: "listSandboxRecords E errText n2 = (Some recs, n3)" "nr_world n3 = nr_world n1" "nr_stats n3 = nr_stats n1"
    using l1 by (simp_all add: n3_def n2_def listSandboxRecords_def logged_def Let_def case_prod_beta)
  define n4 where "n4 = n3\<lparr>nr_world := w2, nr_metrics := fold (\<lambda>(s, k). SetSandboxes s k) (count_status recs) (ResetSandboxes (nr_metrics n3))\<rparr>"
  define n5 where "n5 = reconcileSandboxes E errText n4"
  have n': "n' = refreshLocalState E errText n5"
    unfolding n'_def status_tick_def Let_def n1_def[symmetric] n2_def[symmetric] ls(1) prod.case option.case n5_def n4_def w2_def
    by (simp add: ls)
  have k4: "node_ok E binv (nr_world n4)" "nr_stats n4 = nr_stats n1" "nr_world n4 = w2" using t by (simp_all add: n4_def ls)
  note r5 = reconcile_world[OF k4(1), of errText, folded n5_def]
  have k5: "node_ok E binv (nr_world n5)" using r5 by (rule conjunct1)
  note r6 = refresh_world[OF k5, of errText, folded n']
  have m: "nr_metrics n' = nr_metrics n4" "nr_stats n' = nr_stats n1" using r5 r6 k4(2) by simp_all
  have db: "records E (nr_world n') = records E (nr_world n5)" using r6 by (intro records_cong) (rule conjunct1)
  have fl: "te_reconcile (nr_edges n') = te_reconcile (nr_edges n5)" using r6 by simp
  have act: "\<exists>x'. records E (nr_world n') (r_ID r) = Some x'
         \<and> (if busy (nr_stats n') r then \<exists>m \<ge> w_tick ?w. r_LastActivity x' = en_clock E m else r_LastActivity x' = r_LastActivity r)"
    if nf: "\<not> el_failing (te_reconcile (nr_edges n'))" and mr: "r \<in> set recs" for r
  proof -
    obtain x where x: "records E w2 (r_ID r) = Some x"
      "if busy (nr_stats n1) r then \<exists>m \<ge> w_tick ?w. r_LastActivity x = en_clock E m else x = r"
      using bspec[OF t[THEN conjunct2, THEN conjunct2] mr] by (elim exE conjE)
    obtain y where "records E (nr_world n5) (r_ID r) = Some y" "r_LastActivity y = r_LastActivity x"
      using r5[THEN conjunct2, THEN conjunct2, THEN conjunct2, rule_format, of "r_ID r" x] nf x(1) unfolding fl k4(3) by blast
    then show ?thesis using x(2) unfolding db m(2) by (intro exI[of _ y]) (simp split: if_splits)
  qed
  have cnt: "map_of (mt_sandboxes (nr_metrics n')) s
          = (let k = length (filter (\<lambda>r. r_Status r = s) recs) in if k = 0 then None else Some (int k))" for s
    unfolding m(1) n4_def by (simp add: metrics_counts)
  have "node_ok E binv (nr_world n')" using r6 by simp
  then show ?thesis using l cnt act by blast
qed

end

section \<open>Properties\<close>

text \<open>
  C22: What a tick of the node's timer does.  It keeps the node's invariant; the gauges of the metrics are exactly the numbers of
  sandboxes by status, with none left over from earlier; and, unless the reconciliation failed, every running sandbox whose
  polled CPU use reaches the threshold has its last activity set to a time of this tick, while the last
  activity of the others is as it was.  In particular none of the busy ones is idle for the reaper until its timeout
  has passed since the tick.
\<close>

theorem status_tick_correct:
  assumes "ticker_env E binv status" and "node_ok E binv (nr_world n)" and "records E (nr_world n) '''' = None"
    and "n' = status_tick E errText True n"
  shows "\<exists>recs. node_ok E binv (nr_world n') \<and> Manager_List E (nr_world n) = Inr recs
    \<and> (\<forall>s. map_of (mt_sandboxes (nr_metrics n')) s
          = (let k = length (filter (\<lambda>r. r_Status r = s) recs) in if k = 0 then None else Some (int k)))
    \<and> (\<not> el_failing (te_reconcile (nr_edges n')) \<longrightarrow>
         (\<forall>r \<in> set recs. \<exists>x'. records E (nr_world n') (r_ID r) = Some x'
            \<and> (if busy (nr_stats n') r then \<exists>m \<ge> w_tick (nr_world n). r_LastActivity x' = en_clock E m
               else r_LastActivity x' = r_LastActivity r))
       \<and> (\<forall>t timeout r out. mono (en_clock E) \<and> time_sub t (en_clock E (w_tick (nr_world n))) \<le> timeout
            \<and> r \<in> set recs \<and> busy (nr_stats n') r \<and> Manager_IdleRunning E t timeout (nr_world n') = Inr out
            \<longrightarrow> r_ID r \<notin> r_ID ` set out))"
proof -
  have me: "manager_env E binv status" using assms(1) by (simp add: ticker_env_def)
  from ticker_env.tick_ok[OF assms(1-3), of errText, folded assms(4)] obtain recs where
    t: "node_ok E binv (nr_world n')" "Manager_List E (nr_world n) = Inr recs"
      "\<forall>s. map_of (mt_sandboxes (nr_metrics n')) s
          = (let k = length (filter (\<lambda>r. r_Status r = s) recs) in if k = 0 then None else Some (int k))"
    and a: "\<not> el_failing (te_reconcile (nr_edges n')) \<longrightarrow> (\<forall>r \<in> set recs. \<exists>x'. records E (nr_world n') (r_ID r) = Some x'
         \<and> (if busy (nr_stats n') r then \<exists>m \<ge> w_tick (nr_world n). r_LastActivity x' = en_clock E m
            else r_LastActivity x' = r_LastActivity r))" by (elim exE conjE)
  have "r_ID r \<notin> r_ID ` set out" if nf: "\<not> el_failing (te_reconcile (nr_edges n'))"
    and h: "mono (en_clock E)" "time_sub t (en_clock E (w_tick (nr_world n))) \<le> timeout" "r \<in> set recs" "busy (nr_stats n') r"
      "Manager_IdleRunning E t timeout (nr_world n') = Inr out" for t timeout r out
  proof
    assume "r_ID r \<in> r_ID ` set out"
    then obtain x where x: "x \<in> set out" "r_ID r = r_ID x" by (elim imageE)
    obtain x' m where x': "records E (nr_world n') (r_ID r) = Some x'" "w_tick (nr_world n) \<le> m" "r_LastActivity x' = en_clock E m"
      using bspec[OF mp[OF a nf] h(3)] unfolding if_P[OF h(4)] by (elim exE conjE)
    note im = IdleRunning_members[OF me t(1) h(5) x(1)]
    from im have "records E (nr_world n') (r_ID x) = Some x" by (rule conjunct1)
    moreover from im have "timeout < time_sub t (r_LastActivity x)" by (rule conjunct2)
    ultimately have "timeout < time_sub t (en_clock E m)" using x'(1,3) x(2) by (simp only: option.inject)
    moreover have "time_sub t (en_clock E m) \<le> time_sub t (en_clock E (w_tick (nr_world n)))"
      using time_sub_mono monoD[OF h(1) x'(2)] .
    ultimately show False using h(2) by linarith
  qed
  with t a show ?thesis by blast
qed

interpretation memtick: ticker_env mem_env fake_inv fake_status
proof (rule ticker_env.intro[OF mem_manager_env], unfold_locales)
  fix s n ru s' assume "fake_inv s" "be_Stats (en_backend mem_env) s n = (ru, s')"
  moreover then have "s' = s"
    by (auto simp: mem_env_def fake_backend_def Fake_Stats_def Fake_Get_def split: prod.splits sum.splits option.splits)
  ultimately show "fake_inv s' \<and> fake_status s' = fake_status s" by simp
next
  fix s rt s' assume "fake_inv s" "be_ListTemplates (en_backend mem_env) s = (rt, s')"
  then show "fake_inv s' \<and> fake_status s' = fake_status s"
    by (auto simp: mem_env_def fake_backend_def Fake_ListTemplates_def split: option.splits)
next
  fix db v and k :: string assume "b_has (en_bolt mem_env) db ''sandboxes''" "k \<noteq> ''''"
  then show "\<exists>db'. b_put (en_bolt mem_env) db ''sandboxes'' k v = Inr db'" by (simp add: mem_env_def mem_bolt_def)
qed

definition tickerEdges_zero :: tickerEdges where
  "tickerEdges_zero = \<lparr>te_stats = edgeLog_zero, te_list = edgeLog_zero, te_reconcile = edgeLog_zero, te_templates = edgeLog_zero\<rparr>"

definition example_run :: "(mem_db, Fake) NodeRun" where
  "example_run = \<lparr>nr_stats = NewStatsCollector (DefaultProvisionLimit 4), nr_metrics = NewMetrics, nr_edges = tickerEdges_zero,
     nr_cluster = None, nr_world = mem_world1, nr_log = []\<rparr>"

theorem status_tick_correct_witness:
  "map_of (mt_sandboxes (nr_metrics (status_tick mem_env (\<lambda>_. ''err'') True example_run))) ''running'' = Some 1"
proof -
  have "records mem_env mem_world1 '''' = None"
  proof -
    have "b_get mem_bolt (w_db mem_world1) ''sandboxes'' '''' = None" by code_simp
    then show ?thesis by (simp add: records_def mem_env_def)
  qed
  then have w: "records mem_env (nr_world example_run) '''' = None" by (simp add: example_run_def)
  have ok: "node_ok mem_env fake_inv (nr_world example_run)" using mem_world1_ok by (simp add: example_run_def)
  have ew: "nr_world example_run = mem_world1" by (simp add: example_run_def)
  obtain recs where m: "Manager_List mem_env mem_world1 = Inr recs"
    "\<forall>s. map_of (mt_sandboxes (nr_metrics (status_tick mem_env (\<lambda>_. ''err'') True example_run))) s
          = (let k = length (filter (\<lambda>r. r_Status r = s) recs) in if k = 0 then None else Some (int k))"
    using status_tick_correct[OF memtick.ticker_env_axioms ok w refl, of "\<lambda>_. ''err''"] unfolding ew by (elim exE conjE)
  have "map_sum (\<lambda>_. ()) (map r_Status) (Manager_List mem_env mem_world1) = Inr [''running'']" by code_simp
  with m(1) have "map r_Status recs = [''running'']" by simp
  then have "length (filter (\<lambda>r. r_Status r = ''running'') recs) = 1" by (cases recs) auto
  with m(2) show ?thesis by (auto simp: Let_def)
qed

text \<open>A run of failing ticks.\<close>

definition edge_warns :: "string \<Rightarrow> string list \<Rightarrow> edgeLog \<Rightarrow> edgeLog \<times> log_line list" where
  "edge_warns msg xs e = fold (\<lambda>x (e, ls). let (e', l) = edge_warn msg x e in (e', ls @ l)) xs (e, [])"

lemma edge_warns_snoc:
  "edge_warns msg (xs @ [x]) e = (let (e1, ls) = edge_warns msg xs e; (e2, l) = edge_warn msg x e1 in (e2, ls @ l))"
  by (simp add: edge_warns_def Let_def case_prod_beta)

lemma edge_warns_zero:
  "edge_warns msg xs edgeLog_zero =
     (\<lparr>el_failing = (xs \<noteq> []), el_streak = length xs, el_lastErr = (if xs = [] then '''' else last xs)\<rparr>,
      map (\<lambda>i. LogWarn msg (xs ! i)) (filter (\<lambda>i. i = 0 \<or> xs ! i \<noteq> xs ! (i - 1) \<or> Suc i mod 30 = 0) [0..<length xs]))"
proof (induction xs rule: rev_induct)
  case Nil
  then show ?case by (simp add: edge_warns_def edgeLog_zero_def)
next
  case (snoc x xs)
  let ?P = "\<lambda>ys i. i = 0 \<or> ys ! i \<noteq> ys ! (i - 1) \<or> Suc i mod 30 = (0 :: nat)"
  have f: "filter (?P (xs @ [x])) [0..<length xs] = filter (?P xs) [0..<length xs]"
  proof (rule filter_cong[OF refl])
    fix i assume "i \<in> set [0..<length xs]"
    then have i: "i < length xs" "i - 1 < length xs" by auto
    show "?P (xs @ [x]) i = ?P xs i" unfolding nth_append if_P[OF i(1)] if_P[OF i(2)] ..
  qed
  have m: "map (\<lambda>i. LogWarn msg ((xs @ [x]) ! i)) (filter (?P xs) [0..<length xs])
      = map (\<lambda>i. LogWarn msg (xs ! i)) (filter (?P xs) [0..<length xs])" by (rule map_cong[OF refl]) (simp add: nth_append)
  have p: "?P (xs @ [x]) (length xs) \<longleftrightarrow> xs = [] \<or> x \<noteq> last xs \<or> Suc (length xs) mod 30 = 0"
    by (cases xs rule: rev_cases) (simp_all add: nth_append)
  have "edge_warn msg x \<lparr>el_failing = (xs \<noteq> []), el_streak = length xs, el_lastErr = (if xs = [] then '''' else last xs)\<rparr>
      = (\<lparr>el_failing = True, el_streak = Suc (length xs), el_lastErr = x\<rparr>, if ?P (xs @ [x]) (length xs) then [LogWarn msg x] else [])"
    unfolding p by (cases "xs = []") (simp_all add: edge_warn_def reWarnEvery_def)
  moreover have "map (\<lambda>i. LogWarn msg ((xs @ [x]) ! i)) (filter (?P (xs @ [x])) [0..<length (xs @ [x])])
      = map (\<lambda>i. LogWarn msg (xs ! i)) (filter (?P xs) [0..<length xs]) @ (if ?P (xs @ [x]) (length xs) then [LogWarn msg x] else [])"
    unfolding length_append_singleton upt_Suc_append[OF le0] filter_append map_append f m
    by (simp only: filter.simps list.map nth_append_length split: if_split) simp
  ultimately show ?case by (simp only: edge_warns_snoc snoc Let_def prod.case snoc_eq_iff_butlast last_snoc length_append_singleton) simp
qed

text \<open>
  The edge-triggered log says what changed and no more.  Of a run of failures from a healthy state exactly these are
  logged: the first, each whose text differs from that of the failure before it, and every thirtieth; and the success that ends the
  run logs one line if there was a failure and none otherwise, and leaves the log as new.
\<close>

theorem edge_log_exact:
  assumes "edge_warns msg xs edgeLog_zero = (e, ls)"
  shows "ls = map (\<lambda>i. LogWarn msg (xs ! i)) (filter (\<lambda>i. i = 0 \<or> xs ! i \<noteq> xs ! (i - 1) \<or> Suc i mod 30 = 0) [0..<length xs])
    \<and> edge_recovered msg' e = (edgeLog_zero, if xs = [] then [] else [LogInfo msg'])"
  using assms by (auto simp: edge_warns_zero edge_recovered_def)

theorem edge_log_exact_witness:
  "snd (edge_warns ''down'' [''a'', ''a'', ''b'', ''b''] edgeLog_zero) = [LogWarn ''down'' ''a'', LogWarn ''down'' ''b'']"
proof -
  obtain e ls where p: "edge_warns ''down'' [''a'', ''a'', ''b'', ''b''] edgeLog_zero = (e, ls)" by (rule prod.exhaust)
  have "ls = [LogWarn ''down'' ''a'', LogWarn ''down'' ''b'']"
    using edge_log_exact[OF p] by (simp add: upt_rec)
  with p show ?thesis by simp
qed

end
