(* ===== verification/SdkBackend.thy ===== *)
theory SdkBackend
  imports Observe GoURL
begin

text \<open>
  The backend over the sandbox daemon: \<^verbatim>\<open>internal/sandbox/sdkbackend.go\<close> and \<^verbatim>\<open>kits.go\<close>.  The SDK
  (\<^verbatim>\<open>sbx-go-sdk\<close>) is not part of the repository: it is the record \<open>SDK\<close> of the calls the backend makes, over a daemon state
  \<open>'d\<close>, with its option constructors as datatypes.  Cancelling a context and the log lines are not modelled.
\<close>

section \<open>What the SDK offers\<close>

text \<open>A handle of a sandbox; its methods are calls that name it.\<close>

record SDKSandbox =
  sb_Name :: string
  sb_State :: string
  sb_MountPolicyDenied :: bool

datatype SDKOption =
    WithName string | WithCPUs int | WithMemory string | WithAgent string | WithTemplate string | WithClone
  | WithWorkspace string | WithKit string

datatype ProcessOption = ExecAutoStart | WithMultiplexed | WithWorkdir string | WithEnv "(string, string) gomap" | WithTTY

record SDKPort =
  po_HostIP :: string
  po_HostPort :: int
  po_SandboxPort :: int

record SDKRule =
  ru_ID :: string
  ru_Name :: string
  ru_Origin :: string
  ru_AppliesTo :: string
  ru_ResourceType :: string
  ru_Decision :: string
  ru_Resources :: "string list"

record SDKAuthorization =
  az_Allowed :: bool
  az_Reason :: string
  az_Rule :: string
  az_Origin :: string
  az_ResourceValue :: string
  az_DenyKind :: string

record SDKHost =
  ph_Host :: string
  ph_VMName :: string
  ph_CountSince :: int

record SDKStored =
  st_Name :: string
  st_Type :: string
  st_Scope :: string

record SDKCustom =
  cu_Scope :: string
  cu_Targets :: string
  cu_Env :: string
  cu_Placeholder :: string
  cu_ValueMasked :: string

text \<open>
  Raw JSON bytes, by what they hold after \<^verbatim>\<open>bytes.TrimSpace\<close>: nothing, something that is not JSON, or a JSON text.
\<close>

datatype rawjson = NoBytes | BadJSON | JSONText json

record SDKKit =
  kt_Kind :: string
  kt_Sandbox :: rawjson
  kt_Volumes :: rawjson

record 'd SDK =
  sdk_ErrSandboxNotFound :: go_error
  sdk_ErrUnexpectedFormat :: go_error
  sdk_New :: "'d \<Rightarrow> unit res \<times> 'd"
  sdk_InspectKit :: "'d \<Rightarrow> string \<Rightarrow> SDKKit res"
  sdk_Get :: "'d \<Rightarrow> string \<Rightarrow> SDKSandbox res \<times> 'd"
  sdk_List :: "'d \<Rightarrow> SDKSandbox list res \<times> 'd"
  sdk_Create :: "'d \<Rightarrow> SDKOption list \<Rightarrow> SDKSandbox res \<times> 'd"
  sdk_Start :: "'d \<Rightarrow> string \<Rightarrow> unit res \<times> 'd"
  sdk_Stop :: "'d \<Rightarrow> string \<Rightarrow> unit res \<times> 'd"
  sdk_Remove :: "'d \<Rightarrow> string \<Rightarrow> bool \<Rightarrow> unit res \<times> 'd"
  sdk_Workspace :: "'d \<Rightarrow> string \<Rightarrow> string res \<times> 'd"
  sdk_Exec :: "'d \<Rightarrow> string \<Rightarrow> string list \<Rightarrow> ProcessOption list \<Rightarrow> (int \<times> string \<times> string) res \<times> 'd"
  sdk_ExecDetached :: "'d \<Rightarrow> string \<Rightarrow> string list \<Rightarrow> ProcessOption list \<Rightarrow> string res \<times> 'd"
  sdk_InspectExec :: "'d \<Rightarrow> string \<Rightarrow> string \<Rightarrow> (bool \<times> int) res \<times> 'd"
  sdk_ExecInteractive :: "'d \<Rightarrow> string \<Rightarrow> string list \<Rightarrow> ProcessOption list \<Rightarrow> 'd Session res \<times> 'd"
  sdk_PublishPort :: "'d \<Rightarrow> string \<Rightarrow> int \<Rightarrow> SDKPort list res \<times> 'd"
  sdk_Ports :: "'d \<Rightarrow> string \<Rightarrow> SDKPort list res \<times> 'd"
  sdk_UnpublishPort :: "'d \<Rightarrow> string \<Rightarrow> string \<Rightarrow> unit res \<times> 'd"
  sdk_CopyTo :: "'d \<Rightarrow> string \<Rightarrow> string \<Rightarrow> string \<Rightarrow> unit res \<times> 'd"
  sdk_CopyFrom :: "'d \<Rightarrow> string \<Rightarrow> string \<Rightarrow> string \<Rightarrow> unit res \<times> 'd"
  sdk_Stats :: "'d \<Rightarrow> string \<Rightarrow> Usage res \<times> 'd"
  sdk_Logs :: "'d \<Rightarrow> string \<Rightarrow> string \<Rightarrow> (string \<times> bool) res \<times> 'd"
  sdk_PolicyLog :: "'d \<Rightarrow> (SDKHost list \<times> SDKHost list) res \<times> 'd"
  sdk_Allow :: "'d \<Rightarrow> string \<Rightarrow> string \<Rightarrow> unit res \<times> 'd"
  sdk_Deny :: "'d \<Rightarrow> string \<Rightarrow> string \<Rightarrow> unit res \<times> 'd"
  sdk_SetDefault :: "'d \<Rightarrow> string \<Rightarrow> unit res \<times> 'd"
  sdk_RemoveRule :: "'d \<Rightarrow> string \<Rightarrow> string \<Rightarrow> unit res \<times> 'd"
  sdk_Reset :: "'d \<Rightarrow> unit res \<times> 'd"
  sdk_Check :: "'d \<Rightarrow> string \<Rightarrow> string option \<Rightarrow> SDKAuthorization res \<times> 'd"
  sdk_ListRules :: "'d \<Rightarrow> string \<Rightarrow> SDKRule list res \<times> 'd"
  sdk_ListRaw :: "'d \<Rightarrow> string \<Rightarrow> string res \<times> 'd"
  sdk_Profiles :: "'d \<Rightarrow> string res \<times> 'd"
  sdk_SetCustom :: "'d \<Rightarrow> string \<Rightarrow> CustomSecret \<Rightarrow> unit res \<times> 'd"
  sdk_ListSecrets :: "'d \<Rightarrow> string \<Rightarrow> (SDKStored list \<times> SDKCustom list) res \<times> 'd"
  sdk_RemoveCustom :: "'d \<Rightarrow> string \<Rightarrow> string \<Rightarrow> unit res \<times> 'd"
  sdk_RemoveStored :: "'d \<Rightarrow> string \<Rightarrow> string \<Rightarrow> unit res \<times> 'd"
  sdk_Images :: "'d \<Rightarrow> TemplateInfo list res \<times> 'd"
  sdk_SaveTemplate :: "'d \<Rightarrow> string \<Rightarrow> string \<Rightarrow> unit res \<times> 'd"
  sdk_RemoveImage :: "'d \<Rightarrow> string \<Rightarrow> unit res \<times> 'd"

section \<open>Kits\<close>

record KitInfo =
  kn_Kind :: string
  kn_HasResources :: bool
  kn_HasRunOptions :: bool
  kn_HasTemplate :: bool
  kn_HasVolumes :: bool

definition admit :: "KitInfo \<Rightarrow> unit res" where
  "admit i =
     (if kn_Kind i \<noteq> ''mixin'' then Inl (Errf (''kind is %q, want '' @ [CHR 0x22] @ ''mixin'' @ [CHR 0x22]) [kn_Kind i])
      else if kn_HasResources i then Inl (Errf ''mixin declares resources, which could exceed admitted capacity'' [])
      else if kn_HasRunOptions i then Inl (Errf ''mixin declares runOptions, which could exceed admitted capacity'' [])
      else if kn_HasTemplate i then Inl (Errf ''mixin declares a template, which would change the sandbox's base image'' [])
      else if kn_HasVolumes i then Inl (Errf ''mixin declares volumes, which would mount host paths outside the workspace resolver'' [])
      else Inr ())"

text \<open>
  The inspections run concurrently, one goroutine for each kit, and only their results meet, in the map under its mutex: the
  map is the same in whatever order they end.  A time-out is one of the errors of an inspection.
\<close>

definition admitKits :: "(string \<Rightarrow> KitInfo res) \<Rightarrow> (string, string) gomap \<Rightarrow> (string, string) gomap" where
  "admitKits inspect kits =
     fold (\<lambda>(name, ref) admitted.
        case inspect ref of
          Inl _ \<Rightarrow> AList.update name ref admitted
        | Inr info \<Rightarrow> (case admit info of Inl _ \<Rightarrow> admitted | Inr _ \<Rightarrow> AList.update name ref admitted)) kits []"

definition kitNames :: "(string, string) gomap \<Rightarrow> string list" where
  "kitNames kits = sort (map fst kits)"

text \<open>\<^verbatim>\<open>json.Unmarshal\<close> into a map and into a slice of raw values: the number of entries, \<open>None\<close> on a mismatch.\<close>

fun hasResources :: "rawjson \<Rightarrow> bool" where
  "hasResources NoBytes = False"
| "hasResources BadJSON = True"
| "hasResources (JSONText JNull) = False"
| "hasResources (JSONText (JObj kvs)) = (kvs \<noteq> [])"
| "hasResources (JSONText _) = True"

fun hasVolumes :: "rawjson \<Rightarrow> bool" where
  "hasVolumes NoBytes = False"
| "hasVolumes BadJSON = True"
| "hasVolumes (JSONText JNull) = False"
| "hasVolumes (JSONText (JArr xs)) = (xs \<noteq> [])"
| "hasVolumes (JSONText (JObj kvs)) = (kvs \<noteq> [])"
| "hasVolumes (JSONText _) = True"

text \<open>
  The anonymous struct the sandbox block is decoded into.  \<^verbatim>\<open>encoding/json\<close> takes the members in order, a later one over an
  earlier one, matches names without regard to case (of ASCII letters, here), and leaves a field of a non-pointer type alone
  on \<^verbatim>\<open>null\<close>.
\<close>

record sandboxBlock =
  sx_Image :: string
  sx_Resources :: rawjson
  sx_Default :: "string list"

fun unmarshal_command :: "json \<Rightarrow> string list \<Rightarrow> string list option" where
  "unmarshal_command JNull d = Some d"
| "unmarshal_command (JObj kvs) d =
     fold (\<lambda>(k, v) r. case r of None \<Rightarrow> None | Some d \<Rightarrow> if to_lower k = ''default'' then jlist jstr v else Some d) kvs (Some d)"
| "unmarshal_command _ d = None"

definition set_member :: "string \<times> json \<Rightarrow> sandboxBlock option \<Rightarrow> sandboxBlock option" where
  "set_member m b =
     (case b of None \<Rightarrow> None | Some b \<Rightarrow>
        let (k, v) = m; k = to_lower k
        in if k = ''image'' then (if v = JNull then Some b else map_option (\<lambda>s. b\<lparr>sx_Image := s\<rparr>) (jstr v))
           else if k = ''resources'' then Some (b\<lparr>sx_Resources := JSONText v\<rparr>)
           else if k = ''command'' then map_option (\<lambda>d. b\<lparr>sx_Default := d\<rparr>) (unmarshal_command v (sx_Default b))
           else Some b)"

fun unmarshal_sandbox :: "rawjson \<Rightarrow> sandboxBlock option" where
  "unmarshal_sandbox (JSONText (JObj kvs)) = fold set_member kvs (Some \<lparr>sx_Image = '''', sx_Resources = NoBytes, sx_Default = []\<rparr>)"
| "unmarshal_sandbox (JSONText JNull) = Some \<lparr>sx_Image = '''', sx_Resources = NoBytes, sx_Default = []\<rparr>"
| "unmarshal_sandbox NoBytes = Some \<lparr>sx_Image = '''', sx_Resources = NoBytes, sx_Default = []\<rparr>"
| "unmarshal_sandbox _ = None"

definition kitInfoFrom :: "SDKKit \<Rightarrow> KitInfo" where
  "kitInfoFrom info =
     (case unmarshal_sandbox (kt_Sandbox info) of
        None \<Rightarrow> \<lparr>kn_Kind = kt_Kind info, kn_HasResources = True, kn_HasRunOptions = False, kn_HasTemplate = False, kn_HasVolumes = False\<rparr>
      | Some sb \<Rightarrow>
          \<lparr>kn_Kind = kt_Kind info, kn_HasResources = hasResources (sx_Resources sb), kn_HasRunOptions = (sx_Default sb \<noteq> []),
           kn_HasTemplate = (sx_Image sb \<noteq> ''''), kn_HasVolumes = hasVolumes (kt_Volumes info)\<rparr>)"

definition inspectKit :: "'d SDK \<Rightarrow> 'd \<Rightarrow> string \<Rightarrow> KitInfo res" where
  "inspectKit S d ref = (case sdk_InspectKit S d ref of Inl e \<Rightarrow> Inl e | Inr info \<Rightarrow> Inr (kitInfoFrom info))"

section \<open>The backend\<close>

record SDKBackend =
  sk_resolve :: "string \<Rightarrow> (string \<times> bool) option"
  sk_kits :: "(string, string) gomap"

definition NewSDKBackend ::
  "'d SDK \<Rightarrow> (string \<Rightarrow> (string \<times> bool) option) \<Rightarrow> (string, string) gomap \<Rightarrow> 'd \<Rightarrow> SDKBackend res \<times> 'd" where
  "NewSDKBackend S resolve kits d =
     (case sdk_New S d of
        (Inl e, d) \<Rightarrow> (Inl (Wrapf ''connect daemon: %w'' [] e), d)
      | (Inr _, d) \<Rightarrow> (Inr \<lparr>sk_resolve = resolve, sk_kits = admitKits (inspectKit S d) kits\<rparr>, d))"

definition SDKBackend_AdmittedKits :: "SDKBackend \<Rightarrow> string list" where
  "SDKBackend_AdmittedKits b = kitNames (sk_kits b)"

definition translateNotFound :: "'d SDK \<Rightarrow> go_error \<Rightarrow> go_error" where
  "translateNotFound S e = (if errors_is e (sdk_ErrSandboxNotFound S) then ErrNotFound else e)"

definition sdk_handle :: "'d SDK \<Rightarrow> 'd \<Rightarrow> string \<Rightarrow> SDKSandbox res \<times> 'd" where
  "sdk_handle S d name =
     (case sdk_Get S d name of
        (Inl e, d) \<Rightarrow> (Inl (translateNotFound S e), d)
      | (Inr sb, d) \<Rightarrow> (Inr sb, d))"

text \<open>Most methods get the handle and make one call with it.\<close>

definition with_handle :: "'d SDK \<Rightarrow> 'd \<Rightarrow> string \<Rightarrow> (string \<Rightarrow> 'd \<Rightarrow> 'a res \<times> 'd) \<Rightarrow> 'a res \<times> 'd" where
  "with_handle S d name k =
     (case sdk_handle S d name of (Inl e, d) \<Rightarrow> (Inl e, d) | (Inr sb, d) \<Rightarrow> k (sb_Name sb) d)"

definition primaryWorkspaceDir :: "'d SDK \<Rightarrow> string \<Rightarrow> 'd \<Rightarrow> string \<times> 'd" where
  "primaryWorkspaceDir S name d =
     (case sdk_Workspace S d name of (Inl _, d) \<Rightarrow> ('''', d) | (Inr ws, d) \<Rightarrow> (ws, d))"

definition workspaceArg :: "string \<Rightarrow> string \<Rightarrow> bool \<Rightarrow> bool \<Rightarrow> bool \<Rightarrow> string res" where
  "workspaceArg name host readOnly primary clone =
     (if primary then
        (if readOnly \<and> \<not> clone then Inl (Errf ''primary workspace %q cannot be read-only: the agent's working directory must be writable (use clone mode, or mount it as a non-primary workspace)'' [name]) else Inr host)
      else if readOnly then Inr (host @ '':ro'') else Inr host)"

definition memString :: "int \<Rightarrow> string" where
  "memString b =
     (if b mod 2 ^ 30 = 0 then format_int (b div 2 ^ 30) @ ''g''
      else if b mod 2 ^ 20 = 0 then format_int (b div 2 ^ 20) @ ''m''
      else if b mod 2 ^ 10 = 0 then format_int (b div 2 ^ 10) @ ''k''
      else format_int b @ ''b'')"

text \<open>The loops of \<^verbatim>\<open>Create\<close> over the workspaces and over the kits; the flag says whether the next workspace is the first.\<close>

fun workspace_opts :: "SDKBackend \<Rightarrow> bool \<Rightarrow> bool \<Rightarrow> WorkspaceMount list \<Rightarrow> SDKOption list res" where
  "workspace_opts b clone primary [] = Inr []"
| "workspace_opts b clone primary (w # ws) =
     (case sk_resolve b (wm_Name w) of
        None \<Rightarrow> Inl (Errf ''unknown workspace %q'' [wm_Name w])
      | Some (host, ro) \<Rightarrow>
          (case workspaceArg (wm_Name w) host (ro \<or> wm_ReadOnly w) primary clone of
             Inl e \<Rightarrow> Inl e
           | Inr path \<Rightarrow> (case workspace_opts b clone False ws of Inl e \<Rightarrow> Inl e | Inr os \<Rightarrow> Inr (WithWorkspace path # os))))"

fun kit_opts :: "SDKBackend \<Rightarrow> string list \<Rightarrow> SDKOption list res" where
  "kit_opts b [] = Inr []"
| "kit_opts b (k # ks) =
     (case map_of (sk_kits b) k of
        None \<Rightarrow> Inl (Wrapf ''unknown kit %q: %w'' [k] ErrUnknownKit)
      | Some ref \<Rightarrow> (case kit_opts b ks of Inl e \<Rightarrow> Inl e | Inr os \<Rightarrow> Inr (WithKit ref # os)))"

definition create_opts :: "SDKBackend \<Rightarrow> CreateSpec \<Rightarrow> SDKOption list res" where
  "create_opts b spec =
     (let os = [WithName (cs_Name spec)]
            @ (if cs_CPUs spec > 0 then [WithCPUs (cs_CPUs spec)] else [])
            @ (if cs_MemoryBytes spec > 0 then [WithMemory (memString (cs_MemoryBytes spec))] else [])
            @ (if cs_Agent spec \<noteq> '''' then [WithAgent (cs_Agent spec)] else [])
            @ (if cs_Template spec \<noteq> '''' then [WithTemplate (cs_Template spec)] else [])
            @ (if cs_Clone spec then [WithClone] else [])
      in case workspace_opts b (cs_Clone spec) True (cs_Workspaces spec) of
           Inl e \<Rightarrow> Inl e
         | Inr ws \<Rightarrow> (case kit_opts b (cs_Kits spec) of Inl e \<Rightarrow> Inl e | Inr ks \<Rightarrow> Inr (os @ ws @ ks)))"

definition sandbox_of :: "SDKSandbox \<Rightarrow> BackendSandbox" where
  "sandbox_of sb = \<lparr>bs_Name = sb_Name sb, bs_Status = sb_State sb\<rparr>"

definition SDKBackend_Create :: "'d SDK \<Rightarrow> SDKBackend \<Rightarrow> 'd \<Rightarrow> CreateSpec \<Rightarrow> BackendSandbox res \<times> 'd" where
  "SDKBackend_Create S b d spec =
     (case create_opts b spec of
        Inl e \<Rightarrow> (Inl e, d)
      | Inr os \<Rightarrow> (case sdk_Create S d os of (Inl e, d) \<Rightarrow> (Inl e, d) | (Inr sb, d) \<Rightarrow> (Inr (sandbox_of sb), d)))"

definition SDKBackend_Get :: "'d SDK \<Rightarrow> 'd \<Rightarrow> string \<Rightarrow> BackendSandbox res \<times> 'd" where
  "SDKBackend_Get S d name =
     (case sdk_handle S d name of (Inl e, d) \<Rightarrow> (Inl e, d) | (Inr sb, d) \<Rightarrow> (Inr (sandbox_of sb), d))"

definition SDKBackend_List :: "'d SDK \<Rightarrow> 'd \<Rightarrow> BackendSandbox list res \<times> 'd" where
  "SDKBackend_List S d =
     (case sdk_List S d of (Inl e, d) \<Rightarrow> (Inl e, d) | (Inr sbs, d) \<Rightarrow> (Inr (map sandbox_of sbs), d))"

definition SDKBackend_Start :: "'d SDK \<Rightarrow> 'd \<Rightarrow> string \<Rightarrow> unit res \<times> 'd" where
  "SDKBackend_Start S d name = with_handle S d name (\<lambda>n d. sdk_Start S d n)"

definition SDKBackend_Stop :: "'d SDK \<Rightarrow> 'd \<Rightarrow> string \<Rightarrow> unit res \<times> 'd" where
  "SDKBackend_Stop S d name = with_handle S d name (\<lambda>n d. sdk_Stop S d n)"

definition SDKBackend_Remove :: "'d SDK \<Rightarrow> 'd \<Rightarrow> string \<Rightarrow> unit res \<times> 'd" where
  "SDKBackend_Remove S d name = with_handle S d name (\<lambda>n d. sdk_Remove S d n True)"

definition exec_opts :: "'d SDK \<Rightarrow> string \<Rightarrow> ExecOpts \<Rightarrow> 'd \<Rightarrow> ProcessOption list \<times> 'd" where
  "exec_opts S name opts d =
     (let (wd, d) = (if eo_Workdir opts = '''' then primaryWorkspaceDir S name d else (eo_Workdir opts, d))
      in ((if wd \<noteq> '''' then [WithWorkdir wd] else []) @ (if eo_Env opts \<noteq> [] then [WithEnv (eo_Env opts)] else []), d))"

definition SDKBackend_Exec :: "'d SDK \<Rightarrow> 'd \<Rightarrow> string \<Rightarrow> string list \<Rightarrow> ExecOpts \<Rightarrow> ExecResult res \<times> 'd" where
  "SDKBackend_Exec S d name cmd opts =
     with_handle S d name (\<lambda>n d.
       let (os, d) = exec_opts S n opts d
       in case sdk_Exec S d n cmd ([ExecAutoStart, WithMultiplexed] @ os) of
            (Inl e, d) \<Rightarrow> (Inl e, d)
          | (Inr (code, out, err), d) \<Rightarrow> (Inr \<lparr>er_ExitCode = code, er_Stdout = out, er_Stderr = err\<rparr>, d))"

definition SDKBackend_ExecDetached :: "'d SDK \<Rightarrow> 'd \<Rightarrow> string \<Rightarrow> string list \<Rightarrow> ExecOpts \<Rightarrow> string res \<times> 'd" where
  "SDKBackend_ExecDetached S d name cmd opts =
     with_handle S d name (\<lambda>n d. let (os, d) = exec_opts S n opts d in sdk_ExecDetached S d n cmd (ExecAutoStart # os))"

definition SDKBackend_PollDetached :: "'d SDK \<Rightarrow> 'd \<Rightarrow> string \<Rightarrow> string \<Rightarrow> DetachedStatus res \<times> 'd" where
  "SDKBackend_PollDetached S d name detachedID =
     with_handle S d name (\<lambda>n d.
       case sdk_InspectExec S d n detachedID of
         (Inl e, d) \<Rightarrow> (Inl e, d)
       | (Inr (running, code), d) \<Rightarrow> (Inr \<lparr>ds_Done = (\<not> running), ds_ExitCode = code\<rparr>, d))"

definition SDKBackend_ExecInteractive :: "'d SDK \<Rightarrow> 'd \<Rightarrow> string \<Rightarrow> string list \<Rightarrow> bool \<Rightarrow> 'd Session res \<times> 'd" where
  "SDKBackend_ExecInteractive S d name cmd tty =
     with_handle S d name (\<lambda>n d.
       let (wd, d) = primaryWorkspaceDir S n d
       in sdk_ExecInteractive S d n cmd ([ExecAutoStart] @ (if wd \<noteq> '''' then [WithWorkdir wd] else [])
            @ (if tty then [WithTTY, WithEnv [(''TERM'', ''xterm-256color'')]] else [])))"

section \<open>Ports, files, usage\<close>

definition port_of :: "SDKPort \<Rightarrow> PublishedPort" where
  "port_of p = \<lparr>pp_ContainerPort = po_SandboxPort p, pp_HostPort = po_HostPort p\<rparr>"

definition SDKBackend_PublishPort :: "'d SDK \<Rightarrow> 'd \<Rightarrow> string \<Rightarrow> int \<Rightarrow> PublishedPort res \<times> 'd" where
  "SDKBackend_PublishPort S d name containerPort =
     with_handle S d name (\<lambda>n d.
       case sdk_PublishPort S d n containerPort of
         (Inl e, d) \<Rightarrow> (Inl e, d)
       | (Inr ports, d) \<Rightarrow>
           (case find (\<lambda>p. po_SandboxPort p = containerPort) ports of
              Some p \<Rightarrow> (Inr (port_of p), d)
            | None \<Rightarrow> (Inr \<lparr>pp_ContainerPort = containerPort, pp_HostPort = 0\<rparr>, d)))"

definition dedupePorts :: "PublishedPort list \<Rightarrow> PublishedPort list" where
  "dedupePorts ports = fold (\<lambda>p out. if p \<in> set out then out else out @ [p]) ports []"

definition SDKBackend_Ports :: "'d SDK \<Rightarrow> 'd \<Rightarrow> string \<Rightarrow> PublishedPort list res \<times> 'd" where
  "SDKBackend_Ports S d name =
     with_handle S d name (\<lambda>n d.
       case sdk_Ports S d n of (Inl e, d) \<Rightarrow> (Inl e, d) | (Inr ports, d) \<Rightarrow> (Inr (dedupePorts (map port_of ports)), d))"

definition unpublish_spec :: "int \<Rightarrow> int \<Rightarrow> string" where
  "unpublish_spec hostPort containerPort = format_int hostPort @ '':'' @ format_int containerPort"

fun unpublish_each :: "'d SDK \<Rightarrow> string \<Rightarrow> int \<Rightarrow> PublishedPort list \<Rightarrow> 'd \<Rightarrow> unit res \<times> 'd" where
  "unpublish_each S n containerPort [] d = (Inr (), d)"
| "unpublish_each S n containerPort (p # ps) d =
     (if pp_ContainerPort p = containerPort then
        (case sdk_UnpublishPort S d n (unpublish_spec (pp_HostPort p) containerPort) of
           (Inl e, d) \<Rightarrow> (Inl e, d)
         | (Inr _, d) \<Rightarrow> unpublish_each S n containerPort ps d)
      else unpublish_each S n containerPort ps d)"

definition SDKBackend_UnpublishPort :: "'d SDK \<Rightarrow> 'd \<Rightarrow> string \<Rightarrow> int \<Rightarrow> unit res \<times> 'd" where
  "SDKBackend_UnpublishPort S d name containerPort =
     with_handle S d name (\<lambda>n d.
       case SDKBackend_Ports S d name of
         (Inl e, d) \<Rightarrow> (Inl e, d)
       | (Inr ports, d) \<Rightarrow> unpublish_each S n containerPort ports d)"

definition SDKBackend_CopyTo :: "'d SDK \<Rightarrow> 'd \<Rightarrow> string \<Rightarrow> string \<Rightarrow> string \<Rightarrow> unit res \<times> 'd" where
  "SDKBackend_CopyTo S d name localPath remotePath = with_handle S d name (\<lambda>n d. sdk_CopyTo S d n localPath remotePath)"

definition SDKBackend_CopyFrom :: "'d SDK \<Rightarrow> 'd \<Rightarrow> string \<Rightarrow> string \<Rightarrow> string \<Rightarrow> unit res \<times> 'd" where
  "SDKBackend_CopyFrom S d name remotePath localPath = with_handle S d name (\<lambda>n d. sdk_CopyFrom S d n remotePath localPath)"

text \<open>The conversion to 64-bit integers of the usage.\<close>

definition int64_of :: "int \<Rightarrow> int" where
  "int64_of i = (i + 2 ^ 63) mod 2 ^ 64 - 2 ^ 63"

definition SDKBackend_Stats :: "'d SDK \<Rightarrow> 'd \<Rightarrow> string \<Rightarrow> Usage res \<times> 'd" where
  "SDKBackend_Stats S d name =
     with_handle S d name (\<lambda>n d.
       case sdk_Stats S d n of
         (Inl e, d) \<Rightarrow> (Inl e, d)
       | (Inr u, d) \<Rightarrow> (Inr (u\<lparr>us_MemTotalKB := int64_of (us_MemTotalKB u), us_MemUsedKB := int64_of (us_MemUsedKB u),
                              us_UptimeSeconds := int64_of (us_UptimeSeconds u)\<rparr>), d))"

text \<open>
  \<^verbatim>\<open>bufio.Scanner\<close> over the session's output: lines end at a newline, a carriage return before it is dropped, the last line need
  not end, and a line that fills the buffer of 65536 bytes ends the scan with an error.  \<open>bad\<close> says whether the read ends in
  an error rather than at the end of the output.
\<close>

definition maxScanTokenSize :: nat where "maxScanTokenSize = 65536"

definition drop_cr :: "string \<Rightarrow> string" where
  "drop_cr l = (if suffix [CHR 0x0D] l then butlast l else l)"

fun scan_parts :: "bool \<Rightarrow> string list \<Rightarrow> LogLine list" where
  "scan_parts bad [] = []"
| "scan_parts bad (l # ls) =
     (if maxScanTokenSize \<le> length l then [\<lparr>ll_Line = '''', ll_Err = True\<rparr>]
      else if ls = [] then (if l = '''' then [] else [\<lparr>ll_Line = drop_cr l, ll_Err = False\<rparr>])
                         @ (if bad then [\<lparr>ll_Line = '''', ll_Err = True\<rparr>] else [])
      else \<lparr>ll_Line = drop_cr l, ll_Err = False\<rparr> # scan_parts bad ls)"

definition scan_lines :: "string \<Rightarrow> bool \<Rightarrow> LogLine list" where
  "scan_lines out bad = scan_parts bad (split_on CHR 0x0A out)"

definition SDKBackend_Logs :: "'d SDK \<Rightarrow> 'd \<Rightarrow> string \<Rightarrow> string \<Rightarrow> LogLine list res \<times> 'd" where
  "SDKBackend_Logs S d name path =
     with_handle S d name (\<lambda>n d.
       case sdk_Logs S d n path of (Inl e, d) \<Rightarrow> (Inl e, d) | (Inr (out, bad), d) \<Rightarrow> (Inr (scan_lines out bad), d))"

section \<open>Policy\<close>

definition blocked_of :: "SDKHost \<Rightarrow> BlockedHost" where
  "blocked_of e = \<lparr>bh_Host = ph_Host e, bh_VMName = ph_VMName e, bh_Count = ph_CountSince e\<rparr>"

definition SDKBackend_BlockedEgress :: "'d SDK \<Rightarrow> 'd \<Rightarrow> BlockedHost list res \<times> 'd" where
  "SDKBackend_BlockedEgress S d =
     (case sdk_PolicyLog S d of (Inl e, d) \<Rightarrow> (Inl e, d) | (Inr (bs, as), d) \<Rightarrow> (Inr (map blocked_of bs), d))"

definition SDKBackend_AllowedEgress :: "'d SDK \<Rightarrow> 'd \<Rightarrow> BlockedHost list res \<times> 'd" where
  "SDKBackend_AllowedEgress S d =
     (case sdk_PolicyLog S d of (Inl e, d) \<Rightarrow> (Inl e, d) | (Inr (bs, as), d) \<Rightarrow> (Inr (map blocked_of as), d))"

definition SDKBackend_PolicyAllow :: "'d SDK \<Rightarrow> 'd \<Rightarrow> string \<Rightarrow> string \<Rightarrow> unit res \<times> 'd" where
  "SDKBackend_PolicyAllow S d scope host = sdk_Allow S d scope host"

definition SDKBackend_PolicyDeny :: "'d SDK \<Rightarrow> 'd \<Rightarrow> string \<Rightarrow> string \<Rightarrow> unit res \<times> 'd" where
  "SDKBackend_PolicyDeny S d scope host = sdk_Deny S d scope host"

definition SDKBackend_PolicySetDefault :: "'d SDK \<Rightarrow> 'd \<Rightarrow> string \<Rightarrow> unit res \<times> 'd" where
  "SDKBackend_PolicySetDefault S d profile = sdk_SetDefault S d profile"

definition SDKBackend_PolicyRemoveRule :: "'d SDK \<Rightarrow> 'd \<Rightarrow> string \<Rightarrow> string \<Rightarrow> unit res \<times> 'd" where
  "SDKBackend_PolicyRemoveRule S d scope resource = sdk_RemoveRule S d scope resource"

definition SDKBackend_PolicyReset :: "'d SDK \<Rightarrow> 'd \<Rightarrow> unit res \<times> 'd" where
  "SDKBackend_PolicyReset S d = sdk_Reset S d"

definition SDKBackend_PolicyCheck :: "'d SDK \<Rightarrow> 'd \<Rightarrow> string \<Rightarrow> string \<Rightarrow> PolicyDecision res \<times> 'd" where
  "SDKBackend_PolicyCheck S d scope target =
     (case sdk_Check S d target (if scope \<noteq> '''' then Some scope else None) of
        (Inl e, d) \<Rightarrow> (Inl e, d)
      | (Inr a, d) \<Rightarrow> (Inr \<lparr>pd_Allowed = az_Allowed a, pd_Reason = az_Reason a, pd_Rule = az_Rule a, pd_Origin = az_Origin a,
                            pd_Resource = az_ResourceValue a, pd_DenyKind = az_DenyKind a\<rparr>, d))"

definition rule_of :: "SDKRule \<Rightarrow> PolicyRule" where
  "rule_of r = \<lparr>pr_Provenance = ru_Origin r, pr_AppliesTo = ru_AppliesTo r, pr_Rule = (if ru_Name r = '''' then ru_ID r else ru_Name r),
                pr_Type = ru_ResourceType r, pr_Decision = ru_Decision r, pr_Resources = join_with '','' (ru_Resources r)\<rparr>"

definition SDKBackend_PolicyList :: "'d SDK \<Rightarrow> 'd \<Rightarrow> string \<Rightarrow> PolicyRule list res \<times> 'd" where
  "SDKBackend_PolicyList S d scope =
     (case sdk_ListRules S d scope of
        (Inl e, d) \<Rightarrow>
          if errors_is e (sdk_ErrUnexpectedFormat S) then
            (case sdk_ListRaw S d scope of
               (Inl re, d) \<Rightarrow> (Inl re, d)
             | (Inr raw, d) \<Rightarrow> (Inr [\<lparr>pr_Provenance = '''', pr_AppliesTo = '''', pr_Rule = raw, pr_Type = ''raw'', pr_Decision = '''',
                                     pr_Resources = ''''\<rparr>], d))
          else (Inl e, d)
      | (Inr rules, d) \<Rightarrow> (Inr (map rule_of rules), d))"

definition SDKBackend_PolicyProfiles :: "'d SDK \<Rightarrow> 'd \<Rightarrow> string list res \<times> 'd" where
  "SDKBackend_PolicyProfiles S d = (case sdk_Profiles S d of (Inl e, d) \<Rightarrow> (Inl e, d) | (Inr raw, d) \<Rightarrow> (Inr [raw], d))"

section \<open>Secrets\<close>

text \<open>\<open>errText\<close> is the text of an error.\<close>

definition scrubSecretValue :: "(go_error \<Rightarrow> string) \<Rightarrow> unit res \<Rightarrow> string \<Rightarrow> unit res" where
  "scrubSecretValue errText r value =
     (case r of
        Inr u \<Rightarrow> Inr u
      | Inl e \<Rightarrow>
          if value = '''' then Inl e
          else let msg = replace_all (errText e) value ''<redacted>''
               in if msg = errText e then Inl e else Inl (Errf msg []))"

definition SDKBackend_SecretList :: "'d SDK \<Rightarrow> 'd \<Rightarrow> string \<Rightarrow> Secrets res \<times> 'd" where
  "SDKBackend_SecretList S d scope =
     (case sdk_ListSecrets S d scope of
        (Inl e, d) \<Rightarrow> (Inl e, d)
      | (Inr (stored, custom), d) \<Rightarrow>
          (Inr \<lparr>se_Stored = map (\<lambda>s. \<lparr>ss_Name = st_Name s, ss_Type = st_Type s, ss_Scope = st_Scope s\<rparr>)
                              (filter (\<lambda>s. st_Scope s = scope) stored),
                se_Custom = map (\<lambda>c. \<lparr>sc_Host = cu_Targets c, sc_Env = cu_Env c, sc_Placeholder = cu_Placeholder c, sc_Value = ''''\<rparr>)
                              (filter (\<lambda>c. cu_Scope c = scope) custom)\<rparr>, d))"

definition SDKBackend_SecretSet :: "'d SDK \<Rightarrow> (go_error \<Rightarrow> string) \<Rightarrow> 'd \<Rightarrow> string \<Rightarrow> CustomSecret \<Rightarrow> unit res \<times> 'd" where
  "SDKBackend_SecretSet S errText d scope s =
     (let (cur, d) = SDKBackend_SecretList S d scope;
          s = (case cur of
                 Inl _ \<Rightarrow> s
               | Inr cur \<Rightarrow> (case find (\<lambda>c. sc_Env c = sc_Env s) (se_Custom cur) of
                               None \<Rightarrow> s | Some c \<Rightarrow> s\<lparr>sc_Placeholder := sc_Placeholder c\<rparr>));
          (r, d) = sdk_SetCustom S d scope s
      in (scrubSecretValue errText r (sc_Value s), d))"

definition SDKBackend_SecretRemove :: "'d SDK \<Rightarrow> 'd \<Rightarrow> string \<Rightarrow> string \<Rightarrow> unit res \<times> 'd" where
  "SDKBackend_SecretRemove S d scope host = sdk_RemoveCustom S d scope host"

definition SDKBackend_SecretRemoveStored :: "'d SDK \<Rightarrow> 'd \<Rightarrow> string \<Rightarrow> string \<Rightarrow> unit res \<times> 'd" where
  "SDKBackend_SecretRemoveStored S d scope name = sdk_RemoveStored S d scope name"

section \<open>Templates\<close>

definition image_ref :: "TemplateInfo \<Rightarrow> string" where
  "image_ref im = ti_Repository im @ (if ti_Tag im \<noteq> '''' then '':'' @ ti_Tag im else '''')"

definition SDKBackend_ListTemplates :: "'d SDK \<Rightarrow> 'd \<Rightarrow> string list res \<times> 'd" where
  "SDKBackend_ListTemplates S d = (case sdk_Images S d of (Inl e, d) \<Rightarrow> (Inl e, d) | (Inr imgs, d) \<Rightarrow> (Inr (map image_ref imgs), d))"

definition SDKBackend_ListTemplateInfo :: "'d SDK \<Rightarrow> 'd \<Rightarrow> TemplateInfo list res \<times> 'd" where
  "SDKBackend_ListTemplateInfo S d = (case sdk_Images S d of (Inl e, d) \<Rightarrow> (Inl e, d) | (Inr imgs, d) \<Rightarrow> (Inr imgs, d))"

definition SDKBackend_SaveTemplate :: "'d SDK \<Rightarrow> 'd \<Rightarrow> string \<Rightarrow> string \<Rightarrow> unit res \<times> 'd" where
  "SDKBackend_SaveTemplate S d name tag = with_handle S d name (\<lambda>n d. sdk_SaveTemplate S d n tag)"

definition SDKBackend_RemoveTemplate :: "'d SDK \<Rightarrow> 'd \<Rightarrow> string \<Rightarrow> unit res \<times> 'd" where
  "SDKBackend_RemoveTemplate S d ref = sdk_RemoveImage S d ref"

section \<open>As a backend\<close>

definition sdk_backend :: "'d SDK \<Rightarrow> (go_error \<Rightarrow> string) \<Rightarrow> SDKBackend \<Rightarrow> 'd Backend" where
  "sdk_backend S errText b =
     \<lparr>be_Create = SDKBackend_Create S b, be_Get = SDKBackend_Get S, be_List = SDKBackend_List S, be_ListTemplates = SDKBackend_ListTemplates S,
      be_ListTemplateInfo = SDKBackend_ListTemplateInfo S, be_SaveTemplate = SDKBackend_SaveTemplate S,
      be_RemoveTemplate = SDKBackend_RemoveTemplate S, be_AdmittedKits = (\<lambda>_. SDKBackend_AdmittedKits b), be_Start = SDKBackend_Start S,
      be_Stop = SDKBackend_Stop S, be_Remove = SDKBackend_Remove S, be_Exec = SDKBackend_Exec S, be_ExecDetached = SDKBackend_ExecDetached S,
      be_PollDetached = SDKBackend_PollDetached S, be_PublishPort = SDKBackend_PublishPort S, be_Ports = SDKBackend_Ports S,
      be_UnpublishPort = SDKBackend_UnpublishPort S, be_CopyTo = SDKBackend_CopyTo S, be_CopyFrom = SDKBackend_CopyFrom S,
      be_Stats = SDKBackend_Stats S, be_BlockedEgress = SDKBackend_BlockedEgress S, be_AllowedEgress = SDKBackend_AllowedEgress S,
      be_PolicyAllow = SDKBackend_PolicyAllow S, be_PolicyDeny = SDKBackend_PolicyDeny S,
      be_PolicySetDefault = SDKBackend_PolicySetDefault S, be_PolicyRemoveRule = SDKBackend_PolicyRemoveRule S,
      be_PolicyReset = SDKBackend_PolicyReset S, be_PolicyList = SDKBackend_PolicyList S,
      be_PolicyProfiles = SDKBackend_PolicyProfiles S, be_PolicyCheck = SDKBackend_PolicyCheck S,
      be_SecretSet = SDKBackend_SecretSet S errText, be_SecretList = SDKBackend_SecretList S, be_SecretRemove = SDKBackend_SecretRemove S,
      be_SecretRemoveStored = SDKBackend_SecretRemoveStored S\<rparr>"

section \<open>Lemmas\<close>

lemma admitKits_lookup:
  assumes "distinct (map fst kits)"
  shows "map_of (admitKits inspect kits) k = (case map_of kits k of
      None \<Rightarrow> None
    | Some ref \<Rightarrow> if (\<exists>info. inspect ref = Inr info \<and> admit info \<noteq> Inr ()) then None else Some ref)"
  using assms
proof (induction kits rule: rev_induct)
  case Nil
  then show ?case by (simp add: admitKits_def)
next
  case (snoc p kits)
  obtain name ref where p: "p = (name, ref)" by (rule prod.exhaust)
  have d: "distinct (map fst kits)" "name \<notin> fst ` set kits" using snoc.prems p by auto
  have s: "admitKits inspect (kits @ [p]) = (if (\<exists>info. inspect ref = Inr info \<and> admit info \<noteq> Inr ())
      then admitKits inspect kits else AList.update name ref (admitKits inspect kits))"
    by (auto simp: admitKits_def p split: sum.splits)
  have n: "map_of kits name = None" using d(2) by (simp add: map_of_eq_None_iff)
  show ?case
    unfolding s using snoc.IH[OF d(1)] n by (auto simp: p map_add_def split: option.splits)
qed

lemma admitKits_distinct: "distinct (map fst (admitKits inspect kits))"
proof (induction kits rule: rev_induct)
  case (snoc p kits)
  then show ?case by (auto simp: admitKits_def distinct_update split: sum.splits prod.splits)
qed (simp add: admitKits_def)

lemma admit_iff:
  "admit i = Inr () \<longleftrightarrow> kn_Kind i = ''mixin'' \<and> \<not> kn_HasResources i \<and> \<not> kn_HasRunOptions i \<and> \<not> kn_HasTemplate i \<and> \<not> kn_HasVolumes i"
  by (simp add: admit_def)

lemma fold_keeps: "(\<And>x s. P s \<Longrightarrow> P (f x s)) \<Longrightarrow> P s \<Longrightarrow> P (fold f xs s)"
  by (induction xs arbitrary: s) auto

lemma dedupe_snoc: "dedupePorts (ps @ [p]) = (if p \<in> set (dedupePorts ps) then dedupePorts ps else dedupePorts ps @ [p])"
  by (simp add: dedupePorts_def)

lemma dedupePorts_set [simp]: "set (dedupePorts ps) = set ps"
  by (induction ps rule: rev_induct) (auto simp: dedupe_snoc, simp add: dedupePorts_def)

lemma dedupePorts_distinct: "distinct (dedupePorts ps)"
  by (induction ps rule: rev_induct) (auto simp: dedupe_snoc, simp add: dedupePorts_def)

text \<open>Order is kept: the result is what is left of the list without the later copies.\<close>

lemma dedupePorts_remdups: "dedupePorts ps = rev (remdups (rev ps))"
  by (induction ps rule: rev_induct) (auto simp: dedupe_snoc, simp add: dedupePorts_def)

text \<open>Scrubbing.\<close>

lemma replace_one:
  assumes "v \<noteq> []"
  shows "replace_all [] v r = []"
    and "prefix v (c # cs) \<Longrightarrow> replace_all (c # cs) v r = r @ replace_all (drop (length v) (c # cs)) v r"
    and "\<not> prefix v (c # cs) \<Longrightarrow> replace_all (c # cs) v r = c # replace_all cs v r"
  using assms by (simp_all add: replace_all_def)

lemma replace_prefix:
  assumes "v \<noteq> []" "hd r \<notin> set u" "r \<noteq> []" "prefix u (replace_all s v r)"
  shows "prefix u s"
  using assms(2,4)
proof (induction s arbitrary: u)
  case Nil
  then show ?case by (simp add: replace_one(1)[OF assms(1)])
next
  case (Cons c cs)
  show ?case
  proof (cases u)
    case u: (Cons x xs)
    show ?thesis
    proof (cases "prefix v (c # cs)")
      case True
      then have "prefix u (r @ replace_all (drop (length v) (c # cs)) v r)" using Cons.prems(2) replace_one(2)[OF assms(1)] by simp
      then have "x = hd r" using u assms(3) by (cases r) auto
      then show ?thesis using Cons.prems(1) u by simp
    next
      case False
      then have "x = c" "prefix xs (replace_all cs v r)" using Cons.prems(2) u replace_one(3)[OF assms(1) False] by auto
      with Cons.IH[of xs] Cons.prems(1) u show ?thesis by simp
    qed
  qed simp
qed

lemma sublist_across:
  assumes "sublist v (xs @ c # ys)" "c \<notin> set v"
  shows "sublist v xs \<or> sublist v ys"
  using assms(1)
proof (induction xs)
  case Nil
  then have "prefix v (c # ys) \<or> sublist v ys" by (simp add: sublist_Cons_right)
  then show ?case using assms(2) by (cases v) auto
next
  case (Cons x xs)
  then consider "prefix v (x # xs @ c # ys)" | "sublist v (xs @ c # ys)" by (auto simp: sublist_Cons_right)
  then show ?case
  proof cases
    case 1
    then have "prefix v (x # xs)" using assms(2) prefix_append[of v "x # xs" "c # ys"] by (auto simp: prefix_Cons)
    then show ?thesis using prefix_imp_sublist by blast
  next
    case 2
    with Cons.IH show ?thesis by (auto simp: sublist_Cons_right)
  qed
qed

lemma replaced_gone:
  assumes "v \<noteq> []" "c \<notin> set v" "e \<notin> set v" "\<not> sublist v m"
  shows "\<not> sublist v (replace_all s v (c # m @ [e]))"
proof (induction s rule: length_induct)
  case (1 s)
  let ?r = "c # m @ [e]"
  show ?case
  proof (cases s)
    case Nil
    then show ?thesis using assms(1) by (simp add: replace_one(1)[OF assms(1)])
  next
    case s: (Cons x xs)
    show ?thesis
    proof (cases "prefix v (x # xs)")
      case True
      have "length (drop (length v) s) < length s" using assms(1) s by auto
      then have ih: "\<not> sublist v (replace_all (drop (length v) s) v ?r)" using 1 by blast
      have "replace_all s v ?r = [] @ c # (m @ e # replace_all (drop (length v) s) v ?r)"
        using replace_one(2)[OF assms(1) True] s by simp
      then show ?thesis using sublist_across[of v "[]" c] sublist_across[of v m e] assms ih by (metis sublist_Nil_right)
    next
      case False
      have "\<not> prefix v (x # replace_all xs v ?r)"
      proof
        assume p: "prefix v (x # replace_all xs v ?r)"
        then obtain u where v: "v = x # u" "prefix u (replace_all xs v ?r)" using assms(1) by (cases v) auto
        have "prefix u xs" by (rule replace_prefix[OF assms(1) _ _ v(2)]) (use assms(2) v(1) in auto)
        with v(1) False show False by simp
      qed
      moreover have "\<not> sublist v (replace_all xs v ?r)" using 1 s by simp
      ultimately show ?thesis using replace_one(3)[OF assms(1) False] s by (simp add: sublist_Cons_right)
    qed
  qed
qed

end
