(* ===== verification/SdkBackend_Correct.thy ===== *)
theory SdkBackend_Correct
  imports SdkBackend
begin

text \<open>
  Correctness of the backend over the daemon.  What the daemon promises through its SDK is the locale \<open>sdk_daemon\<close>; under it the
  backend keeps \<open>backend_contract\<close>, so that what is proved of the manager and of the services for every backend with that contract holds
  for a node on the daemon.  Further: which kits are advertised, how workspaces are mounted, that a secret's value
  does not leave in an error, unpublishing of ports, memory sizes, and the lines of a log.
\<close>

section \<open>What the daemon promises\<close>

definition is_name :: "SDKOption \<Rightarrow> bool" where
  "is_name o' \<longleftrightarrow> (\<exists>n. o' = WithName n)"

text \<open>
  \<open>dstatus d n\<close> is the state the daemon reports of the sandbox called \<open>n\<close>.  A call that fails leaves the sandboxes as they
  were, a sandbox that is not found is not there, and no error of the SDK is the node's own \<^verbatim>\<open>ErrNotFound\<close>.
\<close>

locale sdk_daemon =
  fixes S :: "'d SDK" and dinv :: "'d \<Rightarrow> bool" and dstatus :: "'d \<Rightarrow> string \<Rightarrow> string option"
  assumes get_found: "dinv d \<Longrightarrow> sdk_Get S d n = (Inr sb, d') \<Longrightarrow> dinv d' \<and> dstatus d' = dstatus d \<and> sb_Name sb = n \<and> dstatus d n = Some (sb_State sb)"
    and get_fails: "dinv d \<Longrightarrow> sdk_Get S d n = (Inl e, d') \<Longrightarrow> dinv d' \<and> dstatus d' = dstatus d \<and> e \<noteq> ErrNotFound
      \<and> (errors_is e (sdk_ErrSandboxNotFound S) \<longrightarrow> dstatus d n = None)"
    and made: "dinv d \<Longrightarrow> sdk_Create S d (WithName n # os) = (Inr sb, d') \<Longrightarrow> \<not> list_ex is_name os \<Longrightarrow>
      dinv d' \<and> dstatus d n = None \<and> dstatus d' = (dstatus d)(n \<mapsto> sb_State sb)"
    and not_made: "dinv d \<Longrightarrow> sdk_Create S d os = (Inl e, d') \<Longrightarrow> dinv d' \<and> dstatus d' = dstatus d"
    and listed: "dinv d \<Longrightarrow> sdk_List S d = (Inr sbs, d') \<Longrightarrow> sb_Name ` set sbs = dom (dstatus d)"
    and list_quiet: "dinv d \<Longrightarrow> sdk_List S d = (rl, d') \<Longrightarrow> dinv d' \<and> dstatus d' = dstatus d"
    and started: "dinv d \<Longrightarrow> dstatus d n \<noteq> None \<Longrightarrow> sdk_Start S d n = (Inr u, d') \<Longrightarrow> dinv d' \<and> dstatus d' = (dstatus d)(n \<mapsto> ''running'')"
    and not_started: "dinv d \<Longrightarrow> sdk_Start S d n = (Inl e, d') \<Longrightarrow> dinv d' \<and> dstatus d' = dstatus d"
    and stopped: "dinv d \<Longrightarrow> dstatus d n \<noteq> None \<Longrightarrow> sdk_Stop S d n = (Inr u, d') \<Longrightarrow> dinv d' \<and> dstatus d' = (dstatus d)(n \<mapsto> ''stopped'')"
    and not_stopped: "dinv d \<Longrightarrow> sdk_Stop S d n = (Inl e, d') \<Longrightarrow> dinv d' \<and> dstatus d' = dstatus d"
    and gone: "dinv d \<Longrightarrow> sdk_Remove S d n True = (Inr u, d') \<Longrightarrow> dinv d' \<and> dstatus d' = (dstatus d)(n := None)"
    and not_gone: "dinv d \<Longrightarrow> sdk_Remove S d n True = (Inl e, d') \<Longrightarrow> dinv d' \<and> dstatus d' = dstatus d \<and> e \<noteq> ErrNotFound"
    and ports_quiet: "dinv d \<Longrightarrow> sdk_Ports S d n = (rp, d') \<Longrightarrow> dinv d' \<and> dstatus d' = dstatus d"
    and secrets_quiet: "dinv d \<Longrightarrow> sdk_ListSecrets S d n = (rs, d') \<Longrightarrow> dinv d' \<and> dstatus d' = dstatus d"
    and remove_custom_quiet: "dinv d \<Longrightarrow> sdk_RemoveCustom S d n h = (rr, d') \<Longrightarrow> dinv d' \<and> dstatus d' = dstatus d"
    and stats_quiet: "dinv d \<Longrightarrow> sdk_Stats S d n = (ru, d') \<Longrightarrow> dinv d' \<and> dstatus d' = dstatus d"
    and images_quiet: "dinv d \<Longrightarrow> sdk_Images S d = (ri, d') \<Longrightarrow> dinv d' \<and> dstatus d' = dstatus d"
begin

lemma with_handle_cases:
  assumes "dinv d" "with_handle S d n k = (r, d')"
  obtains (absent) e where "r = Inl e" "dinv d'" "dstatus d' = dstatus d" "e = ErrNotFound \<longrightarrow> dstatus d n = None"
  | (found) d1 where "dinv d1" "dstatus d1 = dstatus d" "dstatus d n \<noteq> None" "k n d1 = (r, d')"
proof (cases "sdk_Get S d n")
  case (Pair r1 d1)
  show thesis
  proof (cases r1)
    case (Inl e)
    with assms(2) Pair have "r = Inl (translateNotFound S e)" "d' = d1" by (simp_all add: with_handle_def sdk_handle_def)
    with get_fails[OF assms(1)] Pair Inl show thesis by (intro absent[of "translateNotFound S e"]) (auto simp: translateNotFound_def)
  next
    case (Inr sb)
    with get_found[OF assms(1)] Pair assms(2) show thesis by (intro found[of d1]) (auto simp: with_handle_def sdk_handle_def)
  qed
qed

end

lemma workspace_opts_not_name: "workspace_opts b c p ws = Inr os \<Longrightarrow> \<not> list_ex is_name os"
proof (induction ws arbitrary: p os)
  case (Cons w ws)
  then show ?case by (auto simp: is_name_def split: option.splits sum.splits)
qed simp

lemma kit_opts_not_name: "kit_opts b ks = Inr os \<Longrightarrow> \<not> list_ex is_name os"
proof (induction ks arbitrary: os)
  case (Cons k ks)
  then show ?case by (auto simp: is_name_def split: option.splits sum.splits)
qed simp

lemma create_opts_name:
  assumes "create_opts b spec = Inr os"
  shows "\<exists>os'. os = WithName (cs_Name spec) # os' \<and> \<not> list_ex is_name os'"
proof -
  obtain ws ks where w: "workspace_opts b (cs_Clone spec) True (cs_Workspaces spec) = Inr ws" "kit_opts b (cs_Kits spec) = Inr ks"
    using assms by (auto simp: create_opts_def Let_def split: sum.splits)
  have n: "\<not> list_ex is_name ws" "\<not> list_ex is_name ks" using workspace_opts_not_name[OF w(1)] kit_opts_not_name[OF w(2)] by auto
  show ?thesis using assms n by (auto simp: create_opts_def Let_def w is_name_def)
qed

section \<open>The backend keeps its contract\<close>

context sdk_daemon
begin

lemma sdk_create_ok:
  assumes "dinv d" "SDKBackend_Create S b d spec = (Inr bs, d')"
  shows "dinv d' \<and> dstatus d (cs_Name spec) = None \<and> dstatus d' = (dstatus d)(cs_Name spec \<mapsto> bs_Status bs)"
proof -
  obtain os sb where os: "create_opts b spec = Inr os" "sdk_Create S d os = (Inr sb, d')" "bs = sandbox_of sb"
    using assms(2) by (auto simp: SDKBackend_Create_def split: sum.splits prod.splits)
  obtain os' where "os = WithName (cs_Name spec) # os'" "\<not> list_ex is_name os'" using create_opts_name[OF os(1)] by blast
  with made[OF assms(1)] os(2,3) show ?thesis by (simp add: sandbox_of_def)
qed

lemma sdk_create_err:
  assumes "dinv d" "SDKBackend_Create S b d spec = (Inl e, d')"
  shows "dinv d' \<and> dstatus d' = dstatus d"
  using assms not_made[OF assms(1)] by (auto simp: SDKBackend_Create_def split: sum.splits prod.splits)

lemma sdk_remove_cases:
  assumes "dinv d" "SDKBackend_Remove S d n = (r, d')"
  shows "case r of Inr u \<Rightarrow> dinv d' \<and> dstatus d' = (dstatus d)(n := None)
    | Inl e \<Rightarrow> dinv d' \<and> dstatus d' = dstatus d \<and> (e = ErrNotFound \<longrightarrow> dstatus d n = None)"
proof (cases rule: with_handle_cases[OF assms(1) assms(2)[unfolded SDKBackend_Remove_def], case_names absent found])
  case (absent e)
  then show ?thesis by simp
next
  case (found d1)
  then show ?thesis using gone[of d1 n _ d'] not_gone[of d1 n _ d'] by (cases r) auto
qed

lemma sdk_start_cases:
  assumes "dinv d" "SDKBackend_Start S d n = (r, d')"
  shows "case r of Inr u \<Rightarrow> dinv d' \<and> dstatus d n \<noteq> None \<and> dstatus d' = (dstatus d)(n \<mapsto> ''running'') | Inl e \<Rightarrow> dinv d' \<and> dstatus d' = dstatus d"
proof (cases rule: with_handle_cases[OF assms(1) assms(2)[unfolded SDKBackend_Start_def], case_names absent found])
  case (found d1)
  then show ?thesis using started[of d1 n _ d'] not_started[of d1 n _ d'] by (cases r) auto
qed simp

lemma sdk_stop_cases:
  assumes "dinv d" "SDKBackend_Stop S d n = (r, d')"
  shows "case r of Inr u \<Rightarrow> dinv d' \<and> dstatus d n \<noteq> None \<and> dstatus d' = (dstatus d)(n \<mapsto> ''stopped'') | Inl e \<Rightarrow> dinv d' \<and> dstatus d' = dstatus d"
proof (cases rule: with_handle_cases[OF assms(1) assms(2)[unfolded SDKBackend_Stop_def], case_names absent found])
  case (found d1)
  then show ?thesis using stopped[of d1 n _ d'] not_stopped[of d1 n _ d'] by (cases r) auto
qed simp

lemmas sdk_ok = sdk_start_cases[where r = "Inr u" for u, simplified sum.case] sdk_stop_cases[where r = "Inr u" for u, simplified sum.case]
  sdk_remove_cases[where r = "Inr u" for u, simplified sum.case]

lemma sdk_remove_err: "dinv d \<Longrightarrow> SDKBackend_Remove S d n = (Inl e, d') \<Longrightarrow> dinv d' \<and> dstatus d' = dstatus d"
  using sdk_remove_cases[of d n "Inl e" d'] by (simp only: sum.case)

lemmas sdk_err = sdk_start_cases[where r = "Inl e" for e, simplified sum.case] sdk_stop_cases[where r = "Inl e" for e, simplified sum.case] sdk_remove_err

lemma sdk_ports_frame:
  assumes "dinv d" "SDKBackend_Ports S d n = (r, d')"
  shows "dinv d' \<and> dstatus d' = dstatus d"
proof (cases rule: with_handle_cases[OF assms(1) assms(2)[unfolded SDKBackend_Ports_def], case_names absent found])
  case (found d1)
  then show ?thesis using ports_quiet[of d1 n _ d'] by (auto split: prod.splits sum.splits)
qed simp

lemma sdk_stats_frame:
  assumes "dinv d" "SDKBackend_Stats S d n = (r, d')"
  shows "dinv d' \<and> dstatus d' = dstatus d"
proof (cases rule: with_handle_cases[OF assms(1) assms(2)[unfolded SDKBackend_Stats_def], case_names absent found])
  case (found d1)
  then show ?thesis using stats_quiet[of d1 n _ d'] by (auto split: prod.splits sum.splits)
qed simp

lemma sdk_list_frame: "dinv d \<Longrightarrow> SDKBackend_List S d = (r, d') \<Longrightarrow> dinv d' \<and> dstatus d' = dstatus d"
  using list_quiet by (auto simp: SDKBackend_List_def split: prod.splits sum.splits)

lemma sdk_secrets_frame: "dinv d \<Longrightarrow> SDKBackend_SecretList S d sc = (r, d') \<Longrightarrow> dinv d' \<and> dstatus d' = dstatus d"
  using secrets_quiet by (auto simp: SDKBackend_SecretList_def split: prod.splits sum.splits)

end

sublocale sdk_daemon \<subseteq> sdkb: backend_contract "sdk_backend S errText b" dinv dstatus for errText b
proof
  fix s l s' assume "dinv s" "be_List (sdk_backend S errText b) s = (Inr l, s')"
  moreover then obtain sbs where "sdk_List S s = (Inr sbs, s')" "l = map sandbox_of sbs"
    by (auto simp: sdk_backend_def SDKBackend_List_def split: prod.splits sum.splits)
  ultimately show "bs_Name ` set l = dom (dstatus s)" using listed[of s sbs s'] by (simp add: sandbox_of_def image_image)
next
  fix s n e s' assume i: "dinv s" "be_Remove (sdk_backend S errText b) s n = (Inl ErrNotFound, s')"
  then show "dstatus s n = None" using sdk_remove_cases[OF i(1), of n "Inl ErrNotFound" s'] by (simp add: sdk_backend_def)
qed (unfold sdk_backend_def Backend.select_convs SDKBackend_SecretRemove_def,
    (erule (1) sdk_create_ok sdk_create_err sdk_ports_frame sdk_list_frame sdk_secrets_frame sdk_ok sdk_err remove_custom_quiet)+)

section \<open>A daemon\<close>

text \<open>A daemon whose sandboxes are those of the in-memory backend, listing each published port once for each host address.\<close>

definition no_sandbox :: go_error where
  "no_sandbox = Errf ''sandbox not found'' []"

definition own :: "'a res \<times> 'd \<Rightarrow> 'a res \<times> 'd" where
  "own p = (case p of (Inl _, d) \<Rightarrow> (Inl no_sandbox, d) | (Inr x, d) \<Rightarrow> (Inr x, d))"

definition sdk_of :: "BackendSandbox \<Rightarrow> SDKSandbox" where
  "sdk_of sb = \<lparr>sb_Name = bs_Name sb, sb_State = bs_Status sb, sb_MountPolicyDenied = False\<rparr>"

definition port_rows :: "PublishedPort list \<Rightarrow> SDKPort list" where
  "port_rows ps = concat (map (\<lambda>p. [\<lparr>po_HostIP = ''127.0.0.1'', po_HostPort = pp_HostPort p, po_SandboxPort = pp_ContainerPort p\<rparr>,
                                   \<lparr>po_HostIP = ''::1'', po_HostPort = pp_HostPort p, po_SandboxPort = pp_ContainerPort p\<rparr>]) ps)"

fun option_name :: "SDKOption list \<Rightarrow> string" where
  "option_name (WithName n # os) = n"
| "option_name (_ # os) = option_name os"
| "option_name [] = ''''"

definition fake_sdk :: "Fake SDK" where
  "fake_sdk =
     \<lparr>sdk_ErrSandboxNotFound = no_sandbox, sdk_ErrUnexpectedFormat = Errf ''unexpected format'' [],
      sdk_New = (\<lambda>d. (Inr (), d)),
      sdk_InspectKit = (\<lambda>d ref. if ref = ''vols'' then Inr \<lparr>kt_Kind = ''mixin'', kt_Sandbox = NoBytes, kt_Volumes = JSONText (JArr [JStr ''/''])\<rparr>
                        else if ref = ''down'' then Inl (Errf ''unreachable'' [])
                        else Inr \<lparr>kt_Kind = ''mixin'', kt_Sandbox = NoBytes, kt_Volumes = NoBytes\<rparr>),
      sdk_Get = (\<lambda>d n. case own (Fake_Get d n) of (Inl e, d) \<Rightarrow> (Inl e, d) | (Inr sb, d) \<Rightarrow> (Inr (sdk_of sb), d)),
      sdk_List = (\<lambda>d. case Fake_List d of (Inl e, d) \<Rightarrow> (Inl e, d) | (Inr l, d) \<Rightarrow> (Inr (map sdk_of l), d)),
      sdk_Create = (\<lambda>d os. case Fake_Create d (CreateSpec_zero\<lparr>cs_Name := option_name os\<rparr>) of
                             (Inl e, d) \<Rightarrow> (Inl e, d) | (Inr sb, d) \<Rightarrow> (Inr (sdk_of sb), d)),
      sdk_Start = (\<lambda>d n. own (Fake_Start d n)), sdk_Stop = (\<lambda>d n. own (Fake_Stop d n)),
      sdk_Remove = (\<lambda>d n force. own (Fake_Remove d n)),
      sdk_Workspace = (\<lambda>d n. (Inr ''/work'', d)),
      sdk_Exec = (\<lambda>d n cmd os. (Inr (0, ''ok'', ''''), d)), sdk_ExecDetached = (\<lambda>d n cmd os. (Inr ''d1'', d)),
      sdk_InspectExec = (\<lambda>d n i. (Inr (False, 0), d)),
      sdk_ExecInteractive = (\<lambda>d n cmd os. (Inl (Errf ''no terminal'' []), d)),
      sdk_PublishPort = (\<lambda>d n c. case own (Fake_PublishPort d n c) of (Inl e, d) \<Rightarrow> (Inl e, d) | (Inr p, d) \<Rightarrow> (Inr (port_rows [p]), d)),
      sdk_Ports = (\<lambda>d n. (Inr (port_rows (slice_of (fk_ports d) n)), d)),
      sdk_UnpublishPort = (\<lambda>d n spec.
         if list_ex (\<lambda>p. unpublish_spec (pp_HostPort p) (pp_ContainerPort p) = spec) (slice_of (fk_ports d) n)
         then (Inr (), d\<lparr>fk_ports := AList.update n
                 (filter (\<lambda>p. unpublish_spec (pp_HostPort p) (pp_ContainerPort p) \<noteq> spec) (slice_of (fk_ports d) n)) (fk_ports d)\<rparr>)
         else (Inl (Errf ''no published port matches'' []), d)),
      sdk_CopyTo = (\<lambda>d n l r. (Inr (), d)), sdk_CopyFrom = (\<lambda>d n r l. (Inr (), d)),
      sdk_Stats = (\<lambda>d n. own (Fake_Stats d n)), sdk_Logs = (\<lambda>d n p. (Inr ('''', False), d)),
      sdk_PolicyLog = (\<lambda>d. (Inr ([], []), d)),
      sdk_Allow = Fake_PolicyAllow, sdk_Deny = Fake_PolicyDeny, sdk_SetDefault = Fake_PolicySetDefault,
      sdk_RemoveRule = Fake_PolicyRemoveRule, sdk_Reset = Fake_PolicyReset,
      sdk_Check = (\<lambda>d t sc. (Inl (Errf ''no policy'' []), d)), sdk_ListRules = (\<lambda>d sc. (Inr [], d)), sdk_ListRaw = (\<lambda>d sc. (Inr '''', d)),
      sdk_Profiles = (\<lambda>d. (Inr '''', d)),
      sdk_SetCustom = (\<lambda>d sc s. (Inl (Wrapf ''sbx secret set-custom --value %s: %w'' [sc_Value s] no_sandbox), d)),
      sdk_ListSecrets = (\<lambda>d sc. (Inr ([\<lparr>st_Name = ''gh'', st_Type = ''service'', st_Scope = ''sb1''\<rparr>], []), d)),
      sdk_RemoveCustom = Fake_SecretRemove, sdk_RemoveStored = Fake_SecretRemoveStored,
      sdk_Images = Fake_ListTemplateInfo, sdk_SaveTemplate = Fake_SaveTemplate, sdk_RemoveImage = Fake_RemoveTemplate\<rparr>"

lemma fake_Get_iff:
  "sdk_Get fake_sdk d n = (Inr sb, d') \<longleftrightarrow> d' = d \<and> (\<exists>x. map_of (fk_sandboxes d) n = Some x \<and> sb = sdk_of x)"
  "sdk_Get fake_sdk d n = (Inl e, d') \<longleftrightarrow> d' = d \<and> map_of (fk_sandboxes d) n = None \<and> e = no_sandbox"
  by (auto simp: fake_sdk_def own_def Fake_Get_def split: option.splits)

lemma own_iff: "own p = (Inr x, d') \<longleftrightarrow> p = (Inr x, d')" "own p = (Inl e, d') \<longleftrightarrow> e = no_sandbox \<and> (\<exists>f. p = (Inl f, d'))"
  by (auto simp: own_def split: prod.splits sum.splits)

interpretation fakedaemon: sdk_daemon fake_sdk fake_inv fake_status
proof
  fix d n sb d' assume "fake_inv d" "sdk_Get fake_sdk d n = (Inr sb, d')"
  then show "fake_inv d' \<and> fake_status d' = fake_status d \<and> sb_Name sb = n \<and> fake_status d n = Some (sb_State sb)"
    by (auto simp: fake_Get_iff sdk_of_def fake_status_def dest: fake_inv_lookup)
next
  fix d n e d' assume "fake_inv d" "sdk_Get fake_sdk d n = (Inl e, d')"
  then show "fake_inv d' \<and> fake_status d' = fake_status d \<and> e \<noteq> ErrNotFound \<and> (errors_is e (sdk_ErrSandboxNotFound fake_sdk) \<longrightarrow> fake_status d n = None)"
    by (auto simp: fake_Get_iff no_sandbox_def fake_status_def)
next
  fix d n os sb d' assume d: "fake_inv d" "sdk_Create fake_sdk d (WithName n # os) = (Inr sb, d')"
  then obtain bs where bs: "Fake_Create d (CreateSpec_zero\<lparr>cs_Name := n\<rparr>) = (Inr bs, d')" "sb = sdk_of bs"
    by (auto simp: fake_sdk_def split: prod.splits sum.splits)
  from Fake_Create_ok[OF d(1) bs(1)] bs(2)
  show "fake_inv d' \<and> fake_status d n = None \<and> fake_status d' = (fake_status d)(n \<mapsto> sb_State sb)"
    by (simp add: sdk_of_def)
next
  fix d os e d' assume "fake_inv d" "sdk_Create fake_sdk d os = (Inl e, d')"
  then show "fake_inv d' \<and> fake_status d' = fake_status d" by (auto simp: fake_sdk_def dest: Fake_Create_err split: prod.splits sum.splits)
next
  fix d sbs d' assume d: "fake_inv d" "sdk_List fake_sdk d = (Inr sbs, d')"
  then have "sbs = map sdk_of (map snd (fk_sandboxes d))" by (auto simp: fake_sdk_def Fake_List_def split: prod.splits sum.splits option.splits)
  then show "sb_Name ` set sbs = dom (fake_status d)" using Fake_List_dom[OF d(1)] by (simp add: sdk_of_def image_image)
next
  fix d rl d' assume "fake_inv d" "sdk_List fake_sdk d = (rl, d')"
  then show "fake_inv d' \<and> fake_status d' = fake_status d" by (auto simp: fake_sdk_def Fake_List_def split: prod.splits sum.splits option.splits)
next
  fix d n u d' assume "fake_inv d" "sdk_Start fake_sdk d n = (Inr u, d')"
  then show "fake_inv d' \<and> fake_status d' = (fake_status d)(n \<mapsto> ''running'')"
    using setStatus_ok[of d "''running''" n u d'] by (simp add: fake_sdk_def own_iff Fake_Start_def)
next
  fix d n u d' assume "fake_inv d" "sdk_Stop fake_sdk d n = (Inr u, d')"
  then show "fake_inv d' \<and> fake_status d' = (fake_status d)(n \<mapsto> ''stopped'')"
    using setStatus_ok[of d "''stopped''" n u d'] by (simp add: fake_sdk_def own_iff Fake_Stop_def)
next
  fix d n e d' assume "fake_inv d" "sdk_Start fake_sdk d n = (Inl e, d')"
  then show "fake_inv d' \<and> fake_status d' = fake_status d" by (auto simp: fake_sdk_def own_iff Fake_Start_def dest: setStatus_err)
next
  fix d n e d' assume "fake_inv d" "sdk_Stop fake_sdk d n = (Inl e, d')"
  then show "fake_inv d' \<and> fake_status d' = fake_status d" by (auto simp: fake_sdk_def own_iff Fake_Stop_def dest: setStatus_err)
next
  fix d n u d' assume "fake_inv d" "sdk_Remove fake_sdk d n True = (Inr u, d')"
  then show "fake_inv d' \<and> fake_status d' = (fake_status d)(n := None)" using Fake_Remove_ok[of d n u d'] by (simp add: fake_sdk_def own_iff)
next
  fix d n e d' assume "fake_inv d" "sdk_Remove fake_sdk d n True = (Inl e, d')"
  then show "fake_inv d' \<and> fake_status d' = fake_status d \<and> e \<noteq> ErrNotFound"
    by (auto simp: fake_sdk_def own_iff no_sandbox_def dest: Fake_Remove_err)
next
  fix d n h rr d' assume "fake_inv d" "sdk_RemoveCustom fake_sdk d n h = (rr, d')"
  then show "fake_inv d' \<and> fake_status d' = fake_status d" using fake_frames(4)[of d n h rr d'] by (simp add: fake_sdk_def)
next
  fix d n ru d' assume "fake_inv d" "sdk_Stats fake_sdk d n = (ru, d')"
  then show "fake_inv d' \<and> fake_status d' = fake_status d"
    by (auto simp: fake_sdk_def own_def Fake_Stats_def Fake_Get_def split: prod.splits sum.splits option.splits)
qed (auto simp: fake_sdk_def Fake_ListTemplateInfo_def)

text \<open>The contract, outside the locale.\<close>

context sdk_daemon
begin

lemma axioms_contract: "backend_contract (sdk_backend S errText b) dinv dstatus"
  by (rule sdkb.backend_contract_axioms)

end

section \<open>Properties\<close>

text \<open>
  C31: What a node advertises of its configured kits.  A kit is admitted, under the reference configured for it, exactly when it is
  configured and either its inspection failed or its report shows a mixin whose sandbox block decodes and declares no image, no
  default command and no resources, and which declares no volumes; the advertised names are sorted, without duplicates, and exactly the
  admitted ones.
\<close>

theorem kit_admission_exact:
  assumes "NewSDKBackend S resolve kits d = (Inr b, d')" and "distinct (map fst kits)"
  shows "(\<forall>k ref. map_of (sk_kits b) k = Some ref \<longleftrightarrow> map_of kits k = Some ref
        \<and> (\<forall>info. sdk_InspectKit S d' ref = Inr info \<longrightarrow> kt_Kind info = ''mixin'' \<and> \<not> hasVolumes (kt_Volumes info)
            \<and> (\<exists>sb. unmarshal_sandbox (kt_Sandbox info) = Some sb \<and> sx_Image sb = '''' \<and> sx_Default sb = [] \<and> \<not> hasResources (sx_Resources sb))))
    \<and> sorted_wrt (<) (SDKBackend_AdmittedKits b) \<and> set (SDKBackend_AdmittedKits b) = dom (map_of (sk_kits b))"
proof -
  have b: "sk_kits b = admitKits (inspectKit S d') kits" using assms(1) by (auto simp: NewSDKBackend_def split: prod.splits sum.splits)
  have a: "admit (kitInfoFrom info) = Inr () \<longleftrightarrow> kt_Kind info = ''mixin'' \<and> \<not> hasVolumes (kt_Volumes info)
          \<and> (\<exists>sb. unmarshal_sandbox (kt_Sandbox info) = Some sb \<and> sx_Image sb = '''' \<and> sx_Default sb = [] \<and> \<not> hasResources (sx_Resources sb))" for info
    by (auto simp: admit_iff kitInfoFrom_def split: option.splits)
  have i: "(\<exists>x. inspectKit S d' ref = Inr x \<and> admit x \<noteq> Inr ()) \<longleftrightarrow> (\<exists>info. sdk_InspectKit S d' ref = Inr info \<and> admit (kitInfoFrom info) \<noteq> Inr ())"
    for ref by (auto simp: inspectKit_def split: sum.splits)
  have l: "map_of (sk_kits b) k = Some ref \<longleftrightarrow> map_of kits k = Some ref
      \<and> (\<forall>info. sdk_InspectKit S d' ref = Inr info \<longrightarrow> kt_Kind info = ''mixin'' \<and> \<not> hasVolumes (kt_Volumes info)
          \<and> (\<exists>sb. unmarshal_sandbox (kt_Sandbox info) = Some sb \<and> sx_Image sb = '''' \<and> sx_Default sb = [] \<and> \<not> hasResources (sx_Resources sb)))" for k ref
    unfolding b admitKits_lookup[OF assms(2)] i a[symmetric] by (auto split: option.splits)
  have "distinct (map fst (sk_kits b))" unfolding b by (rule admitKits_distinct)
  then have "sorted_wrt (<) (SDKBackend_AdmittedKits b) \<and> set (SDKBackend_AdmittedKits b) = dom (map_of (sk_kits b))"
    by (simp add: SDKBackend_AdmittedKits_def kitNames_def strict_sorted_iff dom_map_of_conv_image_fst)
  with l show ?thesis by blast
qed

definition example_sdkb :: SDKBackend where
  "example_sdkb = \<lparr>sk_resolve = (\<lambda>n. if n = ''repo'' then Some (''/srv/repo'', True) else None),
     sk_kits = admitKits (inspectKit fake_sdk (NewFake [])) [(''good'', ''ok''), (''mounts'', ''vols''), (''flaky'', ''down'')]\<rparr>"

theorem kit_admission_exact_witness:
  "map_of (sk_kits example_sdkb) ''mounts'' = None \<and> map_of (sk_kits example_sdkb) ''flaky'' = Some ''down''"
proof -
  have n: "NewSDKBackend fake_sdk (\<lambda>n. if n = ''repo'' then Some (''/srv/repo'', True) else None)
      [(''good'', ''ok''), (''mounts'', ''vols''), (''flaky'', ''down'')] (NewFake []) = (Inr example_sdkb, NewFake [])"
    by (simp add: NewSDKBackend_def example_sdkb_def) (simp add: fake_sdk_def)
  from kit_admission_exact[OF n] have k: "\<forall>k ref. map_of (sk_kits example_sdkb) k = Some ref \<longrightarrow>
      (\<forall>info. sdk_InspectKit fake_sdk (NewFake []) ref = Inr info \<longrightarrow> \<not> hasVolumes (kt_Volumes info)) \<and> map_of [(''good'', ''ok''), (''mounts'', ''vols''), (''flaky'', ''down'')] k = Some ref"
    "map_of (sk_kits example_sdkb) ''flaky'' = Some ''down''" by (auto simp: fake_sdk_def)
  have "map_of (sk_kits example_sdkb) ''mounts'' \<noteq> Some ref" for ref
  proof
    assume m: "map_of (sk_kits example_sdkb) ''mounts'' = Some ref"
    with k(1)[rule_format, OF m] have "ref = ''vols''" by simp
    with k(1)[rule_format, OF m] show False by (simp add: fake_sdk_def)
  qed
  with k(2) show ?thesis by (cases "map_of (sk_kits example_sdkb) ''mounts''") auto
qed


definition sdk_env :: "(mem_db, Fake) Env" where
  "sdk_env = mem_env\<lparr>en_backend := sdk_backend fake_sdk (\<lambda>_. '''') example_sdkb\<rparr>"


text \<open>How a workspace reaches the daemon.\<close>

definition mount_ok :: "SDKBackend \<Rightarrow> bool \<Rightarrow> bool \<Rightarrow> WorkspaceMount \<Rightarrow> SDKOption \<Rightarrow> bool" where
  "mount_ok b clone primary m o' \<longleftrightarrow> (\<exists>host ro. sk_resolve b (wm_Name m) = Some (host, ro)
     \<and> (if ro \<or> wm_ReadOnly m then (primary \<and> clone \<and> o' = WithWorkspace host) \<or> (\<not> primary \<and> o' = WithWorkspace (host @ '':ro''))
        else o' = WithWorkspace host))"

lemma workspace_opts_ok:
  "workspace_opts b clone primary ws = Inr os \<Longrightarrow> (case ws of [] \<Rightarrow> os = []
     | m # ms \<Rightarrow> \<exists>o' os'. os = o' # os' \<and> mount_ok b clone primary m o' \<and> list_all2 (mount_ok b clone False) ms os')"
proof (induction ws arbitrary: primary os)
  case (Cons m ms)
  obtain host ro path os' where r: "sk_resolve b (wm_Name m) = Some (host, ro)"
    "workspaceArg (wm_Name m) host (ro \<or> wm_ReadOnly m) primary clone = Inr path" "workspace_opts b clone False ms = Inr os'" "os = WithWorkspace path # os'"
    using Cons.prems by (auto split: option.splits sum.splits)
  have "mount_ok b clone primary m (WithWorkspace path)" using r(1,2) by (auto simp: mount_ok_def workspaceArg_def split: if_splits)
  moreover have "list_all2 (mount_ok b clone False) ms os'" using Cons.IH[OF r(3)] by (cases ms) auto
  ultimately show ?case using r(4) by simp
qed simp

lemma resolver_read_only:
  assumes "distinct (map wc_Name ws)" "w \<in> set ws" "wc_ReadOnly w \<or> wc_Git w \<noteq> None"
  shows "\<exists>host. workspaceResolver getenv absPath ws dataDir (wc_Name w) = Some (host, True)"
proof -
  let ?f = "\<lambda>w. (effectiveGitBase getenv absPath dataDir w, wc_ReadOnly w \<or> wc_Git w \<noteq> None)"
  have "map_of (fold (\<lambda>w m. AList.update (wc_Name w) (?f w) m) xs m) (wc_Name w)
      = (if w \<in> set xs then Some (?f w) else map_of m (wc_Name w))" if "distinct (map wc_Name xs)" "w \<in> set xs \<or> wc_Name w \<notin> wc_Name ` set xs" for xs m
    using that
  proof (induction xs arbitrary: m)
    case (Cons x xs)
    have d: "distinct (map wc_Name xs)" "wc_Name x \<notin> wc_Name ` set xs" using Cons.prems(1) by auto
    show ?case
    proof (cases "w = x")
      case True
      then show ?thesis using Cons.IH[OF d(1)] d(2) by (auto simp: image_iff)
    next
      case False
      then have "w \<in> set xs \<or> wc_Name w \<notin> wc_Name ` set xs" "wc_Name w \<noteq> wc_Name x"
        using Cons.prems(2) d(2) by (auto simp: image_iff)
      with Cons.IH[OF d(1)] False show ?thesis by (simp add: update_conv)
    qed
  qed simp
  from this[OF assms(1)] assms(2,3) show ?thesis by (simp add: workspaceResolver_def)
qed

text \<open>
  C16: A read-only workspace is never handed to a sandbox to write.  Creating a sandbox either fails before the daemon is called, or calls
  it with one mount for each workspace of the request, in order, after the options that need none; and a mount of a workspace that is
  read-only (because the request says so, the configuration does, or it is backed by git) is marked read-only, except that of the first
  workspace, which is then only ever passed in clone mode, with the option that makes the daemon clone it.
\<close>

theorem workspaces_mounted_safely:
  assumes "sk_resolve b = workspaceResolver getenv absPath ws dataDir" and "distinct (map wc_Name ws)"
    and "SDKBackend_Create S b d spec = (r, d')"
  shows "(d' = d \<and> (\<exists>e. r = Inl e \<and> create_opts b spec = Inl e))
    \<or> (\<exists>os ms ks. create_opts b spec = Inr (os @ ms @ ks) \<and> d' = snd (sdk_Create S d (os @ ms @ ks))
        \<and> length ms = length (cs_Workspaces spec)
        \<and> (\<forall>i < length ms. mount_ok b (cs_Clone spec) (i = 0) (cs_Workspaces spec ! i) (ms ! i))
        \<and> (\<forall>i < length ms. \<forall>w \<in> set ws. wm_Name (cs_Workspaces spec ! i) = wc_Name w \<and> (wc_ReadOnly w \<or> wc_Git w \<noteq> None) \<longrightarrow>
             (\<exists>host. (i = 0 \<and> WithClone \<in> set os \<and> ms ! i = WithWorkspace host) \<or> (0 < i \<and> ms ! i = WithWorkspace (host @ '':ro'')))))"
proof (cases "create_opts b spec")
  case (Inl e)
  then show ?thesis using assms(3) by (simp add: SDKBackend_Create_def)
next
  case (Inr all)
  let ?ws = "cs_Workspaces spec"
  obtain ms ks where o': "workspace_opts b (cs_Clone spec) True ?ws = Inr ms" "kit_opts b (cs_Kits spec) = Inr ks"
    using Inr by (auto simp: create_opts_def Let_def split: sum.splits)
  then obtain os where os: "all = os @ ms @ ks" "cs_Clone spec \<longrightarrow> WithClone \<in> set os" using Inr by (fastforce simp: create_opts_def Let_def)
  have m: "mount_ok b (cs_Clone spec) (i = 0) (?ws ! i) (ms ! i)" if "i < length ms" for i
    using workspace_opts_ok[OF o'(1)] that by (auto split: list.splits simp: list_all2_conv_all_nth nth_Cons')
  have len: "length ms = length ?ws" using workspace_opts_ok[OF o'(1)] by (auto split: list.splits dest: list_all2_lengthD)
  have "\<exists>host. (i = 0 \<and> WithClone \<in> set os \<and> ms ! i = WithWorkspace host) \<or> (0 < i \<and> ms ! i = WithWorkspace (host @ '':ro''))"
    if h: "i < length ms" "w \<in> set ws" "wm_Name (?ws ! i) = wc_Name w" "wc_ReadOnly w \<or> wc_Git w \<noteq> None" for i w
  proof -
    obtain host where "sk_resolve b (wm_Name (?ws ! i)) = Some (host, True)"
      using resolver_read_only[OF assms(2) h(2,4)] unfolding assms(1) h(3) by blast
    with m[OF h(1)] os(2) show ?thesis by (auto simp: mount_ok_def)
  qed
  moreover have "d' = snd (sdk_Create S d all)" using assms(3) Inr by (auto simp: SDKBackend_Create_def split: prod.splits sum.splits)
  ultimately show ?thesis using Inr os(1) len m by blast
qed

text \<open>A node with a git-backed and a plain workspace.\<close>

definition example_ws :: "WorkspaceConfig list" where
  "example_ws = [\<lparr>wc_Name = ''data'', wc_HostPath = ''/srv/data'', wc_ReadOnly = True, wc_Git = None\<rparr>,
                 \<lparr>wc_Name = ''src'', wc_HostPath = ''/srv/src'', wc_ReadOnly = False, wc_Git = None\<rparr>]"

definition example_mounts :: CreateSpec where
  "example_mounts = small_spec\<lparr>cs_Name := ''sb'', cs_Workspaces := [\<lparr>wm_Name = ''src'', wm_ReadOnly = False\<rparr>, \<lparr>wm_Name = ''data'', wm_ReadOnly = False\<rparr>]\<rparr>"

definition example_sdkb2 :: SDKBackend where
  "example_sdkb2 = \<lparr>sk_resolve = workspaceResolver (\<lambda>_. '''') Some example_ws ''/var/lib'', sk_kits = []\<rparr>"

theorem workspaces_mounted_safely_witness:
  "\<exists>os ms ks. create_opts example_sdkb2 example_mounts = Inr (os @ ms @ ks) \<and> length ms = 2 \<and> (\<exists>host. ms ! 1 = WithWorkspace (host @ '':ro''))"
proof -
  obtain r d' where c: "SDKBackend_Create fake_sdk example_sdkb2 (NewFake []) example_mounts = (r, d')" by (rule prod.exhaust)
  have n: "\<nexists>e. create_opts example_sdkb2 example_mounts = Inl e"
    by (simp add: create_opts_def example_mounts_def example_sdkb2_def workspaceArg_def workspaceResolver_def example_ws_def small_spec_def CreateSpec_zero_def
        effectiveGitBase_def)
  have i: "distinct (map wc_Name example_ws)" "length (cs_Workspaces example_mounts) = 2" "example_ws ! 0 \<in> set example_ws"
    "wm_Name (cs_Workspaces example_mounts ! 1) = wc_Name (example_ws ! 0)" "wc_ReadOnly (example_ws ! 0)"
    by (simp_all add: example_ws_def example_mounts_def)
  have s: "sk_resolve example_sdkb2 = workspaceResolver (\<lambda>_. '''') Some example_ws ''/var/lib''" by (simp add: example_sdkb2_def)
  from workspaces_mounted_safely[OF s i(1) c] n obtain os ms ks where
    "create_opts example_sdkb2 example_mounts = Inr (os @ ms @ ks)" "length ms = 2"
    "\<forall>j < length ms. \<forall>w \<in> set example_ws. wm_Name (cs_Workspaces example_mounts ! j) = wc_Name w \<and> (wc_ReadOnly w \<or> wc_Git w \<noteq> None) \<longrightarrow>
             (\<exists>host. (j = 0 \<and> WithClone \<in> set os \<and> ms ! j = WithWorkspace host) \<or> (0 < j \<and> ms ! j = WithWorkspace (host @ '':ro'')))"
    unfolding i(2) by blast
  moreover from this(3)[rule_format, of 1 "example_ws ! 0"] this(2) i have "\<exists>host. ms ! 1 = WithWorkspace (host @ '':ro'')" by simp
  ultimately show ?thesis by blast
qed


definition quoting :: "go_error \<Rightarrow> string" where
  "quoting e = (case e of Errf m [] \<Rightarrow> m | Wrapf m as x \<Rightarrow> m @ concat as | _ \<Rightarrow> ''error'')"

definition example_secret :: CustomSecret where
  "example_secret = \<lparr>sc_Host = ''api'', sc_Env = ''KEY'', sc_Placeholder = '''', sc_Value = ''sk-1''\<rparr>"


text \<open>What \<^verbatim>\<open>WithMemory\<close> takes: a number and a binary unit.\<close>

definition mem_unit :: "char \<Rightarrow> int option" where
  "mem_unit c = (if c = CHR ''g'' then Some (2 ^ 30) else if c = CHR ''m'' then Some (2 ^ 20) else if c = CHR ''k'' then Some (2 ^ 10)
                 else if c = CHR ''b'' then Some 1 else None)"

definition mem_bytes :: "string \<Rightarrow> int option" where
  "mem_bytes s = (if s = '''' then None else case (parse_int64 (butlast s), mem_unit (last s)) of (Some n, Some u) \<Rightarrow> Some (n * u) | _ \<Rightarrow> None)"

lemma div_int64: "\<lbrakk>0 < b; b \<le> max_int64; 0 < u\<rbrakk> \<Longrightarrow> min_int64 \<le> b div u \<and> b div u \<le> max_int64" for b u :: int
proof -
  assume b: "0 < b" "b \<le> max_int64" "0 < u"
  have "0 \<le> b div u" using b by (simp add: pos_imp_zdiv_nonneg_iff)
  moreover have "b div u \<le> b" using zdiv_mono2[of b 1 u] b by simp
  ultimately show ?thesis using b by (simp add: min_int64_def)
qed

text \<open>
  The memory size the daemon is given is the one that was asked for.  The text is read back as exactly the number of bytes, and its unit is
  the largest of the binary units that divides it.
\<close>

theorem memString_exact:
  assumes "0 < b" and "b \<le> max_int64"
  shows "mem_bytes (memString b) = Some b
    \<and> (\<exists>u. mem_unit (last (memString b)) = Some u \<and> (\<forall>u' \<in> {2 ^ 10, 2 ^ 20, 2 ^ 30}. b mod u' = 0 \<longrightarrow> u' \<le> u))"
proof -
  have p: "parse_int64 (format_int (b div u)) = Some (b div u)" if "0 < u" for u using div_int64[OF assms that] by simp
  have m: "b div u * u = b" if "b mod u = 0" for u using that by (simp add: mod_0_imp_dvd)
  show ?thesis using p[of "2 ^ 30"] p[of "2 ^ 20"] p[of "2 ^ 10"] p[of 1] m[of "2 ^ 30"] m[of "2 ^ 20"] m[of "2 ^ 10"]
    by (simp add: memString_def mem_bytes_def mem_unit_def)
qed

theorem memString_exact_witness: "mem_bytes (memString 1536) = Some 1536"
  using memString_exact[of 1536] by (simp add: max_int64_def)

section \<open>Ports and logs\<close>

text \<open>
  What the daemon says of published ports: \<open>rows d n\<close> are the rows it lists, one for each host address; unpublishing a mapping removes all its
  rows, and fails when there is none.
\<close>

locale sdk_ports = sdk_daemon +
  fixes rows :: "'a \<Rightarrow> string \<Rightarrow> SDKPort list"
  assumes found_port_rows: "dinv d \<Longrightarrow> dstatus d n \<noteq> None \<Longrightarrow> \<exists>sb d'. sdk_Get S d n = (Inr sb, d') \<and> rows d' = rows d"
    and rows_listed: "dinv d \<Longrightarrow> dstatus d n \<noteq> None \<Longrightarrow> \<exists>d'. sdk_Ports S d n = (Inr (rows d n), d') \<and> rows d' = rows d"
    and row_removed: "dinv d \<Longrightarrow> dstatus d n \<noteq> None \<Longrightarrow> \<exists>p \<in> set (rows d n). po_HostPort p = h \<and> po_SandboxPort p = c \<Longrightarrow>
      \<exists>d'. sdk_UnpublishPort S d n (unpublish_spec h c) = (Inr (), d') \<and> dinv d' \<and> dstatus d' = dstatus d
        \<and> rows d' = (rows d)(n := filter (\<lambda>p. \<not> (po_HostPort p = h \<and> po_SandboxPort p = c)) (rows d n))"
    and row_missing: "dinv d \<Longrightarrow> \<not> (\<exists>p \<in> set (rows d n). po_HostPort p = h \<and> po_SandboxPort p = c) \<Longrightarrow>
      \<exists>e d'. sdk_UnpublishPort S d n (unpublish_spec h c) = (Inl e, d')"
begin

lemma unpublish_all:
  assumes "dinv d" "dstatus d n \<noteq> None" "distinct ps" "\<forall>p \<in> set ps. pp_ContainerPort p = c \<longrightarrow> p \<in> port_of ` set (rows d n)"
  shows "\<exists>d'. unpublish_each S n c ps d = (Inr (), d') \<and> dinv d' \<and> dstatus d' = dstatus d
    \<and> rows d' = (rows d)(n := filter (\<lambda>q. \<not> (po_SandboxPort q = c \<and> port_of q \<in> set ps)) (rows d n))"
  using assms
proof (induction ps arbitrary: d)
  case Nil
  then show ?case by simp
next
  case (Cons p ps)
  show ?case
  proof (cases "pp_ContainerPort p = c")
    case False
    have "filter (\<lambda>q. \<not> (po_SandboxPort q = c \<and> port_of q \<in> set (p # ps))) (rows d n) = filter (\<lambda>q. \<not> (po_SandboxPort q = c \<and> port_of q \<in> set ps)) (rows d n)"
      using False by (intro filter_cong) (auto simp: port_of_def)
    with Cons.IH[OF Cons.prems(1,2)] Cons.prems(3,4) False show ?thesis by simp
  next
    case True
    let ?h = "pp_HostPort p"
    have "\<exists>q \<in> set (rows d n). po_HostPort q = ?h \<and> po_SandboxPort q = c" using Cons.prems(4) True by (auto simp: port_of_def)
    from row_removed[OF Cons.prems(1,2) this] obtain d1 where d1: "sdk_UnpublishPort S d n (unpublish_spec ?h c) = (Inr (), d1)" "dinv d1" "dstatus d1 = dstatus d"
      "rows d1 = (rows d)(n := filter (\<lambda>q. \<not> (po_HostPort q = ?h \<and> po_SandboxPort q = c)) (rows d n))" by blast
    have "\<forall>q \<in> set ps. pp_ContainerPort q = c \<longrightarrow> q \<in> port_of ` set (rows d1 n)"
    proof (intro ballI impI)
      fix q assume q: "q \<in> set ps" "pp_ContainerPort q = c"
      then obtain x where x: "x \<in> set (rows d n)" "q = port_of x" using Cons.prems(4) by auto
      have "q \<noteq> p" using q(1) Cons.prems(3) by auto
      then have "\<not> (po_HostPort x = ?h \<and> po_SandboxPort x = c)" using x(2) True by (auto simp: port_of_def)
      with x show "q \<in> port_of ` set (rows d1 n)" by (auto simp: d1(4))
    qed
    moreover have "dstatus d1 n \<noteq> None" "distinct ps" using Cons.prems(2,3) d1(3) by simp_all
    ultimately obtain d' where d': "unpublish_each S n c ps d1 = (Inr (), d')" "dinv d'" "dstatus d' = dstatus d"
      "rows d' = (rows d1)(n := filter (\<lambda>q. \<not> (po_SandboxPort q = c \<and> port_of q \<in> set ps)) (rows d1 n))"
      using Cons.IH[OF d1(2)] unfolding d1(3) by blast
    have "rows d' = (rows d)(n := filter (\<lambda>q. \<not> (po_SandboxPort q = c \<and> port_of q \<in> set (p # ps))) (rows d n))"
    proof -
      have "port_of q = p \<longleftrightarrow> po_HostPort q = ?h \<and> po_SandboxPort q = c" for q using True by (cases p) (auto simp: port_of_def)
      then show ?thesis unfolding d'(4) d1(4) by (simp add: conj_commute disj_commute) (metis (mono_tags, lifting))
    qed
    moreover have "unpublish_each S n c (p # ps) d = (Inr (), d')" using d'(1) d1(1) True by simp
    ultimately show ?thesis using d'(2,3) by blast
  qed
qed

lemma unpublish_port:
  assumes "dinv d" "dstatus d n \<noteq> None"
  shows "\<exists>d'. SDKBackend_UnpublishPort S d n c = (Inr (), d') \<and> dinv d' \<and> dstatus d' = dstatus d
    \<and> rows d' = (rows d)(n := filter (\<lambda>q. po_SandboxPort q \<noteq> c) (rows d n))"
proof -
  have h: "\<exists>sb d'. sdk_handle S d n = (Inr sb, d') \<and> sb_Name sb = n \<and> dinv d' \<and> dstatus d' = dstatus d \<and> rows d' = rows d"
    if "dinv d" "dstatus d n \<noteq> None" for d
    using found_port_rows[OF that] get_found[OF that(1), of n] by (fastforce simp: sdk_handle_def)
  from h[OF assms] obtain sb d1 where d1: "sdk_handle S d n = (Inr sb, d1)" "sb_Name sb = n" "dinv d1" "dstatus d1 = dstatus d" "rows d1 = rows d" by blast
  from h[OF d1(3)] assms(2) d1(4) obtain sb2 d2 where d2: "sdk_handle S d1 n = (Inr sb2, d2)" "sb_Name sb2 = n" "dinv d2" "dstatus d2 = dstatus d"
    "rows d2 = rows d" using d1(5) by auto
  from rows_listed[OF d2(3)] assms(2) d2(4) obtain d3 where d3: "sdk_Ports S d2 n = (Inr (rows d n), d3)" "rows d3 = rows d" using d2(5) by auto
  have i3: "dinv d3" "dstatus d3 = dstatus d" using ports_quiet[OF d2(3) d3(1)] d2(4) by simp_all
  let ?ps = "dedupePorts (map port_of (rows d n))"
  have "\<exists>d'. unpublish_each S n c ?ps d3 = (Inr (), d') \<and> dinv d' \<and> dstatus d' = dstatus d3
    \<and> rows d' = (rows d3)(n := filter (\<lambda>q. \<not> (po_SandboxPort q = c \<and> port_of q \<in> set ?ps)) (rows d3 n))"
    by (rule unpublish_all) (use i3 assms(2) d3(2) in \<open>auto simp: dedupePorts_distinct\<close>)
  moreover have "SDKBackend_UnpublishPort S d n c = unpublish_each S n c ?ps d3"
    by (simp add: SDKBackend_UnpublishPort_def with_handle_def d1 SDKBackend_Ports_def d2 d3)
  moreover have "filter (\<lambda>q. \<not> (po_SandboxPort q = c \<and> port_of q \<in> set ?ps)) (rows d n) = filter (\<lambda>q. po_SandboxPort q \<noteq> c) (rows d n)"
    by (intro filter_cong) auto
  ultimately show ?thesis using i3(2) d3(2) by auto
qed

end

lemma colon_not_digit: "CHR '':'' \<notin> set (format_int i)"
proof -
  have "CHR '':'' \<notin> set (dec_digits n)" for n
  proof
    assume "CHR '':'' \<in> set (dec_digits n)"
    then obtain d where d: "d < 10" "CHR '':'' = digit_char d" using dec_digits_chars by blast
    have "48 + d = (of_char (CHR '':'') :: nat)" using of_char_digit[OF d(1)] d(2) by simp
    also have "\<dots> = 58" by simp
    finally show False using d(1) by simp
  qed
  then show ?thesis by (simp add: format_int_def)
qed

lemma format_int_inject: "format_int i = format_int j \<longleftrightarrow> i = j"
proof
  assume e: "format_int i = format_int j"
  show "i = j"
  proof (cases "i < 0"; cases "j < 0")
    assume s: "i < 0" "\<not> j < 0"
    then have "CHR ''-'' \<in> set (dec_digits (nat j))" using e by (metis format_int_def list.set_intros(1))
    then show ?thesis using dec_digits_plain(1) by blast
  next
    assume s: "\<not> i < 0" "j < 0"
    then have "CHR ''-'' \<in> set (dec_digits (nat i))" using e by (metis format_int_def list.set_intros(1))
    then show ?thesis using dec_digits_plain(1) by blast
  qed (use e in \<open>auto simp: format_int_def\<close>)
qed simp

lemma append_sep_inject:
  "c \<notin> set a \<Longrightarrow> c \<notin> set b \<Longrightarrow> a @ c # x = b @ c # y \<longleftrightarrow> a = b \<and> x = y"
proof (induction a arbitrary: b)
  case Nil
  then show ?case by (cases b) auto
next
  case (Cons z a)
  then show ?case by (cases b) auto
qed

lemma unpublish_spec_inject: "unpublish_spec h c = unpublish_spec h' c' \<longleftrightarrow> h = h' \<and> c = c'"
  using append_sep_inject[OF colon_not_digit colon_not_digit] by (simp add: unpublish_spec_def format_int_inject)

lemma filter_port_rows:
  "filter (\<lambda>q. \<not> (po_HostPort q = h \<and> po_SandboxPort q = c)) (port_rows ps)
    = port_rows (filter (\<lambda>p. \<not> (pp_HostPort p = h \<and> pp_ContainerPort p = c)) ps)"
  by (induction ps) (auto simp: port_rows_def)

lemma port_rows_ex: "(\<exists>q \<in> set (port_rows ps). po_HostPort q = h \<and> po_SandboxPort q = c) \<longleftrightarrow> (\<exists>p \<in> set ps. pp_HostPort p = h \<and> pp_ContainerPort p = c)"
  by (induction ps) (auto simp: port_rows_def)

definition fake_rows :: "Fake \<Rightarrow> string \<Rightarrow> SDKPort list" where
  "fake_rows d n = port_rows (slice_of (fk_ports d) n)"

lemma slice_of_update: "slice_of (AList.update n v m) = (slice_of m)(n := v)"
  by (simp add: slice_of_def fun_eq_iff update_conv)

interpretation fakeports: sdk_ports fake_sdk fake_inv fake_status fake_rows
proof
  fix d n assume "fake_inv d" "fake_status d n \<noteq> None"
  then show "\<exists>sb d'. sdk_Get fake_sdk d n = (Inr sb, d') \<and> fake_rows d' = fake_rows d"
    by (auto simp: fake_Get_iff fake_status_def)
next
  fix d n assume "fake_inv d" "fake_status d n \<noteq> None"
  show "\<exists>d'. sdk_Ports fake_sdk d n = (Inr (fake_rows d n), d') \<and> fake_rows d' = fake_rows d" by (simp add: fake_sdk_def fake_rows_def)
next
  fix d n h c assume a: "fake_inv d" "\<exists>p \<in> set (fake_rows d n). po_HostPort p = h \<and> po_SandboxPort p = c"
  let ?ps = "slice_of (fk_ports d) n"
  let ?d = "d\<lparr>fk_ports := AList.update n (filter (\<lambda>p. unpublish_spec (pp_HostPort p) (pp_ContainerPort p) \<noteq> unpublish_spec h c) ?ps) (fk_ports d)\<rparr>"
  have "list_ex (\<lambda>p. unpublish_spec (pp_HostPort p) (pp_ContainerPort p) = unpublish_spec h c) ?ps"
    using a(2) unfolding fake_rows_def port_rows_ex by (auto simp: list_ex_iff)
  then have "sdk_UnpublishPort fake_sdk d n (unpublish_spec h c) = (Inr (), ?d)" by (simp add: fake_sdk_def)
  moreover have "fake_rows ?d = (fake_rows d)(n := filter (\<lambda>q. \<not> (po_HostPort q = h \<and> po_SandboxPort q = c)) (fake_rows d n))"
    by (simp add: fun_eq_iff fake_rows_def slice_of_update unpublish_spec_inject filter_port_rows[simplified])
  moreover have "fake_inv ?d" "fake_status ?d = fake_status d" using fake_cong[of ?d d] a(1) by simp_all
  ultimately show "\<exists>d'. sdk_UnpublishPort fake_sdk d n (unpublish_spec h c) = (Inr (), d') \<and> fake_inv d' \<and> fake_status d' = fake_status d
      \<and> fake_rows d' = (fake_rows d)(n := filter (\<lambda>q. \<not> (po_HostPort q = h \<and> po_SandboxPort q = c)) (fake_rows d n))" by blast
next
  fix d n h c assume "\<not> (\<exists>p \<in> set (fake_rows d n). po_HostPort p = h \<and> po_SandboxPort p = c)"
  then show "\<exists>e d'. sdk_UnpublishPort fake_sdk d n (unpublish_spec h c) = (Inl e, d')"
    unfolding fake_rows_def port_rows_ex by (auto simp: fake_sdk_def list_ex_iff unpublish_spec_inject)
qed

text \<open>
  Unpublishing a port removes it.  On a sandbox the daemon has, the call succeeds and leaves no row for the container port, and every other row as
  it was, although the daemon lists a mapping once for each host address and refuses to unpublish it twice.
\<close>

theorem unpublish_complete:
  assumes "sdk_ports S dinv dstatus rows" and "dinv d" and "dstatus d n \<noteq> None"
  shows "\<exists>d'. SDKBackend_UnpublishPort S d n c = (Inr (), d') \<and> dinv d' \<and> dstatus d' = dstatus d
    \<and> rows d' = (rows d)(n := filter (\<lambda>q. po_SandboxPort q \<noteq> c) (rows d n))"
  using sdk_ports.unpublish_port[OF assms] .

definition example_daemon :: Fake where
  "example_daemon = (NewFake [])\<lparr>fk_sandboxes := [(''sb'', \<lparr>bs_Name = ''sb'', bs_Status = ''running''\<rparr>)],
     fk_ports := [(''sb'', [\<lparr>pp_ContainerPort = 80, pp_HostPort = 5000\<rparr>, \<lparr>pp_ContainerPort = 81, pp_HostPort = 5001\<rparr>])]\<rparr>"

theorem unpublish_complete_witness:
  "\<exists>d'. SDKBackend_UnpublishPort fake_sdk example_daemon ''sb'' 80 = (Inr (), d') \<and> length (fake_rows d' ''sb'') = 2"
proof -
  have "fake_inv example_daemon" "fake_status example_daemon ''sb'' \<noteq> None"
    by (simp_all add: example_daemon_def fake_inv_def fake_status_def NewFake_def)
  from unpublish_complete[OF fakeports.sdk_ports_axioms this, of 80] obtain d' where
    "SDKBackend_UnpublishPort fake_sdk example_daemon ''sb'' 80 = (Inr (), d')"
    "fake_rows d' = (fake_rows example_daemon)(''sb'' := filter (\<lambda>q. po_SandboxPort q \<noteq> 80) (fake_rows example_daemon ''sb''))" by blast
  moreover have "length (filter (\<lambda>q. po_SandboxPort q \<noteq> 80) (fake_rows example_daemon ''sb'')) = 2"
    by (simp add: fake_rows_def example_daemon_def slice_of_def port_rows_def)
  ultimately show ?thesis by (metis fun_upd_same)
qed

text \<open>
  Following a log loses no line.  Of an output made of lines ended by newlines, each shorter than the scanner's buffer, exactly these lines arrive,
  in order and without error, a carriage return at the end of a line removed; a last line without a newline arrives too.
\<close>

theorem logs_exact:
  assumes "\<forall>l \<in> set (t # ls). CHR 0x0A \<notin> set l \<and> length l < 65536"
  shows "scan_lines (concat (map (\<lambda>l. l @ [CHR 0x0A]) ls) @ t) False
    = map (\<lambda>l. \<lparr>ll_Line = drop_cr l, ll_Err = False\<rparr>) (ls @ (if t = '''' then [] else [t]))"
proof -
  have "split_on CHR 0x0A (concat (map (\<lambda>l. l @ [CHR 0x0A]) ls) @ t) = ls @ [t]"
    using assms by (induction ls) (auto simp: split_on_notin split_on_append)
  moreover have "scan_parts False (ls @ [t]) = map (\<lambda>l. \<lparr>ll_Line = drop_cr l, ll_Err = False\<rparr>) (ls @ (if t = '''' then [] else [t]))"
    using assms by (induction ls) (auto simp: maxScanTokenSize_def)
  ultimately show ?thesis by (simp add: scan_lines_def)
qed

theorem logs_exact_witness:
  "scan_lines (concat (map (\<lambda>l. l @ [CHR 0x0A]) [''one'', ''two'' @ [CHR 0x0D]]) @ ''three'') False
    = map (\<lambda>l. \<lparr>ll_Line = l, ll_Err = False\<rparr>) [''one'', ''two'', ''three'']"
  using logs_exact[of "''three''" "[''one'', ''two'' @ [CHR 0x0D]]"] by (simp add: drop_cr_def suffix_def)

end
