(* ===== verification/NodeLife.thy ===== *)
theory NodeLife
  imports NodeMain SdkBackend_Correct
begin

text \<open>
  A node's life (\<^verbatim>\<open>internal/node/node.go\<close>, \<^verbatim>\<open>cmd/sbx-swarm-node/main.go\<close>): the capacity it starts with
  (\<^verbatim>\<open>internal/sandbox/hostlimits.go\<close>), the choice of backend, and the steps of \<^verbatim>\<open>New\<close>, \<^verbatim>\<open>Start\<close>, \<^verbatim>\<open>Stop\<close> and
  \<^verbatim>\<open>run\<close> with every error path and what each leaves open.  The steps themselves (identity, store, TLS, swarm identity, cluster, API server) are
  modelled in their own theories; here they are their results.
\<close>

section \<open>Capacity\<close>

text \<open>
  The system calls are parameters: \<open>sysinfo\<close> gives the memory and its unit, \<open>statfs\<close> the block size and the number of blocks, \<open>None\<close>
  when the call fails.  The products are 64-bit.
\<close>

definition detectHostLimits :: "nat \<Rightarrow> (64 word \<times> 64 word) option \<Rightarrow> (64 word \<times> 64 word) option \<Rightarrow> rat \<times> rat \<times> rat" where
  "detectHostLimits numCPU sysinfo statfs =
     (of_nat numCPU,
      (case sysinfo of None \<Rightarrow> 0 | Some (totalram, unit') \<Rightarrow> of_nat (unat (totalram * unit')) / 1024),
      (case statfs of None \<Rightarrow> 0 | Some (bsize, nblocks) \<Rightarrow> of_nat (unat (bsize * nblocks)) / 2 ^ 30))"

definition node_capacity :: "Config \<Rightarrow> rat \<times> rat \<times> rat \<Rightarrow> Capacity" where
  "node_capacity cfg detected =
     (let (dc, dm, dd) = detected; l = cf_ProvisionLimits cfg
      in NewCapacity (resolveCfgLimit (pl_CPUCores l) dc) (resolveCfgLimit (of_int (pl_MemoryBytes l) / 1024) dm) (resolveCfgLimit (pl_DiskGB l) dd))"

section \<open>The backend\<close>

datatype backend_choice = Daemon SDKBackend | InMemory Fake

definition buildBackend ::
  "'d SDK \<Rightarrow> (string \<Rightarrow> string) \<Rightarrow> (string \<Rightarrow> string option) \<Rightarrow> Config \<Rightarrow> 'd \<Rightarrow> backend_choice res \<times> 'd" where
  "buildBackend S getenv absPath cfg d =
     (if cf_Backend cfg = ''sdk'' then
        (case NewSDKBackend S (workspaceResolver getenv absPath (cf_Workspaces cfg) (cf_DataDir cfg)) (kitMap (cf_Kits cfg)) d of
           (Inl e, d) \<Rightarrow> (Inl e, d) | (Inr b, d) \<Rightarrow> (Inr (Daemon b), d))
      else (Inr (InMemory (NewFake (kitNamesFromConfig (cf_Kits cfg)))), d))"

section \<open>New\<close>

text \<open>What a node holds open, and the results of the steps of \<^verbatim>\<open>New\<close>.\<close>

datatype resource = RStore | RTickers | RPool | RCluster | RListener | RConsole

record Steps =
  sg_identity :: "unit res"
  sg_store :: "unit res"
  sg_backend :: "unit res"
  sg_LoadX509KeyPair :: "unit res"
  sg_GenerateForKey :: "unit res"
  sg_swarm :: "unit res"
  sg_cluster :: "unit res"
  sg_apiserver :: "unit res"
  sg_console :: "unit res"

definition release :: "resource list \<Rightarrow> resource list \<Rightarrow> resource list" where
  "release rs held = filter (\<lambda>r. r \<notin> set rs) held"

definition clustered :: "Config \<Rightarrow> bool" where
  "clustered cfg \<longleftrightarrow> cf_GossipAddr cfg \<noteq> '''' \<and> cf_ClusterSecret cfg \<noteq> ''''"

definition shut :: "Config \<Rightarrow> resource list \<Rightarrow> resource list" where
  "shut cfg held = (let held = release [RPool] (release [RStore] (release [RTickers] held)) in if clustered cfg then release [RCluster] held else held)"

text \<open>The steps in order; after one that failed the later ones are not taken.\<close>

definition andThen :: "(resource list \<Rightarrow> unit res \<times> resource list) \<Rightarrow> unit res \<times> resource list \<Rightarrow> unit res \<times> resource list" where
  "andThen step p = (case p of (Inl e, held) \<Rightarrow> (Inl e, held) | (Inr _, held) \<Rightarrow> step held)"

definition New_open :: "Steps \<Rightarrow> unit res \<times> resource list" where
  "New_open g =
     (case sg_identity g of
        Inl e \<Rightarrow> (Inl (Wrapf ''identity: %w'' [] e), [])
      | Inr _ \<Rightarrow>
          (case sg_store g of
             Inl e \<Rightarrow> (Inl (Wrapf ''store: %w'' [] e), [])
           | Inr _ \<Rightarrow>
               let held = [RStore]
               in (case sg_backend g of Inl e \<Rightarrow> (Inl e, release [RStore] held) | Inr _ \<Rightarrow> (Inr (), RTickers # held))))"

definition New_cert :: "Config \<Rightarrow> Steps \<Rightarrow> resource list \<Rightarrow> unit res \<times> resource list" where
  "New_cert cfg g held =
     (case (if cf_TLSCertFile cfg \<noteq> '''' \<and> cf_TLSKeyFile cfg \<noteq> '''' then sg_LoadX509KeyPair g else sg_GenerateForKey g) of
        Inl e \<Rightarrow> (Inl (Wrapf ''tls: %w'' [] e), release [RStore] (release [RTickers] held))
      | Inr _ \<Rightarrow> (Inr (), held))"

definition New_swarm :: "Steps \<Rightarrow> resource list \<Rightarrow> unit res \<times> resource list" where
  "New_swarm g held =
     (case sg_swarm g of
        Inl e \<Rightarrow> (Inl (Wrapf ''swarm identity: %w'' [] e), release [RStore] (release [RTickers] held))
      | Inr _ \<Rightarrow> (Inr (), RPool # held))"

definition New_cluster :: "Config \<Rightarrow> Steps \<Rightarrow> resource list \<Rightarrow> unit res \<times> resource list" where
  "New_cluster cfg g held =
     (if \<not> clustered cfg then (Inr (), held)
      else case sg_cluster g of
        Inl e \<Rightarrow> (Inl (Wrapf ''membership cluster: %w'' [] e), release [RPool] (release [RStore] (release [RTickers] held)))
      | Inr _ \<Rightarrow> (Inr (), RCluster # held))"

definition New_apiserver :: "Config \<Rightarrow> Steps \<Rightarrow> resource list \<Rightarrow> unit res \<times> resource list" where
  "New_apiserver cfg g held =
     (case sg_apiserver g of Inl e \<Rightarrow> (Inl (Wrapf ''apiserver: %w'' [] e), shut cfg held) | Inr _ \<Rightarrow> (Inr (), held))"

definition New_console :: "Config \<Rightarrow> Steps \<Rightarrow> resource list \<Rightarrow> unit res \<times> resource list" where
  "New_console cfg g held =
     (if cf_ConsoleAddr cfg = '''' \<or> \<not> cf_ConsoleTLS cfg then (Inr (), held)
      else case sg_console g of Inl e \<Rightarrow> (Inl (Wrapf ''console tls: %w'' [] e), shut cfg held) | Inr _ \<Rightarrow> (Inr (), held))"

definition Node_New :: "Config \<Rightarrow> Steps \<Rightarrow> unit res \<times> resource list" where
  "Node_New cfg g =
     andThen (New_console cfg g) (andThen (New_apiserver cfg g) (andThen (New_cluster cfg g) (andThen (New_swarm g) (andThen (New_cert cfg g) (New_open g)))))"

section \<open>Start and Stop\<close>

record NodeProc =
  np_held :: "resource list"
  np_ready :: bool
  np_ln :: "string option"
  np_consoleLn :: "string option"
  np_joining :: "string list"

definition Node_Addr :: "Config \<Rightarrow> NodeProc \<Rightarrow> string" where
  "Node_Addr cfg n = (case np_ln n of None \<Rightarrow> cf_ListenAddr cfg | Some a \<Rightarrow> a)"

definition Node_ConsoleAddr :: "Config \<Rightarrow> NodeProc \<Rightarrow> string" where
  "Node_ConsoleAddr cfg n = (case np_consoleLn n of None \<Rightarrow> cf_ConsoleAddr cfg | Some a \<Rightarrow> a)"

text \<open>\<open>listen\<close> binds an address and gives the one that was bound.\<close>

definition Node_Start :: "Config \<Rightarrow> (string \<Rightarrow> string res) \<Rightarrow> NodeProc \<Rightarrow> unit res \<times> NodeProc" where
  "Node_Start cfg listen n =
     (case listen (cf_ListenAddr cfg) of
        Inl e \<Rightarrow> (Inl (Wrapf ''listen %s: %w'' [cf_ListenAddr cfg] e), n)
      | Inr a \<Rightarrow>
          let n = n\<lparr>np_ln := Some a, np_held := RListener # np_held n\<rparr>;
              console = (if cf_ConsoleAddr cfg = '''' then Inr n
                         else case listen (cf_ConsoleAddr cfg) of
                                Inl e \<Rightarrow> Inl (Wrapf ''listen console %s: %w'' [cf_ConsoleAddr cfg] e)
                              | Inr c \<Rightarrow> Inr (n\<lparr>np_consoleLn := Some c, np_held := RConsole # np_held n\<rparr>))
          in (case console of
                Inl e \<Rightarrow> (Inl e, n)
              | Inr n \<Rightarrow> (Inr (), n\<lparr>np_ready := True,
                                  np_joining := (if clustered cfg \<and> cf_Join cfg \<noteq> [] then cf_Join cfg else [])\<rparr>)))"

text \<open>\<open>shutdownErr\<close> and \<open>closeErr\<close> are what shutting the server down and closing the store report.\<close>

definition Node_Stop :: "Config \<Rightarrow> go_error option \<Rightarrow> go_error option \<Rightarrow> NodeProc \<Rightarrow> go_error option \<times> NodeProc" where
  "Node_Stop cfg shutdownErr closeErr n =
     (let n = n\<lparr>np_ready := False\<rparr>;
          held = release [RTickers] (np_held n);
          held = (if clustered cfg then release [RCluster] held else held);
          held = release [RPool] held;
          held = (if cf_ConsoleAddr cfg \<noteq> '''' then release [RConsole] held else held);
          held = release [RListener] held;
          held = release [RStore] held
      in (case shutdownErr of Some e \<Rightarrow> Some e | None \<Rightarrow> closeErr, n\<lparr>np_held := held\<rparr>))"

text \<open>The program, up to the signal that ends it: \<open>None\<close> in the second component is an exit before the node runs.\<close>

definition run :: "Config res \<Rightarrow> Steps \<Rightarrow> (string \<Rightarrow> string res) \<Rightarrow> unit res \<times> NodeProc option" where
  "run loaded g listen =
     (case loaded of Inl e \<Rightarrow> (Inl e, None)
      | Inr cfg \<Rightarrow>
          (case Config_Validate cfg of Inl e \<Rightarrow> (Inl e, None)
           | Inr _ \<Rightarrow>
               (case Node_New cfg g of (Inl e, _) \<Rightarrow> (Inl e, None)
                | (Inr _, held) \<Rightarrow>
                    (case Node_Start cfg listen \<lparr>np_held = held, np_ready = False, np_ln = None, np_consoleLn = None, np_joining = []\<rparr> of
                       (Inl e, _) \<Rightarrow> (Inl e, None) | (Inr _, n) \<Rightarrow> (Inr (), Some n)))))"

section \<open>Properties\<close>

lemma release_set [simp]: "set (release rs held) = set held - set rs"
  by (auto simp: release_def)

lemma release_empty: "release rs held = [] \<longleftrightarrow> set held \<subseteq> set rs"
  by (auto simp: release_def filter_empty_conv)

lemma shut_empty: "set held \<subseteq> {RStore, RTickers, RPool} \<union> (if clustered cfg then {RCluster} else {}) \<Longrightarrow> shut cfg held = []"
  by (auto simp: shut_def Let_def release_empty split: if_splits)

text \<open>What is open after each step, when none failed.\<close>

definition opened :: "resource set \<Rightarrow> unit res \<times> resource list \<Rightarrow> bool" where
  "opened R p = (case p of (Inl e, held) \<Rightarrow> held = [] | (Inr _, held) \<Rightarrow> set held = R)"

lemma andThen_opened:
  assumes "opened R p" "\<And>held. set held = R \<Longrightarrow> opened R' (step held)"
  shows "opened R' (andThen step p)"
proof -
  obtain r held where p: "p = (r, held)" by (rule prod.exhaust)
  show ?thesis using assms by (cases r) (simp_all add: p andThen_def opened_def)
qed

lemma Node_New_opened: "opened ({RStore, RTickers, RPool} \<union> (if clustered cfg then {RCluster} else {})) (Node_New cfg g)"
proof -
  let ?R = "{RStore, RTickers, RPool} \<union> (if clustered cfg then {RCluster} else {})"
  have "opened {RStore, RTickers} (New_open g)" by (auto simp: New_open_def opened_def release_empty Let_def split: sum.split)
  then have "opened {RStore, RTickers} (andThen (New_cert cfg g) (New_open g))"
    by (rule andThen_opened) (auto simp: New_cert_def opened_def release_empty split: sum.split)
  then have "opened {RStore, RTickers, RPool} (andThen (New_swarm g) (andThen (New_cert cfg g) (New_open g)))"
    by (rule andThen_opened) (auto simp: New_swarm_def opened_def release_empty split: sum.split)
  then have "opened ?R (andThen (New_cluster cfg g) (andThen (New_swarm g) (andThen (New_cert cfg g) (New_open g))))"
    by (rule andThen_opened) (auto simp: New_cluster_def opened_def release_empty split: sum.split)
  then have "opened ?R (andThen (New_apiserver cfg g) (andThen (New_cluster cfg g) (andThen (New_swarm g) (andThen (New_cert cfg g) (New_open g)))))"
    by (rule andThen_opened) (auto simp: New_apiserver_def opened_def shut_empty split: sum.split)
  then show ?thesis unfolding Node_New_def
    by (rule andThen_opened) (auto simp: New_console_def opened_def shut_empty split: sum.split)
qed

lemma New_held:
  assumes "Node_New cfg g = (Inr u, held)"
  shows "set held = {RStore, RTickers, RPool} \<union> (if clustered cfg then {RCluster} else {})"
  using Node_New_opened[of cfg g] by (simp only: assms opened_def prod.case sum.case)


lemma Start_ok:
  assumes "Node_Start cfg listen n = (Inr u, n')"
  shows "np_ready n' \<and> (\<exists>a. listen (cf_ListenAddr cfg) = Inr a \<and> np_ln n' = Some a)
    \<and> set (np_held n') = set (np_held n) \<union> {RListener} \<union> (if cf_ConsoleAddr cfg = '''' then {} else {RConsole})"
  using assms by (auto simp: Node_Start_def Let_def split: sum.splits if_splits)

lemma Stop_all:
  assumes "set (np_held n) \<subseteq> {RStore, RTickers, RPool, RListener} \<union> (if clustered cfg then {RCluster} else {}) \<union> (if cf_ConsoleAddr cfg = '''' then {} else {RConsole})"
    and "Node_Stop cfg s c n = (err, n')"
  shows "np_held n' = [] \<and> \<not> np_ready n' \<and> (err = None \<longleftrightarrow> s = None \<and> c = None)"
  using assms by (auto simp: Node_Stop_def Let_def release_empty split: if_splits option.splits)

lemma run_started:
  assumes "run loaded g listen = (r, Some n)"
  shows "\<exists>cfg held u v. loaded = Inr cfg \<and> Config_Validate cfg = Inr () \<and> Node_New cfg g = (Inr u, held) \<and> r = Inr ()
    \<and> Node_Start cfg listen \<lparr>np_held = held, np_ready = False, np_ln = None, np_consoleLn = None, np_joining = []\<rparr> = (Inr v, n)"
proof (cases loaded)
  case (Inl e)
  with assms show ?thesis by (simp add: run_def)
next
  case (Inr cfg)
  show ?thesis
  proof (cases "Config_Validate cfg")
    case (Inl e)
    with assms Inr show ?thesis by (simp add: run_def)
  next
    case v: (Inr u)
    obtain r1 held where nw: "Node_New cfg g = (r1, held)" by (rule prod.exhaust)
    obtain r2 n2 where st: "Node_Start cfg listen \<lparr>np_held = held, np_ready = False, np_ln = None, np_consoleLn = None, np_joining = []\<rparr> = (r2, n2)"
      by (rule prod.exhaust)
    show ?thesis using assms Inr v nw st by (cases r1; cases r2) (simp_all add: run_def)
  qed
qed

text \<open>
  The life of the program.  It either ends with an error before it serves, or its configuration is valid and the node is bound to the address it
  listens on, reports that address, and answers \<^verbatim>\<open>/readyz\<close> with 200; and stopping it then closes everything it holds, makes
  \<^verbatim>\<open>/readyz\<close> answer 503, and reports an error exactly when the server's shutdown or the closing of the store did.
\<close>

theorem node_life:
  assumes "run loaded g listen = (r, p)" and "rq_Path q = ''/readyz''"
  shows "case p of
      None \<Rightarrow> \<exists>e. r = Inl e
    | Some n \<Rightarrow> r = Inr () \<and> (\<exists>cfg. loaded = Inr cfg \<and> Config_Validate cfg = Inr ()
        \<and> listen (cf_ListenAddr cfg) = Inr (Node_Addr cfg n) \<and> rs_Code (fst (Health_Handler (np_ready n) metrics q st)) = 200
        \<and> (\<forall>s c. case Node_Stop cfg s c n of (err, n') \<Rightarrow> np_held n' = [] \<and> (err = None \<longleftrightarrow> s = None \<and> c = None)
              \<and> rs_Code (fst (Health_Handler (np_ready n') metrics q st)) = 503))"
proof (cases p)
  case None
  with assms(1) have "r \<noteq> Inr ()" by (auto simp: run_def split: sum.splits prod.splits)
  with None show ?thesis by (cases r) auto
next
  case (Some n)
  let ?n0 = "\<lambda>held. \<lparr>np_held = held, np_ready = False, np_ln = None, np_consoleLn = None, np_joining = []\<rparr>"
  obtain cfg held u v where c: "loaded = Inr cfg" "Config_Validate cfg = Inr ()" "Node_New cfg g = (Inr u, held)" "r = Inr ()"
    "Node_Start cfg listen (?n0 held) = (Inr v, n)"
    using run_started[OF assms(1)[unfolded Some]] by blast
  note s = Start_ok[OF c(5)] and h = New_held[OF c(3)]
  have "set (np_held n) \<subseteq> {RStore, RTickers, RPool, RListener} \<union> (if clustered cfg then {RCluster} else {}) \<union> (if cf_ConsoleAddr cfg = '''' then {} else {RConsole})"
    using s h by auto
  then have "case Node_Stop cfg s c n of (err, n') \<Rightarrow> np_held n' = [] \<and> (err = None \<longleftrightarrow> s = None \<and> c = None)
      \<and> rs_Code (fst (Health_Handler (np_ready n') metrics q st)) = 503" for s c
    using Stop_all[of n cfg s c] assms(2) by (cases "Node_Stop cfg s c n") (auto simp: Health_Handler_def)
  moreover have "rs_Code (fst (Health_Handler (np_ready n) metrics q st)) = 200" "listen (cf_ListenAddr cfg) = Inr (Node_Addr cfg n)"
    using s assms(2) by (auto simp: Health_Handler_def Node_Addr_def)
  ultimately show ?thesis using c Some by auto
qed

definition all_good :: Steps where
  "all_good = \<lparr>sg_identity = Inr (), sg_store = Inr (), sg_backend = Inr (), sg_LoadX509KeyPair = Inr (), sg_GenerateForKey = Inr (), sg_swarm = Inr (),
     sg_cluster = Inr (), sg_apiserver = Inr (), sg_console = Inr ()\<rparr>"

theorem node_life_witness:
  "case snd (run (Inr (Config_Default ''host'')) all_good (\<lambda>a. Inr ''127.0.0.1:8443'')) of
     None \<Rightarrow> False | Some n \<Rightarrow> rs_Code (fst (Health_Handler (np_ready n) '''' (example_http\<lparr>rq_Path := ''/readyz''\<rparr>) ())) = 200"
proof -
  obtain r p where e: "run (Inr (Config_Default ''host'')) all_good (\<lambda>a. Inr ''127.0.0.1:8443'') = (r, p)" by (rule prod.exhaust)
  have "snd (run (Inr (Config_Default ''host'')) all_good (\<lambda>a. Inr ''127.0.0.1:8443'')) \<noteq> None" by code_simp
  then show ?thesis using node_life[OF e, of "example_http\<lparr>rq_Path := ''/readyz''\<rparr>" "''''" "()"] e by (cases p) auto
qed

lemma scaled:
  fixes n :: nat
  assumes "n < 2 ^ 64"
  shows "0 \<le> (of_nat n :: rat) / 1024 \<and> (of_nat n :: rat) / 1024 < 2 ^ 54 \<and> (of_nat n :: rat) / 1024 * 1024 = of_nat n"
    and "0 \<le> (of_nat n :: rat) / 2 ^ 30 \<and> (of_nat n :: rat) / 2 ^ 30 < 2 ^ 34 \<and> (of_nat n :: rat) / 2 ^ 30 * 2 ^ 30 = of_nat n"
proof -
  have "(of_nat n :: rat) < of_nat (2 ^ 64)" using assms by (simp only: of_nat_less_iff)
  then show "0 \<le> (of_nat n :: rat) / 1024 \<and> (of_nat n :: rat) / 1024 < 2 ^ 54 \<and> (of_nat n :: rat) / 1024 * 1024 = of_nat n"
    and "0 \<le> (of_nat n :: rat) / 2 ^ 30 \<and> (of_nat n :: rat) / 2 ^ 30 < 2 ^ 34 \<and> (of_nat n :: rat) / 2 ^ 30 * 2 ^ 30 = of_nat n"
    by simp_all
qed

text \<open>
  The host's capacity stays in range.  The detected limits are never negative, a probe that fails gives 0, which means no limit, and the memory and disk limits
  are exact as long as the byte counts fit 64 bits; past that the product wraps, so they stay below \<open>2^54\<close> KB and \<open>2^34\<close> GB.  The node's own limits
  are the configured ones where these are positive and the detected ones otherwise, so they are never negative.
\<close>

theorem host_limits_bounds:
  assumes "detectHostLimits cpus sysinfo statfs = (c, m, d)" and "node_capacity cfg (c, m, d) = cap"
  shows "c = of_nat cpus \<and> 0 \<le> m \<and> m < 2 ^ 54 \<and> 0 \<le> d \<and> d < 2 ^ 34
    \<and> (case sysinfo of None \<Rightarrow> m = 0 | Some (t, u) \<Rightarrow> unat t * unat u < 2 ^ 64 \<longrightarrow> m * 1024 = of_nat (unat t * unat u))
    \<and> (case statfs of None \<Rightarrow> d = 0 | Some (b, k) \<Rightarrow> unat b * unat k < 2 ^ 64 \<longrightarrow> d * 2 ^ 30 = of_nat (unat b * unat k))
    \<and> (case Capacity_Limits cap of (lc, lm, ld) \<Rightarrow> 0 \<le> lc \<and> 0 \<le> lm \<and> 0 \<le> ld)"
proof -
  have lt: "unat x < 2 ^ 64" for x :: "64 word" using unsigned_less[of x] by simp
  have ex: "unat (x * y) = unat x * unat y" if "unat x * unat y < 2 ^ 64" for x y :: "64 word"
    using that by (simp add: unat_word_ariths)
  have m: "m = (case sysinfo of None \<Rightarrow> 0 | Some (t, u) \<Rightarrow> of_nat (unat (t * u)) / 1024)"
    and d: "d = (case statfs of None \<Rightarrow> 0 | Some (b, k) \<Rightarrow> of_nat (unat (b * k)) / 2 ^ 30)" and c: "c = of_nat cpus"
    using assms(1) by (auto simp: detectHostLimits_def)
  have mb: "0 \<le> m \<and> m < 2 ^ 54 \<and> (case sysinfo of None \<Rightarrow> m = 0 | Some (t, u) \<Rightarrow> unat t * unat u < 2 ^ 64 \<longrightarrow> m * 1024 = of_nat (unat t * unat u))"
  proof (cases sysinfo)
    case (Some p)
    obtain t u where p: "p = (t, u)" by (rule prod.exhaust)
    have "m = of_nat (unat (t * u)) / 1024" using Some p by (simp only: m option.case prod.case)
    with scaled(1)[OF lt[of "t * u"]] ex[of t u] show ?thesis unfolding Some p option.case prod.case by metis
  qed (simp add: m)
  have db: "0 \<le> d \<and> d < 2 ^ 34 \<and> (case statfs of None \<Rightarrow> d = 0 | Some (b, k) \<Rightarrow> unat b * unat k < 2 ^ 64 \<longrightarrow> d * 2 ^ 30 = of_nat (unat b * unat k))"
  proof (cases statfs)
    case (Some p)
    obtain b k where p: "p = (b, k)" by (rule prod.exhaust)
    have "d = of_nat (unat (b * k)) / 2 ^ 30" using Some p by (simp only: d option.case prod.case)
    with scaled(2)[OF lt[of "b * k"]] ex[of b k] show ?thesis unfolding Some p option.case prod.case by metis
  qed (simp add: d)
  have "case Capacity_Limits cap of (lc, lm, ld) \<Rightarrow> 0 \<le> lc \<and> 0 \<le> lm \<and> 0 \<le> ld"
    using assms(2) mb db c by (auto simp: node_capacity_def resolveCfgLimit_def Capacity_Limits_def NewCapacity_def Let_def)
  with mb db c show ?thesis by blast
qed

theorem host_limits_bounds_witness:
  "case detectHostLimits 4 (Some (2048, 1)) None of (c, m, d) \<Rightarrow> c = 4 \<and> m = 2 \<and> d = 0"
proof -
  obtain c m d where e: "detectHostLimits 4 (Some (2048, 1)) None = (c, m, d)" by (metis prod_cases3)
  from host_limits_bounds[OF e refl, of "Config_Default ''''"] have "c = of_nat 4 \<and> d = 0 \<and> m * 1024 = of_nat (unat (2048 :: 64 word) * unat (1 :: 64 word))" by simp
  then show ?thesis using e by (simp add: unat_numeral take_bit_eq_mod)
qed

end
