(* ===== verification/Boot.thy ===== *)
theory Boot
  imports NodeService Config Manager_Correct Ops
begin

text \<open>
  Bringing a node up: the gossip transport of the cluster (\<^verbatim>\<open>internal/membership/cluster.go\<close>: the memberlist
  configuration, the key ring, what the delegate hands to the transport), and the recovery that runs
  before the node serves (\<^verbatim>\<open>internal/node/node.go\<close>: records against the daemon, then the operations of the
  previous run).  Memberlist and SHA-256 are parameters.
\<close>

section \<open>The transport\<close>

text \<open>The fields of the memberlist configuration that the code sets; the key ring holds its primary key.\<close>

record MlConfig =
  ml_Name :: string
  ml_BindAddr :: string
  ml_BindPort :: int
  ml_AdvertisePort :: int
  ml_Keyring :: "string option"

definition bind_config :: "Config \<Rightarrow> string \<Rightarrow> MlConfig res" where
  "bind_config cfg nodeID =
     (case SplitHostPort (cf_GossipAddr cfg) of
        None \<Rightarrow> Inl (Wrapf ''invalid gossip_addr %q: %w'' [cf_GossipAddr cfg] (Errf ''address %s'' [cf_GossipAddr cfg]))
      | Some (host, portStr) \<Rightarrow>
          (case parse_int64 portStr of
             None \<Rightarrow> Inl (Wrapf ''invalid gossip_addr port %q: %w'' [portStr] (Errf ''strconv.Atoi: parsing %q'' [portStr]))
           | Some port \<Rightarrow>
               Inr \<lparr>ml_Name = nodeID, ml_BindAddr = (if host = '''' then ''0.0.0.0'' else host),
                    ml_BindPort = port, ml_AdvertisePort = port, ml_Keyring = None\<rparr>))"

text \<open>\<open>newKeyring\<close> builds a ring of one primary key.\<close>

definition key_config ::
  "(string \<Rightarrow> string) \<Rightarrow> (string \<Rightarrow> unit res) \<Rightarrow> Config \<Rightarrow> MlConfig \<Rightarrow> MlConfig res" where
  "key_config sha256 newKeyring cfg m =
     (if cf_ClusterSecret cfg = '''' then Inr m
      else case newKeyring (sha256 (cf_ClusterSecret cfg)) of
             Inl e \<Rightarrow> Inl (Wrapf ''memberlist keyring: %w'' [] e)
           | Inr _ \<Rightarrow> Inr (m\<lparr>ml_Keyring := Some (sha256 (cf_ClusterSecret cfg))\<rparr>))"

text \<open>The whole constructor: the state of the cluster, then the transport it runs on.\<close>

definition open_cluster ::
  "(string \<Rightarrow> string) \<Rightarrow> (string \<Rightarrow> unit res) \<Rightarrow> (MlConfig \<Rightarrow> unit res) \<Rightarrow> Config \<Rightarrow>
   'db Bolt \<Rightarrow> NodeState \<Rightarrow> Table \<Rightarrow> SwarmIdentity \<Rightarrow> (string \<times> string) option \<Rightarrow> 'db option \<Rightarrow> (MlConfig \<times> 'db Cluster) res" where
  "open_cluster sha256 newKeyring create cfg B loc tbl si file db =
     (let c = NewCluster B loc tbl si file db in
      case bind_config cfg (ns_NodeID loc) of
        Inl e \<Rightarrow> Inl e
      | Inr m \<Rightarrow>
          (case key_config sha256 newKeyring cfg m of
             Inl e \<Rightarrow> Inl e
           | Inr m \<Rightarrow>
               (case create m of
                  Inl e \<Rightarrow> Inl (Wrapf ''memberlist create: %w'' [] e)
                | Inr _ \<Rightarrow> Inr (m, c))))"

section \<open>What the transport is given\<close>

definition LocalNodeState :: "'db Cluster \<Rightarrow> NodeState" where
  "LocalNodeState c = cl_local c"

text \<open>\<open>marshal\<close> renders the fields of the meta tier, \<open>bulk\<close> the whole state; how a state looks on the wire is left open.\<close>

definition NodeMeta :: "(string \<times> string \<times> bool \<times> 64 word \<times> 32 word \<Rightarrow> string) \<Rightarrow> nat \<Rightarrow> 'db Cluster \<Rightarrow> string" where
  "NodeMeta marshal limit c =
     (let b = marshal (EncodeMeta (LocalNodeState c)) in
      if length b > limit then
        (let s = LocalNodeState c; s = s\<lparr>ns_OwnedSandboxIDs := []\<rparr> in marshal (EncodeMeta s))
      else b)"

definition LocalState :: "(NodeState \<Rightarrow> 'bytes) \<Rightarrow> 'db Cluster \<Rightarrow> 'bytes" where
  "LocalState bulk c = bulk (LocalNodeState c)"

text \<open>An exchange of push/pull: one side merges what the other renders.\<close>

definition push_pull ::
  "(NodeState \<Rightarrow> 'bytes) \<Rightarrow> ('bytes \<Rightarrow> NodeState res) \<Rightarrow> 'db Bolt \<Rightarrow> go_error option \<Rightarrow> 'db Cluster \<Rightarrow> 'db Cluster \<Rightarrow> 'db Cluster" where
  "push_pull bulk unbulk B werr p c = MergeRemoteState B werr (unbulk (LocalState bulk p)) c"

section \<open>Recovery at boot\<close>

text \<open>Both are best effort: an error is logged and the node goes on.\<close>

definition boot_recover :: "('db, 'be) Env \<Rightarrow> ('db, 'be) World \<Rightarrow> ('db, 'be) World" where
  "boot_recover E w =
     (let w = snd (Manager_Reconcile E w); w = snd (Ops_RecoverInterrupted E w) in w)"

section \<open>Buckets that are left alone\<close>

definition same_bucket :: "('db, 'be) Env \<Rightarrow> string \<Rightarrow> ('db, 'be) World \<Rightarrow> ('db, 'be) World \<Rightarrow> bool" where
  "same_bucket E bk w w' \<longleftrightarrow>
     b_has (en_bolt E) (w_db w') bk = b_has (en_bolt E) (w_db w) bk \<and> b_get (en_bolt E) (w_db w') bk = b_get (en_bolt E) (w_db w) bk"

lemma same_bucket_db [simp]: "w_db w' = w_db w \<Longrightarrow> same_bucket E bk w w'"
  by (simp add: same_bucket_def)

lemma same_bucket_trans: "same_bucket E bk w v \<Longrightarrow> same_bucket E bk v u \<Longrightarrow> same_bucket E bk w u"
  by (simp add: same_bucket_def)

lemma put_same_bucket:
  assumes "bolt_laws (en_bolt E)" "store_Put (en_bolt E) (w_db w) bk k v = Inr db" "bk' \<noteq> bk" "w_db w' = db"
  shows "same_bucket E bk' w w'"
proof -
  have "b_put (en_bolt E) (w_db w) bk k v = Inr db" using assms(2) by (auto simp: store_Put_def split: if_splits)
  from bolt_db.put_D[OF bolt_db.intro[OF assms(1)] this] assms(3,4) show ?thesis by (simp add: same_bucket_def)
qed

lemma mutate_same_bucket:
  assumes "bolt_laws (en_bolt E)" "bk \<noteq> ''sandboxes''"
  shows "same_bucket E bk w (snd (Manager_mutate E i f w))"
proof -
  have save: "same_bucket E bk w (snd (Manager_save E r w))" for r
    using put_same_bucket[OF assms(1) _ assms(2), of w]
    by (simp add: Manager_save_def now_def Let_def split: sum.splits)
  show ?thesis
  proof (cases "Manager_Get E i w")
    case (Inl e)
    then show ?thesis by (simp add: Manager_mutate_def)
  next
    case (Inr r)
    then show ?thesis using save[of "f r"] by (auto simp: Manager_mutate_def split: prod.splits sum.splits)
  qed
qed

lemma reconcile_loop_same_bucket:
  assumes "bolt_laws (en_bolt E)" "bk \<noteq> ''sandboxes''"
  shows "same_bucket E bk w (snd (reconcile_loop E alive recs w))"
proof (induction recs arbitrary: w)
  case Nil
  then show ?case by simp
next
  case (Cons r recs)
  obtain x v where m: "Manager_mutate E (r_ID r) (\<lambda>r. r\<lparr>r_Status := ''lost''\<rparr>) w = (x, v)" by fastforce
  have v: "same_bucket E bk w v" using mutate_same_bucket[OF assms, of w] m by (metis snd_conv)
  have t: "same_bucket E bk w (snd (reconcile_loop E alive recs u))" if "w_db u = w_db v" for u
    using same_bucket_trans[OF v] Cons.IH[of u] that by (simp add: same_bucket_def)
  show ?case
    using Cons.IH[of w] t[of v] t[of "publish E ''sandbox.lost'' (r_ID r) None v"] v m
    by (auto split: prod.splits sum.splits)
qed

lemma Reconcile_same_bucket:
  assumes "bolt_laws (en_bolt E)" "bk \<noteq> ''sandboxes''"
  shows "same_bucket E bk w (snd (Manager_Reconcile E w))"
proof (cases "be_List (en_backend E) (w_be w)")
  case (Pair x be)
  let ?w = "w\<lparr>w_be := be\<rparr>"
  have "same_bucket E bk ?w (snd (Reconcile_with E live ?w))" for live
  proof (cases "Manager_List E ?w")
    case (Inl e)
    then show ?thesis by (simp add: Reconcile_with_def)
  next
    case (Inr recs)
    then show ?thesis
      using reconcile_loop_same_bucket[OF assms, of ?w "map bs_Name live" recs]
      by (auto simp: Reconcile_with_def same_bucket_def Let_def split: prod.splits sum.splits)
  qed
  then have r: "same_bucket E bk w (snd (Reconcile_with E live ?w))" for live by (simp add: same_bucket_def)
  show ?thesis using r Pair by (cases x) (simp_all add: Manager_Reconcile_def)
qed

lemma sweep_same_bucket:
  assumes "bolt_laws (en_bolt E)" "bk \<noteq> ''operations''"
  shows "same_bucket E bk w (snd (sweep E ops w)) \<and> w_be (snd (sweep E ops w)) = w_be w \<and> w_cap (snd (sweep E ops w)) = w_cap w \<and> w_node (snd (sweep E ops w)) = w_node w"
proof (induction ops arbitrary: w)
  case Nil
  then show ?case by simp
next
  case (Cons x ops)
  obtain y v where p: "Ops_put E (interrupted x) w = (y, v)" by fastforce
  have "same_bucket E bk w v \<and> w_be v = w_be w \<and> w_cap v = w_cap w \<and> w_node v = w_node w"
    using p put_same_bucket[OF assms(1) _ assms(2), of w _ _ _ v]
    by (auto simp: Ops_put_def now_def Let_def split: sum.splits)
  with Cons.IH[of v] p show ?case by (cases y) (auto intro: same_bucket_trans)
qed

lemma Recover_same_bucket:
  assumes "bolt_laws (en_bolt E)" "bk \<noteq> ''operations''" "Ops_RecoverInterrupted E w = (r, w')"
  shows "same_bucket E bk w w' \<and> w_be w' = w_be w \<and> w_cap w' = w_cap w \<and> w_node w' = w_node w"
proof (cases "all_operations E w")
  case (Inl e)
  then show ?thesis using assms(3) by (simp add: Ops_RecoverInterrupted_def)
next
  case (Inr ops)
  let ?s = "filter (\<lambda>op. \<not> terminal op) ops"
  have "snd (sweep E ?s w) = w'" using assms(3) Inr
    by (auto simp: Ops_RecoverInterrupted_def Let_def split: prod.splits sum.splits)
  with sweep_same_bucket[OF assms(1,2), of w ?s] show ?thesis by simp
qed

lemma same_bucket_ops:
  assumes "same_bucket E ''operations'' w v" "same_bucket E ''idempotency'' w v"
  shows "ops_inv E v = ops_inv E w" "operations E v = operations E w" "idem E v = idem E w"
  using assms by (simp_all add: same_bucket_def ops_inv_def operations_def[abs_def] idem_def[abs_def])

lemma same_bucket_records:
  assumes "same_bucket E ''sandboxes'' w v"
  shows "records E v = records E w" "w_node v = w_node w \<Longrightarrow> mgr_inv E v = mgr_inv E w"
  using assms by (simp_all add: same_bucket_def mgr_inv_def records_def[abs_def])

lemma listed_once:
  assumes "manager_env E binv status" "mgr_inv E w" "mgr_inv E v" "records E v = records E w"
  shows "Manager_List E v = Manager_List E w"
proof -
  obtain xs where xs: "Manager_List E w = Inr xs" "set xs = ran (records E w)" "sorted_wrt (<) (map r_ID xs)"
    using manager_env.Manager_List_eq[OF assms(1,2)] by blast
  obtain ys where ys: "Manager_List E v = Inr ys" "set ys = ran (records E v)" "sorted_wrt (<) (map r_ID ys)"
    using manager_env.Manager_List_eq[OF assms(1,3)] by blast
  have "inj_on r_ID (set xs \<union> set ys)"
    using xs(2) ys(2) assms(4) records_ok[OF assms(2)] by (auto simp: inj_on_def ran_def)
  then have "ys = xs"
    using map_sorted_distinct_set_unique[of r_ID ys xs] xs ys assms(4) by (auto simp: strict_sorted_iff Un_commute)
  with xs ys show ?thesis by simp
qed

section \<open>Properties\<close>

text \<open>
  C37: Recovery at boot.  When both steps succeed, a record is marked lost exactly when the daemon no longer has
  its sandbox, and no record or sandbox appears or disappears; no operation of the previous run is left unfinished,
  the finished ones are as they were, and the unfinished ones say that the node restarted; the idempotency keys
  and the operator's flags survive; and the capacity base is the cost of the records that are left.
\<close>

theorem boot_recover_correct:
  assumes "manager_env E binv status" and "node_ok E binv w" and "ops_inv E w"
    and "fst (Manager_Reconcile E w) = Inr ()" and "fst (Ops_RecoverInterrupted E (snd (Manager_Reconcile E w))) = Inr n"
  shows "node_ok E binv (boot_recover E w) \<and> ops_inv E (boot_recover E w)
    \<and> dom (records E (boot_recover E w)) = dom (records E w) \<and> status (w_be (boot_recover E w)) = status (w_be w)
    \<and> (\<forall>k x. records E w k = Some x \<longrightarrow> (\<exists>x'. records E (boot_recover E w) k = Some x' \<and>
         (if r_Status x \<noteq> ''lost'' \<and> status (w_be w) k = None
          then \<exists>t. x' = x\<lparr>r_Status := ''lost'', r_UpdatedAt := t\<rparr> else x' = x)))
    \<and> (\<exists>recs. Manager_List E (boot_recover E w) = Inr recs \<and> base_of (w_cap (boot_recover E w)) = costSum recs)
    \<and> (\<forall>k. case operations E w k of
          None \<Rightarrow> operations E (boot_recover E w) k = None
        | Some x \<Rightarrow> if terminal x then operations E (boot_recover E w) k = Some x
                   else \<exists>t. operations E (boot_recover E w) k = Some ((interrupted x)\<lparr>o_UpdatedAt := t\<rparr>))
    \<and> idem E (boot_recover E w) = idem E w
    \<and> loadNodeFlags (en_bolt E) (w_db (boot_recover E w)) = loadNodeFlags (en_bolt E) (w_db w)"
proof -
  have B: "bolt_laws (en_bolt E)" using assms(1) by (simp add: manager_env_def)
  obtain v where v: "Manager_Reconcile E w = (Inr (), v)" using assms(4) by (metis prod.collapse)
  obtain u where u: "Ops_RecoverInterrupted E v = (Inr n, u)" using assms(5) v by (metis prod.collapse snd_conv)
  have bu: "boot_recover E w = u" by (simp add: boot_recover_def v u)
  have nv: "node_ok E binv v" using manager_env.mgr_exec_ok[OF assms(1,2), of DoReconcile] v by simp
  have "mgr_inv E w" "binv (w_be w)" using assms(2) by (simp_all add: node_ok_def)
  note mv = manager_env.Reconcile_cases[OF assms(1) this v]
  have sv: "same_bucket E bk w v" if "bk \<noteq> ''sandboxes''" for bk using Reconcile_same_bucket[OF B that, of w] v by simp
  have ov: "ops_inv E v" "operations E v = operations E w" "idem E v = idem E w"
    using same_bucket_ops[OF sv[of "''operations''"] sv[of "''idempotency''"]] assms(3) by simp_all
  note ru = ops_env.Recover_ok[OF ops_env.intro[OF B] ov(1) u]
  have su: "same_bucket E bk v u" "w_be u = w_be v" "w_cap u = w_cap v" "w_node u = w_node v" if "bk \<noteq> ''operations''" for bk
    using Recover_same_bucket[OF B that u] by simp_all
  have ms: "records E u = records E v" "mgr_inv E u"
    using same_bucket_records[OF su(1)] su(4)[of "''node''"] nv by (simp_all add: node_ok_def)
  have ls: "Manager_List E u = Manager_List E v" using listed_once[OF assms(1) _ ms(2,1)] nv by (simp add: node_ok_def)
  have fl: "loadNodeFlags (en_bolt E) (w_db u) = loadNodeFlags (en_bolt E) (w_db w)"
    using sv[of "''node''"] su(1)[of "''node''"] by (simp add: same_bucket_def loadNodeFlags_def store_Get_def)
  have "node_ok E binv u" using nv ms(2) su(2,3)[of "''node''"] by (simp add: node_ok_def)
  then show ?thesis
    using mv ru fl ms ls su(2,3)[of "''node''"] unfolding bu ov by simp
qed

lemma Ops_create_frame: "w_be (snd (Ops_create E ty key w)) = w_be w \<and> w_cap (snd (Ops_create E ty key w)) = w_cap w"
  by (auto simp: Ops_create_def new_op_id_def now_def Ops_put_def Let_def split: prod.splits sum.splits)

lemma Ops_Start_frame: "w_be (snd (Ops_Start E ty key w)) = w_be w" "w_cap (snd (Ops_Start E ty key w)) = w_cap w"
  by (simp_all add: Ops_Start_def Ops_create_frame split: sum.splits option.splits)

lemma mem_started_ok: "ops_inv mem_env (snd mem_started) \<and> node_ok mem_env fake_inv (snd mem_started)"
proof -
  obtain op w1 where m: "mem_started = (Inr (op, False), w1)" using mem_started by blast
  have "ops_inv mem_env w1"
    using Ops_Start_existing ops_env.create_cases[OF ops_env.intro[OF mem_bolt_env] mem_ops_inv]
      m by (auto simp: mem_started_def Ops_Start_def idem_target_def split: sum.splits option.splits blob.splits)
  moreover have "b_has mem_bolt (w_db (snd mem_started)) ''sandboxes''" "mem_kvs (w_db (snd mem_started)) ''sandboxes'' = []"
    by code_simp+
  then have "mgr_inv mem_env (snd mem_started)" by (simp add: mgr_inv_def mem_env_def mem_bolt_def)
  moreover have "w_be (snd mem_started) = w_be mem_world" "w_cap (snd mem_started) = w_cap mem_world"
    unfolding mem_started_def by (rule Ops_Start_frame)+
  ultimately show ?thesis using mem_world_ok unfolding m snd_conv node_ok_def by metis
qed

theorem boot_recover_correct_witness:
  "\<exists>x. operations mem_env (boot_recover mem_env (snd mem_started)) ''n1.00'' = Some x \<and> terminal x"
proof -
  let ?w = "snd mem_started"
  have f: "fst (Manager_Reconcile mem_env ?w) = Inr ()"
    "fst (Ops_RecoverInterrupted mem_env (snd (Manager_Reconcile mem_env ?w))) = Inr 1" by code_simp+
  have o: "map_option terminal (operations mem_env ?w ''n1.00'') = Some False" by code_simp
  then obtain x where x: "operations mem_env ?w ''n1.00'' = Some x" "\<not> terminal x" by auto
  from boot_recover_correct[OF mem_manager_env mem_started_ok[THEN conjunct2] mem_started_ok[THEN conjunct1] f]
  have "case operations mem_env ?w ''n1.00'' of
          None \<Rightarrow> operations mem_env (boot_recover mem_env ?w) ''n1.00'' = None
        | Some x \<Rightarrow> if terminal x then operations mem_env (boot_recover mem_env ?w) ''n1.00'' = Some x
                   else \<exists>t. operations mem_env (boot_recover mem_env ?w) ''n1.00'' = Some ((interrupted x)\<lparr>o_UpdatedAt := t\<rparr>)"
    by (elim conjE allE)
  with x show ?thesis by (auto simp: terminal_def interrupted_def)
qed

text \<open>
  Opening the cluster.  With a key ring that takes 32-byte keys, the constructor succeeds exactly when the gossip address splits, its
  port is a number and the transport starts; it binds to every interface when the address has no host, and it encrypts with the
  hash of the cluster secret exactly when there is one.
\<close>

theorem open_cluster_exact:
  assumes "\<And>k. length k = 32 \<Longrightarrow> newKeyring k = Inr ()" and "\<And>s. length (sha256 s) = 32"
  shows "open_cluster sha256 newKeyring create cfg B loc tbl si file db = Inr (m, c) \<longleftrightarrow>
    c = NewCluster B loc tbl si file db \<and> create m = Inr () \<and>
    (\<exists>host portStr port. SplitHostPort (cf_GossipAddr cfg) = Some (host, portStr) \<and> parse_int64 portStr = Some port \<and>
       m = \<lparr>ml_Name = ns_NodeID loc, ml_BindAddr = (if host = '''' then ''0.0.0.0'' else host), ml_BindPort = port, ml_AdvertisePort = port,
            ml_Keyring = (if cf_ClusterSecret cfg = '''' then None else Some (sha256 (cf_ClusterSecret cfg)))\<rparr>)"
  using assms by (auto simp: open_cluster_def bind_config_def key_config_def Let_def split: option.splits sum.splits prod.splits)

definition gossip_cfg :: Config where
  "gossip_cfg = (Config_Default ''n1'')\<lparr>cf_ClusterSecret := ''s''\<rparr>"

definition hash32 :: "string \<Rightarrow> string" where
  "hash32 s = take 32 (s @ replicate 32 CHR ''0'')"

theorem open_cluster_exact_witness:
  "\<exists>m c. open_cluster hash32 (\<lambda>k. if length k = 32 then Inr () else Inl ErrNack) (\<lambda>_. Inr ()) gossip_cfg mem_bolt NodeState_zero
       (NewTable ''n1'') \<lparr>si_SwarmID = ''s'', si_SwarmName = '''', si_Mode = ModeRejoin\<rparr> None (None :: mem_db option) = Inr (m, c)
     \<and> ml_BindAddr m = ''0.0.0.0'' \<and> ml_BindPort m = 7946 \<and> ml_Keyring m \<noteq> None"
proof -
  have "SplitHostPort (cf_GossipAddr gossip_cfg) = Some ('''', ''7946'')" "parse_int64 ''7946'' = Some 7946"
    "cf_ClusterSecret gossip_cfg = ''s''" by code_simp+
  then show ?thesis
    by (subst open_cluster_exact) (auto simp: hash32_def)
qed

text \<open>
  Trimming never helps.  What the meta tier is given is the encoding of the routing fields, whatever the limit: the
  ids that are cleared when the encoding is too long are not part of it.
\<close>

theorem NodeMeta_trim_useless: "NodeMeta marshal limit c = marshal (EncodeMeta (cl_local c))"
  by (simp add: NodeMeta_def LocalNodeState_def EncodeMeta_def Let_def)

lemma NewCluster_frame:
  "ns_NodeID (cl_local (NewCluster B loc tbl si file db)) = ns_NodeID loc" "ns_SwarmID (cl_local (NewCluster B loc tbl si file db)) = ns_SwarmID loc"
  "ns_ProtocolVersion (cl_local (NewCluster B loc tbl si file db)) = ns_ProtocolVersion loc"
  "ns_Cordoned (cl_local (NewCluster B loc tbl si file db)) = ns_Cordoned loc"
  by (simp_all add: NewCluster_def loadRevoked_def Let_def split: option.splits)

lemma NewCluster_advertises:
  "ns_Revoked loc = [] \<Longrightarrow> set (ns_Revoked (cl_local (NewCluster B loc tbl si file db))) = revoked_set (NewCluster B loc tbl si file db)"
  by (simp add: NewCluster_def loadRevoked_def Let_def revoked_set_def sortedKeys_def split: option.splits)

text \<open>
  A restart tells the swarm.  After a restart the cluster has revoked exactly the ids in the store, and the next exchange with a
  peer of the same swarm gives the peer the persisted cordon and every one of these revocations, beside those it had.
\<close>

theorem restart_tells_swarm:
  assumes "bolt_laws (en_bolt E)" and "b_has (en_bolt E) (w_db w) ''revoked''"
    and "open_cluster sha256 newKeyring create cfg (en_bolt E) loc tbl si file (Some (w_db w)) = Inr (m, c)"
    and "ns_Cordoned loc = False" and "ns_Revoked loc = []" and "ns_ProtocolVersion loc = ProtocolVersion"
    and "GuardJoin (si_SwarmID (cl_si p)) (ns_SwarmID loc) = Inr ()" and "\<And>s. unbulk (bulk s) = Inr s"
  shows "\<exists>c'. sv_cluster (boot_NodeService E nodeID nodeName version (Some c) w) = Some c'
    \<and> (\<forall>n. IsRevoked c' n \<longleftrightarrow> b_get (en_bolt E) (w_db w) ''revoked'' n \<noteq> None)
    \<and> (\<exists>s. map_of (cl_peerStates (push_pull bulk unbulk B werr c' p)) (ns_NodeID loc) = Some s
         \<and> ns_Cordoned s = nf_Cordoned (loadNodeFlags (en_bolt E) (w_db w)))
    \<and> revoked_set (push_pull bulk unbulk B werr c' p)
        = revoked_set p \<union> ({n. b_get (en_bolt E) (w_db w) ''revoked'' n \<noteq> None} - {''''})"
proof -
  let ?b = "nf_Cordoned (loadNodeFlags (en_bolt E) (w_db w))"
  define c' where "c' = (if ?b then SetCordoned True c else c)"
  have c: "c = NewCluster (en_bolt E) loc tbl si file (Some (w_db w))"
    using assms(3) by (auto simp: open_cluster_def Let_def split: sum.splits)
  have sv: "sv_cluster (boot_NodeService E nodeID nodeName version (Some c) w) = Some c'"
    by (simp add: boot_NodeService_def c'_def Let_def)
  have cl: "cl_revoked c' = cl_revoked c" "ns_Cordoned (cl_local c') = ?b" "ns_NodeID (cl_local c') = ns_NodeID loc"
    "ns_SwarmID (cl_local c') = ns_SwarmID loc" "ns_ProtocolVersion (cl_local c') = ns_ProtocolVersion loc"
    "ns_Revoked (cl_local c') = ns_Revoked (cl_local c)"
    using NewCluster_frame[where B = "en_bolt E" and loc = loc and tbl = tbl and si = si and db = "Some (w_db w)"] assms(4)
    by (simp_all add: c'_def SetCordoned_def bump_def c)
  have rv: "revoked_set c = {n. b_get (en_bolt E) (w_db w) ''revoked'' n \<noteq> None}"
    unfolding c by (rule loadRevoked_set[OF assms(1,2)])
  have ad: "set (ns_Revoked (cl_local c')) = revoked_set c"
    using NewCluster_advertises[OF assms(5), where B = "en_bolt E" and tbl = tbl and si = si and db = "Some (w_db w)"] cl(6) c by simp
  have pp: "push_pull bulk unbulk B werr c' p = merge_accepted B werr (cl_local c') p"
    using assms(6,7,8) cl by (simp add: push_pull_def LocalState_def LocalNodeState_def MergeRemoteState_def)
  have "\<forall>n. IsRevoked c' n \<longleftrightarrow> b_get (en_bolt E) (w_db w) ''revoked'' n \<noteq> None"
    using rv cl(1) by (auto simp: IsRevoked_def revoked_set_def)
  moreover have "map_of (cl_peerStates (push_pull bulk unbulk B werr c' p)) (ns_NodeID loc) = Some (cl_local c')"
    using merge_accepted_routes[of B werr "cl_local c'" p] cl(3) pp by simp
  moreover have "revoked_set (push_pull bulk unbulk B werr c' p) = revoked_set p \<union> (revoked_set c - {''''})"
    unfolding pp revocations.view_merge ad ..
  ultimately show ?thesis using sv cl(2) rv by auto
qed

definition cordoned_world :: "(mem_db, Fake) World" where
  "cordoned_world = mem_world\<lparr>w_db := saveNodeFlags mem_bolt \<lparr>nf_Cordoned = True, nf_Draining = False\<rparr>
     (case store_Put mem_bolt mem_open ''revoked'' ''bad'' (Bytes [char_of (1 :: nat)]) of Inl e \<Rightarrow> mem_open | Inr db \<Rightarrow> db)\<rparr>"

theorem restart_tells_swarm_witness:
  "\<exists>c'. sv_cluster (boot_NodeService mem_env ''n1'' '''' '''' (Some (NewCluster mem_bolt (NodeState_zero\<lparr>ns_NodeID := ''n1'', ns_ProtocolVersion := 1\<rparr>)
            (NewTable ''n1'') \<lparr>si_SwarmID = ''s'', si_SwarmName = '''', si_Mode = ModeRejoin\<rparr> None (Some (w_db cordoned_world)))) cordoned_world) = Some c'
     \<and> IsRevoked c' ''bad''
     \<and> (\<exists>s. map_of (cl_peerStates (push_pull (\<lambda>s. s) Inr mem_bolt None c' (example_cluster ''n2''))) ''n1'' = Some s \<and> ns_Cordoned s)
     \<and> ''bad'' \<in> revoked_set (push_pull (\<lambda>s. s) Inr mem_bolt None c' (example_cluster ''n2''))"
proof -
  let ?loc = "NodeState_zero\<lparr>ns_NodeID := ''n1'', ns_ProtocolVersion := 1\<rparr>"
  let ?si = "\<lparr>si_SwarmID = ''s'', si_SwarmName = '''', si_Mode = ModeRejoin\<rparr>"
  let ?c = "NewCluster mem_bolt ?loc (NewTable ''n1'') ?si None (Some (w_db cordoned_world))"
  have E: "en_bolt mem_env = mem_bolt" by (simp add: mem_env_def)
  have f: "b_has mem_bolt (w_db cordoned_world) ''revoked''" "b_get mem_bolt (w_db cordoned_world) ''revoked'' ''bad'' \<noteq> None"
    "nf_Cordoned (loadNodeFlags mem_bolt (w_db cordoned_world))" by code_simp+
  have "SplitHostPort (cf_GossipAddr gossip_cfg) = Some ('''', ''7946'')" "parse_int64 ''7946'' = Some 7946" by code_simp+
  then have "\<exists>m. open_cluster hash32 (\<lambda>_. Inr ()) (\<lambda>_. Inr ()) gossip_cfg mem_bolt ?loc (NewTable ''n1'') ?si None (Some (w_db cordoned_world)) = Inr (m, ?c)"
    by (simp add: open_cluster_def bind_config_def key_config_def Let_def)
  then obtain m where o: "open_cluster hash32 (\<lambda>_. Inr ()) (\<lambda>_. Inr ()) gossip_cfg (en_bolt mem_env) ?loc (NewTable ''n1'') ?si None (Some (w_db cordoned_world)) = Inr (m, ?c)"
    unfolding E by blast
  have g: "GuardJoin (si_SwarmID (cl_si (example_cluster ''n2''))) (ns_SwarmID ?loc) = Inr ()"
    by (simp add: GuardJoin_def NodeState_zero_def)
  from restart_tells_swarm[OF mem_bolt_env f(1)[folded E] o _ _ _ g, of Inr "\<lambda>s. s" "''n1''" "''''" "''''" mem_bolt None] f[folded E]
  show ?thesis by (auto simp: NodeState_zero_def ProtocolVersion_def)
qed

end
