(* ===== verification/Spec2Isabelle.thy ===== *)
theory Spec2Isabelle
  imports ImageRef Scheduler PublishWork NodeLife Boot
begin

text \<open>
  A verification development for \<^verbatim>\<open>sbx-swarm-node\<close>, the node daemon of a swarm that runs coding agents in
  sandboxes.  A node keeps the records of its sandboxes in a local store, drives a sandbox backend,
  gossips its state to its peers, and serves a gRPC and REST interface; any node can take a request,
  and a create is placed on the node the scheduler chooses.

  \<^bold>\<open>The parts and their theories\<close> (paths below \<^verbatim>\<open>src/internal\<close>)

  \<^item> \<^verbatim>\<open>GoLib\<close>, \<^verbatim>\<open>Prelude\<close>, \<^verbatim>\<open>Types\<close>: the pieces of Go's library the source uses (strings, paths, integers and
    their limits, times with a saturating difference, base64, sorting) and the data of
    \<^verbatim>\<open>sandbox/backend.go\<close>, with the backend interface as a record of functions on the backend's state.
    Errors are values of \<open>go_error\<close>: a sentinel, a formatted error, a wrapped one, a gRPC status.
  \<^item> \<^verbatim>\<open>Store\<close>: \<^verbatim>\<open>store/kv.go\<close>, \<^verbatim>\<open>store/store.go\<close>.  bbolt is a parameter with laws (locale \<open>bolt_db\<close>), provided by an
    in-memory database.  Opening migrates and stamps the schema.
  \<^item> \<^verbatim>\<open>Capacity\<close>: the reservation ledger of \<^verbatim>\<open>sandbox/capacity.go\<close>; never exceeded, exact, released once.
  \<^item> \<^verbatim>\<open>Events\<close>: the bus, replay and the merging of streams (\<^verbatim>\<open>events\<close>, \<^verbatim>\<open>apiserver/watchevents.go\<close>, \<^verbatim>\<open>sse.go\<close>).
  \<^item> \<^verbatim>\<open>Routing\<close>: \<^verbatim>\<open>ids\<close> and \<^verbatim>\<open>routing\<close>.
  \<^item> \<^verbatim>\<open>Fake\<close>: the in-memory backend of \<^verbatim>\<open>sandbox/fake.go\<close>, which provides the backend's contract (locale
    \<open>backend_contract\<close>).
  \<^item> \<^verbatim>\<open>World\<close>, \<^verbatim>\<open>Manager\<close>, \<^verbatim>\<open>Manager_Correct\<close>: the state of a node and \<^verbatim>\<open>sandbox/manager.go\<close>.  The manager is verified
    once for every store and backend that keep their contracts (locale \<open>manager_env\<close>).
  \<^item> \<^verbatim>\<open>Ops\<close>: asynchronous operations with idempotency keys (\<^verbatim>\<open>ops/ops.go\<close>).  \<^verbatim>\<open>AuditLog\<close>: \<^verbatim>\<open>audit\<close> and
    \<^verbatim>\<open>apiserver/policyservice.go\<close>.
  \<^item> \<^verbatim>\<open>Membership\<close>: gossiped state, adoption and revocation (\<^verbatim>\<open>membership\<close>).  \<^verbatim>\<open>Scheduler\<close>: filter, score and order of
    \<^verbatim>\<open>scheduler\<close>, and the coordinator's retries.  \<^verbatim>\<open>ImageRef\<close>: \<^verbatim>\<open>imageref\<close>.
  \<^item> \<^verbatim>\<open>NodeService\<close>: \<^verbatim>\<open>apiserver/nodeservice.go\<close> with the persisted flags.  \<^verbatim>\<open>Git\<close>: \<^verbatim>\<open>git\<close>, the step pipelines and the
    workspace lock.  \<^verbatim>\<open>Config\<close>: \<^verbatim>\<open>config\<close> and its helpers in \<^verbatim>\<open>node\<close>.
  \<^item> \<^verbatim>\<open>Provision\<close>: owner provisioning, the node-to-node call with its de-duplication, candidates and placement
    over a swarm (\<^verbatim>\<open>apiserver/provision.go\<close>, \<^verbatim>\<open>provision_git.go\<close>, parts of \<^verbatim>\<open>node/node.go\<close>).
  \<^item> \<^verbatim>\<open>Auth\<close>: identity, session tokens, node tokens, the HTTP middleware and the gRPC interceptors (\<^verbatim>\<open>identity\<close>,
    \<^verbatim>\<open>auth\<close>, \<^verbatim>\<open>nodekey\<close>, \<^verbatim>\<open>apiserver/authn.go\<close>, \<^verbatim>\<open>authz.go\<close>, parts of \<^verbatim>\<open>server.go\<close>).
  \<^item> \<^verbatim>\<open>Files\<close>: chunked transfers over command execution and their HTTP handlers (\<^verbatim>\<open>apiserver/filescopy.go\<close>,
    \<^verbatim>\<open>files.go\<close>).
  \<^item> \<^verbatim>\<open>SandboxService\<close>, \<^verbatim>\<open>SandboxService_Correct\<close>: \<^verbatim>\<open>apiserver/sandboxservice.go\<close>: creation with idempotency keys,
    lifecycle, publishing, the idle reaper, the drain sweep and agent runs.
  \<^item> \<^verbatim>\<open>GoURL\<close>, \<^verbatim>\<open>GitProvider\<close>, \<^verbatim>\<open>GitProvider_Correct\<close>: URLs and JSON values, and \<^verbatim>\<open>gitprovider\<close>: GitHub, GitLab and Gerrit as
    places to deliver work to and to read reviews from.  The services are a parameter with a contract (locale \<open>forge_service\<close>).
    \<^verbatim>\<open>PublishWork\<close>: the handlers above them (\<^verbatim>\<open>apiserver/publish_work.go\<close>, \<^verbatim>\<open>review.go\<close>).
  \<^item> \<^verbatim>\<open>Peer\<close>: certificates and their pinning (\<^verbatim>\<open>tlsutil\<close>) and the pool of connections to peers (\<^verbatim>\<open>peer\<close>).  \<^verbatim>\<open>Forward\<close>: how a call
    or a request reaches the owner of its sandbox (\<^verbatim>\<open>apiserver/forward.go\<close>, \<^verbatim>\<open>forward_http.go\<close>), composed with authentication
    over a network of nodes.
  \<^item> \<^verbatim>\<open>Streams\<close>: the event stream of \<^verbatim>\<open>apiserver/sse.go\<close> with its frames and the gRPC watch.  \<^verbatim>\<open>Observe\<close>: the collectors of \<^verbatim>\<open>obsd\<close>, the
    observation handlers and the terminal's bridge.  \<^verbatim>\<open>Server\<close>: the tree of handlers of \<^verbatim>\<open>apiserver/server.go\<close>.
  \<^item> \<^verbatim>\<open>SdkBackend\<close>, \<^verbatim>\<open>SdkBackend_Correct\<close>: the backend over the sandbox daemon (\<^verbatim>\<open>sandbox/sdkbackend.go\<close>, \<^verbatim>\<open>kits.go\<close>).  The SDK is a
    record of calls; what the daemon promises is the locale \<open>sdk_daemon\<close>, which gives \<open>backend_contract\<close>.
  \<^item> \<^verbatim>\<open>NodeMain\<close>, \<^verbatim>\<open>NodeLife\<close>: the periodic tick with its metrics and its edge-triggered log, what a node says of itself, and building,
    starting and stopping it (\<^verbatim>\<open>node/node.go\<close>, \<^verbatim>\<open>obs\<close>, \<^verbatim>\<open>cmd/sbx-swarm-node\<close>).
  \<^item> \<^verbatim>\<open>Boot\<close>: the gossip transport a cluster opens and what it gives to it (\<^verbatim>\<open>membership/cluster.go\<close>), and the recovery
    of records and operations at boot (\<^verbatim>\<open>node/node.go\<close>).

  \<^bold>\<open>State and steps\<close>

  A node's state is the record \<open>World\<close> (store, backend, generator of ids, bus, owned ids, capacity, metrics,
  a counter that drives the clock), beside it the git host with its locks.  An operation is a function
  that returns its result and the new state, one step each; handlers that answer at once and go on
  working return the work as a second step.  Interleavings are sequences of steps: where a race
  matters (reconciliation against creation, two admissions) the pieces between lock regions are
  definitions of their own.  The laws of what is not in this repository (bbolt, the sandbox daemon,
  Ed25519 and HMAC, the shell in a sandbox, git) are named definitions or locale assumptions, each with
  a concrete instance.

  \<^bold>\<open>What the lemmas show\<close>

  Invariants that every operation keeps (store and capacity of a node, gossip state, revocation, audit
  log); exact behaviour of each operation on every branch, errors included; that capacity is never
  exceeded; that retried placements create at most once; that keyed requests create once; that the
  idle reaper, the drain sweep, downloads and agent runs end; that uploads refine an atomic write; that
  nothing reaches a handler without the credentials its method needs, over gRPC, over HTTP and from peer to
  peer; that a call runs on the owner of its sandbox; that the daemon's backend refines the backend contract, mounts
  read-only workspaces read-only and keeps secrets out of errors; that a resumed stream is complete; that
  republishing updates in place; that building a node leaks nothing, and that booting one recovers its records and
  operations and tells the swarm what it had persisted; and round trips (identifiers,
  sessions, flags, revocations, quoting, transfers).  Findings are theorems as well: where the code does
  not do what it says, the theorem states what it does.

  \<^bold>\<open>Bounds and fuel\<close>

  Loops of the source are structural recursions, or recursions with a measure (a download's remaining
  bytes, a path's remaining text).  The retry loops carry their number of tries.  Waiting for a lock
  that nobody releases, and polling an agent that never ends, are \<open>None\<close> (\<^verbatim>\<open>partial_function\<close> for the poll
  loop), and that these return is proved.  64-bit counters and the big-endian sequence numbers are
  words; times and sizes are integers with the wrap or saturation of the source written out where
  it can be reached.  Floating-point quantities are exact rationals.

  \<^bold>\<open>Not modelled\<close>

  Generated protobuf and gateway code; the wire (TLS records, HTTP/2, WebSocket framing) and the gossip
  library, which call the modelled code with decoded values; the rendering of metrics and log
  lines; the web console; the calls in \<^verbatim>\<open>node.New\<close> that only connect components to each other.  Cancellation
  and time-outs are results of the calls they end.  Goroutine scheduling is modelled only as the order of
  steps.  \<^verbatim>\<open>sort.Slice\<close> is modelled as a stable sort.
\<close>

end
